(* ===== verification/Prelude.thy ===== *)
theory Prelude
  imports Complex_Main "HOL-Library.Sublist"
begin

text \<open>
  What every component of the development shares:
  the exceptions the benchmark scripts can meet, a result-and-history monad for
  effectful Python code, the \<^verbatim>\<open>try\<close> forms the scripts use, and the generic
  lemmas on these that carry the component proofs.

  A run of a script interacts with the outside world (processes, files, the clock,
  a database session). The state of such a run is the \<^emph>\<open>history\<close>: the list of the
  interactions so far, oldest first. What the world answers to an interaction is a
  function of the whole history before it, so any behaviour of the outside is covered.
  The type of the interactions (\<open>'ev\<close>) is left open here; each family of scripts
  fixes its own.
\<close>

named_theorems prog_simps \<open>unfolding rules of the result-and-history monad\<close>
named_theorems silent_intros \<open>code that an observer sees nothing of\<close>
named_theorems trace_simps \<open>what an interaction adds to the observers of a history\<close>

section \<open>Exceptions\<close>

text \<open>
  The exceptions raised by the calls the scripts make. \<^verbatim>\<open>except Exception\<close> does not
  catch \<^verbatim>\<open>KeyboardInterrupt\<close>, which derives from \<^verbatim>\<open>BaseException\<close> only.
\<close>

datatype exc =
    KeyboardInterrupt
  | ValueError
  | TypeError
  | IndexError
  | KeyError
  | AttributeError
  | ZeroDivisionError
  | AssertionError
  | FileNotFoundError
  | OSError
  | TimeoutExpired
  | StructError
  | BrokenBarrierError
  | InternalError string  \<comment> \<open>\<^verbatim>\<open>psycopg.errors.InternalError_\<close> with its message\<close>
  | DatabaseError string  \<comment> \<open>any other error psycopg raises\<close>
  | RuntimeError string
  | JSONDecodeError       \<comment> \<open>a subclass of \<^verbatim>\<open>ValueError\<close>\<close>

definition is_Exception :: "exc \<Rightarrow> bool" where
  "is_Exception e \<longleftrightarrow> e \<noteq> KeyboardInterrupt"

section \<open>Effectful code: results and histories\<close>

type_synonym ('ev, 'a) prog = "'ev list \<Rightarrow> (exc + 'a) \<times> 'ev list"

definition ret :: "'a \<Rightarrow> ('ev, 'a) prog" where
  "ret x h = (Inr x, h)"

definition raise :: "exc \<Rightarrow> ('ev, 'a) prog" where
  "raise e h = (Inl e, h)"

definition bind :: "('ev, 'a) prog \<Rightarrow> ('a \<Rightarrow> ('ev, 'b) prog) \<Rightarrow> ('ev, 'b) prog" where
  "bind m f h = (case m h of (Inl e, h') \<Rightarrow> (Inl e, h') | (Inr x, h') \<Rightarrow> f x h')"

definition andthen :: "('ev, 'a) prog \<Rightarrow> ('ev, 'b) prog \<Rightarrow> ('ev, 'b) prog" where
  "andthen m k = bind m (\<lambda>_. k)"

text \<open>An interaction whose answer is computed from the history before it.\<close>

definition act :: "('ev list \<Rightarrow> exc + 'a) \<Rightarrow> 'ev \<Rightarrow> ('ev, 'a) prog" where
  "act answer ev h = (answer h, h @ [ev])"

text \<open>\<^verbatim>\<open>try: m except Exception: k\<close>\<close>

definition try_except :: "('ev, 'a) prog \<Rightarrow> ('ev, 'a) prog \<Rightarrow> ('ev, 'a) prog" where
  "try_except m k h =
     (case m h of
        (Inl e, h') \<Rightarrow> if is_Exception e then k h' else (Inl e, h')
      | (Inr x, h') \<Rightarrow> (Inr x, h'))"

text \<open>\<^verbatim>\<open>try: m finally: k\<close>: \<open>k\<close> always runs; an exception it raises replaces the result.\<close>

definition try_finally :: "('ev, 'a) prog \<Rightarrow> ('ev, unit) prog \<Rightarrow> ('ev, 'a) prog" where
  "try_finally m k h =
     (case m h of (r, h') \<Rightarrow>
        (case k h' of (Inl e, h'') \<Rightarrow> (Inl e, h'') | (Inr _, h'') \<Rightarrow> (r, h'')))"

text \<open>A pure computation that may raise.\<close>

definition lift :: "exc + 'a \<Rightarrow> ('ev, 'a) prog" where
  "lift r h = (r, h)"

text \<open>\<^verbatim>\<open>for x in xs: f(x)\<close>, stopping at the first exception.\<close>

fun for_each :: "('x \<Rightarrow> ('ev, unit) prog) \<Rightarrow> 'x list \<Rightarrow> ('ev, unit) prog" where
  "for_each f [] = ret ()"
| "for_each f (x # xs) = andthen (f x) (for_each f xs)"

lemma bind_Inl [prog_simps]: "m h = (Inl e, h') \<Longrightarrow> bind m f h = (Inl e, h')"
  by (simp add: bind_def)

lemma bind_Inr [prog_simps]: "m h = (Inr x, h') \<Longrightarrow> bind m f h = f x h'"
  by (simp add: bind_def)

lemma bind_ret [simp]: "bind (ret x) f = f x"
  by (simp add: bind_def ret_def fun_eq_iff)

lemma bind_raise [simp]: "bind (raise e) f = raise e"
  by (simp add: bind_def raise_def fun_eq_iff)

lemma bind_eq_Inr:
  "bind m f h = (Inr y, h') \<longleftrightarrow> (\<exists>x h1. m h = (Inr x, h1) \<and> f x h1 = (Inr y, h'))"
  by (auto simp: bind_def split: prod.splits sum.splits)

lemma andthen_eq_Inr:
  "andthen m k h = (Inr y, h') \<longleftrightarrow> (\<exists>x h1. m h = (Inr x, h1) \<and> k h1 = (Inr y, h'))"
  by (simp add: andthen_def bind_eq_Inr)

lemma try_finally_eq_Inr:
  "try_finally m k h = (Inr x, h') \<longleftrightarrow> (\<exists>h1 u. m h = (Inr x, h1) \<and> k h1 = (Inr u, h'))"
  by (auto simp: try_finally_def split: prod.splits sum.splits)

lemma ret_eq [simp]: "ret x h = (r, h') \<longleftrightarrow> r = Inr x \<and> h' = h"
  by (auto simp: ret_def)

lemma raise_eq [simp]: "raise e h = (r, h') \<longleftrightarrow> r = Inl e \<and> h' = h"
  by (auto simp: raise_def)

lemma act_eq [simp]: "act answer ev h = (r, h') \<longleftrightarrow> answer h = r \<and> h' = h @ [ev]"
  by (auto simp: act_def)

lemma lift_eq [simp]: "lift r h = (r', h') \<longleftrightarrow> r' = r \<and> h' = h"
  by (auto simp: lift_def)

lemmas prog_eqs = bind_eq_Inr andthen_eq_Inr

lemmas prog_defs = ret_def raise_def lift_def bind_def andthen_def act_def
  try_except_def try_finally_def

lemma try_finally_snd:
  "snd (try_finally m k h) = snd (k (snd (m h)))"
  by (simp add: try_finally_def split: prod.splits sum.splits)

section \<open>Observers of a history\<close>

text \<open>
  An observer turns a history into a list, event by event; the index of the event is
  its handle (a process or a file is named by the position of the call that made it).
\<close>

fun observe_from :: "nat \<Rightarrow> (nat \<Rightarrow> 'ev \<Rightarrow> 'b list) \<Rightarrow> 'ev list \<Rightarrow> 'b list" where
  "observe_from k f [] = []"
| "observe_from k f (e # es) = f k e @ observe_from (Suc k) f es"

definition observe :: "(nat \<Rightarrow> 'ev \<Rightarrow> 'b list) \<Rightarrow> 'ev list \<Rightarrow> 'b list" where
  "observe f h = observe_from 0 f h"

lemma observe_from_append:
  "observe_from k f (xs @ ys) = observe_from k f xs @ observe_from (k + length xs) f ys"
  by (induction xs arbitrary: k) auto

lemma observe_Nil [simp]: "observe f [] = []"
  by (simp add: observe_def)

lemma observe_append [trace_simps]:
  "observe f (h @ es) = observe f h @ observe_from (length h) f es"
  by (simp add: observe_def observe_from_append)

lemma observe_snoc: "observe f (h @ [e]) = observe f h @ f (length h) e"
  by (simp add: observe_def observe_from_append)

text \<open>
  \<open>silent f m\<close>: whatever \<open>m\<close> does, the observer \<open>f\<close> sees nothing of it.
\<close>

definition silent :: "(nat \<Rightarrow> 'ev \<Rightarrow> 'b list) \<Rightarrow> ('ev, 'a) prog \<Rightarrow> bool" where
  "silent f m \<longleftrightarrow> (\<forall>h. observe f (snd (m h)) = observe f h)"

lemma silentD: "silent f m \<Longrightarrow> m h = (r, h') \<Longrightarrow> observe f h' = observe f h"
  by (metis silent_def snd_conv)

lemma silent_ret [silent_intros, simp]: "silent f (ret x)"
  by (simp add: silent_def ret_def)

lemma silent_raise [silent_intros, simp]: "silent f (raise e)"
  by (simp add: silent_def raise_def)

lemma silent_act: "(\<And>k. f k ev = []) \<Longrightarrow> silent f (act answer ev)"
  by (simp add: silent_def act_def observe_snoc)

lemma silent_bind [silent_intros]:
  assumes "silent f m" and "\<And>x. silent f (g x)"
  shows "silent f (bind m g)"
  using assms by (auto simp: silent_def bind_def split: prod.splits sum.splits)
    (metis sndI)+

lemma silent_andthen [silent_intros]: "silent f m \<Longrightarrow> silent f k \<Longrightarrow> silent f (andthen m k)"
  unfolding andthen_def by (intro silent_bind)

lemma silent_try_except [silent_intros]:
  "silent f m \<Longrightarrow> silent f k \<Longrightarrow> silent f (try_except m k)"
  by (auto simp: silent_def try_except_def split: prod.splits sum.splits) (metis snd_conv)+

lemma silent_case_prod [silent_intros]: "(\<And>a b. silent f (g a b)) \<Longrightarrow> silent f (case_prod g x)"
  by (cases x) simp

lemma silent_Let [silent_intros]: "(\<And>x. silent f (g x)) \<Longrightarrow> silent f (Let v g)"
  by (simp add: Let_def)

lemma silent_if [silent_intros]: "silent f m \<Longrightarrow> silent f k \<Longrightarrow> silent f (if b then m else k)"
  by simp

lemma silent_for_each [silent_intros]: "(\<And>x. silent f (g x)) \<Longrightarrow> silent f (for_each g xs)"
  by (induction xs) (auto intro: silent_andthen)

lemma silent_case_option [silent_intros]:
  "silent f m \<Longrightarrow> (\<And>x. silent f (g x)) \<Longrightarrow> silent f (case v of None \<Rightarrow> m | Some x \<Rightarrow> g x)"
  by (cases v) simp_all

lemma silent_lift [silent_intros, simp]: "silent f (lift r)"
  by (simp add: silent_def lift_def)

text \<open>\<open>extends m\<close>: \<open>m\<close> only adds to the history.\<close>

definition extends :: "('ev, 'a) prog \<Rightarrow> bool" where
  "extends m \<longleftrightarrow> (\<forall>h. \<exists>es. snd (m h) = h @ es)"

named_theorems extends_intros \<open>code that only adds to the history\<close>

lemma extendsD:
  assumes "extends m" and "m h = (r, h')"
  obtains es where "h' = h @ es"
  using assms by (metis extends_def snd_conv)

lemma extends_act [extends_intros]: "extends (act ans ev)"
  by (simp add: extends_def act_def)

lemma extends_ret [extends_intros]: "extends (ret x)" "extends (lift r)" "extends (raise e)"
  by (simp_all add: extends_def ret_def lift_def raise_def)

lemma extends_bind [extends_intros]:
  assumes "extends m" and "\<And>x. extends (f x)"
  shows "extends (bind m f)"
  unfolding extends_def
proof
  fix h
  obtain es where es: "snd (m h) = h @ es" using assms(1) by (auto simp: extends_def)
  show "\<exists>es. snd (bind m f h) = h @ es"
  proof (cases "fst (m h)")
    case (Inl e)
    with es show ?thesis by (cases "m h") (auto simp: bind_def)
  next
    case (Inr x)
    obtain es' where "snd (f x (h @ es)) = (h @ es) @ es'" using assms(2) unfolding extends_def by blast
    with Inr es show ?thesis by (cases "m h") (auto simp: bind_def)
  qed
qed

lemma extends_andthen [extends_intros]: "extends m \<Longrightarrow> extends k \<Longrightarrow> extends (andthen m k)"
  by (simp add: andthen_def extends_bind)

lemma extends_try_except [extends_intros]:
  assumes "extends m" and "extends k"
  shows "extends (try_except m k)"
  unfolding extends_def
proof
  fix h
  obtain r h1 where r: "m h = (r, h1)" by (cases "m h")
  obtain es where es: "h1 = h @ es" using assms(1) r by (rule extendsD)
  obtain es' where "snd (k h1) = h1 @ es'" using assms(2) by (auto simp: extends_def)
  with r es show "\<exists>es. snd (try_except m k h) = h @ es"
    by (auto simp: try_except_def split: sum.split)
qed

lemma extends_control [extends_intros]:
  "extends m \<Longrightarrow> extends k \<Longrightarrow> extends (if b then m else k)"
  "(\<And>x. extends (g x)) \<Longrightarrow> extends (Let v g)"
  "extends m \<Longrightarrow> (\<And>x. extends (g x)) \<Longrightarrow> extends (case o' of None \<Rightarrow> m | Some x \<Rightarrow> g x)"
  "(\<And>a b. extends (f a b)) \<Longrightarrow> extends (case_prod f p)"
  by (simp_all add: Let_def split: option.split prod.split)

lemma extends_for_each [extends_intros]: "(\<And>x. extends (f x)) \<Longrightarrow> extends (for_each f xs)"
  by (induction xs) (simp_all add: extends_intros)

section \<open>Stages of a run\<close>

text \<open>
  \<open>completes f good m stages\<close>: seen through the observer \<open>f\<close>, a run of \<open>m\<close> goes through
  \<open>stages\<close> in this order and may stop early (an exception, an early return), but never
  skips or reorders one; a \<open>good\<close> result means that it went through all of them.
  \<open>aborts f good m\<close>: \<open>m\<close> shows nothing and never gives a good result.
\<close>

definition completes ::
  "(nat \<Rightarrow> 'ev \<Rightarrow> 'b list) \<Rightarrow> ('a \<Rightarrow> bool) \<Rightarrow> ('ev, 'a) prog \<Rightarrow> 'b list \<Rightarrow> bool" where
  "completes f good m stages \<longleftrightarrow>
     (\<forall>h r h'. m h = (r, h') \<longrightarrow>
        (\<exists>k. observe f h' = observe f h @ take k stages
           \<and> ((\<exists>x. r = Inr x \<and> good x) \<longrightarrow> length stages \<le> k)))"

definition aborts :: "(nat \<Rightarrow> 'ev \<Rightarrow> 'b list) \<Rightarrow> ('a \<Rightarrow> bool) \<Rightarrow> ('ev, 'a) prog \<Rightarrow> bool" where
  "aborts f good m \<longleftrightarrow> silent f m \<and> (\<forall>h x h'. m h = (Inr x, h') \<longrightarrow> \<not> good x)"

lemma completesD:
  assumes "completes f good m stages" and "m h = (r, h')"
  obtains k where "observe f h' = observe f h @ take k stages"
    and "\<And>x. r = Inr x \<Longrightarrow> good x \<Longrightarrow> length stages \<le> k"
  using assms unfolding completes_def by blast

lemma completes_silent: "silent f m \<Longrightarrow> completes f good m []"
  unfolding completes_def by (auto dest: silentD)

lemma completes_act: "(\<And>k. f k ev = [s]) \<Longrightarrow> completes f good (act answer ev) [s]"
  by (auto simp: completes_def observe_snoc intro!: exI [of _ 1])

lemma completes_bind:
  assumes m: "completes f good m xs"
    and k: "\<And>x. good x \<Longrightarrow> completes f good' (k x) ys"
    and a: "\<And>x. \<not> good x \<Longrightarrow> aborts f good' (k x)"
  shows "completes f good' (bind m k) (xs @ ys)"
  unfolding completes_def
proof (intro allI impI)
  fix h r h' assume run: "bind m k h = (r, h')"
  obtain r1 h1 where r1: "m h = (r1, h1)" by (cases "m h")
  from m r1 obtain n where n: "observe f h1 = observe f h @ take n xs"
    "\<And>x. r1 = Inr x \<Longrightarrow> good x \<Longrightarrow> length xs \<le> n"
    by (rule completesD) blast
  have stop: "\<exists>k. observe f h' = observe f h @ take k (xs @ ys)
      \<and> ((\<exists>x. r = Inr x \<and> good' x) \<longrightarrow> length (xs @ ys) \<le> k)"
    if "observe f h' = observe f h1" "\<And>x. r = Inr x \<Longrightarrow> \<not> good' x"
    using n that by (intro exI [of _ "min n (length xs)"]) (auto simp: min_def)
  show "\<exists>k. observe f h' = observe f h @ take k (xs @ ys)
      \<and> ((\<exists>x. r = Inr x \<and> good' x) \<longrightarrow> length (xs @ ys) \<le> k)"
  proof (cases r1)
    case (Inl e)
    with run r1 show ?thesis by (intro stop) (auto simp: bind_def)
  next
    case (Inr x)
    with run r1 have kx: "k x h1 = (r, h')" by (simp add: bind_def)
    show ?thesis
    proof (cases "good x")
      case True
      from k [OF True] kx obtain p where p: "observe f h' = observe f h1 @ take p ys"
        "\<And>x. r = Inr x \<Longrightarrow> good' x \<Longrightarrow> length ys \<le> p"
        by (rule completesD) blast
      from n(2) [OF Inr True] n(1) p show ?thesis
        by (intro exI [of _ "length xs + p"]) auto
    next
      case False
      from a [OF False] kx show ?thesis by (intro stop) (auto simp: aborts_def dest: silentD)
    qed
  qed
qed

lemma completes_bind_all:
  assumes "completes f (\<lambda>_. True) m xs" and "\<And>x. completes f good' (k x) ys"
  shows "completes f good' (bind m k) (xs @ ys)"
  using assms by (intro completes_bind) auto

lemma completes_andthen:
  assumes "completes f (\<lambda>_. True) m xs" and "completes f good' k ys"
  shows "completes f good' (andthen m k) (xs @ ys)"
  unfolding andthen_def using assms by (intro completes_bind_all)

lemma completes_bind_silent:
  assumes "silent f m" and "\<And>x. completes f good' (k x) ys"
  shows "completes f good' (bind m k) ys"
  using completes_bind_all [OF completes_silent [OF assms(1)] assms(2)] by simp

lemma completes_andthen_silent:
  assumes "silent f m" and "completes f good' k ys"
  shows "completes f good' (andthen m k) ys"
  using completes_andthen [OF completes_silent [OF assms(1)] assms(2)] by simp

lemma completes_then_silent:
  assumes "completes f (\<lambda>_. True) m xs" and "\<And>x. silent f (k x)"
  shows "completes f good' (bind m k) xs"
  using completes_bind_all [OF assms(1) completes_silent [OF assms(2)]] by simp

lemma completes_abort: "aborts f good m \<Longrightarrow> completes f good m ys"
  unfolding completes_def aborts_def
  by (intro allI impI exI [of _ 0]) (auto dest: silentD)

lemma aborts_ret [intro]: "\<not> good x \<Longrightarrow> aborts f good (ret x)"
  by (auto simp: aborts_def)

lemma aborts_andthen [intro]: "silent f m \<Longrightarrow> aborts f good k \<Longrightarrow> aborts f good (andthen m k)"
  by (auto simp: aborts_def andthen_eq_Inr intro: silent_andthen)

lemma completes_weaken:
  "completes f good m ys \<Longrightarrow> (\<And>x. good' x \<Longrightarrow> good x) \<Longrightarrow> completes f good' m ys"
  unfolding completes_def by meson

section \<open>Loops against a clock\<close>

text \<open>The number of rounds of length \<open>\<delta>\<close> left until a point in time shrinks with every round.\<close>

lemma rounds_left_shrink:
  fixes now later stop_time \<delta> :: rat
  assumes "now < stop_time" and "now + \<delta> \<le> later" and "0 < \<delta>"
  shows "nat \<lceil>(stop_time - later) / \<delta>\<rceil> < nat \<lceil>(stop_time - now) / \<delta>\<rceil>"
proof -
  define x where "x = (stop_time - now) / \<delta>"
  have "0 < x" using assms by (simp add: x_def)
  have "(stop_time - later) / \<delta> \<le> (stop_time - now - \<delta>) / \<delta>"
    using assms by (intro divide_right_mono) auto
  also have "\<dots> = x - 1" using assms by (simp add: x_def diff_divide_distrib)
  finally have "(stop_time - later) / \<delta> \<le> x - 1" .
  then have "\<lceil>(stop_time - later) / \<delta>\<rceil> \<le> \<lceil>x\<rceil> - 1" by linarith
  moreover have "0 < \<lceil>x\<rceil>" using \<open>0 < x\<close> by simp
  ultimately show ?thesis unfolding x_def [symmetric] by linarith
qed

end
