(* ===== verification/Py_Text.thy ===== *)
theory Py_Text
  imports Prelude
begin

text \<open>
  The text processing of the scripts: the methods of Python's \<^verbatim>\<open>str\<close> they call
  (\<^verbatim>\<open>split\<close>, \<^verbatim>\<open>splitlines\<close>, \<^verbatim>\<open>strip\<close>, \<^verbatim>\<open>in\<close>, \<^verbatim>\<open>startswith\<close>, \<^verbatim>\<open>partition\<close>),
  \<^verbatim>\<open>int()\<close> and \<^verbatim>\<open>str()\<close> on integers, and the \<^verbatim>\<open>key=value\<close> report lines that the
  benchmark driver prints and every script reads back.

  A string is a list of code points below 256; the white space and line boundary
  characters are Python's, restricted to that range.
\<close>

section \<open>Python's string methods\<close>

definition py_isspace :: "char \<Rightarrow> bool" where
  "py_isspace c = ((of_char c :: nat) \<in> {9, 10, 11, 12, 13, 28, 29, 30, 31, 32, 133, 160})"

definition py_isnewline :: "char \<Rightarrow> bool" where
  "py_isnewline c = ((of_char c :: nat) \<in> {10, 11, 12, 13, 28, 29, 30, 133})"

text \<open>\<^verbatim>\<open>s.split()\<close>: the maximal runs of characters that are not white space.\<close>

lemma length_dropWhile_Suc [termination_simp]: "length (dropWhile P s) < Suc (length s)"
  by (simp add: length_dropWhile_le le_imp_less_Suc)

fun py_split :: "string \<Rightarrow> string list" where
  "py_split [] = []"
| "py_split (c # s) =
     (if py_isspace c then py_split s
      else (c # takeWhile (\<lambda>d. \<not> py_isspace d) s)
             # py_split (dropWhile (\<lambda>d. \<not> py_isspace d) s))"

text \<open>\<^verbatim>\<open>s.splitlines()\<close>: a carriage return followed by a line feed is one boundary.\<close>

fun py_splitlines_aux :: "string \<Rightarrow> string \<Rightarrow> string list" where
  "py_splitlines_aux cur [] = (if cur = [] then [] else [rev cur])"
| "py_splitlines_aux cur [c] = (if py_isnewline c then [rev cur] else [rev (c # cur)])"
| "py_splitlines_aux cur (c # d # s) =
     (if c = CHR 0x0D \<and> d = CHR 0x0A then rev cur # py_splitlines_aux [] s
      else if py_isnewline c then rev cur # py_splitlines_aux [] (d # s)
      else py_splitlines_aux (c # cur) (d # s))"

definition py_splitlines :: "string \<Rightarrow> string list" where
  "py_splitlines s = py_splitlines_aux [] s"

text \<open>\<^verbatim>\<open>s.strip()\<close> and \<^verbatim>\<open>s.strip(chars)\<close>.\<close>

definition strip_with :: "(char \<Rightarrow> bool) \<Rightarrow> string \<Rightarrow> string" where
  "strip_with P s = rev (dropWhile P (rev (dropWhile P s)))"

definition py_strip :: "string \<Rightarrow> string" where
  "py_strip = strip_with py_isspace"

definition py_strip_chars :: "string \<Rightarrow> string \<Rightarrow> string" where
  "py_strip_chars cs = strip_with (\<lambda>c. c \<in> set cs)"

text \<open>\<^verbatim>\<open>sub in s\<close> and \<^verbatim>\<open>s.startswith(p)\<close>.\<close>

fun py_startswith :: "string \<Rightarrow> string \<Rightarrow> bool" where
  "py_startswith s [] = True"
| "py_startswith [] (p # ps) = False"
| "py_startswith (c # s) (p # ps) = (c = p \<and> py_startswith s ps)"

fun py_in :: "string \<Rightarrow> string \<Rightarrow> bool" where
  "py_in sub [] = (sub = [])"
| "py_in sub (c # s) = (py_startswith (c # s) sub \<or> py_in sub s)"

text \<open>\<^verbatim>\<open>k, v = tok.split("=", 1)\<close>, called only where \<^verbatim>\<open>"=" in tok\<close>.\<close>

definition split_eq :: "string \<Rightarrow> string \<times> string" where
  "split_eq tok = (takeWhile (\<lambda>c. c \<noteq> CHR ''='') tok, tl (dropWhile (\<lambda>c. c \<noteq> CHR ''='') tok))"

text \<open>\<^verbatim>\<open>s.split(sep)\<close> for a separator of one character: never the empty list.\<close>

fun py_split_on :: "char \<Rightarrow> string \<Rightarrow> string list" where
  "py_split_on sep [] = [[]]"
| "py_split_on sep (c # s) =
     (if c = sep then [] # py_split_on sep s
      else (case py_split_on sep s of
              [] \<Rightarrow> [[c]]
            | p # ps \<Rightarrow> (c # p) # ps))"

text \<open>\<^verbatim>\<open>sep.join(parts)\<close>\<close>

fun py_join :: "string \<Rightarrow> string list \<Rightarrow> string" where
  "py_join sep [] = []"
| "py_join sep [p] = p"
| "py_join sep (p # q # ps) = p @ sep @ py_join sep (q # ps)"

text \<open>
  \<^verbatim>\<open>repr(s)\<close>, the text that \<^verbatim>\<open>!r\<close> asks for: double quotes only around a string with a
  single quote and no double one, and escapes for what is not printable.
\<close>

definition hex_digit :: "nat \<Rightarrow> char" where
  "hex_digit d = char_of (if d < 10 then 48 + d else 87 + d)"

definition repr_char :: "char \<Rightarrow> char \<Rightarrow> string" where
  "repr_char q c =
     (let n = (of_char c :: nat) in
      if c = q \<or> n = 92 then [CHR 0x5C, c]
      else if n = 9 then [CHR 0x5C, CHR ''t'']
      else if n = 10 then [CHR 0x5C, CHR ''n'']
      else if n = 13 then [CHR 0x5C, CHR ''r'']
      else if n < 32 \<or> (127 \<le> n \<and> n \<le> 160) \<or> n = 173
        then [CHR 0x5C, CHR ''x'', hex_digit (n div 16), hex_digit (n mod 16)]
      else [c])"

definition py_repr :: "string \<Rightarrow> string" where
  "py_repr s =
     (let q = (if CHR 0x27 \<in> set s \<and> CHR 0x22 \<notin> set s then CHR 0x22 else CHR 0x27)
      in q # concat (map (repr_char q) s) @ [q])"

text \<open>The text of a dictionary with string keys, the texts of its values given.\<close>

definition dict_repr :: "(string \<times> string) list \<Rightarrow> string" where
  "dict_repr kvs = ''{'' @ py_join '', '' (map (\<lambda>(k, v). py_repr k @ '': '' @ v) kvs) @ ''}''"

definition list_repr :: "string list \<Rightarrow> string" where
  "list_repr vs = ''['' @ py_join '', '' vs @ '']''"

text \<open>The text of a value that is a string or \<^verbatim>\<open>None\<close>, inside a printed container.\<close>

definition repr_opt :: "string option \<Rightarrow> string" where
  "repr_opt v = (case v of None \<Rightarrow> ''None'' | Some s \<Rightarrow> py_repr s)"

text \<open>\<^verbatim>\<open>f.readlines()\<close>: the lines of a text, each with the newline that ends it.\<close>

fun readlines :: "string \<Rightarrow> string list" where
  "readlines [] = []"
| "readlines (c # cs) =
     (if c = CHR 0x0A then [c] # readlines cs
      else case readlines cs of [] \<Rightarrow> [[c]] | l # ls \<Rightarrow> (c # l) # ls)"

section \<open>Integers and their decimal text\<close>

definition digit_char :: "nat \<Rightarrow> char" where
  "digit_char d = char_of (48 + d)"

fun str_nat :: "nat \<Rightarrow> string" where
  "str_nat n = (if n < 10 then [digit_char n] else str_nat (n div 10) @ [digit_char (n mod 10)])"

declare str_nat.simps [simp del]

definition str_int :: "int \<Rightarrow> string" where
  "str_int i = (if i < 0 then CHR ''-'' # str_nat (nat (- i)) else str_nat (nat i))"

definition digit_val :: "char \<Rightarrow> nat option" where
  "digit_val c =
     (let n = (of_char c :: nat) in if 48 \<le> n \<and> n \<le> 57 then Some (n - 48) else None)"

text \<open>
  The digits of an \<^verbatim>\<open>int()\<close> literal: at least one digit, single underscores between
  digits allowed. The flag says whether the previous character was a digit.
\<close>

fun int_digits :: "bool \<Rightarrow> nat \<Rightarrow> string \<Rightarrow> nat option" where
  "int_digits prev acc [] = (if prev then Some acc else None)"
| "int_digits prev acc (c # s) =
     (case digit_val c of
        Some d \<Rightarrow> int_digits True (10 * acc + d) s
      | None \<Rightarrow> if c = CHR ''_'' \<and> prev then int_digits False acc s else None)"

text \<open>\<^verbatim>\<open>int(s)\<close>; \<open>None\<close> is the \<^verbatim>\<open>ValueError\<close>.\<close>

definition py_int :: "string \<Rightarrow> int option" where
  "py_int s =
     (case py_strip s of
        [] \<Rightarrow> None
      | c # t \<Rightarrow>
          if c = CHR ''-'' then map_option (\<lambda>n. - int n) (int_digits False 0 t)
          else if c = CHR ''+'' then map_option int (int_digits False 0 t)
          else map_option int (int_digits False 0 (c # t)))"

subsection \<open>Decimal text reads back as the number\<close>

lemma digit_val_digit_char [simp]: "d < 10 \<Longrightarrow> digit_val (digit_char d) = Some d"
  by (simp add: digit_val_def digit_char_def)

lemma digit_char_not_space [simp]: "d < 10 \<Longrightarrow> \<not> py_isspace (digit_char d)"
  by (auto simp: py_isspace_def digit_char_def)

lemma digit_char_neq [simp]:
  assumes "d < 10"
  shows "digit_char d \<noteq> CHR ''-''" and "digit_char d \<noteq> CHR ''+''"
    and "digit_char d \<noteq> CHR ''=''" and "digit_char d \<noteq> CHR ''.''"
proof -
  have "of_char (digit_char d) = 48 + d"
    using assms by (simp add: digit_char_def)
  moreover have "of_char (CHR ''-'') = (45 :: nat)" "of_char (CHR ''+'') = (43 :: nat)"
    "of_char (CHR ''='') = (61 :: nat)" "of_char (CHR ''.'') = (46 :: nat)"
    by simp_all
  ultimately show "digit_char d \<noteq> CHR ''-''" "digit_char d \<noteq> CHR ''+''"
    "digit_char d \<noteq> CHR ''=''" "digit_char d \<noteq> CHR ''.''"
    using assms by auto
qed

lemma str_nat_not_Nil [simp]: "str_nat n \<noteq> []"
  by (subst str_nat.simps) simp

lemma str_nat_0: "str_nat 0 = ''0''"
  by code_simp

lemma str_nat_digits: "c \<in> set (str_nat n) \<Longrightarrow> \<exists>d < 10. c = digit_char d"
proof (induction n rule: str_nat.induct)
  case (1 n)
  show ?case
  proof (cases "n < 10")
    case True
    with "1.prems" show ?thesis by (auto simp: str_nat.simps [of n])
  next
    case False
    with "1" have "c \<in> set (str_nat (n div 10)) \<or> c = digit_char (n mod 10)"
      by (auto simp: str_nat.simps [of n])
    with False "1.IH" show ?thesis by (metis mod_less_divisor zero_less_numeral)
  qed
qed

lemma str_nat_no_space: "c \<in> set (str_nat n) \<Longrightarrow> \<not> py_isspace c"
  using str_nat_digits by fastforce

lemma int_digits_append:
  "int_digits p acc s = Some k \<Longrightarrow> d < 10 \<Longrightarrow>
   int_digits p acc (s @ [digit_char d]) = Some (10 * k + d)"
  by (induction p acc s rule: int_digits.induct)
    (auto split: option.splits if_splits)

lemma int_digits_str_nat: "int_digits p 0 (str_nat n) = Some n"
proof (induction n rule: str_nat.induct)
  case (1 n)
  show ?case
  proof (cases "n < 10")
    case True
    then show ?thesis by (simp add: str_nat.simps [of n])
  next
    case False
    with 1 have "int_digits p 0 (str_nat (n div 10)) = Some (n div 10)"
      by simp
    then have "int_digits p 0 (str_nat (n div 10) @ [digit_char (n mod 10)])
        = Some (10 * (n div 10) + n mod 10)"
      by (rule int_digits_append) auto
    with False show ?thesis by (simp add: str_nat.simps [of n])
  qed
qed

lemma dropWhile_none: "(\<forall>c \<in> set s. \<not> P c) \<Longrightarrow> dropWhile P s = s"
  by (cases s) auto

lemma takeWhile_all: "(\<forall>c \<in> set s. P c) \<Longrightarrow> takeWhile P s = s"
  by (simp add: takeWhile_eq_all_conv)

lemma strip_with_none: "(\<forall>c \<in> set s. \<not> P c) \<Longrightarrow> strip_with P s = s"
  by (simp add: strip_with_def dropWhile_none)

lemma py_strip_str_nat [simp]: "py_strip (str_nat n) = str_nat n"
  by (auto simp: py_strip_def intro!: strip_with_none dest: str_nat_no_space)

lemma py_int_str_nat [simp]: "py_int (str_nat n) = Some (int n)"
proof -
  obtain c t where ct: "str_nat n = c # t"
    by (meson list.exhaust str_nat_not_Nil)
  then obtain d where "d < 10" "c = digit_char d"
    using str_nat_digits [of c n] by auto
  then have "c \<noteq> CHR ''-''" "c \<noteq> CHR ''+''" by simp_all
  moreover have "int_digits False 0 (c # t) = Some n"
    using int_digits_str_nat ct by metis
  moreover have "py_strip (c # t) = c # t"
    using py_strip_str_nat [of n] ct by simp
  ultimately show ?thesis
    unfolding py_int_def ct by simp
qed

lemma str_nat_inject [simp]: "str_nat m = str_nat n \<longleftrightarrow> m = n"
  by (metis int_digits_str_nat option.inject)

lemma readlines_line:
  "CHR 0x0A \<notin> set line \<Longrightarrow> readlines (line @ CHR 0x0A # rest) = (line @ [CHR 0x0A]) # readlines rest"
  by (induction line) auto

lemma readlines_append:
  "before = [] \<or> last before = CHR 0x0A \<Longrightarrow> readlines (before @ s) = readlines before @ readlines s"
proof (induction before)
  case (Cons c before)
  show ?case
  proof (cases "before = []")
    case True
    with Cons show ?thesis by simp
  next
    case False
    then have "readlines before \<noteq> []" by (cases before) (auto split: list.split)
    with False Cons show ?thesis by (auto split: list.split)
  qed
qed simp

end
