(* ===== verification/Py_Os.thy ===== *)
theory Py_Os
  imports Py_Text
begin

text \<open>
  The operating-system side of the \<^verbatim>\<open>nats_sidecar_*.py\<close> scripts: the calls of
  \<^verbatim>\<open>subprocess\<close>, \<^verbatim>\<open>os\<close>, \<^verbatim>\<open>shutil\<close>, \<^verbatim>\<open>time\<close> and the built-in \<^verbatim>\<open>open\<close> and
  \<^verbatim>\<open>print\<close> they make, as interactions of a history. What the started programs do
  (\<^verbatim>\<open>nats-server\<close>, \<^verbatim>\<open>nats_sidecar\<close>, \<^verbatim>\<open>mq_bench_driver\<close>, \<^verbatim>\<open>psql\<close>) is the
  environment's choice: every answer is a function of the history before the call.
\<close>

section \<open>Interactions\<close>

text \<open>
  A file or a process is named by the position in the history of the call that opened
  or started it. \<open>Popen argv (Some f)\<close> writes its output to the log file \<open>f\<close>;
  \<open>Popen argv None\<close> has its output on a pipe.
\<close>

datatype event =
    PathExists string
  | Rmtree string
  | Makedirs string
  | OpenW string
  | Popen "string list" "nat option"
  | Sleep rat
  | Terminate nat
  | Kill nat
  | Wait nat nat            \<comment> \<open>handle, timeout in seconds\<close>
  | Poll nat
  | CloseF nat
  | Run "string list" nat   \<comment> \<open>\<^verbatim>\<open>subprocess.run\<close>: arguments, timeout in seconds\<close>
  | Communicate nat nat
  | ClockRead
  | ReadFile string
  | WriteFile string string \<comment> \<open>a file written in a \<^verbatim>\<open>with\<close> block: path and contents\<close>
  | SendSignal nat nat      \<comment> \<open>handle, signal number\<close>
  | UrlOpen string
  | Stdout string
  | Stderr string
  | CallFailed string       \<comment> \<open>an \<^verbatim>\<open>open\<close> or \<^verbatim>\<open>Popen\<close> that raised\<close>

type_synonym hist = "event list"
type_synonym 'a os = "(event, 'a) prog"

record completed =
  returncode :: int
  out :: string
  err :: string

text \<open>
  The environment. \<open>home\<close> is what \<^verbatim>\<open>os.path.expanduser\<close> puts for the tilde. The
  answer \<open>Inl e\<close> to a call is the exception \<open>e\<close>.
\<close>

record env =
  home :: string
  float_repr :: "rat \<Rightarrow> string"   \<comment> \<open>the shortest decimal text of a float\<close>
  path_exists :: "hist \<Rightarrow> string \<Rightarrow> bool"
  rmtree_ans :: "hist \<Rightarrow> string \<Rightarrow> exc + unit"
  makedirs_ans :: "hist \<Rightarrow> string \<Rightarrow> exc + unit"
  open_ans :: "hist \<Rightarrow> string \<Rightarrow> exc + unit"
  popen_ans :: "hist \<Rightarrow> string list \<Rightarrow> exc + unit"
  terminate_ans :: "hist \<Rightarrow> nat \<Rightarrow> exc + unit"
  kill_ans :: "hist \<Rightarrow> nat \<Rightarrow> exc + unit"
  wait_ans :: "hist \<Rightarrow> nat \<Rightarrow> exc + unit"
  poll_ans :: "hist \<Rightarrow> nat \<Rightarrow> int option"
  close_ans :: "hist \<Rightarrow> nat \<Rightarrow> exc + unit"
  run_ans :: "hist \<Rightarrow> string list \<Rightarrow> exc + completed"
  communicate_ans :: "hist \<Rightarrow> nat \<Rightarrow> exc + string"
  interrupted :: "hist \<Rightarrow> bool"   \<comment> \<open>a \<^verbatim>\<open>KeyboardInterrupt\<close> arrives during a sleep\<close>
  clock :: "hist \<Rightarrow> rat"
  read_ans :: "hist \<Rightarrow> string \<Rightarrow> exc + string"
  write_ans :: "hist \<Rightarrow> string \<Rightarrow> exc + unit"
  signal_ans :: "hist \<Rightarrow> nat \<Rightarrow> exc + unit"
  url_ans :: "hist \<Rightarrow> string \<Rightarrow> exc + string"
  pid_of :: "nat \<Rightarrow> nat"

section \<open>The calls\<close>

definition os_path_exists :: "env \<Rightarrow> string \<Rightarrow> bool os" where
  "os_path_exists E p = act (\<lambda>h. Inr (path_exists E h p)) (PathExists p)"

definition rmtree :: "env \<Rightarrow> string \<Rightarrow> unit os" where
  "rmtree E p = act (\<lambda>h. rmtree_ans E h p) (Rmtree p)"

definition makedirs :: "env \<Rightarrow> string \<Rightarrow> unit os" where
  "makedirs E p = act (\<lambda>h. makedirs_ans E h p) (Makedirs p)"

text \<open>\<^verbatim>\<open>open(path, "w")\<close> and \<^verbatim>\<open>Popen\<close> return the handle, when they do not raise.\<close>

definition open_w :: "env \<Rightarrow> string \<Rightarrow> nat os" where
  "open_w E p h = (case open_ans E h p of
     Inl e \<Rightarrow> (Inl e, h @ [CallFailed ''open'']) | Inr _ \<Rightarrow> (Inr (length h), h @ [OpenW p]))"

definition popen :: "env \<Rightarrow> string list \<Rightarrow> nat option \<Rightarrow> nat os" where
  "popen E argv f h = (case popen_ans E h argv of
     Inl e \<Rightarrow> (Inl e, h @ [CallFailed ''Popen'']) | Inr _ \<Rightarrow> (Inr (length h), h @ [Popen argv f]))"

definition terminate :: "env \<Rightarrow> nat \<Rightarrow> unit os" where
  "terminate E p = act (\<lambda>h. terminate_ans E h p) (Terminate p)"

definition kill :: "env \<Rightarrow> nat \<Rightarrow> unit os" where
  "kill E p = act (\<lambda>h. kill_ans E h p) (Kill p)"

definition wait :: "env \<Rightarrow> nat \<Rightarrow> nat \<Rightarrow> unit os" where
  "wait E p timeout = act (\<lambda>h. wait_ans E h p) (Wait p timeout)"

definition poll :: "env \<Rightarrow> nat \<Rightarrow> int option os" where
  "poll E p = act (\<lambda>h. Inr (poll_ans E h p)) (Poll p)"

definition close_file :: "env \<Rightarrow> nat \<Rightarrow> unit os" where
  "close_file E f = act (\<lambda>h. close_ans E h f) (CloseF f)"

definition run_cmd :: "env \<Rightarrow> string list \<Rightarrow> nat \<Rightarrow> completed os" where
  "run_cmd E argv timeout = act (\<lambda>h. run_ans E h argv) (Run argv timeout)"

definition communicate :: "env \<Rightarrow> nat \<Rightarrow> nat \<Rightarrow> string os" where
  "communicate E p timeout = act (\<lambda>h. communicate_ans E h p) (Communicate p timeout)"

definition sleep :: "env \<Rightarrow> rat \<Rightarrow> unit os" where
  "sleep E d =
     act (\<lambda>h. if d < 0 then Inl ValueError
              else if interrupted E h then Inl KeyboardInterrupt else Inr ()) (Sleep d)"

definition time_time :: "env \<Rightarrow> rat os" where
  "time_time E = act (\<lambda>h. Inr (clock E h)) ClockRead"

definition read_file :: "env \<Rightarrow> string \<Rightarrow> string os" where
  "read_file E p = act (\<lambda>h. read_ans E h p) (ReadFile p)"

definition write_file :: "env \<Rightarrow> string \<Rightarrow> string \<Rightarrow> unit os" where
  "write_file E p contents = act (\<lambda>h. write_ans E h p) (WriteFile p contents)"

definition send_signal :: "env \<Rightarrow> nat \<Rightarrow> nat \<Rightarrow> unit os" where
  "send_signal E p sig = act (\<lambda>h. signal_ans E h p) (SendSignal p sig)"

definition urlopen :: "env \<Rightarrow> string \<Rightarrow> string os" where
  "urlopen E url = act (\<lambda>h. url_ans E h url) (UrlOpen url)"

definition print_out :: "string \<Rightarrow> unit os" where
  "print_out s = act (\<lambda>_. Inr ()) (Stdout s)"

definition print_err :: "string \<Rightarrow> unit os" where
  "print_err s = act (\<lambda>_. Inr ()) (Stderr s)"

text \<open>\<^verbatim>\<open>os.path.expanduser("~/...")\<close>\<close>

definition expanduser :: "env \<Rightarrow> string \<Rightarrow> string" where
  "expanduser E rest = home E @ rest"

lemmas os_call_defs = os_path_exists_def rmtree_def makedirs_def terminate_def kill_def
  wait_def poll_def close_file_def run_cmd_def communicate_def sleep_def time_time_def
  read_file_def print_out_def print_err_def write_file_def send_signal_def urlopen_def

section \<open>Observers\<close>

text \<open>The processes with a log file that a history starts, with their logs.\<close>

definition logged_ev :: "nat \<Rightarrow> event \<Rightarrow> (nat \<times> nat) list" where
  "logged_ev k e = (case e of Popen _ (Some f) \<Rightarrow> [(k, f)] | _ \<Rightarrow> [])"

definition terminated_ev :: "nat \<Rightarrow> event \<Rightarrow> nat list" where
  "terminated_ev k e = (case e of Terminate p \<Rightarrow> [p] | _ \<Rightarrow> [])"

definition closed_ev :: "nat \<Rightarrow> event \<Rightarrow> nat list" where
  "closed_ev k e = (case e of CloseF f \<Rightarrow> [f] | _ \<Rightarrow> [])"

abbreviation logged :: "hist \<Rightarrow> (nat \<times> nat) list" where
  "logged \<equiv> observe logged_ev"

abbreviation terminated :: "hist \<Rightarrow> nat list" where
  "terminated \<equiv> observe terminated_ev"

abbreviation closed_logs :: "hist \<Rightarrow> nat list" where
  "closed_logs \<equiv> observe closed_ev"

lemmas observer_defs = logged_ev_def terminated_ev_def closed_ev_def

lemma open_w_cases:
  assumes "open_w E p h = (r, h')"
  obtains (raised) e where "r = Inl e" "h' = h @ [CallFailed ''open'']"
  | (opened) "r = Inr (length h)" "h' = h @ [OpenW p]"
  using assms that by (cases "open_ans E h p") (auto simp: open_w_def)

lemma popen_cases:
  assumes "popen E argv f h = (r, h')"
  obtains (raised) e where "r = Inl e" "h' = h @ [CallFailed ''Popen'']"
  | (started) "r = Inr (length h)" "h' = h @ [Popen argv f]"
  using assms that by (cases "popen_ans E h argv") (auto simp: popen_def)

lemma silent_open_w:
  assumes "\<And>k. ob k (OpenW p) = []" and "\<And>k. ob k (CallFailed ''open'') = []"
  shows "silent ob (open_w E p)"
  using assms by (simp add: silent_def open_w_def observe_snoc split: sum.split)

lemma silent_popen:
  assumes "\<And>k. ob k (Popen argv f) = []" and "\<And>k. ob k (CallFailed ''Popen'') = []"
  shows "silent ob (popen E argv f)"
  using assms by (simp add: silent_def popen_def observe_snoc split: sum.split)

lemma silent_call:
  assumes "\<And>k. ob k (PathExists s) = []" "\<And>k. ob k (Rmtree s) = []" "\<And>k. ob k (Makedirs s) = []"
    "\<And>k. ob k (Sleep d) = []" "\<And>k. ob k (Poll p) = []" "\<And>k. ob k ClockRead = []"
    "\<And>k. ob k (ReadFile s) = []" "\<And>k. ob k (Stdout s) = []" "\<And>k. ob k (Stderr s) = []"
  shows "silent ob (os_path_exists E s)" "silent ob (rmtree E s)" "silent ob (makedirs E s)"
    "silent ob (sleep E d)" "silent ob (poll E p)" "silent ob (time_time E)"
    "silent ob (read_file E s)" "silent ob (print_out s)" "silent ob (print_err s)"
  using assms by (simp_all add: os_call_defs silent_act)

text \<open>
  A bystander starts no process with a log file, terminates none and closes no log.
\<close>

definition bystander :: "'a os \<Rightarrow> bool" where
  "bystander m \<longleftrightarrow> silent logged_ev m \<and> silent terminated_ev m \<and> silent closed_ev m"

named_theorems bystander_intros \<open>code that leaves the logged processes alone\<close>

lemma bystanderD:
  assumes "bystander m" and "m h = (r, h')"
  shows "logged h' = logged h" "terminated h' = terminated h" "closed_logs h' = closed_logs h"
  using assms by (auto simp: bystander_def dest: silentD)

lemma bystander_control [bystander_intros]:
  "bystander (ret x)" "bystander (raise e)" "bystander (lift r)"
  by (simp_all add: bystander_def)

lemma bystander_bind [bystander_intros]:
  "bystander m \<Longrightarrow> (\<And>x. bystander (f x)) \<Longrightarrow> bystander (bind m f)"
  by (simp add: bystander_def silent_bind)

lemma bystander_andthen [bystander_intros]:
  "bystander m \<Longrightarrow> bystander k \<Longrightarrow> bystander (andthen m k)"
  by (simp add: bystander_def silent_andthen)

lemma bystander_if [bystander_intros]:
  "bystander m \<Longrightarrow> bystander k \<Longrightarrow> bystander (if b then m else k)"
  by simp

lemma bystander_case_prod [bystander_intros]:
  "(\<And>a b. bystander (g a b)) \<Longrightarrow> bystander (case_prod g x)"
  by (cases x) simp

lemma bystander_case_option [bystander_intros]:
  "bystander m \<Longrightarrow> (\<And>x. bystander (g x)) \<Longrightarrow> bystander (case v of None \<Rightarrow> m | Some x \<Rightarrow> g x)"
  by (cases v) simp_all

lemma bystander_Let [bystander_intros]: "(\<And>x. bystander (g x)) \<Longrightarrow> bystander (Let v g)"
  by (simp add: Let_def)

lemma bystander_for_each [bystander_intros]:
  "(\<And>x. bystander (g x)) \<Longrightarrow> bystander (for_each g xs)"
  by (simp add: bystander_def silent_for_each)

lemma bystander_calls [bystander_intros]:
  "bystander (os_path_exists E s)" "bystander (rmtree E s)" "bystander (makedirs E s)"
  "bystander (sleep E d)" "bystander (poll E p)" "bystander (time_time E)"
  "bystander (read_file E s)" "bystander (print_out s)" "bystander (print_err s)"
  by (simp_all add: bystander_def silent_call observer_defs)

lemma bystander_commands [bystander_intros]:
  "bystander (run_cmd E argv t)" "bystander (communicate E p t)"
  by (simp_all add: bystander_def os_call_defs silent_act observer_defs)

lemma bystander_captures [bystander_intros]:
  "bystander (write_file E s t)" "bystander (send_signal E p sig)" "bystander (urlopen E s)"
  by (simp_all add: bystander_def os_call_defs silent_act observer_defs)

lemma bystander_popen_pipe [bystander_intros]: "bystander (popen E argv None)"
  by (simp add: bystander_def silent_popen observer_defs)

lemma extends_open [extends_intros]: "extends (open_w E p)" "extends (popen E argv f)"
  by (simp_all add: extends_def open_w_def popen_def split: sum.split)

lemma extends_os_calls [extends_intros]:
  "extends (os_path_exists E s)" "extends (rmtree E s)" "extends (makedirs E s)" "extends (sleep E d)"
  "extends (poll E p)" "extends (time_time E)" "extends (read_file E s)" "extends (print_out s)"
  "extends (print_err s)" "extends (terminate E p)" "extends (kill E p)" "extends (wait E p t)"
  "extends (close_file E f)" "extends (run_cmd E argv t)" "extends (communicate E p t)"
  "extends (write_file E s s')" "extends (send_signal E p sig)" "extends (urlopen E s)"
  unfolding os_call_defs by (rule extends_act)+

text \<open>
  A process has ended, as far as the script can know, once it was sent a termination or a
  \<^verbatim>\<open>poll()\<close> found it finished.
\<close>

definition found_finished :: "env \<Rightarrow> nat \<Rightarrow> hist \<Rightarrow> bool" where
  "found_finished E p h \<longleftrightarrow> (\<exists>k < length h. h ! k = Poll p \<and> poll_ans E (take k h) p \<noteq> None)"

definition ended :: "env \<Rightarrow> nat \<Rightarrow> hist \<Rightarrow> bool" where
  "ended E p h \<longleftrightarrow> p \<in> set (terminated h) \<or> found_finished E p h"

lemma ended_append: "ended E p h \<Longrightarrow> ended E p (h @ es)"
  by (fastforce simp: ended_def found_finished_def observe_append nth_append)

lemma found_finished_poll: "poll_ans E h p \<noteq> None \<Longrightarrow> found_finished E p (h @ [Poll p])"
  by (auto simp: found_finished_def intro!: exI [of _ "length h"])

end
