(* ===== verification/Sidecar_Harness.thy ===== *)
theory Sidecar_Harness
  imports Py_Os
begin

text \<open>
  The part the \<^verbatim>\<open>nats_sidecar_*.py\<close> scripts have in common: starting a server and a
  fleet of sidecar processes, stopping each of them in a \<^verbatim>\<open>finally\<close> block, asking every
  instance's control subject to register the filter, and reading the subscriber's
  report. The locale \<open>sidecar_fleet\<close> states what a script's own launch functions and
  body have to promise, and proves once what the teardown then guarantees.
\<close>

section \<open>Stopping a process\<close>

text \<open>
  \<^verbatim>\<open>stop(p)\<close>: terminate and wait five seconds; on any \<^verbatim>\<open>Exception\<close> kill and wait again;
  a second \<^verbatim>\<open>Exception\<close> is swallowed.
\<close>

definition stop :: "env \<Rightarrow> nat \<Rightarrow> unit os" where
  "stop E p =
     try_except (andthen (terminate E p) (wait E p 5))
       (try_except (andthen (kill E p) (wait E p 5))
          (ret ()))"

section \<open>A fleet and its teardown\<close>

text \<open>
  \<^verbatim>\<open>for i in ...: sp, sl = start_sidecar(...); sidecars.append((sp, sl, ...))\<close>:
  the list built so far survives an exception, since the \<^verbatim>\<open>finally\<close> block reads it.
\<close>

type_synonym 'c sidecar = "nat \<times> nat \<times> 'c"

fun launch_all ::
  "('i \<Rightarrow> 'c sidecar os) \<Rightarrow> 'i list \<Rightarrow> 'c sidecar list \<Rightarrow> hist
   \<Rightarrow> (exc + unit) \<times> 'c sidecar list \<times> hist" where
  "launch_all start [] sidecars h = (Inr (), sidecars, h)"
| "launch_all start (i # is) sidecars h =
     (case start i h of
        (Inl e, h') \<Rightarrow> (Inl e, sidecars, h')
      | (Inr sc, h') \<Rightarrow> launch_all start is (sidecars @ [sc]) h')"

text \<open>The \<^verbatim>\<open>finally\<close> block: every sidecar in launch order, then the server.\<close>

definition stop_sidecar :: "env \<Rightarrow> 'c sidecar \<Rightarrow> unit os" where
  "stop_sidecar E sc = (case sc of (sp, sl, _) \<Rightarrow> andthen (stop E sp) (close_file E sl))"

definition teardown :: "env \<Rightarrow> 'c sidecar list \<Rightarrow> nat \<Rightarrow> nat \<Rightarrow> unit os" where
  "teardown E sidecars server slog =
     andthen (for_each (stop_sidecar E) sidecars)
       (andthen (stop E server) (close_file E slog))"

text \<open>
  \<^verbatim>\<open>server, slog = start_server(...)\<close> outside the \<^verbatim>\<open>try\<close>, the launches and the body
  inside it, the teardown in the \<^verbatim>\<open>finally\<close>.
\<close>

definition with_fleet ::
  "env \<Rightarrow> (nat \<times> nat) os \<Rightarrow> ('i \<Rightarrow> 'c sidecar os) \<Rightarrow> 'i list
   \<Rightarrow> (nat \<Rightarrow> 'c sidecar list \<Rightarrow> 'a os) \<Rightarrow> 'a os" where
  "with_fleet E start_server start is body =
     bind start_server (\<lambda>(server, slog). \<lambda>h.
       (case launch_all start is [] h of
          (r, sidecars, h1) \<Rightarrow>
            try_finally
              (\<lambda>h. case r of Inl e \<Rightarrow> (Inl e, h) | Inr _ \<Rightarrow> body server sidecars h)
              (teardown E sidecars server slog) h1))"

text \<open>A result of the whole run is a result of the body, after all launches succeeded.\<close>

lemma with_fleet_result:
  assumes "with_fleet E start_server start is body h = (Inr x, h')"
  obtains server scs h1 h2 where "body server scs h1 = (Inr x, h2)"
  using assms
  by (auto simp: with_fleet_def bind_def try_finally_def split: prod.splits sum.splits)

section \<open>Asking the instances\<close>

text \<open>
  \<^verbatim>\<open>for ... in sidecars: if sp.poll() is not None: print(...); return None\<close>;
  the answer is whether the loop ran to its end.
\<close>

fun poll_all :: "env \<Rightarrow> ('c \<Rightarrow> string) \<Rightarrow> 'c sidecar list \<Rightarrow> bool os" where
  "poll_all E msg [] = ret True"
| "poll_all E msg ((sp, sl, c) # scs) =
     bind (poll E sp) (\<lambda>rc.
       if rc \<noteq> None then andthen (print_err (msg c)) (ret False)
       else poll_all E msg scs)"

text \<open>The quoted word \<^verbatim>\<open>"error"\<close>, with its quotes, as the scripts search for it.\<close>

definition error_mark :: string where
  "error_mark = [CHR 0x22] @ ''error'' @ [CHR 0x22]"

text \<open>
  \<^verbatim>\<open>for ...: reply = run_ctrl(...); if '"error"' in reply: print(...); return None\<close>
\<close>

fun ctrl_all :: "('s \<Rightarrow> string os) \<Rightarrow> ('s \<Rightarrow> string) \<Rightarrow> 's list \<Rightarrow> bool os" where
  "ctrl_all run_ctrl msg [] = ret True"
| "ctrl_all run_ctrl msg (s # ss) =
     bind (run_ctrl s) (\<lambda>reply.
       if py_in error_mark reply then andthen (print_err (msg s @ reply)) (ret False)
       else ctrl_all run_ctrl msg ss)"

lemma bystander_poll_all [bystander_intros]: "bystander (poll_all E msg scs)"
  by (induction E msg scs rule: poll_all.induct) (simp_all add: bystander_intros)

lemma bystander_ctrl_all [bystander_intros]:
  "(\<And>s. bystander (rc s)) \<Longrightarrow> bystander (ctrl_all rc msg ss)"
  by (induction ss) (simp_all add: bystander_intros)

section \<open>What the stop and the teardown do\<close>

definition calm :: "env \<Rightarrow> bool" where
  "calm E \<longleftrightarrow>
     (\<forall>h p. terminate_ans E h p \<noteq> Inl KeyboardInterrupt \<and> kill_ans E h p \<noteq> Inl KeyboardInterrupt
        \<and> wait_ans E h p \<noteq> Inl KeyboardInterrupt)
   \<and> (\<forall>h f. close_ans E h f = Inr ()) \<and> (\<forall>h. \<not> interrupted E h)"

lemmas stop_unfold = stop_def try_except_def andthen_def bind_def act_def ret_def
  terminate_def kill_def wait_def

lemma stop_observed:
  assumes "\<And>k t. ob k (Wait p t) = []" and "\<And>k. ob k (Kill p) = []"
  shows "observe ob (snd (stop E p h)) = observe ob h @ ob (length h) (Terminate p)"
  using assms
  by (simp add: stop_unfold trace_simps split: sum.split prod.split)

lemma stop_calm: "calm E \<Longrightarrow> fst (stop E p h) = Inr ()"
  by (auto simp: calm_def stop_unfold is_Exception_def split: sum.splits prod.splits)

lemma stop_sidecar_calm:
  assumes "calm E"
  shows "\<exists>h'. stop_sidecar E (sp, sl, c) h = (Inr (), h') \<and> logged h' = logged h
           \<and> terminated h' = terminated h @ [sp] \<and> closed_logs h' = closed_logs h @ [sl]"
proof -
  obtain h1 where h1: "stop E sp h = (Inr (), h1)"
    using stop_calm [OF assms, of sp h] by (metis prod.collapse)
  have "observe ob h1 = observe ob h @ ob (length h) (Terminate sp)"
    if "\<And>k t. ob k (Wait sp t) = []" "\<And>k. ob k (Kill sp) = []" for ob :: "nat \<Rightarrow> event \<Rightarrow> 'b list"
    using stop_observed [of ob sp E h] that h1 by simp
  note obs = this
  have "close_ans E h1 sl = Inr ()"
    using assms by (simp add: calm_def)
  with h1 show ?thesis
    by (auto simp: stop_sidecar_def andthen_def bind_def close_file_def act_def observe_snoc
        obs observer_defs)
qed

lemma stop_all_calm:
  assumes "calm E"
  shows "\<exists>h'. for_each (stop_sidecar E) scs h = (Inr (), h') \<and> logged h' = logged h
           \<and> terminated h' = terminated h @ map fst scs
           \<and> closed_logs h' = closed_logs h @ map (fst \<circ> snd) scs"
proof (induction scs arbitrary: h)
  case Nil
  then show ?case by (simp add: ret_def)
next
  case (Cons sc scs)
  obtain sp sl c where sc: "sc = (sp, sl, c)" by (cases sc) auto
  obtain h1 where h1: "stop_sidecar E sc h = (Inr (), h1)" "logged h1 = logged h"
      "terminated h1 = terminated h @ [sp]" "closed_logs h1 = closed_logs h @ [sl]"
    using stop_sidecar_calm [OF assms, of sp sl c h] sc by auto
  obtain h' where "for_each (stop_sidecar E) scs h1 = (Inr (), h')" "logged h' = logged h1"
      "terminated h' = terminated h1 @ map fst scs"
      "closed_logs h' = closed_logs h1 @ map (fst \<circ> snd) scs"
    using Cons.IH by blast
  with h1 sc show ?case by (auto simp: andthen_eq_Inr)
qed

lemma teardown_calm:
  assumes "calm E"
  shows "\<exists>h'. teardown E scs server slog h = (Inr (), h') \<and> logged h' = logged h
           \<and> terminated h' = terminated h @ map fst scs @ [server]
           \<and> closed_logs h' = closed_logs h @ map (fst \<circ> snd) scs @ [slog]"
proof -
  obtain h1 where h1: "for_each (stop_sidecar E) scs h = (Inr (), h1)" "logged h1 = logged h"
      "terminated h1 = terminated h @ map fst scs"
      "closed_logs h1 = closed_logs h @ map (fst \<circ> snd) scs"
    using stop_all_calm [OF assms] by blast
  obtain h2 where "stop_sidecar E (server, slog, ()) h1 = (Inr (), h2)" "logged h2 = logged h1"
      "terminated h2 = terminated h1 @ [server]" "closed_logs h2 = closed_logs h1 @ [slog]"
    using stop_sidecar_calm [OF assms, of server slog "()" h1] by blast
  moreover have "teardown E scs server slog h = stop_sidecar E (server, slog, ()) h1"
    using h1(1) by (simp add: teardown_def stop_sidecar_def andthen_def bind_def)
  ultimately show ?thesis using h1 by simp
qed

section \<open>The contract of a fleet script\<close>

text \<open>
  What a script provides: a launch of the server and of one sidecar, each of which
  starts at most one logged process, namely the one it returns; and a body that starts
  no logged process and stops none.
\<close>

definition launches :: "('r \<Rightarrow> nat \<times> nat) \<Rightarrow> 'r os \<Rightarrow> bool" where
  "launches handle m \<longleftrightarrow>
     (\<forall>h r h'. m h = (r, h') \<longrightarrow>
        logged h' = logged h @ (case r of Inl _ \<Rightarrow> [] | Inr x \<Rightarrow> [handle x])
      \<and> terminated h' = terminated h \<and> closed_logs h' = closed_logs h)"

definition sidecar_handle :: "'c sidecar \<Rightarrow> nat \<times> nat" where
  "sidecar_handle sc = (fst sc, fst (snd sc))"

lemma launchesD:
  assumes "launches handle m" and "m h = (r, h')"
  shows "logged h' = logged h @ (case r of Inl _ \<Rightarrow> [] | Inr x \<Rightarrow> [handle x])"
    and "terminated h' = terminated h" and "closed_logs h' = closed_logs h"
  using assms by (auto simp: launches_def)

locale sidecar_fleet =
  fixes E :: env
    and start_server :: "(nat \<times> nat) os"
    and start :: "'i \<Rightarrow> 'c sidecar os"
    and body :: "nat \<Rightarrow> 'c sidecar list \<Rightarrow> 'a os"
  assumes server_launch: "calm E \<Longrightarrow> launches id start_server"
    and sidecar_launch: "calm E \<Longrightarrow> launches sidecar_handle (start i)"
    and body_bystander: "bystander (body server scs)"
begin

lemma launch_all_observed:
  assumes "calm E" "launch_all start is acc h = (r, scs, h')"
  shows "\<exists>new. scs = acc @ new \<and> logged h' = logged h @ map sidecar_handle new
           \<and> terminated h' = terminated h \<and> closed_logs h' = closed_logs h"
  using assms(2)
proof (induction "is" arbitrary: acc h)
  case Nil
  then show ?case by simp
next
  case (Cons i "is")
  obtain r1 h1 where r1: "start i h = (r1, h1)" by (cases "start i h")
  note l = launchesD [OF sidecar_launch [OF assms(1)] r1]
  show ?case
  proof (cases r1)
    case (Inl e)
    with Cons.prems r1 l show ?thesis by simp
  next
    case (Inr sc)
    with Cons.prems r1 have "launch_all start is (acc @ [sc]) h1 = (r, scs, h')" by simp
    from Cons.IH [OF this] l Inr show ?thesis by auto
  qed
qed

text \<open>
  Whatever happens (an exception, an early return, a result), every logged process the
  run started is terminated exactly once and its log closed exactly once: the sidecars in
  launch order, the server last. \<open>rotate1\<close> moves the head of the list to its end.
\<close>

lemma fleet_stopped:
  assumes calm: "calm E" and run: "with_fleet E start_server start is body h = (r, h')"
  shows "\<exists>new. logged h' = logged h @ new
           \<and> terminated h' = terminated h @ rotate1 (map fst new)
           \<and> closed_logs h' = closed_logs h @ rotate1 (map snd new)"
proof -
  obtain rs h1 where rs: "start_server h = (rs, h1)" by (cases "start_server h")
  note ls = launchesD [OF server_launch [OF calm] rs]
  show ?thesis
  proof (cases rs)
    case (Inl e)
    with run rs ls show ?thesis by (auto simp: with_fleet_def bind_def)
  next
    case (Inr sv)
    obtain server slog where sv: "sv = (server, slog)" by (cases sv)
    obtain rl scs h2 where rl: "launch_all start is [] h1 = (rl, scs, h2)"
      by (cases "launch_all start is [] h1") auto
    have ll: "logged h2 = logged h1 @ map sidecar_handle scs"
        "terminated h2 = terminated h1" "closed_logs h2 = closed_logs h1"
      using launch_all_observed [OF calm rl] by auto
    define m where "m = (\<lambda>h. case rl of Inl e \<Rightarrow> (Inl e, h) | Inr _ \<Rightarrow> body server scs h)"
    obtain rb h3 where rb: "m h2 = (rb, h3)" by (cases "m h2")
    have lb: "logged h3 = logged h2" "terminated h3 = terminated h2" "closed_logs h3 = closed_logs h2"
      using rb bystanderD [OF body_bystander] by (auto simp: m_def split: sum.splits)
    obtain h4 where h4: "teardown E scs server slog h3 = (Inr (), h4)" "logged h4 = logged h3"
        "terminated h4 = terminated h3 @ map fst scs @ [server]"
        "closed_logs h4 = closed_logs h3 @ map (fst \<circ> snd) scs @ [slog]"
      using teardown_calm [OF calm] by blast
    have "h' = h4"
      using run rs Inr sv rl rb h4(1)
      by (simp add: with_fleet_def bind_def try_finally_def m_def)
    with ls Inr sv ll lb h4 show ?thesis
      by (intro exI [of _ "(server, slog) # map sidecar_handle scs"])
        (simp add: sidecar_handle_def comp_def)
  qed
qed

end

end
