(* ===== verification/Report_Lines.thy ===== *)
theory Report_Lines
  imports Py_Text
begin

text \<open>
  The report the subscriber prints and how the scripts read it. The driver
  \<^verbatim>\<open>mq_bench_driver.cpp\<close> ends a run with one line
  \<^verbatim>\<open>SUB_DONE total=<n> wrong=<n> secs=<s> rate=<r>\<close>; a script takes the last line of
  the captured output and picks the values out of its \<^verbatim>\<open>key=value\<close> tokens. Two
  versions of the picking exist side by side: the function \<^verbatim>\<open>parse(line, key)\<close> and an
  inline loop over \<^verbatim>\<open>total\<close> and \<^verbatim>\<open>wrong\<close>.
\<close>

section \<open>The scripts' side\<close>

text \<open>\<^verbatim>\<open>sub_out.strip().splitlines()[-1] if sub_out.strip() else "NONE"\<close>\<close>

definition sub_line_of :: "string \<Rightarrow> string" where
  "sub_line_of sub_out =
     (if py_strip sub_out \<noteq> [] then last (py_splitlines (py_strip sub_out)) else ''NONE'')"

text \<open>
  \<^verbatim>\<open>parse(line, key)\<close>: a dictionary of all tokens with an equals sign, a later token
  overwriting an earlier one with the same key.
\<close>

definition add_part :: "string \<Rightarrow> (string \<rightharpoonup> string) \<Rightarrow> (string \<rightharpoonup> string)" where
  "add_part tok parts =
     (if CHR ''='' \<in> set tok then (case split_eq tok of (k, v) \<Rightarrow> parts(k \<mapsto> v)) else parts)"

definition parse :: "string \<Rightarrow> string \<Rightarrow> string option" where
  "parse line key = fold add_part (py_split line) Map.empty key"

text \<open>The inline loop: \<^verbatim>\<open>tot = wrong = None; for tok in sub_line.split(): ...\<close>\<close>

definition scan_tok ::
  "string \<Rightarrow> string option \<times> string option \<Rightarrow> string option \<times> string option" where
  "scan_tok tok tw =
     (case tw of (tot, wrong) \<Rightarrow>
        if CHR ''='' \<in> set tok then
          (case split_eq tok of (k, v) \<Rightarrow>
             if k = ''total'' then (Some v, wrong)
             else if k = ''wrong'' then (tot, Some v)
             else (tot, wrong))
        else (tot, wrong))"

definition scan_totals :: "string \<Rightarrow> string option \<times> string option" where
  "scan_totals line = fold scan_tok (py_split line) (None, None)"

section \<open>The driver's side\<close>

text \<open>
  \<^verbatim>\<open>std::cout << "SUB_DONE total=" << tot << " wrong=" << ...\<close>. The counters are
  \<^verbatim>\<open>long\<close> values that only grow from zero; the text of the two floating-point values
  is whatever the stream prints.
\<close>

definition sub_done_line :: "nat \<Rightarrow> nat \<Rightarrow> string \<Rightarrow> string \<Rightarrow> string" where
  "sub_done_line tot wrong secs rate =
     ''SUB_DONE total='' @ str_nat tot @ '' wrong='' @ str_nat wrong
       @ '' secs='' @ secs @ '' rate='' @ rate"

section \<open>Splitting into tokens and lines\<close>

lemma py_split_token:
  assumes "tok \<noteq> []" and "\<forall>c \<in> set tok. \<not> py_isspace c"
    and "rest = [] \<or> py_isspace (hd rest)"
  shows "py_split (tok @ rest) = tok # py_split rest"
proof -
  obtain c t where tok: "tok = c # t" using assms(1) by (cases tok) auto
  have "takeWhile (\<lambda>d. \<not> py_isspace d) (t @ rest) = t"
    using assms tok by (cases rest) (auto simp: takeWhile_append takeWhile_eq_all_conv)
  moreover have "dropWhile (\<lambda>d. \<not> py_isspace d) (t @ rest) = rest"
    using assms tok by (cases rest) (auto simp: dropWhile_append)
  ultimately show ?thesis using assms tok by simp
qed

lemma py_split_single:
  "tok \<noteq> [] \<Longrightarrow> \<forall>c \<in> set tok. \<not> py_isspace c \<Longrightarrow> py_split tok = [tok]"
  using py_split_token [of tok "[]"] by simp

lemma py_isspace_blank [simp]: "py_isspace (CHR '' '')"
  by (simp add: py_isspace_def)

text \<open>Blank-separated tokens come back from \<^verbatim>\<open>split()\<close>.\<close>

definition is_token :: "string \<Rightarrow> bool" where
  "is_token tok \<longleftrightarrow> tok \<noteq> [] \<and> (\<forall>c \<in> set tok. \<not> py_isspace c)"

lemma py_split_join:
  "\<forall>tok \<in> set toks. is_token tok \<Longrightarrow> py_split (py_join '' '' toks) = toks"
proof (induction "'' ''" toks rule: py_join.induct)
  case (3 p q ps)
  have "py_split (p @ '' '' @ py_join '' '' (q # ps)) = p # py_split ('' '' @ py_join '' '' (q # ps))"
    using 3 by (intro py_split_token) (auto simp: is_token_def)
  with 3 show ?case by simp
qed (auto simp: is_token_def intro: py_split_single)

lemma is_token_kv:
  "is_token k \<Longrightarrow> \<forall>c \<in> set v. \<not> py_isspace c \<Longrightarrow> is_token (k @ v)"
  by (auto simp: is_token_def)

lemma isnewline_isspace: "py_isnewline c \<Longrightarrow> py_isspace c"
  by (auto simp: py_isnewline_def py_isspace_def)

lemma join_blank_Cons:
  "toks \<noteq> [] \<Longrightarrow> py_join '' '' (t # toks) = t @ CHR 0x20 # py_join '' '' toks"
  by (cases toks) auto

lemma token_line:
  assumes "\<forall>t \<in> set toks. is_token t" "toks \<noteq> []"
  shows "py_join '' '' toks \<noteq> [] \<and> \<not> py_isspace (hd (py_join '' '' toks))
    \<and> \<not> py_isspace (last (py_join '' '' toks)) \<and> (\<forall>c \<in> set (py_join '' '' toks). \<not> py_isnewline c)"
  using assms
proof (induction toks)
  case (Cons t toks)
  then have t: "t \<noteq> []" "\<forall>c \<in> set t. \<not> py_isspace c" by (auto simp: is_token_def)
  then have t': "\<not> py_isspace (hd t)" "\<not> py_isspace (last t)" "\<forall>c \<in> set t. \<not> py_isnewline c"
    by (auto dest: isnewline_isspace)
  show ?case
  proof (cases "toks = []")
    case True
    with t t' show ?thesis by simp
  next
    case False
    moreover have "\<not> py_isnewline (CHR 0x20)" by (simp add: py_isnewline_def)
    ultimately show ?thesis using Cons t t' by (auto simp: join_blank_Cons)
  qed
qed simp

lemma py_split_sub_done:
  assumes "\<forall>c \<in> set secs. \<not> py_isspace c" and "\<forall>c \<in> set rate. \<not> py_isspace c"
  shows "py_split (sub_done_line tot wrong secs rate) =
    [''SUB_DONE'', ''total='' @ str_nat tot, ''wrong='' @ str_nat wrong,
     ''secs='' @ secs, ''rate='' @ rate]" (is "_ = ?toks")
proof -
  have "sub_done_line tot wrong secs rate = py_join '' '' ?toks"
    by (simp add: sub_done_line_def)
  moreover have "is_token ''SUB_DONE''" "is_token ''total=''" "is_token ''wrong=''"
    "is_token ''secs=''" "is_token ''rate=''"
    by (simp_all add: is_token_def py_isspace_def)
  then have "\<forall>tok \<in> set ?toks. is_token tok"
    using assms by (simp add: is_token_kv str_nat_no_space del: append_Cons)
  ultimately show ?thesis using py_split_join by metis
qed

text \<open>The last line of a text is found whatever precedes it.\<close>

lemma splitlines_no_break:
  "\<forall>c \<in> set s. \<not> py_isnewline c \<Longrightarrow> s \<noteq> [] \<or> cur \<noteq> [] \<Longrightarrow> py_splitlines_aux cur s = [rev cur @ s]"
  by (induction cur s rule: py_splitlines_aux.induct) (auto simp: py_isnewline_def)

lemma splitlines_first:
  "\<forall>c \<in> set line. \<not> py_isnewline c \<Longrightarrow>
   py_splitlines_aux cur (line @ CHR 0x0A # rest) = (rev cur @ line) # py_splitlines_aux [] rest"
proof (induction line arbitrary: cur)
  case Nil
  then show ?case by (cases rest) (simp_all add: py_isnewline_def)
next
  case (Cons c line)
  then show ?case by (cases line) (auto simp: py_isnewline_def)
qed

lemma splitlines_last:
  assumes "line \<noteq> []" and "\<forall>c \<in> set line. \<not> py_isnewline c"
  shows "last (py_splitlines_aux cur (pre @ CHR 0x0A # line)) = line
    \<and> py_splitlines_aux cur (pre @ CHR 0x0A # line) \<noteq> []"
proof (induction cur pre rule: py_splitlines_aux.induct)
  case (1 cur)
  obtain d s where l: "line = d # s" using assms(1) by (cases line) auto
  then show ?case using splitlines_no_break [OF assms(2), of "[]"] assms
    by (simp add: py_isnewline_def)
next
  case (2 cur c)
  obtain d s where l: "line = d # s" using assms(1) by (cases line) auto
  then show ?case using splitlines_no_break [OF assms(2), of "[]"] assms
    by (auto simp: py_isnewline_def)
next
  case (3 cur c d s)
  then show ?case by auto
qed

lemma strip_with_ends:
  assumes "s \<noteq> []" "\<not> P (hd s)" "\<not> P (last s)"
  shows "strip_with P s = s"
proof -
  have "dropWhile P s = s" using assms by (cases s) auto
  moreover have "dropWhile P (rev s) = rev s"
    using assms by (cases "rev s") (auto simp: hd_rev [symmetric])
  ultimately show ?thesis by (simp add: strip_with_def)
qed

lemma dropWhile_blank_prefix:
  assumes "s \<noteq> []" "\<not> P (hd s)"
  shows "dropWhile P (pre @ s) = dropWhile P pre @ s"
  using assms by (induction pre) (cases s; auto)+

text \<open>
  Stripping an output that ends in \<open>line\<close> and a line feed removes that line feed and the
  leading white space.
\<close>

lemma py_strip_report:
  assumes "line \<noteq> []" "\<not> py_isspace (hd line)" "\<not> py_isspace (last line)"
  shows "py_strip (pre @ line @ [CHR 0x0A]) = dropWhile py_isspace pre @ line"
proof -
  have nl: "py_isspace (CHR 0x0A)" by (simp add: py_isspace_def)
  have "dropWhile py_isspace (pre @ line @ [CHR 0x0A]) = dropWhile py_isspace pre @ line @ [CHR 0x0A]"
    using assms by (intro dropWhile_blank_prefix) auto
  moreover have "dropWhile py_isspace (rev (dropWhile py_isspace pre @ line @ [CHR 0x0A]))
      = rev (dropWhile py_isspace pre @ line)"
    using assms nl by (cases "rev line") (auto simp: hd_rev [symmetric])
  ultimately show ?thesis by (simp add: py_strip_def strip_with_def)
qed

lemma dropWhile_last: "dropWhile P xs \<noteq> [] \<Longrightarrow> last (dropWhile P xs) = last xs"
  by (induction xs) (auto split: if_splits)

lemma sub_line_of_report:
  assumes line: "line \<noteq> []" "\<not> py_isspace (hd line)" "\<not> py_isspace (last line)"
      "\<forall>c \<in> set line. \<not> py_isnewline c"
    and pre: "pre = [] \<or> last pre = CHR 0x0A"
  shows "sub_line_of (pre @ line @ [CHR 0x0A]) = line"
proof -
  let ?q = "dropWhile py_isspace pre"
  have strip: "py_strip (pre @ line @ [CHR 0x0A]) = ?q @ line"
    using line by (intro py_strip_report)
  have "last (py_splitlines (?q @ line)) = line"
  proof (cases "?q = []")
    case True
    show ?thesis
      unfolding True using splitlines_no_break [of line "[]"] line by (simp add: py_splitlines_def)
  next
    case False
    then have "last ?q = CHR 0x0A" using False pre dropWhile_last [OF False] by auto
    then obtain q where q: "?q = q @ [CHR 0x0A]" using False by (metis append_butlast_last_id)
    show ?thesis
      using splitlines_last [OF line(1,4), of "[]" q] unfolding q by (simp add: py_splitlines_def)
  qed
  with strip line show ?thesis by (simp add: sub_line_of_def)
qed

section \<open>Properties\<close>

lemma scan_fold_parse:
  "fold scan_tok toks (m ''total'', m ''wrong'') =
     (fold add_part toks m ''total'', fold add_part toks m ''wrong'')"
proof (induction toks arbitrary: m)
  case (Cons tok toks)
  have "scan_tok tok (m ''total'', m ''wrong'') = (add_part tok m ''total'', add_part tok m ''wrong'')"
    by (auto simp: scan_tok_def add_part_def split: prod.splits)
  with Cons [of "add_part tok m"] show ?case by simp
qed simp

text \<open>
  The two ways the scripts read a report line agree: the inline loop over
  \<^verbatim>\<open>total\<close> and \<^verbatim>\<open>wrong\<close> gives, for every line, exactly what \<^verbatim>\<open>parse\<close> returns
  for these two keys, repeated keys included.
\<close>

theorem scan_totals_eq_parse:
  "scan_totals line = (parse line ''total'', parse line ''wrong'')"
  using scan_fold_parse [of "py_split line" Map.empty]
  by (simp add: scan_totals_def parse_def)

lemma scan_sub_done:
  assumes "\<forall>c \<in> set secs. \<not> py_isspace c" "\<forall>c \<in> set rate. \<not> py_isspace c"
  shows "scan_totals (sub_done_line tot wrong secs rate) = (Some (str_nat tot), Some (str_nat wrong))"
  using assms by (simp add: scan_totals_def py_split_sub_done scan_tok_def split_eq_def)

lemma sub_done_line_shape:
  assumes "\<forall>c \<in> set secs. \<not> py_isspace c" "\<forall>c \<in> set rate. \<not> py_isspace c" "rate \<noteq> []"
  shows "sub_done_line tot wrong secs rate \<noteq> []"
    and "\<not> py_isspace (hd (sub_done_line tot wrong secs rate))"
    and "\<not> py_isspace (last (sub_done_line tot wrong secs rate))"
    and "\<forall>c \<in> set (sub_done_line tot wrong secs rate). \<not> py_isnewline c"
proof -
  have nl: "py_isnewline c \<Longrightarrow> py_isspace c" for c
    by (auto simp: py_isnewline_def py_isspace_def)
  have lits: "\<forall>c \<in> set ''SUB_DONE total=''. \<not> py_isnewline c" "\<forall>c \<in> set '' wrong=''. \<not> py_isnewline c"
    "\<forall>c \<in> set '' secs=''. \<not> py_isnewline c" "\<forall>c \<in> set '' rate=''. \<not> py_isnewline c"
    by (simp_all add: py_isnewline_def)
  show "\<not> py_isspace (last (sub_done_line tot wrong secs rate))"
    using assms by (simp add: sub_done_line_def)
  show "\<forall>c \<in> set (sub_done_line tot wrong secs rate). \<not> py_isnewline c"
    unfolding sub_done_line_def set_append using assms(1,2) nl str_nat_no_space lits by blast
qed (simp_all add: sub_done_line_def py_isspace_def)

text \<open>
  C8. Reading back what the driver wrote: if the subscriber's output ends with the
  driver's report line, whatever complete lines it logged before, then the script's last
  line is that report, the \<^verbatim>\<open>total\<close> and \<^verbatim>\<open>wrong\<close> it extracts are the decimal texts of
  the driver's two counters, and \<^verbatim>\<open>int()\<close> of the total gives the counter itself. The
  texts of the two floating-point values only have to be free of white space.
\<close>

theorem report_roundtrip:
  assumes "\<forall>c \<in> set secs. \<not> py_isspace c" and "\<forall>c \<in> set rate. \<not> py_isspace c"
    and "rate \<noteq> []" and "noise = [] \<or> last noise = CHR 0x0A"
    and "sub_out = noise @ sub_done_line tot wrong secs rate @ [CHR 0x0A]"
  shows "scan_totals (sub_line_of sub_out) = (Some (str_nat tot), Some (str_nat wrong))
    \<and> py_int (str_nat tot) = Some (int tot)"
  using assms sub_line_of_report [OF sub_done_line_shape [OF assms(1-3)] assms(4)]
  by (simp add: scan_sub_done)

theorem report_roundtrip_witness:
  "scan_totals (sub_line_of (''conn error: x'' @ [CHR 0x0A] @
     sub_done_line 21683 0 ''1.25'' ''17346.4'' @ [CHR 0x0A])) = (Some (str_nat 21683), Some (str_nat 0))
   \<and> py_int (str_nat 21683) = Some (int 21683)"
  using report_roundtrip [of "''1.25''" "''17346.4''" "''conn error: x'' @ [CHR 0x0A]" _ 21683 0, OF _ _ _ _ refl]
  by (simp add: py_isspace_def)

end
