(* ===== verification/Py_Float.thy ===== *)
theory Py_Float
  imports Py_Text
begin

text \<open>
  Python's floating-point values as far as the scripts use them: times and rates are exact
  rationals (rounding of the 53-bit mantissa is not modelled), together with the infinities
  and NaN, of which the scripts create \<^verbatim>\<open>float("nan")\<close> and \<^verbatim>\<open>float("inf")\<close>; true division
  with its \<^verbatim>\<open>ZeroDivisionError\<close>; and the fixed-point formats \<^verbatim>\<open>:.0f\<close>, \<^verbatim>\<open>:.2f\<close>, \<dots>
\<close>

datatype pyfloat = Fin rat | Inf | NegInf | NaN

fun fl_add :: "pyfloat \<Rightarrow> pyfloat \<Rightarrow> pyfloat" where
  "fl_add (Fin a) (Fin b) = Fin (a + b)"
| "fl_add NaN b = NaN"
| "fl_add a NaN = NaN"
| "fl_add Inf NegInf = NaN"
| "fl_add NegInf Inf = NaN"
| "fl_add Inf b = Inf"
| "fl_add a Inf = Inf"
| "fl_add a b = NegInf"

fun fl_neg :: "pyfloat \<Rightarrow> pyfloat" where
  "fl_neg (Fin a) = Fin (- a)"
| "fl_neg Inf = NegInf"
| "fl_neg NegInf = Inf"
| "fl_neg NaN = NaN"

definition fl_sub :: "pyfloat \<Rightarrow> pyfloat \<Rightarrow> pyfloat" where
  "fl_sub a b = fl_add a (fl_neg b)"

text \<open>\<^verbatim>\<open>a / b\<close>: a zero divisor raises, whatever the dividend.\<close>

fun fl_div :: "pyfloat \<Rightarrow> pyfloat \<Rightarrow> exc + pyfloat" where
  "fl_div a (Fin b) =
     (if b = 0 then Inl ZeroDivisionError
      else Inr (case a of Fin x \<Rightarrow> Fin (x / b) | NaN \<Rightarrow> NaN
                | Inf \<Rightarrow> if 0 < b then Inf else NegInf
                | NegInf \<Rightarrow> if 0 < b then NegInf else Inf))"
| "fl_div a b =
     Inr (case a of Fin x \<Rightarrow> (if b = NaN then NaN else Fin 0) | _ \<Rightarrow> NaN)"

text \<open>\<^verbatim>\<open>a < b\<close>: false whenever a NaN takes part.\<close>

fun fl_less :: "pyfloat \<Rightarrow> pyfloat \<Rightarrow> bool" where
  "fl_less (Fin a) (Fin b) = (a < b)"
| "fl_less NegInf b = (b \<noteq> NegInf \<and> b \<noteq> NaN)"
| "fl_less a Inf = (a \<noteq> Inf \<and> a \<noteq> NaN)"
| "fl_less a b = False"

text \<open>\<^verbatim>\<open>bool(x)\<close>: every float but zero is true, NaN included.\<close>

definition fl_true :: "pyfloat \<Rightarrow> bool" where
  "fl_true x \<longleftrightarrow> x \<noteq> Fin 0"

text \<open>\<^verbatim>\<open>sum(...)\<close> starts from the integer 0.\<close>

definition fl_sum :: "pyfloat list \<Rightarrow> pyfloat" where
  "fl_sum xs = fold (\<lambda>x acc. fl_add acc x) xs (Fin 0)"

text \<open>Division by the length of a nonempty list.\<close>

fun fl_div_len :: "pyfloat \<Rightarrow> nat \<Rightarrow> pyfloat" where
  "fl_div_len (Fin a) n = Fin (a / of_nat n)"
| "fl_div_len NaN n = NaN"
| "fl_div_len Inf n = Inf"
| "fl_div_len NegInf n = NegInf"

text \<open>\<^verbatim>\<open>a / b\<close> for finite values.\<close>

definition py_truediv :: "rat \<Rightarrow> rat \<Rightarrow> exc + rat" where
  "py_truediv a b = (if b = 0 then Inl ZeroDivisionError else Inr (a / b))"

lemma py_truediv_rate:
  "py_truediv a b = Inr r \<longleftrightarrow> b \<noteq> 0 \<and> r * b = a" "Inr r = py_truediv a b \<longleftrightarrow> b \<noteq> 0 \<and> r * b = a"
  by (auto simp: py_truediv_def)

text \<open>
  \<^verbatim>\<open>float(s)\<close> on the decimal texts: an optional sign, digits with an optional point, an
  optional exponent, and the words for the special values. \<open>None\<close> is the \<^verbatim>\<open>ValueError\<close>.
\<close>

definition digits_or_empty :: "string \<Rightarrow> nat option" where
  "digits_or_empty s = (if s = [] then Some 0 else int_digits False 0 s)"

definition parse_mantissa :: "string \<Rightarrow> rat option" where
  "parse_mantissa s =
     (let a = takeWhile (\<lambda>c. c \<noteq> CHR ''.'') s; b = tl (dropWhile (\<lambda>c. c \<noteq> CHR ''.'') s) in
      if a = [] \<and> b = [] then None
      else (case (digits_or_empty a, digits_or_empty b) of
              (Some x, Some y) \<Rightarrow>
                Some (of_nat x + of_nat y / 10 ^ length (filter (\<lambda>c. c \<noteq> CHR ''_'') b))
            | _ \<Rightarrow> None))"

definition scale10 :: "rat \<Rightarrow> int \<Rightarrow> rat" where
  "scale10 r e = (if 0 \<le> e then r * 10 ^ nat e else r / 10 ^ nat (- e))"

definition lower_char :: "char \<Rightarrow> char" where
  "lower_char c = (let n = (of_char c :: nat) in if 65 \<le> n \<and> n \<le> 90 then char_of (n + 32) else c)"

definition parse_unsigned :: "string \<Rightarrow> pyfloat option" where
  "parse_unsigned s =
     (let l = map lower_char s; m = takeWhile (\<lambda>c. c \<noteq> CHR ''e'') l; x = dropWhile (\<lambda>c. c \<noteq> CHR ''e'') l in
      if l = ''inf'' \<or> l = ''infinity'' then Some Inf
      else if l = ''nan'' then Some NaN
      else (case parse_mantissa m of
              None \<Rightarrow> None
            | Some r \<Rightarrow>
                if x = [] then Some (Fin r)
                else if tl x \<noteq> py_strip (tl x) then None
                else map_option (\<lambda>e. Fin (scale10 r e)) (py_int (tl x))))"

definition py_float :: "string \<Rightarrow> pyfloat option" where
  "py_float s =
     (case py_strip s of
        [] \<Rightarrow> None
      | c # t \<Rightarrow>
          if c = CHR ''-'' then map_option fl_neg (parse_unsigned t)
          else if c = CHR ''+'' then parse_unsigned t
          else parse_unsigned (c # t))"

definition round_half_even :: "rat \<Rightarrow> int" where
  "round_half_even r =
     (let f = \<lfloor>r\<rfloor>; d = r - of_int f
      in if d < 1/2 then f else if 1/2 < d then f + 1 else if even f then f else f + 1)"

definition zfill :: "nat \<Rightarrow> string \<Rightarrow> string" where
  "zfill w s = replicate (w - length s) (CHR ''0'') @ s"

definition rjust :: "nat \<Rightarrow> string \<Rightarrow> string" where
  "rjust w s = replicate (w - length s) (CHR '' '') @ s"

text \<open>\<open>fmt_fixed k x\<close> is \<^verbatim>\<open>f"{x:.kf}"\<close>.\<close>

definition fmt_rat :: "nat \<Rightarrow> rat \<Rightarrow> string" where
  "fmt_rat k r =
     (let n = nat (round_half_even (\<bar>r\<bar> * 10 ^ k));
          digits = (if k = 0 then str_nat n
                    else str_nat (n div 10 ^ k) @ ''.'' @ zfill k (str_nat (n mod 10 ^ k)))
      in if r < 0 then CHR ''-'' # digits else digits)"

fun fmt_fixed :: "nat \<Rightarrow> pyfloat \<Rightarrow> string" where
  "fmt_fixed k (Fin r) = fmt_rat k r"
| "fmt_fixed k NaN = ''nan''"
| "fmt_fixed k Inf = ''inf''"
| "fmt_fixed k NegInf = ''-inf''"

text \<open>\<^verbatim>\<open>f"{x:,.0f}"\<close>: groups of three digits.\<close>

fun group3 :: "string \<Rightarrow> string" where
  "group3 (a # b # c # d # ds) = a # b # c # CHR '','' # group3 (d # ds)"
| "group3 ds = ds"

definition fmt_comma :: "rat \<Rightarrow> string" where
  "fmt_comma r =
     (let digits = rev (group3 (rev (str_nat (nat (round_half_even \<bar>r\<bar>)))))
      in if r < 0 then CHR ''-'' # digits else digits)"

text \<open>The text of a float printed without a format, given the one of the finite values.\<close>

fun pyfloat_repr :: "(rat \<Rightarrow> string) \<Rightarrow> pyfloat \<Rightarrow> string" where
  "pyfloat_repr f (Fin r) = f r"
| "pyfloat_repr f NaN = ''nan''"
| "pyfloat_repr f Inf = ''inf''"
| "pyfloat_repr f NegInf = ''-inf''"

definition py_bool_str :: "bool \<Rightarrow> string" where
  "py_bool_str b = (if b then ''True'' else ''False'')"

text \<open>\<^verbatim>\<open>f"{v}"\<close> for a value that is a string or \<^verbatim>\<open>None\<close>.\<close>

definition str_opt :: "string option \<Rightarrow> string" where
  "str_opt v = (case v of None \<Rightarrow> ''None'' | Some s \<Rightarrow> s)"

lemma round_half_even_of_int [simp]: "round_half_even (of_int i) = i"
  by (simp add: round_half_even_def)

lemma fl_sum_Fin: "fl_sum (map Fin xs) = Fin (sum_list xs)"
proof -
  have "fold (\<lambda>x acc. fl_add acc x) (map Fin xs) (Fin a) = Fin (a + sum_list xs)" for a
    by (induction xs arbitrary: a) (auto simp: add.assoc)
  then show ?thesis by (simp add: fl_sum_def)
qed

end
