(* ===== verification/Sidecar_Config.thy ===== *)
theory Sidecar_Config
  imports Sidecar_Harness Report_Lines Py_Float
begin

text \<open>
  The settings the \<^verbatim>\<open>nats_sidecar_*.py\<close> scripts repeat (program paths, the real-data
  fixture and its ground truth), the calls they make with them, and the stages of a run:
  the observer \<open>phase_ev\<close> picks out of a history the server and sidecar launches, the
  control requests, the start of the subscriber, the publish statement and the collection
  of the subscriber's report.
\<close>

section \<open>Module constants\<close>

definition NATS_SERVER :: "env \<Rightarrow> string" where
  "NATS_SERVER E = expanduser E ''/nats-server''"

definition SIDECAR :: "env \<Rightarrow> string" where
  "SIDECAR E = expanduser E ''/nats_sidecar/build-ci/bin/nats_sidecar''"

definition DRIVER :: "env \<Rightarrow> string" where
  "DRIVER E = expanduser E ''/pg_blazingmq/bench/mq_bench_driver''"

definition PSQL :: "string list" where
  "PSQL = [''psql'', ''-h'', ''/var/run/postgresql'', ''postgres'', ''-q'', ''-c'']"

definition EXPECTED :: nat where "EXPECTED = 21683"

definition FILTER_FIELD :: string where "FILTER_FIELD = ''Exchange''"

definition FILTER_VALUE :: string where "FILTER_VALUE = ''N''"

definition INPUT_SUBJECT :: string where "INPUT_SUBJECT = ''sc.real.in''"

definition OUTPUT_PREFIX :: string where "OUTPUT_PREFIX = ''sc.real.out''"

text \<open>\<^verbatim>\<open>f'{FILTER_FIELD} = "{FILTER_VALUE}"'\<close>\<close>

definition filter_expr :: string where
  "filter_expr = FILTER_FIELD @ '' = '' @ [CHR 0x22] @ FILTER_VALUE @ [CHR 0x22]"

section \<open>The calls the scripts share\<close>

text \<open>\<^verbatim>\<open>log = open(path, "w"); p = subprocess.Popen(argv, stdout=log, ...)\<close>\<close>

definition spawn_logged :: "env \<Rightarrow> string \<Rightarrow> string list \<Rightarrow> (nat \<times> nat) os" where
  "spawn_logged E path argv =
     bind (open_w E path) (\<lambda>log. bind (popen E argv (Some log)) (\<lambda>p. ret (p, log)))"

text \<open>The body of \<^verbatim>\<open>start_server\<close>, for the script's own store directory and log file.\<close>

definition start_server_at :: "env \<Rightarrow> string \<Rightarrow> string \<Rightarrow> (nat \<times> nat) os" where
  "start_server_at E store log_path =
     bind (os_path_exists E store) (\<lambda>found.
     andthen (if found then rmtree E store else ret ())
     (andthen (makedirs E store)
     (bind (spawn_logged E log_path [NATS_SERVER E, ''-js'', ''-sd'', store, ''-p'', ''4222''])
        (\<lambda>pl. andthen (sleep E (12/10)) (ret pl)))))"

text \<open>\<^verbatim>\<open>subprocess.run([DRIVER, "ctrl", subject, ...]).stdout.strip()\<close>\<close>

definition run_ctrl :: "env \<Rightarrow> string \<Rightarrow> string os" where
  "run_ctrl E subscribe_subject =
     bind (run_cmd E [DRIVER E, ''ctrl'', subscribe_subject, filter_expr] 10)
       (\<lambda>r. ret (py_strip (out r)))"

definition popen_subfield :: "env \<Rightarrow> nat os" where
  "popen_subfield E =
     popen E [DRIVER E, ''subfield'', OUTPUT_PREFIX @ ''.>'', str_nat EXPECTED, ''90000'',
              FILTER_FIELD, FILTER_VALUE] None"

text \<open>The two publish statements: plain, and the acknowledged stream publish with its flush.\<close>

definition pub_sql_plain :: string where
  "pub_sql_plain =
     ''SELECT nats_publish_binary(''  @ [CHR 0x27] @ INPUT_SUBJECT @ [CHR 0x27]
       @ '', row_to_msgpack(t)) '' @ ''FROM sc_bench_sample t;''"

definition pub_sql_stream :: string where
  "pub_sql_stream =
     ''SELECT nats_publish_binary_stream_async(''  @ [CHR 0x27] @ INPUT_SUBJECT @ [CHR 0x27]
       @ '', row_to_msgpack(t)) '' @ ''FROM sc_bench_sample t; ''
       @ ''SELECT nats_publish_stream_flush();''"

section \<open>Launch contracts\<close>

lemma launches_bind:
  assumes "bystander m" and "\<And>x. launches handle (f x)"
  shows "launches handle (bind m f)"
  unfolding launches_def
proof (intro allI impI)
  fix h r h' assume run: "bind m f h = (r, h')"
  obtain r1 h1 where r1: "m h = (r1, h1)" by (cases "m h")
  then have same: "logged h1 = logged h" "terminated h1 = terminated h" "closed_logs h1 = closed_logs h"
    using bystanderD [OF assms(1)] by auto
  show "logged h' = logged h @ (case r of Inl _ \<Rightarrow> [] | Inr x \<Rightarrow> [handle x])
      \<and> terminated h' = terminated h \<and> closed_logs h' = closed_logs h"
    using run r1 same launchesD [OF assms(2)]
    by (cases r1) (auto simp: bind_def)
qed

lemma launches_andthen:
  "bystander m \<Longrightarrow> launches handle k \<Longrightarrow> launches handle (andthen m k)"
  unfolding andthen_def by (intro launches_bind)

lemma launches_spawn: "launches id (spawn_logged E path argv)"
  by (auto simp: launches_def spawn_logged_def bind_def open_w_def popen_def
      trace_simps observer_defs split: sum.splits prod.splits)

text \<open>A launch may be followed by a step that cannot fail and shows nothing.\<close>

lemma launches_then:
  assumes "launches handle m"
    and k: "\<And>x h. \<exists>h' y. k x h = (Inr y, h') \<and> handle' y = handle x \<and> logged h' = logged h
              \<and> terminated h' = terminated h \<and> closed_logs h' = closed_logs h"
  shows "launches handle' (bind m k)"
  unfolding launches_def
proof (intro allI impI)
  fix h r h' assume run: "bind m k h = (r, h')"
  obtain r1 h1 where r1: "m h = (r1, h1)" by (cases "m h")
  note l = launchesD [OF assms(1) r1]
  show "logged h' = logged h @ (case r of Inl _ \<Rightarrow> [] | Inr x \<Rightarrow> [handle' x])
      \<and> terminated h' = terminated h \<and> closed_logs h' = closed_logs h"
  proof (cases r1)
    case (Inl e)
    with run r1 l show ?thesis by (auto simp: bind_def)
  next
    case (Inr x)
    with run r1 have "k x h1 = (r, h')" by (simp add: bind_def)
    with k [of x h1] Inr l show ?thesis by auto
  qed
qed

lemma launches_server_spawn:
  assumes "calm E"
  shows "launches id (bind (spawn_logged E path argv) (\<lambda>pl. andthen (sleep E (12/10)) (ret pl)))"
proof (rule launches_then [OF launches_spawn])
  fix x h
  have "andthen (sleep E (12/10)) (ret x) h = (Inr x, h @ [Sleep (12/10)])"
    using assms by (simp add: calm_def sleep_def andthen_def bind_def act_def ret_def)
  then show "\<exists>h' y. andthen (sleep E (12/10)) (ret x) h = (Inr y, h') \<and> id y = id x
      \<and> logged h' = logged h \<and> terminated h' = terminated h \<and> closed_logs h' = closed_logs h"
    by (simp add: trace_simps observer_defs)
qed

lemma launches_start_server:
  assumes "calm E"
  shows "launches id (start_server_at E store log_path)"
  unfolding start_server_at_def
  by (rule launches_server_spawn [OF assms] bystander_intros launches_andthen launches_bind)+

lemma launches_sidecar:
  "launches sidecar_handle (bind (spawn_logged E path argv) (\<lambda>(p, l). ret (p, l, c)))"
  by (rule launches_then [OF launches_spawn]) (auto simp: ret_def sidecar_handle_def split: prod.splits)

lemma bystander_run_ctrl [bystander_intros]: "bystander (run_ctrl E s)"
  unfolding run_ctrl_def by (intro bystander_intros)

lemma bystander_popen_subfield [bystander_intros]: "bystander (popen_subfield E)"
  unfolding popen_subfield_def by (intro bystander_intros)

section \<open>The stages of a run\<close>

datatype phase = Server | Sidecar | Ctrl | Sub | Publish | Collect

definition phase_ev :: "env \<Rightarrow> nat \<Rightarrow> event \<Rightarrow> phase list" where
  "phase_ev E k e =
     (case e of
        Popen (exe # args) _ \<Rightarrow>
          if exe = NATS_SERVER E then [Server]
          else if exe = SIDECAR E then [Sidecar]
          else if exe = DRIVER E then [Sub]
          else []
      | Run (exe # args) _ \<Rightarrow>
          if exe = DRIVER E then (if take 1 args = [''pub''] then [Publish] else [Ctrl])
          else if exe = ''psql'' then [Publish]
          else []
      | Communicate _ _ \<Rightarrow> [Collect]
      | _ \<Rightarrow> [])"

abbreviation phases :: "env \<Rightarrow> hist \<Rightarrow> phase list" where
  "phases E \<equiv> observe (phase_ev E)"

lemma exe_distinct [simp]:
  "NATS_SERVER E \<noteq> SIDECAR E" "NATS_SERVER E \<noteq> DRIVER E" "SIDECAR E \<noteq> DRIVER E"
  "SIDECAR E \<noteq> NATS_SERVER E" "DRIVER E \<noteq> NATS_SERVER E" "DRIVER E \<noteq> SIDECAR E"
  "''psql'' \<noteq> DRIVER E"
proof -
  have "length (DRIVER E) > length ''psql''" by (simp add: DRIVER_def expanduser_def)
  then show "''psql'' \<noteq> DRIVER E" by (metis less_irrefl)
qed (simp_all add: NATS_SERVER_def SIDECAR_def DRIVER_def expanduser_def)

lemma phase_silent [silent_intros]:
  "silent (phase_ev E) (os_path_exists E' s)" "silent (phase_ev E) (rmtree E' s)"
  "silent (phase_ev E) (makedirs E' s)" "silent (phase_ev E) (sleep E' d)"
  "silent (phase_ev E) (poll E' p)" "silent (phase_ev E) (time_time E')"
  "silent (phase_ev E) (read_file E' s)" "silent (phase_ev E) (print_out s)"
  "silent (phase_ev E) (print_err s)"
  by (simp_all add: silent_call phase_ev_def)

lemma phase_silent_captures [silent_intros]:
  "silent (phase_ev E) (write_file E' s t)" "silent (phase_ev E) (send_signal E' p sig)"
  "silent (phase_ev E) (urlopen E' s)"
  by (simp_all add: os_call_defs silent_act phase_ev_def)

lemma phase_silent_open [silent_intros]: "silent (phase_ev E) (open_w E' p)"
  by (simp add: silent_open_w phase_ev_def)

lemma silent_stop [silent_intros]: "silent (phase_ev E) (stop E' p)"
  unfolding silent_def by (simp add: stop_observed phase_ev_def)

lemma silent_teardown: "silent (phase_ev E) (teardown E' scs server slog)"
  unfolding teardown_def stop_sidecar_def
  by (intro silent_intros) (simp_all add: close_file_def silent_act phase_ev_def)

lemma completes_popen:
  assumes "\<And>k. phase_ev E k (Popen argv f) = [s]"
  shows "completes (phase_ev E) good (popen E' argv f) [s]"
  unfolding completes_def
proof (intro allI impI)
  fix h r h' assume "popen E' argv f h = (r, h')"
  then show "\<exists>k. phases E h' = phases E h @ take k [s]
      \<and> ((\<exists>x. r = Inr x \<and> good x) \<longrightarrow> length [s] \<le> k)"
  proof (cases rule: popen_cases)
    case (raised e)
    then show ?thesis by (intro exI [of _ 0]) (simp add: trace_simps phase_ev_def)
  next
    case started
    with assms show ?thesis by (intro exI [of _ 1]) (simp add: trace_simps)
  qed
qed

lemma completes_spawn:
  assumes "\<And>k f. phase_ev E k (Popen argv f) = [s]"
  shows "completes (phase_ev E) (\<lambda>_. True) (spawn_logged E' path argv) [s]"
  unfolding spawn_logged_def
  by (rule completes_bind_silent [OF phase_silent_open completes_then_silent],
      rule completes_popen [OF assms], intro silent_intros)

lemma completes_start_server:
  "completes (phase_ev E) (\<lambda>_. True) (start_server_at E store log_path) [Server]"
proof -
  have spawn: "completes (phase_ev E) (\<lambda>_. True)
     (bind (spawn_logged E log_path [NATS_SERVER E, ''-js'', ''-sd'', store, ''-p'', ''4222''])
        (\<lambda>pl. andthen (sleep E (12/10)) (ret pl))) [Server]"
    by (rule completes_then_silent [OF completes_spawn])
      (simp add: phase_ev_def, intro silent_intros)
  show ?thesis
    unfolding start_server_at_def
    by (rule spawn silent_intros completes_andthen_silent completes_bind_silent)+
qed

lemma completes_start_sidecar:
  "completes (phase_ev E) (\<lambda>_. True)
     (bind (spawn_logged E path (SIDECAR E # args)) (\<lambda>(p, l). ret (p, l, c))) [Sidecar]"
  by (rule completes_then_silent [OF completes_spawn])
    (simp add: phase_ev_def, intro silent_intros)

lemma completes_run_ctrl: "completes (phase_ev E) (\<lambda>_. True) (run_ctrl E s) [Ctrl]"
  unfolding run_ctrl_def run_cmd_def
  by (rule completes_then_silent [OF completes_act]) (simp add: phase_ev_def, intro silent_intros)

lemma completes_publish: "completes (phase_ev E) (\<lambda>_. True) (run_cmd E' (PSQL @ [sql]) t) [Publish]"
  unfolding run_cmd_def by (rule completes_act) (simp add: phase_ev_def PSQL_def)

lemma completes_collect: "completes (phase_ev E) (\<lambda>_. True) (communicate E' p t) [Collect]"
  unfolding communicate_def by (rule completes_act) (simp add: phase_ev_def)

lemma completes_subfield: "completes (phase_ev E) (\<lambda>_. True) (popen_subfield E) [Sub]"
  unfolding popen_subfield_def by (rule completes_popen) (simp add: phase_ev_def)

lemma completes_driver: "completes (phase_ev E) (\<lambda>_. True) (popen E' (DRIVER E # args) f) [Sub]"
  by (rule completes_popen) (simp add: phase_ev_def)

lemma completes_pub: "completes (phase_ev E) (\<lambda>_. True) (run_cmd E' (DRIVER E # ''pub'' # args) t) [Publish]"
  unfolding run_cmd_def by (rule completes_act) (simp add: phase_ev_def)

lemma silent_poll_all [silent_intros]: "silent (phase_ev E) (poll_all E' msg scs)"
  by (induction E' msg scs rule: poll_all.induct) (simp_all add: silent_intros)

text \<open>A control loop that ends well has asked every instance.\<close>

lemma completes_ctrl_all:
  assumes "\<And>s. completes (phase_ev E) (\<lambda>_. True) (rc s) [Ctrl]"
  shows "completes (phase_ev E) (\<lambda>b. b) (ctrl_all rc msg ss) (replicate (length ss) Ctrl)"
proof (induction ss)
  case Nil
  then show ?case by (simp add: completes_silent silent_intros)
next
  case (Cons s ss)
  have "completes (phase_ev E) (\<lambda>b. b)
      (bind (rc s) (\<lambda>reply. if py_in error_mark reply
          then andthen (print_err (msg s @ reply)) (ret False) else ctrl_all rc msg ss))
      ([Ctrl] @ replicate (length ss) Ctrl)"
  proof (rule completes_bind_all [OF assms])
    fix reply
    show "completes (phase_ev E) (\<lambda>b. b)
      (if py_in error_mark reply then andthen (print_err (msg s @ reply)) (ret False)
       else ctrl_all rc msg ss) (replicate (length ss) Ctrl)"
      using Cons.IH by (auto intro!: completes_abort intro: silent_intros)
  qed
  then show ?case by simp
qed

text \<open>
  The stages of a body, read off its text: each rule takes one call, the rules for the
  calls that show themselves before those for the silent ones.
\<close>

lemma stage_sub:
  "(\<And>x. completes (phase_ev E) g (k x) ys) \<Longrightarrow>
   completes (phase_ev E) g (bind (popen_subfield E) k) (Sub # ys)"
  using completes_bind_all [OF completes_subfield, of E g k ys] by simp

lemma stage_driver:
  "(\<And>x. completes (phase_ev E) g (k x) ys) \<Longrightarrow>
   completes (phase_ev E) g (bind (popen E (DRIVER E # args) f) k) (Sub # ys)"
  using completes_bind_all [OF completes_driver, of E g k ys] by simp

lemma stage_pub:
  "(\<And>x. completes (phase_ev E) g (k x) ys) \<Longrightarrow>
   completes (phase_ev E) g (bind (run_cmd E (DRIVER E # ''pub'' # args) t) k) (Publish # ys)"
  using completes_bind_all [OF completes_pub, of E g k ys] by simp

lemma stage_publish:
  "(\<And>x. completes (phase_ev E) g (k x) ys) \<Longrightarrow>
   completes (phase_ev E) g (bind (run_cmd E (PSQL @ [sql]) t) k) (Publish # ys)"
  using completes_bind_all [OF completes_publish, of E g k ys] by simp

lemma stage_collect:
  "(\<And>x. completes (phase_ev E) g (k x) ys) \<Longrightarrow>
   completes (phase_ev E) g (bind (communicate E p t) k) (Collect # ys)"
  using completes_bind_all [OF completes_collect, of E g k ys] by simp

lemma stage_ctrl_all:
  assumes "\<And>s. completes (phase_ev E) (\<lambda>_. True) (rc s) [Ctrl]"
    and "completes (phase_ev E) (\<lambda>r. r \<noteq> None) k ys"
  shows "completes (phase_ev E) (\<lambda>r. r \<noteq> None)
     (bind (ctrl_all rc msg ss) (\<lambda>good. if \<not> good then ret None else k))
     (replicate (length ss) Ctrl @ ys)"
  using completes_ctrl_all [OF assms(1), where msg = msg and ss = ss] assms(2)
  by (intro completes_bind [where good = "\<lambda>b. b"]) auto

lemma length_range1: "length [1..<n + 1] = n"
  by simp

lemma stage_if:
  "completes f g m ys \<Longrightarrow> completes f g k ys \<Longrightarrow> completes f g (if b then m else k) ys"
  by simp

lemma stage_None: "completes f (\<lambda>r. r \<noteq> None) (ret None) ys"
  by (intro completes_abort aborts_ret) simp

lemma stage_ret: "completes f g (ret x) []"
  by (intro completes_silent silent_ret)

lemma stage_Let: "(\<And>x. completes f g (k x) ys) \<Longrightarrow> completes f g (Let v k) ys"
  by (simp add: Let_def)

lemma stage_case_option:
  "completes f g m ys \<Longrightarrow> (\<And>x. completes f g (k x) ys) \<Longrightarrow>
   completes f g (case v of None \<Rightarrow> m | Some x \<Rightarrow> k x) ys"
  by (cases v) simp_all

lemma stage_case_prod: "(\<And>a b. completes f g (k a b) ys) \<Longrightarrow> completes f g (case_prod k v) ys"
  by (cases v) simp

lemmas stage_intros = stage_None stage_ret stage_if stage_Let stage_case_option stage_case_prod completes_run_ctrl
  stage_sub stage_driver stage_pub stage_publish stage_collect stage_ctrl_all
  completes_andthen_silent completes_bind_silent

section \<open>A fleet whose run goes through stages\<close>

text \<open>
  A script that also promises the stages of its parts: the launches show themselves, and the
  body of a fleet of \<open>n\<close> sidecars goes through \<open>stages n\<close> whenever it gives a result.
\<close>

locale staged_fleet = sidecar_fleet E start_server start body
  for E :: env
    and start_server :: "(nat \<times> nat) os"
    and start :: "'i \<Rightarrow> 'c sidecar os"
    and body :: "nat \<Rightarrow> 'c sidecar list \<Rightarrow> 'a os" +
  fixes good :: "'a \<Rightarrow> bool"
    and stages :: "nat \<Rightarrow> phase list"
  assumes server_stage: "completes (phase_ev E) (\<lambda>_. True) start_server [Server]"
    and sidecar_stage: "completes (phase_ev E) (\<lambda>_. True) (start i) [Sidecar]"
    and body_stages: "completes (phase_ev E) good (body server scs) (stages (length scs))"
begin

lemma launch_all_stages:
  assumes "launch_all start is acc h = (r, scs, h')"
  shows "\<exists>k. phases E h' = phases E h @ take k (replicate (length is) Sidecar)
      \<and> (r = Inr () \<longrightarrow> length is \<le> k \<and> length scs = length acc + length is)"
  using assms
proof (induction "is" arbitrary: acc h)
  case Nil
  then show ?case by simp
next
  case (Cons i "is")
  obtain r1 h1 where r1: "start i h = (r1, h1)" by (cases "start i h")
  from sidecar_stage r1 obtain k1 where k1: "phases E h1 = phases E h @ take k1 [Sidecar]"
      "\<And>x. r1 = Inr x \<Longrightarrow> 1 \<le> k1"
    by (rule completesD) auto
  show ?case
  proof (cases r1)
    case (Inl e)
    with Cons.prems r1 k1 show ?thesis by (auto intro!: exI [of _ "min k1 1"] simp: min_def take_Cons')
  next
    case (Inr sc)
    with Cons.prems r1 have "launch_all start is (acc @ [sc]) h1 = (r, scs, h')" by simp
    from Cons.IH [OF this] obtain k
      where "phases E h' = phases E h1 @ take k (replicate (length is) Sidecar)"
        "r = Inr () \<longrightarrow> length is \<le> k \<and> length scs = length (acc @ [sc]) + length is" by blast
    with k1 Inr show ?thesis by (intro exI [of _ "Suc k"]) (auto simp: take_Cons')
  qed
qed

text \<open>
  The run goes through the launch of the server, of every sidecar, and the stages of the
  body, in this order; it may break off, but skips and reorders nothing; a good result
  means that it went through all of them.
\<close>

lemma run_stages:
  assumes run: "with_fleet E start_server start is body h = (r, h')"
  shows "\<exists>k. phases E h' =
           phases E h @ take k (Server # replicate (length is) Sidecar @ stages (length is))
      \<and> ((\<exists>x. r = Inr x \<and> good x) \<longrightarrow> length (Server # replicate (length is) Sidecar @ stages (length is)) \<le> k)"
proof -
  obtain rs h1 where rs: "start_server h = (rs, h1)" by (cases "start_server h")
  from server_stage rs obtain k1 where k1: "phases E h1 = phases E h @ take k1 [Server]"
      "\<And>x. rs = Inr x \<Longrightarrow> 1 \<le> k1"
    by (rule completesD) auto
  show ?thesis
  proof (cases rs)
    case (Inl e)
    with run rs have "r = Inl e" "h' = h1" by (auto simp: with_fleet_def bind_def)
    with k1 show ?thesis by (auto intro!: exI [of _ "min k1 1"] simp: min_def take_Cons')
  next
    case (Inr sv)
    obtain server slog where sv: "sv = (server, slog)" by (cases sv)
    obtain rl scs h2 where rl: "launch_all start is [] h1 = (rl, scs, h2)"
      by (cases "launch_all start is [] h1") auto
    from launch_all_stages [OF rl] obtain k2
      where k2: "phases E h2 = phases E h1 @ take k2 (replicate (length is) Sidecar)"
        "rl = Inr () \<Longrightarrow> length is \<le> k2 \<and> length scs = length is" by auto
    define m where "m = (\<lambda>h. case rl of Inl e \<Rightarrow> (Inl e, h) | Inr _ \<Rightarrow> body server scs h)"
    have fin: "try_finally m (teardown E scs server slog) h2 = (r, h')"
      using run rs Inr sv rl by (simp add: with_fleet_def bind_def m_def)
    obtain rb h3 where rb: "m h2 = (rb, h3)" by (cases "m h2")
    have ph: "phases E h' = phases E h3" and good: "r = Inr x \<Longrightarrow> rb = Inr x" for x
      using fin rb silent_teardown [of E E scs server slog]
      by (auto simp: try_finally_def silent_def split: prod.splits sum.splits) (metis snd_conv)+
    show ?thesis
    proof (cases rl)
      case (Inl e)
      with rb have "rb = Inl e" "h3 = h2" by (auto simp: m_def)
      moreover have "1 \<le> k1" using k1(2) Inr by blast
      ultimately show ?thesis
        using k1(1) k2(1) ph good
        by (auto intro!: exI [of _ "Suc (min k2 (length is))"] simp: take_Cons' min_def)
    next
      case (Inr u)
      with rb have "body server scs h2 = (rb, h3)" by (simp add: m_def)
      with body_stages obtain k3 where k3: "phases E h3 = phases E h2 @ take k3 (stages (length scs))"
          "\<And>x. rb = Inr x \<Longrightarrow> good x \<Longrightarrow> length (stages (length scs)) \<le> k3"
        by (rule completesD) blast
      moreover have "1 \<le> k1" using k1(2) \<open>rs = Inr sv\<close> by blast
      ultimately show ?thesis
        using k1(1) k2 ph good Inr
        by (auto intro!: exI [of _ "Suc (length is + k3)"] simp: take_Cons')
    qed
  qed
qed

lemma staged_run:
  assumes "with_fleet E start_server start is body h = (r, h')" and "length is = n"
    and "full = Server # replicate n Sidecar @ stages n"
  shows "(\<exists>k. phases E h' = phases E h @ take k full)
    \<and> (\<forall>x. r = Inr x \<longrightarrow> good x \<longrightarrow> phases E h' = phases E h @ full)"
proof -
  from run_stages [OF assms(1)] assms(2,3) obtain k where "phases E h' = phases E h @ take k full"
      "\<And>x. r = Inr x \<Longrightarrow> good x \<Longrightarrow> length full \<le> k"
    by auto
  then show ?thesis by auto
qed

end

text \<open>
  The scripts build their servers and sidecars in the same way; the contract then rests on
  the body alone.
\<close>

lemma sidecar_fleetI:
  assumes "start_server = start_server_at E store log_path"
    and launch: "\<And>i. \<exists>path args c. start i = bind (spawn_logged E path (SIDECAR E # args)) (\<lambda>(p, l). ret (p, l, c))"
    and "\<And>server scs. bystander (body server scs)"
  shows "sidecar_fleet E start_server start body"
proof
  show "calm E \<Longrightarrow> launches id start_server" unfolding assms(1) by (rule launches_start_server)
  show "launches sidecar_handle (start i)" for i using launch [of i] launches_sidecar by metis
qed (use assms(3) in blast)

lemma staged_fleetI:
  assumes "start_server = start_server_at E store log_path"
    and launch: "\<And>i. \<exists>path args c. start i = bind (spawn_logged E path (SIDECAR E # args)) (\<lambda>(p, l). ret (p, l, c))"
    and "\<And>server scs. bystander (body server scs)"
    and "\<And>server scs. completes (phase_ev E) good (body server scs) (stages (length scs))"
  shows "staged_fleet E start_server start body good stages"
proof (intro staged_fleet.intro staged_fleet_axioms.intro)
  show "sidecar_fleet E start_server start body" using assms(1-3) by (rule sidecar_fleetI)
  show "completes (phase_ev E) (\<lambda>_. True) start_server [Server]"
    unfolding assms(1) by (rule completes_start_server)
  show "completes (phase_ev E) (\<lambda>_. True) (start i) [Sidecar]" for i
    using launch [of i] completes_start_sidecar by metis
qed (use assms(4) in blast)

text \<open>The stages of a complete run over the real-data fixture with \<open>n\<close> instances.\<close>

definition fleet_stages :: "nat \<Rightarrow> phase list" where
  "fleet_stages n = Server # replicate n Sidecar @ replicate n Ctrl @ [Sub, Publish, Collect]"

section \<open>A concrete environment\<close>

text \<open>
  An environment in which everything succeeds: the clock advances by one second per
  interaction, every control request is accepted, and the subscriber reports what
  \<open>reported\<close> says. The witnesses of the properties run the scripts in it.
\<close>

definition demo_env :: "string \<Rightarrow> env" where
  "demo_env reported = \<lparr>
     home = ''/root'', float_repr = fmt_rat 1, path_exists = (\<lambda>_ _. False), rmtree_ans = (\<lambda>_ _. Inr ()),
     makedirs_ans = (\<lambda>_ _. Inr ()), open_ans = (\<lambda>_ _. Inr ()), popen_ans = (\<lambda>_ _. Inr ()),
     terminate_ans = (\<lambda>_ _. Inr ()), kill_ans = (\<lambda>_ _. Inr ()), wait_ans = (\<lambda>_ _. Inr ()),
     poll_ans = (\<lambda>_ _. None), close_ans = (\<lambda>_ _. Inr ()),
     run_ans = (\<lambda>_ _. Inr \<lparr>returncode = 0, out = ''CTRL_REPLY ok'', err = []\<rparr>),
     communicate_ans = (\<lambda>_ _. Inr (reported @ [CHR 0x0A])), interrupted = (\<lambda>_. False),
     clock = (\<lambda>h. of_nat (length h)), read_ans = (\<lambda>_ _. Inl FileNotFoundError),
     write_ans = (\<lambda>_ _. Inr ()), signal_ans = (\<lambda>_ _. Inr ()), url_ans = (\<lambda>_ _. Inr []), pid_of = id \<rparr>"

lemma calm_demo_env: "calm (demo_env reported)"
  by (simp add: calm_def demo_env_def)

lemma demo_reply: "\<not> py_in error_mark (py_strip ''CTRL_REPLY ok'')"
  by (simp add: error_mark_def py_strip_def strip_with_def py_isspace_def)

lemmas demo_simps = with_fleet_def start_server_at_def spawn_logged_def run_ctrl_def
  popen_subfield_def os_call_defs open_w_def popen_def prog_defs demo_env_def py_truediv_def
  teardown_def stop_sidecar_def stop_def Let_def demo_reply

text \<open>The report of a correct run.\<close>

definition good_report :: string where
  "good_report = sub_done_line 21683 0 ''1.5'' ''14455.3''"

lemma good_report_totals:
  "scan_totals (sub_line_of (good_report @ [CHR 0x0A])) = (Some (str_nat EXPECTED), Some ''0'')"
  using sub_line_of_report [OF sub_done_line_shape, of "''1.5''" "''14455.3''" "[]" 21683 0]
    scan_sub_done [of "''1.5''" "''14455.3''" 21683 0]
  by (simp add: good_report_def EXPECTED_def py_isspace_def str_nat_0)

end
