(* ===== verification/Throughput_Clean.thy ===== *)
theory Throughput_Clean
  imports Sidecar_Config
begin

text \<open>
  \<^verbatim>\<open>bench/nats_sidecar_throughput_clean.py\<close>: the back-to-back comparison of the plain
  queue-group design and the durable JetStream consumer, with publish and end-to-end
  rates. \<open>run_one\<close> is one run of one mode; \<open>run_n_avg\<close> keeps the correct runs;
  \<open>clean_fmt\<close> averages them for the summary table.
\<close>

section \<open>Launching\<close>

definition clean_INPUT_STREAM :: string where "clean_INPUT_STREAM = ''SC_CLEAN_INPUT''"
definition clean_DURABLE_NAME :: string where "clean_DURABLE_NAME = ''sc-clean-durable''"
definition clean_DELIVER_SUBJECT :: string where "clean_DELIVER_SUBJECT = ''sc.clean.deliver''"
definition clean_DELIVER_GROUP :: string where "clean_DELIVER_GROUP = ''sc-clean-group''"

definition clean_start_server :: "env \<Rightarrow> string \<Rightarrow> (nat \<times> nat) os" where
  "clean_start_server E tag =
     start_server_at E (''/tmp/nsc_clean_store_'' @ tag) (''/tmp/nsc_clean_server_'' @ tag @ ''.log'')"

definition clean_start_sidecar_plain :: "env \<Rightarrow> nat \<Rightarrow> string \<Rightarrow> (nat \<times> nat) os" where
  "clean_start_sidecar_plain E i tag =
     spawn_logged E (''/tmp/nsc_clean_sidecar_plain_'' @ tag @ ''_'' @ str_nat i @ ''.log'')
       [SIDECAR E,
        ''-a'', ''127.0.0.1'', ''-p'', ''4222'',
        ''-i'', INPUT_SUBJECT,
        ''--queue-group'', ''qg-clean'',
        ''--attr'', FILTER_FIELD @ '':string'',
        ''--engine'', ''atree'',
        ''--output-prefix'', OUTPUT_PREFIX,
        ''--subscribe-subject'', ''sc.clean.plain.ctrl.'' @ str_nat i,
        ''--workers'', ''2'',
        ''--lease-bucket'', ''sc-clean-plain-leases-'' @ tag]"

definition clean_start_sidecar_js :: "env \<Rightarrow> nat \<Rightarrow> string \<Rightarrow> nat \<Rightarrow> (nat \<times> nat) os" where
  "clean_start_sidecar_js E i tag max_ack_pending =
     spawn_logged E (''/tmp/nsc_clean_sidecar_js_'' @ tag @ ''_'' @ str_nat i @ ''.log'')
       [SIDECAR E,
        ''-a'', ''127.0.0.1'', ''-p'', ''4222'',
        ''-i'', INPUT_SUBJECT,
        ''--input-stream'', clean_INPUT_STREAM,
        ''--consumer-durable-name'', clean_DURABLE_NAME,
        ''--consumer-deliver-subject'', clean_DELIVER_SUBJECT,
        ''--consumer-deliver-group'', clean_DELIVER_GROUP,
        ''--consumer-max-ack-pending'', str_nat max_ack_pending,
        ''--consumer-ack-wait'', ''30'',
        ''--attr'', FILTER_FIELD @ '':string'',
        ''--engine'', ''atree'',
        ''--output-prefix'', OUTPUT_PREFIX,
        ''--subscribe-subject'', ''sc.clean.js.ctrl.'' @ tag @ ''.'' @ str_nat i,
        ''--workers'', ''2'',
        ''--lease-bucket'', ''sc-clean-js-leases-'' @ tag]"

section \<open>One run\<close>

text \<open>The loop body of the launches: the sidecar with its control subject.\<close>

definition clean_launch :: "env \<Rightarrow> string \<Rightarrow> string \<Rightarrow> nat \<Rightarrow> string sidecar os" where
  "clean_launch E tag mode i =
     (if mode = ''plain'' then
        bind (clean_start_sidecar_plain E i tag)
          (\<lambda>(sp, sl). ret (sp, sl, ''sc.clean.plain.ctrl.'' @ str_nat i))
      else
        bind (clean_start_sidecar_js E i tag 2000)
          (\<lambda>(sp, sl). ret (sp, sl, ''sc.clean.js.ctrl.'' @ tag @ ''.'' @ str_nat i)))"

record run_result =
  pub_secs :: rat
  pub_rate :: rat
  e2e_secs :: rat
  e2e_rate :: pyfloat
  total :: "string option"
  wrong :: "string option"
  ok :: bool

text \<open>\<^verbatim>\<open>200000 / e2e_secs if e2e_secs > 0 else float("nan")\<close>\<close>

definition e2e_rate_of :: "rat \<Rightarrow> pyfloat" where
  "e2e_rate_of secs = (if 0 < secs then Fin (200000 / secs) else NaN)"

text \<open>The returned dictionary, from the three clock readings and the subscriber's output.\<close>

definition run_result_of :: "rat \<Rightarrow> rat \<Rightarrow> rat \<Rightarrow> rat \<Rightarrow> string \<Rightarrow> run_result" where
  "run_result_of t_start t_pub_done rate t_e2e_done sub_out =
     (case scan_totals (sub_line_of sub_out) of (tot, wr) \<Rightarrow>
        \<lparr> pub_secs = t_pub_done - t_start, pub_rate = rate,
          e2e_secs = t_e2e_done - t_start, e2e_rate = e2e_rate_of (t_e2e_done - t_start),
          total = tot, wrong = wr,
          ok = (tot = Some (str_nat EXPECTED) \<and> wr = Some ''0'') \<rparr>)"

text \<open>
  From the subscriber's start to the result: the publish statement is timed, its exit
  status checked, then the subscriber's report collected.
\<close>

definition clean_measure :: "env \<Rightarrow> nat \<Rightarrow> string \<Rightarrow> run_result option os" where
  "clean_measure E n mode =
     bind (popen_subfield E) (\<lambda>sub.
     andthen (sleep E (3/10))
     (let pub_sql = (if mode = ''plain'' then pub_sql_plain else pub_sql_stream) in
     bind (time_time E) (\<lambda>t_start.
     bind (run_cmd E (PSQL @ [pub_sql]) 120) (\<lambda>pub.
     bind (time_time E) (\<lambda>t_pub_done.
     if returncode pub \<noteq> 0 then
       andthen (print_err (''  ['' @ mode @ ''] N='' @ str_nat n @ '' publish FAILED: '' @ err pub))
         (ret None)
     else
       bind (lift (py_truediv 200000 (t_pub_done - t_start))) (\<lambda>rate.
       bind (communicate E sub 100) (\<lambda>sub_out.
       bind (time_time E) (\<lambda>t_e2e_done.
         ret (Some (run_result_of t_start t_pub_done rate t_e2e_done sub_out))))))))))"

text \<open>The body of the \<^verbatim>\<open>try\<close> after the launches.\<close>

definition clean_body ::
  "env \<Rightarrow> nat \<Rightarrow> string \<Rightarrow> nat \<Rightarrow> string sidecar list \<Rightarrow> run_result option os" where
  "clean_body E n mode server sidecars =
     andthen (sleep E (15/10 + 2/10 * of_nat n))
     (bind (poll_all E (\<lambda>_. ''  ['' @ mode @ ''] N='' @ str_nat n @ '' instance exited early'') sidecars) (\<lambda>alive.
      if \<not> alive then ret None else
      bind (ctrl_all (run_ctrl E) (\<lambda>_. ''  ['' @ mode @ ''] N='' @ str_nat n @ '' ctrl FAILED: '')
              (map (snd \<circ> snd) sidecars)) (\<lambda>registered.
      if \<not> registered then ret None else
      andthen (sleep E (3/10)) (clean_measure E n mode))))"

definition run_one :: "env \<Rightarrow> nat \<Rightarrow> string \<Rightarrow> string \<Rightarrow> run_result option os" where
  "run_one E n tag mode =
     with_fleet E (clean_start_server E tag) (clean_launch E tag mode) [1..<n + 1]
       (clean_body E n mode)"

section \<open>Repeated runs and the summary\<close>

text \<open>
  \<^verbatim>\<open>for r in range(runs)\<close>: a failed or incorrect run is reported, with the text of the
  rejected dictionary, and left out.
\<close>

definition result_repr :: "env \<Rightarrow> run_result \<Rightarrow> string" where
  "result_repr E d = dict_repr
     [(''pub_secs'', float_repr E (pub_secs d)), (''pub_rate'', float_repr E (pub_rate d)),
      (''e2e_secs'', float_repr E (e2e_secs d)), (''e2e_rate'', pyfloat_repr (float_repr E) (e2e_rate d)),
      (''total'', repr_opt (total d)), (''wrong'', repr_opt (wrong d)), (''ok'', py_bool_str (ok d))]"

fun run_n_avg_loop ::
  "env \<Rightarrow> nat \<Rightarrow> string \<Rightarrow> nat list \<Rightarrow> run_result list \<Rightarrow> run_result list os" where
  "run_n_avg_loop E n mode [] results = ret results"
| "run_n_avg_loop E n mode (r # rs) results =
     bind (run_one E n (mode @ str_nat n @ ''_'' @ str_nat r) mode) (\<lambda>res.
       let lead = ''  ['' @ mode @ ''] N='' @ str_nat n @ '' run '' @ str_nat r @ '': '' in
       case res of
         None \<Rightarrow>
           andthen (print_err (lead @ ''FAILED/incorrect (None)''))
             (run_n_avg_loop E n mode rs results)
       | Some d \<Rightarrow>
           if \<not> ok d then
             andthen (print_err (lead @ ''FAILED/incorrect ('' @ result_repr E d @ '')''))
               (run_n_avg_loop E n mode rs results)
           else
             andthen
               (print_out (lead @ ''pub_rate='' @ fmt_rat 0 (pub_rate d) @ ''/s ''
                  @ ''e2e_rate='' @ fmt_fixed 0 (e2e_rate d) @ ''/s total='' @ str_opt (total d)
                  @ '' wrong='' @ str_opt (wrong d)))
               (run_n_avg_loop E n mode rs (results @ [d])))"

definition run_n_avg :: "env \<Rightarrow> nat \<Rightarrow> string \<Rightarrow> nat \<Rightarrow> run_result list os" where
  "run_n_avg E n mode runs = run_n_avg_loop E n mode [0..<runs] []"

text \<open>\<^verbatim>\<open>fmt(mode)\<close> in \<^verbatim>\<open>main\<close>: the two averages as text, or \<^verbatim>\<open>FAIL\<close> twice.\<close>

definition clean_fmt :: "run_result list \<Rightarrow> string \<times> string" where
  "clean_fmt rs =
     (if rs = [] then (''FAIL'', ''FAIL'')
      else (fmt_rat 0 (sum_list (map pub_rate rs) / of_nat (length rs)),
            fmt_fixed 0 (fl_div_len (fl_sum (map e2e_rate rs)) (length rs))))"

text \<open>
  \<^verbatim>\<open>main()\<close>: every mode and every fleet size in order, the results kept in \<^verbatim>\<open>table\<close>, then
  one row per fleet size.
\<close>

type_synonym result_table = "string \<times> nat \<Rightarrow> run_result list option"

fun clean_sizes :: "env \<Rightarrow> string \<Rightarrow> nat list \<Rightarrow> result_table \<Rightarrow> result_table os" where
  "clean_sizes E mode [] table = ret table"
| "clean_sizes E mode (n # ns) table =
     bind (run_n_avg E n mode 2) (\<lambda>results. clean_sizes E mode ns (table((mode, n) \<mapsto> results)))"

fun clean_modes :: "env \<Rightarrow> nat list \<Rightarrow> string list \<Rightarrow> result_table \<Rightarrow> result_table os" where
  "clean_modes E ns [] table = ret table"
| "clean_modes E ns (mode # modes) table =
     andthen (print_out (''=== mode='' @ mode @ '' ===''))
       (bind (clean_sizes E mode ns table) (\<lambda>table. clean_modes E ns modes table))"

text \<open>\<^verbatim>\<open>table[(mode, n)]\<close> raises \<^verbatim>\<open>KeyError\<close> on a missing key.\<close>

definition table_get :: "result_table \<Rightarrow> string \<Rightarrow> nat \<Rightarrow> exc + run_result list" where
  "table_get table mode n = (case table (mode, n) of None \<Rightarrow> Inl KeyError | Some rs \<Rightarrow> Inr rs)"

definition clean_row :: "nat \<Rightarrow> run_result list \<Rightarrow> run_result list \<Rightarrow> string" where
  "clean_row n plain js =
     (case (clean_fmt plain, clean_fmt js) of ((pp, pe), (jp, je)) \<Rightarrow>
        rjust 3 (str_nat n) @ ''  '' @ rjust 12 pp @ ''  '' @ rjust 12 pe @ ''  ''
          @ rjust 12 jp @ ''  '' @ rjust 12 je)"

definition clean_print_row :: "result_table \<Rightarrow> nat \<Rightarrow> unit os" where
  "clean_print_row table n =
     bind (lift (table_get table ''plain'' n)) (\<lambda>plain.
     bind (lift (table_get table ''js'' n)) (\<lambda>js. print_out (clean_row n plain js)))"

definition clean_main :: "env \<Rightarrow> unit os" where
  "clean_main E =
     (let ns = [1, 4, 8, 16, 32] in
      bind (clean_modes E ns [''plain'', ''js''] Map.empty) (\<lambda>table.
      andthen (print_out (CHR 0x0A # ''=== SUMMARY ===''))
      (andthen (print_out (rjust 3 ''N'' @ ''  '' @ rjust 12 ''plain pub/s'' @ ''  ''
         @ rjust 12 ''plain e2e/s'' @ ''  '' @ rjust 12 ''js pub/s'' @ ''  '' @ rjust 12 ''js e2e/s''))
      (for_each (clean_print_row table) ns))))"

section \<open>The fleet contract\<close>

lemma clean_launch_eq:
  "\<exists>path args c. clean_launch E tag mode i
     = bind (spawn_logged E path (SIDECAR E # args)) (\<lambda>(p, l). ret (p, l, c))"
  by (auto simp: clean_launch_def clean_start_sidecar_plain_def clean_start_sidecar_js_def)

lemma bystander_clean_measure [bystander_intros]: "bystander (clean_measure E n mode)"
  unfolding clean_measure_def by (intro bystander_intros)

lemma bystander_clean_body [bystander_intros]: "bystander (clean_body E n mode server scs)"
  unfolding clean_body_def by (intro bystander_intros)

lemma completes_clean_measure:
  "completes (phase_ev E) (\<lambda>r. r \<noteq> None) (clean_measure E n mode) [Sub, Publish, Collect]"
  unfolding clean_measure_def by (rule stage_intros silent_intros)+

lemma completes_clean_body:
  "completes (phase_ev E) (\<lambda>r. r \<noteq> None) (clean_body E n mode server scs)
     (replicate (length scs) Ctrl @ [Sub, Publish, Collect])"
  unfolding clean_body_def length_map [of "snd \<circ> snd" scs, symmetric]
  by (rule completes_clean_measure stage_intros silent_intros)+

interpretation clean: staged_fleet E "clean_start_server E tag" "clean_launch E tag mode"
  "clean_body E n mode" "\<lambda>r. r \<noteq> None" "\<lambda>k. replicate k Ctrl @ [Sub, Publish, Collect]"
  for E tag mode n
  by (rule staged_fleetI [OF clean_start_server_def clean_launch_eq])
    (rule bystander_clean_body completes_clean_body)+

section \<open>Properties\<close>

definition succeeds :: "(exc + run_result option) \<times> hist \<Rightarrow> bool" where
  "succeeds res = (case res of (Inr (Some d), _) \<Rightarrow> ok d | _ \<Rightarrow> False)"

abbreviation demo_clean :: env where
  "demo_clean \<equiv> demo_env good_report"

lemma demo_clean_run:
  "\<exists>h'. run_one (demo_env rep) 1 tag mode h =
     (Inr (Some (run_result_of (13 + of_nat (length h)) (15 + of_nat (length h)) 100000
                   (17 + of_nat (length h)) (rep @ [CHR 0x0A]))), h')"
  by (simp add: run_one_def clean_start_server_def clean_launch_def clean_start_sidecar_plain_def
      clean_start_sidecar_js_def clean_body_def clean_measure_def demo_simps)

lemma demo_clean_ok: "ok (run_result_of a b c d (good_report @ [CHR 0x0A]))"
  by (simp add: run_result_of_def good_report_totals)

lemma demo_clean_succeeds: "succeeds (run_one demo_clean 1 tag mode h)"
  using demo_clean_run [of good_report tag mode h] demo_clean_ok by (auto simp: succeeds_def)

text \<open>
  C1. No process outlives a run of the throughput comparison: whether \<^verbatim>\<open>run_one\<close> returns a
  result, returns \<^verbatim>\<open>None\<close> early or raises, every logged process it started (the server and
  the sidecars, the ones launched before a failed launch included) is terminated exactly
  once and its log file closed exactly once, the sidecars in launch order and the server
  last. The only assumption is that the user does not interrupt the run and closing a
  log does not fail.
\<close>

theorem run_one_stops_fleet:
  assumes "calm E" and "run_one E n tag mode h = (r, h')"
  shows "\<exists>new. logged h' = logged h @ new
           \<and> terminated h' = terminated h @ rotate1 (map fst new)
           \<and> closed_logs h' = closed_logs h @ rotate1 (map snd new)"
  using clean.fleet_stopped assms unfolding run_one_def by blast

theorem run_one_stops_fleet_witness:
  "\<exists>new. logged (snd (run_one demo_clean 1 ''t'' ''plain'' [])) = logged [] @ new
     \<and> terminated (snd (run_one demo_clean 1 ''t'' ''plain'' [])) = terminated [] @ rotate1 (map fst new)
     \<and> closed_logs (snd (run_one demo_clean 1 ''t'' ''plain'' [])) = closed_logs [] @ rotate1 (map snd new)"
  by (rule run_one_stops_fleet [where E = demo_clean, OF _ prod.collapse [symmetric]])
    (rule calm_demo_env)

text \<open>
  C14. The order of a run: the server, then all sidecars, then the control request of every
  instance, then the subscriber, then the publish statement, then the subscriber's report.
  A run may break off anywhere, but never skips or reorders a stage, so nothing is
  published before every instance has accepted the filter and the subscriber is started;
  and a run that returns a result has gone through all stages for all \<open>n\<close> instances.
\<close>

theorem run_one_stages:
  assumes "run_one E n tag mode h = (r, h')"
  shows "(\<exists>k. phases E h' = phases E h @ take k (fleet_stages n))
    \<and> (\<forall>d. r = Inr (Some d) \<longrightarrow> phases E h' = phases E h @ fleet_stages n)"
  using clean.staged_run [OF assms [unfolded run_one_def], of n "fleet_stages n"]
  by (simp add: fleet_stages_def)

theorem run_one_stages_witness:
  "succeeds (run_one demo_clean 1 ''t'' ''plain'' [])
   \<and> phases demo_clean (snd (run_one demo_clean 1 ''t'' ''plain'' []))
       = [Server, Sidecar, Ctrl, Sub, Publish, Collect]"
  using demo_clean_succeeds [of "''t''" "''plain''" "[]"]
    run_one_stages [of demo_clean 1 "''t''" "''plain''" "[]", OF prod.collapse [symmetric]]
  by (auto simp: succeeds_def fleet_stages_def split: prod.splits sum.splits option.splits)

lemma clean_body_result:
  assumes "clean_body E n mode server scs h = (Inr (Some d), h')"
  obtains t0 t1 t2 p h1 sub_out where "t1 \<noteq> t0" and "communicate_ans E h1 p = Inr sub_out"
    and "d = run_result_of t0 t1 (200000 / (t1 - t0)) t2 sub_out"
  using assms
  by (auto simp: clean_body_def clean_measure_def prog_eqs Let_def communicate_def py_truediv_def
      split: if_splits)

text \<open>
  The verdict of a run is the driver's verdict: if the subscriber's output always ends
  with the driver's report line (after any complete lines), then a result of \<^verbatim>\<open>run_one\<close> is
  marked correct exactly when the driver counted the 21683 expected messages and none
  with a wrong field; the elapsed publish time is not zero and the publish rate is 200000
  rows over it; and the end-to-end rate is a number exactly when time has passed.
\<close>

theorem run_one_verdict:
  assumes "run_one E n tag mode h = (Inr (Some d), h')"
    and "\<forall>h p. communicate_ans E h p = Inr (noise @ sub_done_line tot wr secs rate @ [CHR 0x0A])"
    and "noise = [] \<or> last noise = CHR 0x0A"
    and "\<forall>c \<in> set secs. \<not> py_isspace c" and "\<forall>c \<in> set rate. \<not> py_isspace c" and "rate \<noteq> []"
  shows "(ok d \<longleftrightarrow> tot = 21683 \<and> wr = 0) \<and> pub_secs d \<noteq> 0 \<and> pub_rate d * pub_secs d = 200000
    \<and> (e2e_rate d = NaN \<longleftrightarrow> e2e_secs d \<le> 0)"
proof -
  obtain server scs h1 h2 where "clean_body E n mode server scs h1 = (Inr (Some d), h2)"
    using assms(1) unfolding run_one_def by (rule with_fleet_result)
  then obtain t0 t1 t2 p h3 sub_out where d: "t1 \<noteq> t0" "communicate_ans E h3 p = Inr sub_out"
      "d = run_result_of t0 t1 (200000 / (t1 - t0)) t2 sub_out"
    by (rule clean_body_result)
  from d(2) assms(2) have out: "sub_out = noise @ sub_done_line tot wr secs rate @ [CHR 0x0A]" by simp
  have "sub_line_of sub_out = sub_done_line tot wr secs rate"
    unfolding out by (rule sub_line_of_report [OF sub_done_line_shape [OF assms(4-6)] assms(3)])
  then have "scan_totals (sub_line_of sub_out) = (Some (str_nat tot), Some (str_nat wr))"
    using scan_sub_done [OF assms(4,5)] by simp
  then show ?thesis
    using d(1) unfolding d(3)
    by (simp add: run_result_of_def e2e_rate_of_def EXPECTED_def str_nat_0 [symmetric] field_simps)
qed

theorem run_one_verdict_witness:
  "\<exists>d h'. run_one demo_clean 1 ''t'' ''plain'' [] = (Inr (Some d), h') \<and> (ok d \<longleftrightarrow> (21683::nat) = 21683 \<and> (0::nat) = 0)
     \<and> pub_rate d * pub_secs d = 200000"
proof -
  obtain d h' where run: "run_one demo_clean 1 ''t'' ''plain'' [] = (Inr (Some d), h')"
    using demo_clean_succeeds [of "''t''" "''plain''" "[]"]
    by (auto simp: succeeds_def split: prod.splits sum.splits option.splits)
  show ?thesis
    using run run_one_verdict [OF run, of "[]" 21683 0 "''1.5''" "''14455.3''"]
    by (simp add: demo_env_def good_report_def py_isspace_def)
qed

text \<open>The correct ones among the outcomes of several runs.\<close>

definition correct_of :: "run_result option list \<Rightarrow> run_result list" where
  "correct_of outcomes = filter ok (map the (filter (\<lambda>r. r \<noteq> None) outcomes))"

lemma correct_of_Cons:
  "correct_of [] = []" "correct_of (None # rs) = correct_of rs"
  "correct_of (Some d # rs) = (if ok d then d # correct_of rs else correct_of rs)"
  by (simp_all add: correct_of_def)

lemma run_n_avg_loop_ok:
  "run_n_avg_loop E n mode rs acc h = (Inr res, h') \<Longrightarrow>
   \<exists>outcomes. list_all2 (\<lambda>r res. \<exists>h1 h2. run_one E n (mode @ str_nat n @ ''_'' @ str_nat r) mode h1 = (Inr res, h2))
       rs outcomes \<and> res = acc @ correct_of outcomes"
proof (induction rs arbitrary: acc h)
  case (Cons r rs)
  from Cons.prems obtain x h1 where
    run: "run_one E n (mode @ str_nat n @ ''_'' @ str_nat r) mode h = (Inr x, h1)"
    by (auto simp: prog_eqs)
  with Cons.prems obtain acc' h2 where later: "run_n_avg_loop E n mode rs acc' h2 = (Inr res, h')"
    and acc': "acc' = acc @ correct_of [x]"
    by (cases x) (auto simp: prog_eqs Let_def correct_of_Cons split: if_splits)
  from Cons.IH [OF later] obtain outcomes where
    "list_all2 (\<lambda>r res. \<exists>h1 h2. run_one E n (mode @ str_nat n @ ''_'' @ str_nat r) mode h1 = (Inr res, h2))
       rs outcomes" "res = acc' @ correct_of outcomes" by blast
  with run acc' show ?case by (intro exI [of _ "x # outcomes"]) (cases x; auto simp: correct_of_Cons)
qed (simp add: correct_of_Cons ret_def)

text \<open>
  The averages are over all correct runs and only these: \<^verbatim>\<open>run_n_avg\<close> that returns has
  made the \<open>runs\<close> runs, each under its own tag, and its results are the correct ones among
  their outcomes, in order.
\<close>

theorem run_n_avg_only_ok:
  assumes "run_n_avg E n mode runs h = (Inr res, h')"
  shows "\<exists>outcomes. length outcomes = runs \<and> res = correct_of outcomes
    \<and> (\<forall>r < runs. \<exists>h1 h2. run_one E n (mode @ str_nat n @ ''_'' @ str_nat r) mode h1 = (Inr (outcomes ! r), h2))"
proof -
  from run_n_avg_loop_ok [OF assms [unfolded run_n_avg_def]] obtain outcomes where
    "list_all2 (\<lambda>r res. \<exists>h1 h2. run_one E n (mode @ str_nat n @ ''_'' @ str_nat r) mode h1 = (Inr res, h2))
       [0..<runs] outcomes" "res = correct_of outcomes" by auto
  then show ?thesis by (intro exI [of _ outcomes]) (auto simp: list_all2_conv_all_nth)
qed

lemma demo_clean_avg:
  "\<exists>res h'. run_n_avg_loop demo_clean 1 mode rs acc h = (Inr res, h')
     \<and> length res = length acc + length rs"
proof (induction rs arbitrary: acc h)
  case (Cons r rs)
  obtain d h1 where "run_one demo_clean 1 (mode @ str_nat 1 @ ''_'' @ str_nat r) mode h = (Inr (Some d), h1)"
      "ok d"
    using demo_clean_run [of good_report _ mode h] demo_clean_ok by blast
  with Cons.IH [of "acc @ [d]"] show ?case
    by (simp add: bind_def andthen_def Let_def print_out_def act_def)
qed (simp add: ret_def)

theorem run_n_avg_only_ok_witness:
  "\<exists>res h'. run_n_avg demo_clean 1 ''js'' 2 [] = (Inr res, h') \<and> length res = 2 \<and> (\<forall>d \<in> set res. ok d)"
proof -
  obtain res h' where run: "run_n_avg demo_clean 1 ''js'' 2 [] = (Inr res, h')" "length res = 2"
    using demo_clean_avg [of "''js''" "[0..<2]" "[]" "[]"] by (auto simp: run_n_avg_def)
  from run run_n_avg_only_ok [OF run(1)] show ?thesis by (auto simp: correct_of_def)
qed



end
