(* ===== verification/Storage_Isolation.thy ===== *)
theory Storage_Isolation
  imports Throughput_Clean
begin

text \<open>
  \<^verbatim>\<open>bench/nats_sidecar_jetstream_storage_isolation.py\<close>: the throughput comparison with a
  third mode, which keeps the input stream in memory, to see how much of the cost of
  durability is disk persistence. The body of a run is the text of the throughput
  comparison (\<open>clean_body\<close>); the launches and the summary are the script's own.
\<close>

section \<open>Launching\<close>

definition iso_start_server :: "env \<Rightarrow> string \<Rightarrow> (nat \<times> nat) os" where
  "iso_start_server E tag =
     start_server_at E (''/tmp/nsc_iso_store_'' @ tag) (''/tmp/nsc_iso_server_'' @ tag @ ''.log'')"

definition iso_start_sidecar_plain :: "env \<Rightarrow> nat \<Rightarrow> string \<Rightarrow> (nat \<times> nat) os" where
  "iso_start_sidecar_plain E i tag =
     spawn_logged E (''/tmp/nsc_iso_sidecar_plain_'' @ tag @ ''_'' @ str_nat i @ ''.log'')
       [SIDECAR E,
        ''-a'', ''127.0.0.1'', ''-p'', ''4222'',
        ''-i'', INPUT_SUBJECT,
        ''--queue-group'', ''qg-iso'',
        ''--attr'', FILTER_FIELD @ '':string'',
        ''--engine'', ''atree'',
        ''--output-prefix'', OUTPUT_PREFIX,
        ''--subscribe-subject'', ''sc.iso.plain.ctrl.'' @ str_nat i,
        ''--workers'', ''2'',
        ''--lease-bucket'', ''sc-iso-plain-leases-'' @ tag]"

definition iso_start_sidecar_js ::
  "env \<Rightarrow> nat \<Rightarrow> string \<Rightarrow> string \<Rightarrow> nat \<Rightarrow> (nat \<times> nat) os" where
  "iso_start_sidecar_js E i tag storage max_ack_pending =
     spawn_logged E
       (''/tmp/nsc_iso_sidecar_js_'' @ storage @ ''_'' @ tag @ ''_'' @ str_nat i @ ''.log'')
       [SIDECAR E,
        ''-a'', ''127.0.0.1'', ''-p'', ''4222'',
        ''-i'', INPUT_SUBJECT,
        ''--input-stream'', ''SC_ISO_INPUT'',
        ''--input-stream-storage'', storage,
        ''--consumer-durable-name'', ''sc-iso-durable'',
        ''--consumer-deliver-subject'', ''sc.iso.deliver'',
        ''--consumer-deliver-group'', ''sc-iso-group'',
        ''--consumer-max-ack-pending'', str_nat max_ack_pending,
        ''--consumer-ack-wait'', ''30'',
        ''--attr'', FILTER_FIELD @ '':string'',
        ''--engine'', ''atree'',
        ''--output-prefix'', OUTPUT_PREFIX,
        ''--subscribe-subject'', ''sc.iso.js.ctrl.'' @ storage @ ''.'' @ tag @ ''.'' @ str_nat i,
        ''--workers'', ''2'',
        ''--lease-bucket'', ''sc-iso-js-leases-'' @ storage @ ''-'' @ tag]"

definition iso_launch :: "env \<Rightarrow> string \<Rightarrow> string \<Rightarrow> nat \<Rightarrow> string sidecar os" where
  "iso_launch E tag mode i =
     (if mode = ''plain'' then
        bind (iso_start_sidecar_plain E i tag)
          (\<lambda>(sp, sl). ret (sp, sl, ''sc.iso.plain.ctrl.'' @ str_nat i))
      else if mode = ''js_file'' then
        bind (iso_start_sidecar_js E i tag ''file'' 2000)
          (\<lambda>(sp, sl). ret (sp, sl, ''sc.iso.js.ctrl.file.'' @ tag @ ''.'' @ str_nat i))
      else
        bind (iso_start_sidecar_js E i tag ''memory'' 2000)
          (\<lambda>(sp, sl). ret (sp, sl, ''sc.iso.js.ctrl.memory.'' @ tag @ ''.'' @ str_nat i)))"

definition iso_run_one :: "env \<Rightarrow> nat \<Rightarrow> string \<Rightarrow> string \<Rightarrow> run_result option os" where
  "iso_run_one E n tag mode =
     with_fleet E (iso_start_server E tag) (iso_launch E tag mode) [1..<n + 1]
       (clean_body E n mode)"

section \<open>Repeated runs and the summary\<close>

fun iso_run_n_avg_loop ::
  "env \<Rightarrow> nat \<Rightarrow> string \<Rightarrow> nat list \<Rightarrow> run_result list \<Rightarrow> run_result list os" where
  "iso_run_n_avg_loop E n mode [] results = ret results"
| "iso_run_n_avg_loop E n mode (r # rs) results =
     bind (iso_run_one E n (mode @ str_nat n @ ''_'' @ str_nat r) mode) (\<lambda>res.
       let lead = ''  ['' @ mode @ ''] N='' @ str_nat n @ '' run '' @ str_nat r @ '': '' in
       case res of
         None \<Rightarrow>
           andthen (print_err (lead @ ''FAILED/incorrect (None)''))
             (iso_run_n_avg_loop E n mode rs results)
       | Some d \<Rightarrow>
           if \<not> ok d then
             andthen (print_err (lead @ ''FAILED/incorrect''))
               (iso_run_n_avg_loop E n mode rs results)
           else
             andthen
               (print_out (lead @ ''pub_rate='' @ fmt_rat 0 (pub_rate d) @ ''/s ''
                  @ ''e2e_rate='' @ fmt_fixed 0 (e2e_rate d) @ ''/s total='' @ str_opt (total d)
                  @ '' wrong='' @ str_opt (wrong d)))
               (iso_run_n_avg_loop E n mode rs (results @ [d])))"

definition iso_run_n_avg :: "env \<Rightarrow> nat \<Rightarrow> string \<Rightarrow> nat \<Rightarrow> run_result list os" where
  "iso_run_n_avg E n mode runs = iso_run_n_avg_loop E n mode [0..<runs] []"

text \<open>\<^verbatim>\<open>avg_e2e(mode)\<close>: \<^verbatim>\<open>None\<close> when no run of the mode succeeded.\<close>

definition avg_e2e :: "run_result list \<Rightarrow> pyfloat option" where
  "avg_e2e rs =
     (if rs = [] then None else Some (fl_div_len (fl_sum (map e2e_rate rs)) (length rs)))"

text \<open>\<^verbatim>\<open>if p\<close> for an average or \<^verbatim>\<open>None\<close>, and its text.\<close>

definition opt_true :: "pyfloat option \<Rightarrow> bool" where
  "opt_true x = (case x of None \<Rightarrow> False | Some v \<Rightarrow> fl_true v)"

definition avg_text :: "pyfloat option \<Rightarrow> string" where
  "avg_text x = (if opt_true x then fmt_fixed 0 (the x) else ''FAIL'')"

text \<open>
  \<^verbatim>\<open>recovered = (jm - jf) / gap if gap > 0 else float("nan")\<close>, where \<^verbatim>\<open>gap = p - jf\<close>: the
  share of the plain mode's lead over file storage that memory storage recovers.
\<close>

definition recovered :: "pyfloat \<Rightarrow> pyfloat \<Rightarrow> pyfloat \<Rightarrow> exc + pyfloat" where
  "recovered p jf jm =
     (let gap = fl_sub p jf in
      if fl_less (Fin 0) gap then fl_div (fl_sub jm jf) gap else Inr NaN)"

definition fl_percent :: "pyfloat \<Rightarrow> pyfloat" where
  "fl_percent x = (case x of Fin r \<Rightarrow> Fin (r * 100) | y \<Rightarrow> y)"

definition iso_row :: "nat \<Rightarrow> pyfloat option \<Rightarrow> pyfloat option \<Rightarrow> pyfloat option \<Rightarrow> exc + string" where
  "iso_row n p jf jm =
     (let row = (\<lambda>fs mr. rjust 3 (str_nat n) @ ''  '' @ rjust 10 (avg_text p) @ ''  ''
                  @ rjust 10 (avg_text jf) @ ''  '' @ rjust 10 (avg_text jm) @ ''  ''
                  @ rjust 14 fs @ ''  '' @ rjust 13 mr) in
      if opt_true p \<and> opt_true jf \<and> opt_true jm then
        (case fl_div (the p) (the jf) of
           Inl e \<Rightarrow> Inl e
         | Inr slowdown \<Rightarrow>
             (case recovered (the p) (the jf) (the jm) of
                Inl e \<Rightarrow> Inl e
              | Inr rec \<Rightarrow>
                  Inr (row (fmt_fixed 2 slowdown @ ''x'') (fmt_fixed 0 (fl_percent rec) @ ''%''))))
      else Inr (row ''N/A'' ''N/A''))"

fun iso_sizes :: "env \<Rightarrow> string \<Rightarrow> nat list \<Rightarrow> result_table \<Rightarrow> result_table os" where
  "iso_sizes E mode [] table = ret table"
| "iso_sizes E mode (n # ns) table =
     bind (iso_run_n_avg E n mode 2) (\<lambda>results. iso_sizes E mode ns (table((mode, n) \<mapsto> results)))"

fun iso_modes :: "env \<Rightarrow> nat list \<Rightarrow> string list \<Rightarrow> result_table \<Rightarrow> result_table os" where
  "iso_modes E ns [] table = ret table"
| "iso_modes E ns (mode # modes) table =
     andthen (print_out (''=== mode='' @ mode @ '' ===''))
       (bind (iso_sizes E mode ns table) (\<lambda>table. iso_modes E ns modes table))"

definition iso_print_row :: "result_table \<Rightarrow> nat \<Rightarrow> unit os" where
  "iso_print_row table n =
     bind (lift (table_get table ''plain'' n)) (\<lambda>p.
     bind (lift (table_get table ''js_file'' n)) (\<lambda>jf.
     bind (lift (table_get table ''js_memory'' n)) (\<lambda>jm.
     bind (lift (iso_row n (avg_e2e p) (avg_e2e jf) (avg_e2e jm))) print_out)))"

definition iso_main :: "env \<Rightarrow> unit os" where
  "iso_main E =
     (let ns = [8, 12, 16] in
      bind (iso_modes E ns [''plain'', ''js_file'', ''js_memory''] Map.empty) (\<lambda>table.
      andthen (print_out (CHR 0x0A # ''=== SUMMARY (e2e rate, avg of successful runs) ===''))
      (andthen (print_out (rjust 3 ''N'' @ ''  '' @ rjust 10 ''plain'' @ ''  ''
         @ rjust 10 ''js_file'' @ ''  '' @ rjust 10 ''js_memory'' @ ''  ''
         @ rjust 14 ''file_slowdown'' @ ''  '' @ rjust 13 ''mem_recovers''))
      (for_each (iso_print_row table) ns))))"

section \<open>The fleet contract\<close>

lemma iso_launch_eq:
  "\<exists>path args c. iso_launch E tag mode i
     = bind (spawn_logged E path (SIDECAR E # args)) (\<lambda>(p, l). ret (p, l, c))"
  by (auto simp: iso_launch_def iso_start_sidecar_plain_def iso_start_sidecar_js_def)

interpretation iso: staged_fleet E "iso_start_server E tag" "iso_launch E tag mode"
  "clean_body E n mode" "\<lambda>r. r \<noteq> None" "\<lambda>k. replicate k Ctrl @ [Sub, Publish, Collect]"
  for E tag mode n
  by (rule staged_fleetI [OF iso_start_server_def iso_launch_eq])
    (rule bystander_clean_body completes_clean_body)+

section \<open>Properties\<close>

text \<open>
  A run of the storage isolation script goes through the same stages in the same order
  in each of its three modes, and leaves no logged process behind: what it started is
  terminated and its logs are closed, the server last.
\<close>

theorem iso_run_one_safe:
  assumes "calm E" and "iso_run_one E n tag mode h = (r, h')"
  shows "(\<exists>new. logged h' = logged h @ new
            \<and> terminated h' = terminated h @ rotate1 (map fst new)
            \<and> closed_logs h' = closed_logs h @ rotate1 (map snd new))
    \<and> (\<exists>k. phases E h' = phases E h @ take k (fleet_stages n))
    \<and> (\<forall>d. r = Inr (Some d) \<longrightarrow> phases E h' = phases E h @ fleet_stages n)"
  using iso.staged_run [OF assms(2) [unfolded iso_run_one_def], of n "fleet_stages n"]
    iso.fleet_stopped [OF assms(1) assms(2) [unfolded iso_run_one_def]]
  by (simp add: fleet_stages_def)

lemma demo_iso_run:
  "\<exists>h'. iso_run_one (demo_env rep) 1 tag mode h =
     (Inr (Some (run_result_of (13 + of_nat (length h)) (15 + of_nat (length h)) 100000
                   (17 + of_nat (length h)) (rep @ [CHR 0x0A]))), h')"
  by (simp add: iso_run_one_def iso_start_server_def iso_launch_def iso_start_sidecar_plain_def
      iso_start_sidecar_js_def clean_body_def clean_measure_def demo_simps)

theorem iso_run_one_safe_witness:
  "\<exists>d h'. iso_run_one demo_clean 1 ''t'' ''js_memory'' [] = (Inr (Some d), h')
     \<and> phases demo_clean h' = [Server, Sidecar, Ctrl, Sub, Publish, Collect]"
proof -
  obtain d h' where run: "iso_run_one demo_clean 1 ''t'' ''js_memory'' [] = (Inr (Some d), h')"
    using demo_iso_run [of good_report "''t''" "''js_memory''" "[]"] by blast
  from iso_run_one_safe [OF calm_demo_env run] run show ?thesis
    by (simp add: fleet_stages_def)
qed

text \<open>
  The share that memory storage recovers is a real share: when file storage is slower
  than plain mode it is computed without a division by zero, is 0 where memory storage is as
  slow as file storage, 1 where it is as fast as plain mode, and lies between the two
  whenever the memory rate does; when there is no gap it is NaN.
\<close>

theorem recovered_share:
  "(jf < p \<longrightarrow> (\<exists>x. recovered (Fin p) (Fin jf) (Fin jm) = Inr (Fin x)
        \<and> x * (p - jf) = jm - jf
        \<and> (jm = jf \<longrightarrow> x = 0) \<and> (jm = p \<longrightarrow> x = 1)
        \<and> (jf \<le> jm \<and> jm \<le> p \<longrightarrow> 0 \<le> x \<and> x \<le> 1)))
   \<and> (p \<le> jf \<longrightarrow> recovered (Fin p) (Fin jf) (Fin jm) = Inr NaN)"
  by (auto simp: recovered_def fl_sub_def divide_simps intro!: exI [of _ "(jm - jf) / (p - jf)"])

theorem recovered_share_witness:
  "\<exists>x. recovered (Fin 100) (Fin 40) (Fin 70) = Inr (Fin x) \<and> 0 \<le> x \<and> x \<le> 1 \<and> x * 60 = 30"
  using recovered_share [of 40 100 70] by auto

end
