(* ===== verification/Scaling_Real.thy ===== *)
theory Scaling_Real
  imports Sidecar_Config
begin

text \<open>
  \<^verbatim>\<open>bench/nats_sidecar_scaling_real_data.py\<close>: the scaling sweep over 1, 2, 4 and 8
  instances with the real-data fixture.
\<close>

section \<open>The scaling sweep\<close>

definition real_start_server :: "env \<Rightarrow> nat \<Rightarrow> (nat \<times> nat) os" where
  "real_start_server E n =
     start_server_at E (''/tmp/nsc_real_store'' @ ''_'' @ str_nat n)
       (''/tmp/nsc_real_server_'' @ str_nat n @ ''.log'')"

definition real_start_sidecar :: "env \<Rightarrow> nat \<Rightarrow> nat \<Rightarrow> (nat \<times> nat) os" where
  "real_start_sidecar E i n =
     spawn_logged E (''/tmp/nsc_real_sidecar_'' @ str_nat n @ ''_'' @ str_nat i @ ''.log'')
       [SIDECAR E,
        ''-a'', ''127.0.0.1'', ''-p'', ''4222'',
        ''-i'', INPUT_SUBJECT,
        ''--queue-group'', ''qg-real'',
        ''--attr'', FILTER_FIELD @ '':string'',
        ''--engine'', ''atree'',
        ''--output-prefix'', OUTPUT_PREFIX,
        ''--subscribe-subject'', ''sc.real.ctrl.'' @ str_nat i,
        ''--workers'', ''2'',
        ''--lease-bucket'', ''sc-real-leases-'' @ str_nat n]"

text \<open>The entries of \<^verbatim>\<open>sidecars\<close> are pairs here; the third component is unused.\<close>

definition real_launch :: "env \<Rightarrow> nat \<Rightarrow> nat \<Rightarrow> unit sidecar os" where
  "real_launch E n i = bind (real_start_sidecar E i n) (\<lambda>(sp, sl). ret (sp, sl, ()))"

definition real_run_ctrl :: "env \<Rightarrow> nat \<Rightarrow> string os" where
  "real_run_ctrl E i = run_ctrl E (''sc.real.ctrl.'' @ str_nat i)"

text \<open>The returned triple: the publish rate, the publish time and the subscriber's last line.\<close>

definition real_body ::
  "env \<Rightarrow> nat \<Rightarrow> nat \<Rightarrow> unit sidecar list \<Rightarrow> (rat \<times> rat \<times> string) option os" where
  "real_body E n server sidecars =
     andthen (sleep E (25/10))
     (bind (ctrl_all (real_run_ctrl E)
              (\<lambda>i. ''  N='' @ str_nat n @ '' instance '' @ str_nat i @ '' ctrl FAILED: '')
              [1..<n + 1]) (\<lambda>registered.
      if \<not> registered then ret None else
      andthen (sleep E (3/10))
      (bind (popen_subfield E) (\<lambda>sub.
       andthen (sleep E (3/10))
       (bind (time_time E) (\<lambda>t0.
        bind (run_cmd E (PSQL @ [pub_sql_plain]) 120) (\<lambda>pub.
        bind (time_time E) (\<lambda>t1.
        if returncode pub \<noteq> 0 then
          andthen (print_err (''  N='' @ str_nat n @ '' publish FAILED: '' @ err pub)) (ret None)
        else
          bind (lift (py_truediv 200000 (t1 - t0))) (\<lambda>pub_rate.
          bind (communicate E sub 100) (\<lambda>sub_out.
            ret (Some (pub_rate, t1 - t0, sub_line_of sub_out)))))))))))) "

definition real_run_n :: "env \<Rightarrow> nat \<Rightarrow> (rat \<times> rat \<times> string) option os" where
  "real_run_n E n =
     with_fleet E (real_start_server E n) (real_launch E n) [1..<n + 1] (real_body E n)"

text \<open>The main loop over the fleet sizes; a failed size is reported and skipped.\<close>

type_synonym scaling_row = "nat \<times> rat \<times> string option \<times> string option \<times> string option"

fun real_sweep :: "env \<Rightarrow> nat list \<Rightarrow> scaling_row list \<Rightarrow> scaling_row list os" where
  "real_sweep E [] results = ret results"
| "real_sweep E (n # ns) results =
     andthen (print_out (''=== N='' @ str_nat n @ '' ===''))
     (bind (real_run_n E n) (\<lambda>r.
       case r of
         None \<Rightarrow>
           andthen (print_out (''N='' @ str_nat n @ '' FAILED'')) (real_sweep E ns results)
       | Some (pub_rate, pub_secs, sub_line) \<Rightarrow>
           andthen (print_out (''  publish: '' @ fmt_rat 0 pub_rate @ '' rows/s (''
                      @ fmt_rat 2 pub_secs @ ''s)''))
           (andthen (print_out (''  '' @ sub_line))
           (andthen (sleep E 1)
             (real_sweep E ns
                (results @ [(n, pub_rate, parse sub_line ''total'', parse sub_line ''wrong'',
                             parse sub_line ''rate'')]))))))"

definition real_row :: "scaling_row \<Rightarrow> string" where
  "real_row row =
     (case row of (n, pr, tot, wrong, rate) \<Rightarrow>
        str_nat n @ '' | '' @ fmt_rat 0 pr @ '' | '' @ str_opt tot @ ''/'' @ str_nat EXPECTED
          @ '' | '' @ str_opt wrong @ '' | '' @ str_opt rate)"

definition real_main :: "env \<Rightarrow> unit os" where
  "real_main E =
     bind (real_sweep E [1, 2, 4, 8] []) (\<lambda>results.
     andthen (print_out (CHR 0x0A # ''=== SUMMARY (real NYSE data, Exchange==N, 200000 rows, expected=21683) ===''))
     (andthen (print_out ''N | publish_rate(rows/s) | total | wrong | filtered_rate(matches/s)'')
     (for_each (\<lambda>row. print_out (real_row row)) results)))"

section \<open>The fleet contract of the sweep\<close>

lemma real_launch_eq:
  "\<exists>path args c. real_launch E n i
     = bind (spawn_logged E path (SIDECAR E # args)) (\<lambda>(p, l). ret (p, l, c))"
  by (auto simp: real_launch_def real_start_sidecar_def)

lemma bystander_real_body [bystander_intros]: "bystander (real_body E n server scs)"
  unfolding real_body_def real_run_ctrl_def by (intro bystander_intros)

lemma completes_real_body:
  "completes (phase_ev E) (\<lambda>r. r \<noteq> None) (real_body E n server scs)
     (replicate n Ctrl @ [Sub, Publish, Collect])"
proof -
  have "completes (phase_ev E) (\<lambda>r. r \<noteq> None) (real_body E n server scs)
     (replicate (length [1..<n + 1]) Ctrl @ [Sub, Publish, Collect])"
    unfolding real_body_def real_run_ctrl_def by (rule stage_intros silent_intros)+
  then show ?thesis by (simp only: length_range1)
qed

interpretation real: staged_fleet E "real_start_server E n" "real_launch E n" "real_body E n"
  "\<lambda>r. r \<noteq> None" "\<lambda>_. replicate n Ctrl @ [Sub, Publish, Collect]" for E n
  by (rule staged_fleetI [OF real_start_server_def real_launch_eq bystander_real_body completes_real_body])

section \<open>Properties of the sweep\<close>

lemma real_body_result:
  assumes "real_body E n server scs h = (Inr (Some (rate, secs, line)), h')"
  shows "secs \<noteq> 0 \<and> rate * secs = 200000 \<and> (\<exists>h1 p sub_out. communicate_ans E h1 p = Inr sub_out
    \<and> line = sub_line_of sub_out)"
  using assms
  by (auto simp: real_body_def prog_eqs communicate_def py_truediv_def field_simps split: if_splits)

text \<open>
  A scaling run of \<open>n\<close> instances stops all it started, keeps the order of its stages, and
  its result is consistent: the rate times the elapsed seconds is the 200000 rows of the
  fixture, and the two counters \<^verbatim>\<open>parse\<close> reads from the returned line are the ones the
  driver printed.
\<close>

theorem real_run_n_safe:
  assumes "calm E" and "real_run_n E n h = (r, h')"
    and "\<forall>h p. communicate_ans E h p = Inr (sub_done_line tot wr secs rate @ [CHR 0x0A])"
    and "\<forall>c \<in> set secs. \<not> py_isspace c" and "\<forall>c \<in> set rate. \<not> py_isspace c" and "rate \<noteq> []"
  shows "(\<exists>new. logged h' = logged h @ new
            \<and> terminated h' = terminated h @ rotate1 (map fst new)
            \<and> closed_logs h' = closed_logs h @ rotate1 (map snd new))
    \<and> (\<exists>k. phases E h' = phases E h @ take k (fleet_stages n))
    \<and> (\<forall>pr ps line. r = Inr (Some (pr, ps, line)) \<longrightarrow> phases E h' = phases E h @ fleet_stages n
         \<and> pr * ps = 200000 \<and> parse line ''total'' = Some (str_nat tot)
         \<and> parse line ''wrong'' = Some (str_nat wr))"
proof -
  have res: "pr * ps = 200000 \<and> parse line ''total'' = Some (str_nat tot)
      \<and> parse line ''wrong'' = Some (str_nat wr)" if "r = Inr (Some (pr, ps, line))" for pr ps line
  proof -
    have "real_run_n E n h = (Inr (Some (pr, ps, line)), h')" using assms(2) that by simp
    then obtain server scs h1 h2 where "real_body E n server scs h1 = (Inr (Some (pr, ps, line)), h2)"
      unfolding real_run_n_def by (rule with_fleet_result)
    from real_body_result [OF this] assms(3) have "pr * ps = 200000"
      and "line = sub_line_of (sub_done_line tot wr secs rate @ [CHR 0x0A])" by auto
    moreover have "sub_line_of (sub_done_line tot wr secs rate @ [CHR 0x0A]) = sub_done_line tot wr secs rate"
      using sub_line_of_report [OF sub_done_line_shape [OF assms(4-6)], of "[]"] by simp
    ultimately show ?thesis
      using scan_sub_done [OF assms(4,5), of tot wr] scan_fold_parse [of "py_split line" Map.empty]
      by (simp add: scan_totals_def parse_def)
  qed
  show ?thesis
    using real.staged_run [OF assms(2) [unfolded real_run_n_def], of n "fleet_stages n"]
      real.fleet_stopped [OF assms(1) assms(2) [unfolded real_run_n_def]] res
    by (simp add: fleet_stages_def length_range1)
qed

lemma demo_real_run: "\<exists>pr ps line h'. real_run_n (demo_env rep) 1 [] = (Inr (Some (pr, ps, line)), h')"
  by (simp add: real_run_n_def real_start_server_def real_launch_def real_start_sidecar_def
      real_body_def real_run_ctrl_def demo_simps)

theorem real_run_n_safe_witness:
  "\<exists>pr ps line h'. real_run_n (demo_env good_report) 1 [] = (Inr (Some (pr, ps, line)), h')
     \<and> pr * ps = 200000 \<and> parse line ''total'' = Some (str_nat 21683)"
proof -
  obtain pr ps line h' where run: "real_run_n (demo_env good_report) 1 [] = (Inr (Some (pr, ps, line)), h')"
    using demo_real_run by blast
  from real_run_n_safe [OF calm_demo_env run, of 21683 0 "''1.5''" "''14455.3''"] run show ?thesis
    by (simp add: demo_env_def good_report_def py_isspace_def)
qed

end
