(* ===== verification/Ctrl_Plane.thy ===== *)
theory Ctrl_Plane
  imports Sidecar_Config
begin

text \<open>
  The control plane of the sidecar fleet: \<^verbatim>\<open>bench/measure_ctrl_plane_only.py\<close> times the
  registration of the filter alone, as \<open>n\<close> sequential requests (the old design) and as one
  broadcast (the new one); \<^verbatim>\<open>run_ctrl_bcast\<close> of
  \<^verbatim>\<open>bench/nats_sidecar_scaling_real_data_bcast.py\<close> reads the driver's answer to a
  broadcast. The driver prints the identifier of the subscription and the numbers of
  acknowledgements and errors.
\<close>

section \<open>The driver's answer to a broadcast\<close>

definition ctrl_bcast_output :: "nat \<Rightarrow> nat \<Rightarrow> nat \<Rightarrow> nat \<Rightarrow> string \<Rightarrow> string" where
  "ctrl_bcast_output sub_id acks errors expected ms =
     ''CTRL_BCAST_ID '' @ str_nat sub_id @ [CHR 0x0A]
     @ ''CTRL_BCAST_ACKS '' @ str_nat acks @ '' errors='' @ str_nat errors
     @ '' expected='' @ str_nat expected @ '' latency_ms='' @ ms @ [CHR 0x0A]"

text \<open>\<^verbatim>\<open>line.split()[1]\<close>\<close>

definition second_token :: "string \<Rightarrow> exc + string" where
  "second_token line =
     (let toks = py_split line in if 1 < length toks then Inr (toks ! 1) else Inl IndexError)"

definition py_int_exc :: "string \<Rightarrow> exc + int" where
  "py_int_exc s = (case py_int s of None \<Rightarrow> Inl ValueError | Some i \<Rightarrow> Inr i)"

definition py_float_exc :: "string \<Rightarrow> exc + pyfloat" where
  "py_float_exc s = (case py_float s of None \<Rightarrow> Inl ValueError | Some x \<Rightarrow> Inr x)"

text \<open>\<^verbatim>\<open>k, v = p.split("=", 1)\<close> on any token: unpacking one part raises \<^verbatim>\<open>ValueError\<close>.\<close>

definition split_kv :: "string \<Rightarrow> exc + string \<times> string" where
  "split_kv tok = (if CHR ''='' \<in> set tok then Inr (split_eq tok) else Inl ValueError)"

record bcast_scan =
  bc_sub_id :: "int option"
  bc_acks :: "int option"
  bc_errors :: "int option"
  bc_expected :: "int option"
  bc_latency :: "pyfloat option"

definition bind_res :: "exc + 'a \<Rightarrow> ('a \<Rightarrow> exc + 'b) \<Rightarrow> exc + 'b" where
  "bind_res r f = (case r of Inl e \<Rightarrow> Inl e | Inr x \<Rightarrow> f x)"

definition scan_ack_part :: "string \<Rightarrow> bcast_scan \<Rightarrow> exc + bcast_scan" where
  "scan_ack_part p s =
     bind_res (split_kv p) (\<lambda>(k, v).
       if k = ''errors'' then bind_res (py_int_exc v) (\<lambda>i. Inr (s\<lparr>bc_errors := Some i\<rparr>))
       else if k = ''expected'' then bind_res (py_int_exc v) (\<lambda>i. Inr (s\<lparr>bc_expected := Some i\<rparr>))
       else if k = ''latency_ms'' then bind_res (py_float_exc v) (\<lambda>x. Inr (s\<lparr>bc_latency := Some x\<rparr>))
       else Inr s)"

fun scan_ack_parts :: "string list \<Rightarrow> bcast_scan \<Rightarrow> exc + bcast_scan" where
  "scan_ack_parts [] s = Inr s"
| "scan_ack_parts (p # ps) s = bind_res (scan_ack_part p s) (scan_ack_parts ps)"

definition scan_bcast_line :: "string \<Rightarrow> bcast_scan \<Rightarrow> exc + bcast_scan" where
  "scan_bcast_line line s =
     (if py_startswith line ''CTRL_BCAST_ID '' then
        bind_res (second_token line) (\<lambda>t. bind_res (py_int_exc t) (\<lambda>i. Inr (s\<lparr>bc_sub_id := Some i\<rparr>)))
      else if py_startswith line ''CTRL_BCAST_ACKS '' then
        bind_res (second_token line) (\<lambda>t. bind_res (py_int_exc t) (\<lambda>i.
          scan_ack_parts (drop 2 (py_split line)) (s\<lparr>bc_acks := Some i\<rparr>)))
      else Inr s)"

fun scan_bcast_lines :: "string list \<Rightarrow> bcast_scan \<Rightarrow> exc + bcast_scan" where
  "scan_bcast_lines [] s = Inr s"
| "scan_bcast_lines (l # ls) s = bind_res (scan_bcast_line l s) (scan_bcast_lines ls)"

definition empty_scan :: bcast_scan where
  "empty_scan = \<lparr>bc_sub_id = None, bc_acks = None, bc_errors = None, bc_expected = None,
                 bc_latency = None\<rparr>"

definition bcast_argv :: "env \<Rightarrow> string \<Rightarrow> nat \<Rightarrow> string list" where
  "bcast_argv E subject n = [DRIVER E, ''ctrl_bcast'', subject, filter_expr, str_nat n, ''5000'']"

text \<open>
  \<^verbatim>\<open>run_ctrl_bcast(n)\<close>: the returned tuple holds the identifier, the output topic made from
  it, the acknowledgements, the errors, the driver's latency and the wall-clock seconds.
\<close>

type_synonym bcast_result =
  "int \<times> string \<times> int option \<times> int option \<times> pyfloat option \<times> rat"

definition CTRL_SUBJECT :: string where "CTRL_SUBJECT = ''sc.real.ctrl.shared''"

definition run_ctrl_bcast :: "env \<Rightarrow> nat \<Rightarrow> bcast_result option os" where
  "run_ctrl_bcast E n =
     bind (time_time E) (\<lambda>t0.
     bind (run_cmd E (bcast_argv E CTRL_SUBJECT n) 15) (\<lambda>r.
     bind (time_time E) (\<lambda>t1.
     bind (lift (scan_bcast_lines (py_splitlines (py_strip (out r))) empty_scan)) (\<lambda>s.
       case bc_sub_id s of
         None \<Rightarrow> andthen (print_err (''  ctrl_bcast FAILED, stdout='' @ py_repr (out r) @ '' stderr='' @ py_repr (err r))) (ret None)
       | Some sub_id \<Rightarrow>
           ret (Some (sub_id, OUTPUT_PREFIX @ ''.'' @ str_int sub_id, bc_acks s, bc_errors s,
                      bc_latency s, t1 - t0))))))"

section \<open>Timing the two designs\<close>

definition ctrlonly_start_server :: "env \<Rightarrow> string \<Rightarrow> (nat \<times> nat) os" where
  "ctrlonly_start_server E tag =
     start_server_at E (''/tmp/nsc_ctrlonly_store'' @ ''_'' @ tag)
       (''/tmp/nsc_ctrlonly_server_'' @ tag @ ''.log'')"

definition start_sidecar_unique_subject :: "env \<Rightarrow> nat \<Rightarrow> nat \<Rightarrow> (nat \<times> nat) os" where
  "start_sidecar_unique_subject E i tag =
     spawn_logged E (''/tmp/nsc_ctrlonly_sidecar_'' @ str_nat tag @ ''_'' @ str_nat i @ ''.log'')
       [SIDECAR E, ''-a'', ''127.0.0.1'', ''-p'', ''4222'', ''-i'', INPUT_SUBJECT,
        ''--queue-group'', ''qg-real'', ''--attr'', FILTER_FIELD @ '':string'',
        ''--engine'', ''atree'', ''--output-prefix'', OUTPUT_PREFIX,
        ''--subscribe-subject'', ''sc.real.ctrl.'' @ str_nat i,
        ''--workers'', ''2'',
        ''--lease-bucket'', ''sc-ctrlonly-old-leases-'' @ str_nat tag @ ''-'' @ str_nat i]"

definition start_sidecar_shared_subject :: "env \<Rightarrow> nat \<Rightarrow> nat \<Rightarrow> (nat \<times> nat) os" where
  "start_sidecar_shared_subject E i tag =
     spawn_logged E (''/tmp/nsc_ctrlonly_sidecar_new_'' @ str_nat tag @ ''_'' @ str_nat i @ ''.log'')
       [SIDECAR E, ''-a'', ''127.0.0.1'', ''-p'', ''4222'', ''-i'', INPUT_SUBJECT,
        ''--queue-group'', ''qg-real'', ''--attr'', FILTER_FIELD @ '':string'',
        ''--engine'', ''atree'', ''--output-prefix'', OUTPUT_PREFIX,
        ''--subscribe-subject'', ''sc.real.ctrl.shared'',
        ''--workers'', ''2'',
        ''--lease-bucket'', ''sc-ctrlonly-new-leases-'' @ str_nat tag @ ''-'' @ str_nat i]"

definition run_ctrl_old :: "env \<Rightarrow> nat \<Rightarrow> string os" where
  "run_ctrl_old E i = run_ctrl E (''sc.real.ctrl.'' @ str_nat i)"

definition old_launch :: "env \<Rightarrow> nat \<Rightarrow> nat \<Rightarrow> unit sidecar os" where
  "old_launch E n i = bind (start_sidecar_unique_subject E i n) (\<lambda>(sp, sl). ret (sp, sl, ()))"

definition new_launch :: "env \<Rightarrow> nat \<Rightarrow> nat \<Rightarrow> unit sidecar os" where
  "new_launch E n i = bind (start_sidecar_shared_subject E i n) (\<lambda>(sp, sl). ret (sp, sl, ()))"

definition old_body :: "env \<Rightarrow> nat \<Rightarrow> nat \<Rightarrow> unit sidecar list \<Rightarrow> rat option os" where
  "old_body E n server sidecars =
     andthen (sleep E (2 + 1/10 * of_nat n))
     (bind (time_time E) (\<lambda>t0.
      bind (ctrl_all (run_ctrl_old E)
              (\<lambda>i. ''  OLD N='' @ str_nat n @ '' instance '' @ str_nat i @ '' ctrl FAILED: '')
              [1..<n + 1]) (\<lambda>registered.
      if \<not> registered then ret None else
      bind (time_time E) (\<lambda>t1. ret (Some ((t1 - t0) * 1000))))))"

text \<open>The loop that looks for the acknowledgement line; the last such line wins.\<close>

fun new_acks :: "string list \<Rightarrow> int option \<Rightarrow> exc + int option" where
  "new_acks [] acks = Inr acks"
| "new_acks (line # ls) acks =
     (if py_startswith line ''CTRL_BCAST_ACKS '' then
        bind_res (second_token line) (\<lambda>t. bind_res (py_int_exc t) (\<lambda>i. new_acks ls (Some i)))
      else new_acks ls acks)"

definition str_int_opt :: "int option \<Rightarrow> string" where
  "str_int_opt v = (case v of None \<Rightarrow> ''None'' | Some i \<Rightarrow> str_int i)"

definition new_body :: "env \<Rightarrow> nat \<Rightarrow> nat \<Rightarrow> unit sidecar list \<Rightarrow> rat option os" where
  "new_body E n server sidecars =
     andthen (sleep E (2 + 1/10 * of_nat n))
     (bind (time_time E) (\<lambda>t0.
      bind (run_cmd E (bcast_argv E ''sc.real.ctrl.shared'' n) 15) (\<lambda>r.
      bind (time_time E) (\<lambda>t1.
      if \<not> py_in ''CTRL_BCAST_ID'' (out r) then
        andthen (print_err (''  NEW N='' @ str_nat n @ '' ctrl_bcast FAILED: '' @ py_repr (out r) @ '' '' @ py_repr (err r)))
          (ret None)
      else
        bind (lift (new_acks (py_splitlines (out r)) None)) (\<lambda>acks.
        andthen (if acks \<noteq> Some (int n)
                 then print_err (''  NEW N='' @ str_nat n @ '' WARNING only '' @ str_int_opt acks
                        @ ''/'' @ str_nat n @ '' acked'')
                 else ret ())
        (ret (Some ((t1 - t0) * 1000))))))))"

definition measure_old :: "env \<Rightarrow> nat \<Rightarrow> rat option os" where
  "measure_old E n =
     with_fleet E (ctrlonly_start_server E (''old'' @ str_nat n)) (old_launch E n) [1..<n + 1]
       (old_body E n)"

definition measure_new :: "env \<Rightarrow> nat \<Rightarrow> rat option os" where
  "measure_new E n =
     with_fleet E (ctrlonly_start_server E (''new'' @ str_nat n)) (new_launch E n) [1..<n + 1]
       (new_body E n)"

definition str_ms :: "(rat \<Rightarrow> string) \<Rightarrow> rat option \<Rightarrow> string" where
  "str_ms show_ms v = (case v of None \<Rightarrow> ''None'' | Some ms \<Rightarrow> show_ms ms)"

text \<open>
  The failure line prints the two numbers without a format, so with the shortest decimal text
  of the float.
\<close>

definition ctrlonly_step :: "env \<Rightarrow> nat \<Rightarrow> unit os" where
  "ctrlonly_step E n =
     bind (measure_old E n) (\<lambda>old_ms.
     andthen (sleep E (5/10))
     (bind (measure_new E n) (\<lambda>new_ms.
      andthen (sleep E (5/10))
      (print_out
        (if old_ms \<noteq> None \<and> new_ms \<noteq> None
         then str_nat n @ '' | '' @ str_ms (fmt_rat 1) old_ms @ '' | '' @ str_ms (fmt_rat 1) new_ms
         else str_nat n @ '' | FAILED old='' @ str_ms (float_repr E) old_ms @ '' new='' @ str_ms (float_repr E) new_ms)))))"

definition ctrlonly_main :: "env \<Rightarrow> unit os" where
  "ctrlonly_main E =
     andthen (print_out
       ''N | old_design_ms (N sequential ctrl round trips) | new_design_ms (1 ctrl_bcast call)'')
     (for_each (ctrlonly_step E) [1, 2, 4, 8, 16, 32])"

section \<open>Reading the driver's answer\<close>

lemma is_token_str_nat: "is_token (str_nat n)"
  by (auto simp: is_token_def dest: str_nat_no_space)

definition bcast_id_toks :: "nat \<Rightarrow> string list" where
  "bcast_id_toks sub_id = [''CTRL_BCAST_ID'', str_nat sub_id]"

definition bcast_ack_toks :: "nat \<Rightarrow> nat \<Rightarrow> nat \<Rightarrow> string \<Rightarrow> string list" where
  "bcast_ack_toks acks errors expected ms =
     [''CTRL_BCAST_ACKS'', str_nat acks, ''errors='' @ str_nat errors,
      ''expected='' @ str_nat expected, ''latency_ms='' @ ms]"

lemma bcast_toks:
  assumes "\<forall>c \<in> set ms. \<not> py_isspace c"
  shows "\<forall>t \<in> set (bcast_id_toks i). is_token t" "\<forall>t \<in> set (bcast_ack_toks a e x ms). is_token t"
proof -
  have "is_token ''CTRL_BCAST_ID''" "is_token ''CTRL_BCAST_ACKS''" "is_token ''errors=''"
    "is_token ''expected=''" "is_token ''latency_ms=''"
    by (simp_all add: is_token_def py_isspace_def)
  then show "\<forall>t \<in> set (bcast_id_toks i). is_token t" "\<forall>t \<in> set (bcast_ack_toks a e x ms). is_token t"
    using assms
    by (simp_all add: bcast_id_toks_def bcast_ack_toks_def is_token_kv is_token_str_nat
        str_nat_no_space del: append_Cons)
qed

lemma bcast_lines:
  assumes "\<forall>c \<in> set ms. \<not> py_isspace c"
  shows "py_splitlines (py_strip (ctrl_bcast_output i a e x ms)) =
    [py_join '' '' (bcast_id_toks i), py_join '' '' (bcast_ack_toks a e x ms)]"
proof -
  let ?l1 = "py_join '' '' (bcast_id_toks i)" and ?l2 = "py_join '' '' (bcast_ack_toks a e x ms)"
  have out: "ctrl_bcast_output i a e x ms = (?l1 @ [CHR 0x0A]) @ ?l2 @ [CHR 0x0A]"
    by (simp add: ctrl_bcast_output_def bcast_id_toks_def bcast_ack_toks_def)
  have n1: "bcast_id_toks i \<noteq> []" "bcast_ack_toks a e x ms \<noteq> []"
    by (simp_all add: bcast_id_toks_def bcast_ack_toks_def)
  note t1 = token_line [OF bcast_toks(1) [OF assms] n1(1)]
  note t2 = token_line [OF bcast_toks(2) [OF assms] n1(2)]
  have "dropWhile py_isspace (?l1 @ [CHR 0x0A]) = ?l1 @ [CHR 0x0A]"
    using t1 by (cases ?l1) auto
  then have "py_strip (ctrl_bcast_output i a e x ms) = (?l1 @ [CHR 0x0A]) @ ?l2"
    unfolding out using py_strip_report [of ?l2 "?l1 @ [CHR 0x0A]"] t2 n1 by simp
  then show ?thesis
    using splitlines_first [of ?l1 "[]" ?l2] splitlines_no_break [of ?l2 "[]"] t1 t2 n1
    by (simp add: py_splitlines_def)
qed

lemma bcast_reads_back:
  assumes "\<forall>c \<in> set ms. \<not> py_isspace c" and "py_float ms = Some latency"
  shows "scan_bcast_lines (py_splitlines (py_strip (ctrl_bcast_output i a e x ms))) empty_scan =
    Inr \<lparr>bc_sub_id = Some (int i), bc_acks = Some (int a), bc_errors = Some (int e),
         bc_expected = Some (int x), bc_latency = Some latency\<rparr>"
proof -
  let ?l1 = "py_join '' '' (bcast_id_toks i)" and ?l2 = "py_join '' '' (bcast_ack_toks a e x ms)"
  have s1: "py_split ?l1 = bcast_id_toks i" and s2: "py_split ?l2 = bcast_ack_toks a e x ms"
    using py_split_join bcast_toks [OF assms(1)] by blast+
  have starts: "py_startswith ?l1 ''CTRL_BCAST_ID ''" "\<not> py_startswith ?l2 ''CTRL_BCAST_ID ''"
    "py_startswith ?l2 ''CTRL_BCAST_ACKS ''"
    by (simp_all add: bcast_id_toks_def bcast_ack_toks_def)
  have first: "scan_bcast_line ?l1 empty_scan = Inr (empty_scan\<lparr>bc_sub_id := Some (int i)\<rparr>)"
    unfolding scan_bcast_line_def second_token_def s1
    by (simp only: starts if_True, simp add: bcast_id_toks_def bind_res_def py_int_exc_def)
  have second: "scan_bcast_line ?l2 s = scan_ack_parts (drop 2 (bcast_ack_toks a e x ms)) (s\<lparr>bc_acks := Some (int a)\<rparr>)"
    for s
    unfolding scan_bcast_line_def second_token_def s2
    by (simp only: starts if_True if_False, simp add: bcast_ack_toks_def bind_res_def py_int_exc_def)
  have parts: "scan_ack_parts (drop 2 (bcast_ack_toks a e x ms)) s =
      Inr (s\<lparr>bc_errors := Some (int e), bc_expected := Some (int x), bc_latency := Some latency\<rparr>)" for s
    using assms(2)
    by (simp add: bcast_ack_toks_def scan_ack_part_def split_kv_def split_eq_def bind_res_def
        py_int_exc_def py_float_exc_def)
  show ?thesis
    unfolding bcast_lines [OF assms(1)]
    by (simp only: scan_bcast_lines.simps first second parts bind_res_def sum.case)
      (simp add: empty_scan_def)
qed

lemma run_ctrl_bcast_reads:
  assumes "run_ans E (h @ [ClockRead]) (bcast_argv E CTRL_SUBJECT n) =
      Inr \<lparr>returncode = rc, out = ctrl_bcast_output i a e x ms, err = er\<rparr>"
    and "\<forall>c \<in> set ms. \<not> py_isspace c" and "py_float ms = Some latency"
  shows "\<exists>wall. run_ctrl_bcast E n h =
    (Inr (Some (int i, OUTPUT_PREFIX @ ''.'' @ str_nat i, Some (int a), Some (int e), Some latency, wall)),
     h @ [ClockRead, Run (bcast_argv E CTRL_SUBJECT n) 15, ClockRead])"
  using assms(1) bcast_reads_back [OF assms(2,3)]
  by (simp add: run_ctrl_bcast_def prog_defs time_time_def run_cmd_def str_int_def)

text \<open>
  The broadcast answer reads back: when the driver prints its answer for a subscription
  identifier, numbers of acknowledgements, errors and expected instances and a latency text
  that \<^verbatim>\<open>float()\<close> accepts, \<^verbatim>\<open>run_ctrl_bcast\<close> raises nothing and returns exactly these
  values, with the output topic made from the identifier.
\<close>

theorem bcast_roundtrip:
  assumes "run_ans E (h @ [ClockRead]) (bcast_argv E CTRL_SUBJECT n) =
      Inr \<lparr>returncode = rc, out = ctrl_bcast_output i a e x ms, err = er\<rparr>"
    and "\<forall>c \<in> set ms. \<not> py_isspace c" and "py_float ms = Some latency"
  shows "\<exists>wall. run_ctrl_bcast E n h =
    (Inr (Some (int i, OUTPUT_PREFIX @ ''.'' @ str_nat i, Some (int a), Some (int e), Some latency, wall)),
     h @ [ClockRead, Run (bcast_argv E CTRL_SUBJECT n) 15, ClockRead])"
  using assms by (rule run_ctrl_bcast_reads)

text \<open>An environment whose driver answers every call as it answers a broadcast.\<close>

definition bcast_env :: "nat \<Rightarrow> env" where
  "bcast_env n = (demo_env good_report) \<lparr> run_ans := (\<lambda>_ _. Inr \<lparr>returncode = 0,
     out = ctrl_bcast_output 77 n 0 n ''2.5'', err = []\<rparr>) \<rparr>"

lemma calm_bcast_env: "calm (bcast_env n)"
  by (simp add: calm_def bcast_env_def demo_env_def)

lemma latency_text: "py_float ''2.5'' = Some (Fin (5/2))" "\<forall>c \<in> set ''2.5''. \<not> py_isspace c"
  by code_simp (simp add: py_isspace_def)

theorem bcast_roundtrip_witness:
  "\<exists>wall h'. run_ctrl_bcast (bcast_env 8) 8 [] =
     (Inr (Some (77, OUTPUT_PREFIX @ ''.'' @ str_nat 77, Some 8, Some 0, Some (Fin (5/2)), wall)), h')"
proof -
  have "run_ans (bcast_env 8) ([] @ [ClockRead]) (bcast_argv (bcast_env 8) CTRL_SUBJECT 8) =
      Inr \<lparr>returncode = 0, out = ctrl_bcast_output 77 8 0 8 ''2.5'', err = []\<rparr>"
    by (simp add: bcast_env_def)
  from bcast_roundtrip [OF this latency_text(2,1)] show ?thesis by auto
qed

section \<open>The fleet contracts\<close>

lemma ctrlonly_launch_eq:
  "\<exists>path args c. old_launch E n i = bind (spawn_logged E path (SIDECAR E # args)) (\<lambda>(p, l). ret (p, l, c))"
  "\<exists>path args c. new_launch E n i = bind (spawn_logged E path (SIDECAR E # args)) (\<lambda>(p, l). ret (p, l, c))"
  by (auto simp: old_launch_def new_launch_def start_sidecar_unique_subject_def
      start_sidecar_shared_subject_def)

lemma bystander_old_body: "bystander (old_body E n server scs)"
  unfolding old_body_def run_ctrl_old_def by (intro bystander_intros)

lemma bystander_new_body: "bystander (new_body E n server scs)"
  unfolding new_body_def by (intro bystander_intros)

lemma completes_old_body:
  "completes (phase_ev E) (\<lambda>r. r \<noteq> None) (old_body E n server scs) (replicate n Ctrl)"
proof -
  have "completes (phase_ev E) (\<lambda>r. r \<noteq> None) (old_body E n server scs)
     (replicate (length [1..<n + 1]) Ctrl @ [])"
    unfolding old_body_def run_ctrl_old_def by (rule stage_intros silent_intros)+
  then show ?thesis by (simp only: length_range1 append_Nil2)
qed

lemma completes_bcast_cmd:
  "completes (phase_ev E) (\<lambda>_. True) (run_cmd E (bcast_argv E s n) t) [Ctrl]"
  unfolding run_cmd_def by (rule completes_act) (simp add: phase_ev_def bcast_argv_def)

lemma stage_bcast:
  "(\<And>x. completes (phase_ev E) g (k x) ys) \<Longrightarrow>
   completes (phase_ev E) g (bind (run_cmd E (bcast_argv E s n) t) k) (Ctrl # ys)"
  using completes_bind_all [OF completes_bcast_cmd, of E g k ys] by simp

lemma completes_new_body:
  "completes (phase_ev E) (\<lambda>r. r \<noteq> None) (new_body E n server scs) [Ctrl]"
  unfolding new_body_def by (rule stage_bcast stage_intros silent_intros)+

interpretation old_ctrl: staged_fleet E "ctrlonly_start_server E tag" "old_launch E n" "old_body E n"
  "\<lambda>r. r \<noteq> None" "\<lambda>_. replicate n Ctrl" for E tag n
  by (rule staged_fleetI [OF ctrlonly_start_server_def ctrlonly_launch_eq(1) bystander_old_body
        completes_old_body])

interpretation new_ctrl: staged_fleet E "ctrlonly_start_server E tag" "new_launch E n" "new_body E n"
  "\<lambda>r. r \<noteq> None" "\<lambda>_. [Ctrl]" for E tag n
  by (rule staged_fleetI [OF ctrlonly_start_server_def ctrlonly_launch_eq(2) bystander_new_body
        completes_new_body])

text \<open>
  What the two timings compare: a measurement of the old design for \<open>n\<close> instances makes
  exactly \<open>n\<close> control requests, one of the new design exactly one, both after the same
  launches; and both stop every process they started.
\<close>

theorem control_request_counts:
  assumes "calm E" and "measure_old E n h = (Inr (Some old_ms), h1)"
    and "measure_new E n h = (Inr (Some new_ms), h2)"
  shows "phases E h1 = phases E h @ Server # replicate n Sidecar @ replicate n Ctrl
    \<and> phases E h2 = phases E h @ Server # replicate n Sidecar @ [Ctrl]
    \<and> (\<exists>new. logged h1 = logged h @ new \<and> terminated h1 = terminated h @ rotate1 (map fst new))
    \<and> (\<exists>new. logged h2 = logged h @ new \<and> terminated h2 = terminated h @ rotate1 (map fst new))"
  using old_ctrl.staged_run [OF assms(2) [unfolded measure_old_def], of n, OF _ refl]
    new_ctrl.staged_run [OF assms(3) [unfolded measure_new_def], of n, OF _ refl]
    old_ctrl.fleet_stopped [OF assms(1) assms(2) [unfolded measure_old_def]]
    new_ctrl.fleet_stopped [OF assms(1) assms(3) [unfolded measure_new_def]]
  by (auto simp: length_range1)

lemma bcast_env_reply:
  "\<not> py_in error_mark (py_strip (ctrl_bcast_output 77 1 0 1 ''2.5''))"
  "py_in ''CTRL_BCAST_ID'' (ctrl_bcast_output 77 1 0 1 ''2.5'')"
  "new_acks (py_splitlines (ctrl_bcast_output 77 1 0 1 ''2.5'')) None = Inr (Some 1)"
  by code_simp+

lemma demo_measures:
  "\<exists>ms h'. measure_old (bcast_env 1) 1 [] = (Inr (Some ms), h')"
  "\<exists>ms h'. measure_new (bcast_env 1) 1 [] = (Inr (Some ms), h')"
  by (simp_all add: measure_old_def measure_new_def ctrlonly_start_server_def old_launch_def new_launch_def
      start_sidecar_unique_subject_def start_sidecar_shared_subject_def old_body_def new_body_def
      run_ctrl_old_def bcast_env_def bcast_env_reply [unfolded One_nat_def] demo_simps)

theorem control_request_counts_witness:
  "\<exists>old_ms h1 new_ms h2. measure_old (bcast_env 1) 1 [] = (Inr (Some old_ms), h1)
     \<and> measure_new (bcast_env 1) 1 [] = (Inr (Some new_ms), h2)
     \<and> phases (bcast_env 1) h1 = [Server, Sidecar, Ctrl]
     \<and> phases (bcast_env 1) h2 = [Server, Sidecar, Ctrl]"
proof -
  obtain old_ms h1 where 1: "measure_old (bcast_env 1) 1 [] = (Inr (Some old_ms), h1)"
    using demo_measures(1) by blast
  obtain new_ms h2 where 2: "measure_new (bcast_env 1) 1 [] = (Inr (Some new_ms), h2)"
    using demo_measures(2) by blast
  from control_request_counts [OF calm_bcast_env 1 2] 1 2 show ?thesis by auto
qed

end
