(* ===== verification/Scaling_Bcast.thy ===== *)
theory Scaling_Bcast
  imports Scaling_Real Ctrl_Plane
begin

text \<open>
  \<^verbatim>\<open>bench/nats_sidecar_scaling_real_data_bcast.py\<close>: the scaling sweep with one shared control
  subject. The filter is registered by a single broadcast, whose identifier gives the output
  topic; everything after that is the sweep of \<^verbatim>\<open>nats_sidecar_scaling_real_data.py\<close>.
\<close>

section \<open>One run\<close>

definition bcast_start_server :: "env \<Rightarrow> nat \<Rightarrow> (nat \<times> nat) os" where
  "bcast_start_server E n =
     start_server_at E (''/tmp/nsc_bcast_store'' @ ''_'' @ str_nat n)
       (''/tmp/nsc_bcast_server_'' @ str_nat n @ ''.log'')"

definition bcast_start_sidecar :: "env \<Rightarrow> nat \<Rightarrow> nat \<Rightarrow> (nat \<times> nat) os" where
  "bcast_start_sidecar E i n =
     spawn_logged E (''/tmp/nsc_bcast_sidecar_'' @ str_nat n @ ''_'' @ str_nat i @ ''.log'')
       [SIDECAR E,
        ''-a'', ''127.0.0.1'', ''-p'', ''4222'',
        ''-i'', INPUT_SUBJECT,
        ''--queue-group'', ''qg-real'',
        ''--attr'', FILTER_FIELD @ '':string'',
        ''--engine'', ''atree'',
        ''--output-prefix'', OUTPUT_PREFIX,
        ''--subscribe-subject'', CTRL_SUBJECT,
        ''--workers'', ''2'',
        ''--lease-bucket'', ''sc-bcast-leases-'' @ str_nat n]"

definition bcast_launch :: "env \<Rightarrow> nat \<Rightarrow> nat \<Rightarrow> unit sidecar os" where
  "bcast_launch E n i = bind (bcast_start_sidecar E i n) (\<lambda>(sp, sl). ret (sp, sl, ()))"

text \<open>\<^verbatim>\<open>if errors:\<close> holds for a number of errors other than zero, not for \<^verbatim>\<open>None\<close>.\<close>

definition errors_reported :: "int option \<Rightarrow> bool" where
  "errors_reported errors = (case errors of None \<Rightarrow> False | Some e \<Rightarrow> e \<noteq> 0)"

definition popen_topic :: "env \<Rightarrow> string \<Rightarrow> nat os" where
  "popen_topic E topic =
     popen E [DRIVER E, ''subfield'', topic, str_nat EXPECTED, ''90000'', FILTER_FIELD, FILTER_VALUE] None"

type_synonym bcast_run = "rat \<times> rat \<times> string \<times> int option \<times> pyfloat option \<times> rat"

text \<open>From the start of the subscriber on the topic to the result.\<close>

definition bcast_measure ::
  "env \<Rightarrow> nat \<Rightarrow> string \<Rightarrow> int option \<Rightarrow> pyfloat option \<Rightarrow> rat \<Rightarrow> bcast_run option os" where
  "bcast_measure E n output_topic acks ctrl_latency_ms ctrl_wall_secs =
     bind (popen_topic E output_topic) (\<lambda>sub.
     andthen (sleep E (3/10))
     (bind (time_time E) (\<lambda>t0.
      bind (run_cmd E (PSQL @ [pub_sql_plain]) 120) (\<lambda>pub.
      bind (time_time E) (\<lambda>t1.
      if returncode pub \<noteq> 0 then
        andthen (print_err (''  N='' @ str_nat n @ '' publish FAILED: '' @ err pub)) (ret None)
      else
        bind (lift (py_truediv 200000 (t1 - t0))) (\<lambda>pub_rate.
        bind (communicate E sub 100) (\<lambda>sub_out.
          ret (Some (pub_rate, t1 - t0, sub_line_of sub_out, acks, ctrl_latency_ms,
                     ctrl_wall_secs)))))))))"

definition bcast_warn :: "nat \<Rightarrow> int option \<Rightarrow> int option \<Rightarrow> unit os" where
  "bcast_warn n acks errors =
     andthen (if errors_reported errors
              then print_err (''  N='' @ str_nat n @ '' ctrl_bcast reported '' @ str_int_opt errors
                     @ '' error ack(s) (expected 0)'')
              else ret ())
     (if acks \<noteq> Some (int n)
      then print_err (''  N='' @ str_nat n @ '' WARNING: only '' @ str_int_opt acks @ ''/''
             @ str_nat n @ '' instances acked within timeout'')
      else ret ())"

definition bcast_body :: "env \<Rightarrow> nat \<Rightarrow> nat \<Rightarrow> unit sidecar list \<Rightarrow> bcast_run option os" where
  "bcast_body E n server sidecars =
     andthen (sleep E (25/10))
     (bind (run_ctrl_bcast E n) (\<lambda>result.
      case result of
        None \<Rightarrow> andthen (print_err (''  N='' @ str_nat n @ '' ctrl_bcast FAILED'')) (ret None)
      | Some (sub_id, output_topic, acks, errors, ctrl_latency_ms, ctrl_wall_secs) \<Rightarrow>
          andthen (bcast_warn n acks errors)
          (andthen (sleep E (3/10))
             (bcast_measure E n output_topic acks ctrl_latency_ms ctrl_wall_secs))))"

definition bcast_run_n :: "env \<Rightarrow> nat \<Rightarrow> bcast_run option os" where
  "bcast_run_n E n =
     with_fleet E (bcast_start_server E n) (bcast_launch E n) [1..<n + 1] (bcast_body E n)"

section \<open>The sweep\<close>

text \<open>\<^verbatim>\<open>f"{latency:.2f}"\<close> raises when the driver printed no latency.\<close>

definition fmt_latency :: "pyfloat option \<Rightarrow> exc + string" where
  "fmt_latency l = (case l of None \<Rightarrow> Inl TypeError | Some x \<Rightarrow> Inr (fmt_fixed 2 x))"

type_synonym bcast_row =
  "nat \<times> rat \<times> string option \<times> string option \<times> string option \<times> int option \<times> pyfloat option \<times> rat"

fun bcast_sweep :: "env \<Rightarrow> nat list \<Rightarrow> bcast_row list \<Rightarrow> bcast_row list os" where
  "bcast_sweep E [] results = ret results"
| "bcast_sweep E (n # ns) results =
     andthen (print_out (''=== N='' @ str_nat n @ '' (shared control subject, 1 ctrl_bcast call) ===''))
     (bind (bcast_run_n E n) (\<lambda>r.
       case r of
         None \<Rightarrow> andthen (print_out (''N='' @ str_nat n @ '' FAILED'')) (bcast_sweep E ns results)
       | Some (pub_rate, pub_secs, sub_line, acks, ctrl_latency_ms, ctrl_wall_secs) \<Rightarrow>
           andthen (print_out (''  publish: '' @ fmt_rat 0 pub_rate @ '' rows/s (''
                      @ fmt_rat 2 pub_secs @ ''s)''))
           (bind (lift (fmt_latency ctrl_latency_ms)) (\<lambda>lat.
           andthen (print_out (''  ctrl_bcast: acks='' @ str_int_opt acks @ ''/'' @ str_nat n
                      @ '' driver_latency_ms='' @ lat @ '' wall_secs='' @ fmt_rat 3 ctrl_wall_secs
                      @ '' (vs '' @ str_nat n @ '' sequential round trips in the original design)''))
           (andthen (print_out (''  '' @ sub_line))
           (andthen (sleep E 1)
             (bcast_sweep E ns
               (results @ [(n, pub_rate, parse sub_line ''total'', parse sub_line ''wrong'',
                            parse sub_line ''rate'', acks, ctrl_latency_ms, ctrl_wall_secs)]))))))))"

definition bcast_row_line :: "bcast_row \<Rightarrow> exc + string" where
  "bcast_row_line row =
     (case row of (n, pr, tot, wrong, rate, acks, lat, wall) \<Rightarrow>
        bind_res (fmt_latency lat) (\<lambda>l.
          Inr (str_nat n @ '' | '' @ fmt_rat 0 pr @ '' | '' @ str_opt tot @ ''/'' @ str_nat EXPECTED
            @ '' | '' @ str_opt wrong @ '' | '' @ str_opt rate @ '' | '' @ str_int_opt acks @ ''/''
            @ str_nat n @ '' | '' @ l @ '' | '' @ fmt_rat 3 wall @ '' | 1 (was '' @ str_nat n @ '')'')))"

definition bcast_main :: "env \<Rightarrow> unit os" where
  "bcast_main E =
     bind (bcast_sweep E [1, 2, 4, 8, 16, 32] []) (\<lambda>results.
     andthen (print_out (CHR 0x0A # ''=== SUMMARY (real NYSE data, Exchange==N, 200000 rows, expected=21683, shared control subject) ===''))
     (andthen (print_out ''N | publish_rate(rows/s) | total | wrong | filtered_rate(matches/s) | ctrl_acks | ctrl_latency_ms | ctrl_wall_secs | ctrl_round_trips'')
     (for_each (\<lambda>row. bind (lift (bcast_row_line row)) print_out) results)))"

section \<open>The fleet contract\<close>

lemma bcast_launch_eq:
  "\<exists>path args c. bcast_launch E n i
     = bind (spawn_logged E path (SIDECAR E # args)) (\<lambda>(p, l). ret (p, l, c))"
  by (auto simp: bcast_launch_def bcast_start_sidecar_def)

lemma bystander_run_ctrl_bcast [bystander_intros]: "bystander (run_ctrl_bcast E n)"
  unfolding run_ctrl_bcast_def by (intro bystander_intros)

lemma bystander_bcast_body: "bystander (bcast_body E n server scs)"
  unfolding bcast_body_def bcast_measure_def bcast_warn_def popen_topic_def by (intro bystander_intros)

lemma completes_run_ctrl_bcast: "completes (phase_ev E) (\<lambda>_. True) (run_ctrl_bcast E n) [Ctrl]"
proof -
  have "silent (phase_ev E) (case bc_sub_id s of None \<Rightarrow> andthen (print_err t) (ret None)
      | Some i \<Rightarrow> ret (k i))" for s t k
    by (intro silent_intros)
  then show ?thesis
    unfolding run_ctrl_bcast_def
    by (intro completes_bind_silent completes_then_silent [OF completes_bcast_cmd] silent_intros)
qed

lemma stage_run_ctrl_bcast:
  "(\<And>x. completes (phase_ev E) g (k x) ys) \<Longrightarrow>
   completes (phase_ev E) g (bind (run_ctrl_bcast E n) k) (Ctrl # ys)"
  using completes_bind_all [OF completes_run_ctrl_bcast, of E g k ys] by simp

lemma completes_bcast_body:
  "completes (phase_ev E) (\<lambda>r. r \<noteq> None) (bcast_body E n server scs) [Ctrl, Sub, Publish, Collect]"
  unfolding bcast_body_def bcast_measure_def bcast_warn_def popen_topic_def
  by (rule stage_run_ctrl_bcast stage_intros silent_intros)+

interpretation bcast: staged_fleet E "bcast_start_server E n" "bcast_launch E n" "bcast_body E n"
  "\<lambda>r. r \<noteq> None" "\<lambda>_. [Ctrl, Sub, Publish, Collect]" for E n
  by (rule staged_fleetI [OF bcast_start_server_def bcast_launch_eq bystander_bcast_body
        completes_bcast_body])

section \<open>Properties\<close>

text \<open>The topics of the subscribers a history starts.\<close>

definition topic_ev :: "env \<Rightarrow> nat \<Rightarrow> event \<Rightarrow> string list" where
  "topic_ev E k e =
     (case e of Popen (exe # mode # topic # _) _ \<Rightarrow> if exe = DRIVER E \<and> mode = ''subfield'' then [topic] else []
      | _ \<Rightarrow> [])"

lemma topic_calls [silent_intros]:
  "silent (topic_ev E) (os_path_exists E' s)" "silent (topic_ev E) (rmtree E' s)"
  "silent (topic_ev E) (makedirs E' s)" "silent (topic_ev E) (sleep E' d)"
  "silent (topic_ev E) (poll E' p)" "silent (topic_ev E) (time_time E')"
  "silent (topic_ev E) (read_file E' s)" "silent (topic_ev E) (print_out s)"
  "silent (topic_ev E) (print_err s)"
  by (simp_all add: silent_call topic_ev_def)

lemma topic_commands [silent_intros]:
  "silent (topic_ev E) (run_cmd E' argv t)" "silent (topic_ev E) (communicate E' p t)"
  by (simp_all add: os_call_defs silent_act topic_ev_def)

lemma bcast_measure_result:
  assumes "bcast_measure E n topic acks lat wall h = (Inr (Some (pr, ps, line, acks', lat', wall')), h')"
  shows "acks' = acks \<and> lat' = lat \<and> wall' = wall \<and> pr * ps = 200000
    \<and> observe (topic_ev E) h' = observe (topic_ev E) h @ [topic]"
  using assms
  by (auto simp: bcast_measure_def prog_eqs popen_topic_def popen_def os_call_defs trace_simps topic_ev_def
      py_truediv_rate split: if_splits sum.splits)

text \<open>
  The broadcast sweep measures what it registered. When the driver answers the broadcast
  with the identifier \<open>i\<close> and \<open>a\<close> acknowledgements, a run that gives a result has started
  exactly one subscriber in its body, on the topic made from \<open>i\<close>; it reports the
  acknowledgements and the latency of the answer and a rate that is 200000 rows over the
  elapsed time.
\<close>

theorem bcast_run_measures_registered:
  assumes "bcast_run_n E n h = (Inr (Some (pr, ps, line, acks, lat, wall)), h')"
    and answer: "\<forall>h. \<exists>rc er. run_ans E h (bcast_argv E CTRL_SUBJECT n) =
          Inr \<lparr>returncode = rc, out = ctrl_bcast_output i a e x ms, err = er\<rparr>"
    and "\<forall>c \<in> set ms. \<not> py_isspace c" and "py_float ms = Some latency"
  shows "acks = Some (int a) \<and> lat = Some latency \<and> pr * ps = 200000
    \<and> (\<exists>server scs h1 h2. bcast_body E n server scs h1 = (Inr (Some (pr, ps, line, acks, lat, wall)), h2)
        \<and> observe (topic_ev E) h2 = observe (topic_ev E) h1 @ [OUTPUT_PREFIX @ ''.'' @ str_nat i])"
proof -
  obtain server scs h1 h2
    where body: "bcast_body E n server scs h1 = (Inr (Some (pr, ps, line, acks, lat, wall)), h2)"
    using assms(1) unfolding bcast_run_n_def by (rule with_fleet_result)
  from body obtain h3 h4 res where slept: "sleep E (25/10) h1 = (Inr (), h3)"
    and ctrl: "run_ctrl_bcast E n h3 = (Inr (Some res), h4)"
    by (auto simp: bcast_body_def prog_eqs split: option.splits)
  from answer obtain rc er where "run_ans E (h3 @ [ClockRead]) (bcast_argv E CTRL_SUBJECT n) =
      Inr \<lparr>returncode = rc, out = ctrl_bcast_output i a e x ms, err = er\<rparr>" by blast
  from run_ctrl_bcast_reads [OF this assms(3,4)] ctrl obtain wall'
    where res: "res = (int i, OUTPUT_PREFIX @ ''.'' @ str_nat i, Some (int a), Some (int e), Some latency, wall')"
    by auto
  from body slept ctrl res obtain h5 h6 where tail:
      "andthen (bcast_warn n (Some (int a)) (Some (int e))) (sleep E (3/10)) h4 = (Inr (), h5)"
      "bcast_measure E n (OUTPUT_PREFIX @ ''.'' @ str_nat i) (Some (int a)) (Some latency) wall' h5
         = (Inr (Some (pr, ps, line, acks, lat, wall)), h2)"
    by (auto simp: bcast_body_def prog_eqs)
  have "silent (topic_ev E) (andthen (bcast_warn n (Some (int a)) (Some (int e))) (sleep E (3/10)))"
    "silent (topic_ev E) (run_ctrl_bcast E n)" "silent (topic_ev E) (sleep E (25/10))"
    unfolding bcast_warn_def run_ctrl_bcast_def by (intro silent_intros)+
  from silentD [OF this(1) tail(1)] silentD [OF this(2) ctrl] silentD [OF this(3) slept]
    bcast_measure_result [OF tail(2)] body
  show ?thesis by auto
qed

lemma demo_bcast_run:
  "\<exists>pr ps line acks lat wall h'.
     bcast_run_n (bcast_env 1) 1 [] = (Inr (Some (pr, ps, line, acks, lat, wall)), h')"
  using bcast_reads_back [OF latency_text(2,1), of 77 1 0 1]
  by (simp add: bcast_run_n_def bcast_start_server_def bcast_launch_def bcast_start_sidecar_def
      bcast_body_def bcast_warn_def bcast_measure_def popen_topic_def run_ctrl_bcast_def bcast_env_def
      demo_simps)

theorem bcast_run_measures_registered_witness:
  "\<exists>pr ps line acks lat wall h'.
     bcast_run_n (bcast_env 1) 1 [] = (Inr (Some (pr, ps, line, acks, lat, wall)), h')
     \<and> acks = Some 1 \<and> lat = Some (Fin (5/2)) \<and> pr * ps = 200000"
proof -
  obtain pr ps line acks lat wall h'
    where run: "bcast_run_n (bcast_env 1) 1 [] = (Inr (Some (pr, ps, line, acks, lat, wall)), h')"
    using demo_bcast_run by blast
  have "\<forall>h. \<exists>rc er. run_ans (bcast_env 1) h (bcast_argv (bcast_env 1) CTRL_SUBJECT 1) =
      Inr \<lparr>returncode = rc, out = ctrl_bcast_output 77 1 0 1 ''2.5'', err = er\<rparr>"
    by (simp add: bcast_env_def)
  from bcast_run_measures_registered [OF run this latency_text(2,1)] run show ?thesis by auto
qed

end
