(* ===== verification/Scaling_Cpp.thy ===== *)
theory Scaling_Cpp
  imports Sidecar_Config
begin

text \<open>
  \<^verbatim>\<open>bench/nats_sidecar_scaling_cpp.py\<close>: the scaling sweep over 1, 2, 4 and 8 instances with
  the synthetic feed of the C++ driver, 100000 messages with the region going round 8 values.
\<close>

section \<open>Settings\<close>

definition MSG_COUNT :: nat where "MSG_COUNT = 100000"

definition cpp_EXPECTED :: nat where "cpp_EXPECTED = MSG_COUNT div 8"

section \<open>The run\<close>

definition cpp_start_server :: "env \<Rightarrow> nat \<Rightarrow> (nat \<times> nat) os" where
  "cpp_start_server E n =
     start_server_at E (''/tmp/nsc_cpp_store'' @ ''_'' @ str_nat n)
       (''/tmp/nsc_cpp_server_'' @ str_nat n @ ''.log'')"

definition cpp_start_sidecar :: "env \<Rightarrow> nat \<Rightarrow> nat \<Rightarrow> (nat \<times> nat) os" where
  "cpp_start_sidecar E i n =
     spawn_logged E (''/tmp/nsc_cpp_sidecar_'' @ str_nat n @ ''_'' @ str_nat i @ ''.log'')
       [SIDECAR E,
        ''-a'', ''127.0.0.1'', ''-p'', ''4222'',
        ''-i'', ''sc.test.in'',
        ''--queue-group'', ''qg-cpp'',
        ''--attr'', ''region:integer'',
        ''--engine'', ''atree'',
        ''--output-prefix'', ''sc.test.out'',
        ''--subscribe-subject'', ''sc.ctrl.'' @ str_nat i,
        ''--workers'', ''2'',
        ''--lease-bucket'', ''sc-cpp-leases-'' @ str_nat n]"

definition cpp_launch :: "env \<Rightarrow> nat \<Rightarrow> nat \<Rightarrow> unit sidecar os" where
  "cpp_launch E n i = bind (cpp_start_sidecar E i n) (\<lambda>(sp, sl). ret (sp, sl, ()))"

definition cpp_run_ctrl :: "env \<Rightarrow> nat \<Rightarrow> string os" where
  "cpp_run_ctrl E i =
     bind (run_cmd E [DRIVER E, ''ctrl'', ''sc.ctrl.'' @ str_nat i, ''region = 1''] 10)
       (\<lambda>r. ret (py_strip (out r)))"

text \<open>
  The publisher's exit status is not looked at: its standard output is returned beside the
  subscriber's last line in every case.
\<close>

definition cpp_body :: "env \<Rightarrow> nat \<Rightarrow> nat \<Rightarrow> unit sidecar list \<Rightarrow> (string \<times> string) option os" where
  "cpp_body E n server sidecars =
     andthen (sleep E (25/10))
     (bind (ctrl_all (cpp_run_ctrl E)
              (\<lambda>i. ''  N='' @ str_nat n @ '' instance '' @ str_nat i @ '' ctrl FAILED: '')
              [1..<n + 1]) (\<lambda>registered.
      if \<not> registered then ret None else
      andthen (sleep E (3/10))
      (bind (popen E [DRIVER E, ''sub'', ''sc.test.out.>'', str_nat cpp_EXPECTED, ''60000''] None) (\<lambda>sub.
       andthen (sleep E (3/10))
       (bind (run_cmd E [DRIVER E, ''pub'', ''sc.test.in'', str_nat MSG_COUNT] 60) (\<lambda>pub.
        let pub_line = py_strip (out pub) in
        bind (communicate E sub 70) (\<lambda>sub_out.
          ret (Some (pub_line, sub_line_of sub_out))))))))) "

definition cpp_run_n :: "env \<Rightarrow> nat \<Rightarrow> (string \<times> string) option os" where
  "cpp_run_n E n =
     with_fleet E (cpp_start_server E n) (cpp_launch E n) [1..<n + 1] (cpp_body E n)"

section \<open>The sweep\<close>

text \<open>\<^verbatim>\<open>parse(line, prefix, key)\<close>: the prefix is not used.\<close>

definition cpp_parse :: "string \<Rightarrow> string \<Rightarrow> string \<Rightarrow> string option" where
  "cpp_parse line pfx key = parse line key"

type_synonym cpp_result_row = "nat \<times> string option \<times> string option \<times> string option \<times> string option"

fun cpp_sweep :: "env \<Rightarrow> nat list \<Rightarrow> cpp_result_row list \<Rightarrow> cpp_result_row list os" where
  "cpp_sweep E [] results = ret results"
| "cpp_sweep E (n # ns) results =
     andthen (print_out (''=== N='' @ str_nat n @ '' ===''))
     (bind (cpp_run_n E n) (\<lambda>r.
       case r of
         None \<Rightarrow>
           andthen (print_out (''N='' @ str_nat n @ '' FAILED'')) (cpp_sweep E ns results)
       | Some (pub_line, sub_line) \<Rightarrow>
           andthen (print_out (''  '' @ pub_line))
           (andthen (print_out (''  '' @ sub_line))
           (andthen (sleep E 1)
             (cpp_sweep E ns
                (results @ [(n, cpp_parse pub_line ''PUB_DONE'' ''rate'',
                   cpp_parse sub_line ''SUB_DONE'' ''total'', cpp_parse sub_line ''SUB_DONE'' ''wrong'',
                   cpp_parse sub_line ''SUB_DONE'' ''rate'')]))))))"

definition cpp_row :: "cpp_result_row \<Rightarrow> string" where
  "cpp_row row =
     (case row of (n, pr, tot, wrong, rate) \<Rightarrow>
        str_nat n @ '' | '' @ str_opt pr @ '' | '' @ str_opt tot @ ''/'' @ str_nat cpp_EXPECTED
          @ '' | '' @ str_opt wrong @ '' | '' @ str_opt rate)"

definition cpp_main :: "env \<Rightarrow> unit os" where
  "cpp_main E =
     bind (cpp_sweep E [1, 2, 4, 8] []) (\<lambda>results.
     andthen (print_out (CHR 0x0A # ''=== SUMMARY ===''))
     (andthen (print_out ''N | publish_rate | total | wrong | filtered_rate'')
     (for_each (\<lambda>row. print_out (cpp_row row)) results)))"

section \<open>The fleet contract of the sweep\<close>

lemma cpp_launch_eq:
  "\<exists>path args c. cpp_launch E n i
     = bind (spawn_logged E path (SIDECAR E # args)) (\<lambda>(p, l). ret (p, l, c))"
  by (auto simp: cpp_launch_def cpp_start_sidecar_def)

lemma bystander_cpp_run_ctrl [bystander_intros]: "bystander (cpp_run_ctrl E i)"
  unfolding cpp_run_ctrl_def by (intro bystander_intros)

lemma bystander_cpp_body [bystander_intros]: "bystander (cpp_body E n server scs)"
  unfolding cpp_body_def Let_def by (intro bystander_intros)

lemma completes_cpp_run_ctrl: "completes (phase_ev E) (\<lambda>_. True) (cpp_run_ctrl E i) [Ctrl]"
  unfolding cpp_run_ctrl_def run_cmd_def
  by (rule completes_then_silent [OF completes_act]) (simp add: phase_ev_def, intro silent_intros)

lemma completes_cpp_body:
  "completes (phase_ev E) (\<lambda>r. r \<noteq> None) (cpp_body E n server scs)
     (replicate n Ctrl @ [Sub, Publish, Collect])"
proof -
  have "completes (phase_ev E) (\<lambda>r. r \<noteq> None) (cpp_body E n server scs)
     (replicate (length [1..<n + 1]) Ctrl @ [Sub, Publish, Collect])"
    unfolding cpp_body_def by (rule completes_cpp_run_ctrl stage_intros silent_intros)+
  then show ?thesis by (simp only: length_range1)
qed

interpretation cpp: staged_fleet E "cpp_start_server E n" "cpp_launch E n" "cpp_body E n"
  "\<lambda>r. r \<noteq> None" "\<lambda>_. replicate n Ctrl @ [Sub, Publish, Collect]" for E n
  by (rule staged_fleetI [OF cpp_start_server_def cpp_launch_eq bystander_cpp_body completes_cpp_body])

section \<open>Properties of the sweep\<close>

lemma cpp_body_result:
  assumes "cpp_body E n server scs h = (Inr (Some (pub_line, sub_line)), h')"
  shows "\<exists>h1 h2 p pub sub_out. run_ans E h1 [DRIVER E, ''pub'', ''sc.test.in'', str_nat MSG_COUNT] = Inr pub
    \<and> communicate_ans E h2 p = Inr sub_out \<and> pub_line = py_strip (out pub) \<and> sub_line = sub_line_of sub_out"
  using assms
  by (auto simp: cpp_body_def Let_def prog_eqs communicate_def run_cmd_def split: if_splits) blast+

text \<open>
  A run of the synthetic sweep stops all it started and keeps the order of its stages. It
  reports what the driver wrote: the counters read from the second line are the driver's, and
  the first line is the publisher's output whatever its exit status was, so that a publisher
  that failed shows up only in the text of that line and in the counters.
\<close>

theorem cpp_run_n_safe:
  assumes "calm E" and "cpp_run_n E n h = (r, h')"
    and "\<forall>h p. communicate_ans E h p = Inr (sub_done_line tot wr secs rate @ [CHR 0x0A])"
    and "\<forall>h. run_ans E h [DRIVER E, ''pub'', ''sc.test.in'', str_nat MSG_COUNT] = Inr pub"
    and "\<forall>c \<in> set secs. \<not> py_isspace c" and "\<forall>c \<in> set rate. \<not> py_isspace c" and "rate \<noteq> []"
  shows "(\<exists>new. logged h' = logged h @ new
            \<and> terminated h' = terminated h @ rotate1 (map fst new)
            \<and> closed_logs h' = closed_logs h @ rotate1 (map snd new))
    \<and> (\<exists>k. phases E h' = phases E h @ take k (fleet_stages n))
    \<and> (\<forall>pl sl. r = Inr (Some (pl, sl)) \<longrightarrow> phases E h' = phases E h @ fleet_stages n
         \<and> pl = py_strip (out pub) \<and> cpp_parse sl ''SUB_DONE'' ''total'' = Some (str_nat tot)
         \<and> cpp_parse sl ''SUB_DONE'' ''wrong'' = Some (str_nat wr))"
proof -
  have res: "pl = py_strip (out pub) \<and> cpp_parse sl ''SUB_DONE'' ''total'' = Some (str_nat tot)
      \<and> cpp_parse sl ''SUB_DONE'' ''wrong'' = Some (str_nat wr)" if "r = Inr (Some (pl, sl))" for pl sl
  proof -
    have "cpp_run_n E n h = (Inr (Some (pl, sl)), h')" using assms(2) that by simp
    then obtain server scs h1 h2 where "cpp_body E n server scs h1 = (Inr (Some (pl, sl)), h2)"
      unfolding cpp_run_n_def by (rule with_fleet_result)
    then have "pl = py_strip (out pub)"
      and "sl = sub_line_of (sub_done_line tot wr secs rate @ [CHR 0x0A])"
      using cpp_body_result assms(3,4) by fastforce+
    moreover have "sub_line_of (sub_done_line tot wr secs rate @ [CHR 0x0A]) = sub_done_line tot wr secs rate"
      using sub_line_of_report [OF sub_done_line_shape [OF assms(5-7)], of "[]"] by simp
    ultimately show ?thesis
      using scan_sub_done [OF assms(5,6), of tot wr] scan_fold_parse [of "py_split sl" Map.empty]
      by (simp add: scan_totals_def parse_def cpp_parse_def)
  qed
  show ?thesis
    using cpp.staged_run [OF assms(2) [unfolded cpp_run_n_def], of n "fleet_stages n"]
      cpp.fleet_stopped [OF assms(1) assms(2) [unfolded cpp_run_n_def]] res
    by (simp add: fleet_stages_def length_range1)
qed

lemma demo_cpp_run: "\<exists>pl sl h'. cpp_run_n (demo_env rep) 1 [] = (Inr (Some (pl, sl)), h')"
  by (simp add: cpp_run_n_def cpp_start_server_def cpp_launch_def cpp_start_sidecar_def
      cpp_body_def cpp_run_ctrl_def demo_simps)

theorem cpp_run_n_safe_witness:
  "\<exists>pl sl h'. cpp_run_n (demo_env (sub_done_line 12500 0 ''1.5'' ''8333.3'')) 1 [] = (Inr (Some (pl, sl)), h')
     \<and> pl = py_strip ''CTRL_REPLY ok'' \<and> cpp_parse sl ''SUB_DONE'' ''total'' = Some (str_nat 12500)"
proof -
  let ?E = "demo_env (sub_done_line 12500 0 ''1.5'' ''8333.3'')"
  obtain pl sl h' where run: "cpp_run_n ?E 1 [] = (Inr (Some (pl, sl)), h')"
    using demo_cpp_run by blast
  from cpp_run_n_safe [OF calm_demo_env run, of 12500 0 "''1.5''" "''8333.3''"
      "\<lparr>returncode = 0, out = ''CTRL_REPLY ok'', err = []\<rparr>"] run show ?thesis
    by (simp add: demo_env_def py_isspace_def)
qed

end
