(* ===== verification/Jetstream_Consumer.thy ===== *)
theory Jetstream_Consumer
  imports Sidecar_Config
begin

text \<open>
  \<^verbatim>\<open>bench/nats_sidecar_jetstream_consumer.py\<close>: sidecars that share a durable JetStream
  consumer. The integration check, the stress reproduction (a run of 32 plain sidecars
  before each measured run) and the throughput sweep all rest on \<^verbatim>\<open>run_n_jetstream\<close>.
\<close>

section \<open>Settings and launches\<close>

definition jssc_INPUT_STREAM :: string where "jssc_INPUT_STREAM = ''SC_JS_INPUT''"

definition jssc_DURABLE_NAME :: string where "jssc_DURABLE_NAME = ''sc-js-durable''"

definition jssc_DELIVER_SUBJECT :: string where "jssc_DELIVER_SUBJECT = ''sc.js.deliver''"

definition jssc_DELIVER_GROUP :: string where "jssc_DELIVER_GROUP = ''sc-js-group''"

definition jssc_start_server :: "env \<Rightarrow> string \<Rightarrow> (nat \<times> nat) os" where
  "jssc_start_server E tag =
     start_server_at E (''/tmp/jssc_store'' @ ''_'' @ tag) (''/tmp/jssc_server_'' @ tag @ ''.log'')"

definition jssc_start_sidecar_plain :: "env \<Rightarrow> nat \<Rightarrow> string \<Rightarrow> (nat \<times> nat) os" where
  "jssc_start_sidecar_plain E i tag =
     spawn_logged E (''/tmp/jssc_sidecar_plain_'' @ tag @ ''_'' @ str_nat i @ ''.log'')
       [SIDECAR E,
        ''-a'', ''127.0.0.1'', ''-p'', ''4222'',
        ''-i'', INPUT_SUBJECT,
        ''--queue-group'', ''qg-real'',
        ''--attr'', FILTER_FIELD @ '':string'',
        ''--engine'', ''atree'',
        ''--output-prefix'', OUTPUT_PREFIX,
        ''--subscribe-subject'', ''sc.jssc.plain.ctrl.'' @ str_nat i,
        ''--workers'', ''2'',
        ''--lease-bucket'', ''sc-jssc-plain-leases-'' @ tag]"

definition jssc_log_path :: "string \<Rightarrow> nat \<Rightarrow> string" where
  "jssc_log_path tag i = ''/tmp/jssc_sidecar_js_'' @ tag @ ''_'' @ str_nat i @ ''.log''"

definition jssc_start_sidecar_js :: "env \<Rightarrow> nat \<Rightarrow> string \<Rightarrow> nat \<Rightarrow> string sidecar os" where
  "jssc_start_sidecar_js E i tag max_ack_pending =
     bind (spawn_logged E (jssc_log_path tag i)
       [SIDECAR E,
        ''-a'', ''127.0.0.1'', ''-p'', ''4222'',
        ''-i'', INPUT_SUBJECT,
        ''--input-stream'', jssc_INPUT_STREAM,
        ''--consumer-durable-name'', jssc_DURABLE_NAME,
        ''--consumer-deliver-subject'', jssc_DELIVER_SUBJECT,
        ''--consumer-deliver-group'', jssc_DELIVER_GROUP,
        ''--consumer-max-ack-pending'', str_nat max_ack_pending,
        ''--consumer-ack-wait'', ''30'',
        ''--attr'', FILTER_FIELD @ '':string'',
        ''--engine'', ''atree'',
        ''--output-prefix'', OUTPUT_PREFIX,
        ''--subscribe-subject'', ''sc.jssc.js.ctrl.'' @ tag @ ''.'' @ str_nat i,
        ''--workers'', ''2'',
        ''--lease-bucket'', ''sc-jssc-js-leases-'' @ tag,
        ''--stats-interval'', ''1'']) (\<lambda>(p, log). ret (p, log, jssc_log_path tag i))"

section \<open>The statistics lines of an instance\<close>

text \<open>
  The first token that starts with \<^verbatim>\<open>processed=\<close> decides; a value that is no number gives
  \<^verbatim>\<open>None\<close>. The outer \<open>option\<close> says whether a token was found.
\<close>

fun processed_in :: "string list \<Rightarrow> int option option" where
  "processed_in [] = None"
| "processed_in (tok # toks) =
     (if py_startswith tok ''processed='' then Some (py_int (snd (split_eq tok))) else processed_in toks)"

fun last_processed :: "string list \<Rightarrow> int option" where
  "last_processed [] = None"
| "last_processed (line # earlier) =
     (if py_in ''stats:'' line \<and> py_in ''processed='' line then
        (case processed_in (py_split line) of Some v \<Rightarrow> v | None \<Rightarrow> last_processed earlier)
      else last_processed earlier)"

text \<open>\<^verbatim>\<open>except OSError\<close> also catches its subclass \<^verbatim>\<open>FileNotFoundError\<close>.\<close>

definition instance_processed_count :: "env \<Rightarrow> string \<Rightarrow> int option os" where
  "instance_processed_count E log_path h =
     (case read_file E log_path h of
        (Inl e, h') \<Rightarrow> if e = OSError \<or> e = FileNotFoundError then (Inr None, h') else (Inl e, h')
      | (Inr text, h') \<Rightarrow> (Inr (last_processed (rev (readlines text))), h'))"

fun processed_counts :: "env \<Rightarrow> string list \<Rightarrow> int option list os" where
  "processed_counts E [] = ret []"
| "processed_counts E (p # ps) =
     bind (instance_processed_count E p) (\<lambda>c. bind (processed_counts E ps) (\<lambda>cs. ret (c # cs)))"

section \<open>The two runs\<close>

text \<open>
  The warm-up load of 32 plain instances; \<^verbatim>\<open>nats_sidecar_n1_jetstream_repro.py\<close> has the same
  function with another prefix of its control subjects.
\<close>

definition n32_ctrl :: "env \<Rightarrow> string \<Rightarrow> nat \<Rightarrow> unit os" where
  "n32_ctrl E ctrl_prefix i =
     bind (run_ctrl E (ctrl_prefix @ str_nat i)) (\<lambda>reply.
       if py_in error_mark reply
       then print_err (''  N=32 warmup instance '' @ str_nat i @ '' ctrl FAILED: '' @ reply)
       else ret ())"

definition n32_launch :: "env \<Rightarrow> nat \<Rightarrow> unit sidecar os" where
  "n32_launch E i = bind (jssc_start_sidecar_plain E i ''32'') (\<lambda>(sp, sl). ret (sp, sl, ()))"

definition n32_body :: "env \<Rightarrow> string \<Rightarrow> nat \<Rightarrow> unit sidecar list \<Rightarrow> unit os" where
  "n32_body E ctrl_prefix server sidecars =
     andthen (sleep E (25/10 + 2/10 * 32))
     (andthen (for_each (n32_ctrl E ctrl_prefix) [1..<33])
     (andthen (sleep E (3/10))
     (bind (popen_subfield E) (\<lambda>sub.
      andthen (sleep E (3/10))
      (bind (run_cmd E (PSQL @ [pub_sql_plain]) 120) (\<lambda>pub.
       andthen (if returncode pub \<noteq> 0
                then print_err (''  N=32 warmup publish FAILED: '' @ err pub) else ret ())
       (bind (communicate E sub 100) (\<lambda>_. ret ()))))))))"

definition run_n32_load :: "env \<Rightarrow> unit os" where
  "run_n32_load E =
     with_fleet E (jssc_start_server E ''32'') (n32_launch E) [1..<33]
       (n32_body E ''sc.jssc.plain.ctrl.'')"

record js_result =
  js_total :: "string option"
  js_wrong :: "string option"
  js_stalled :: bool
  js_pub_secs :: rat
  per_instance :: "int option list option"

text \<open>\<^verbatim>\<open>stalled = (tot is None) or (int(tot) != EXPECTED)\<close>\<close>

definition stalled_of :: "string option \<Rightarrow> exc + bool" where
  "stalled_of tot =
     (case tot of
        None \<Rightarrow> Inr True
      | Some t \<Rightarrow> (case py_int t of None \<Rightarrow> Inl ValueError | Some v \<Rightarrow> Inr (v \<noteq> int EXPECTED)))"

definition jssc_collect :: "env \<Rightarrow> nat \<Rightarrow> string list \<Rightarrow> rat \<Rightarrow> string \<Rightarrow> js_result option os" where
  "jssc_collect E n log_paths pub_secs sub_out =
     (case scan_totals (sub_line_of sub_out) of (tot, wrong) \<Rightarrow>
        bind (lift (stalled_of tot)) (\<lambda>stalled.
        bind (if 1 < n
              then andthen (sleep E (15/10))
                     (bind (processed_counts E log_paths) (\<lambda>cs. ret (Some cs)))
              else ret None) (\<lambda>per_inst.
          ret (Some \<lparr>js_total = tot, js_wrong = wrong, js_stalled = stalled, js_pub_secs = pub_secs,
                     per_instance = per_inst\<rparr>))))"

definition jssc_body :: "env \<Rightarrow> nat \<Rightarrow> string \<Rightarrow> nat \<Rightarrow> string sidecar list \<Rightarrow> js_result option os" where
  "jssc_body E n tag server sidecars =
     andthen (sleep E (15/10 + 2/10 * of_nat n))
     (bind (poll_all E (\<lambda>log_path. ''  N='' @ str_nat n @ '' instance exited early - see '' @ log_path)
              sidecars) (\<lambda>alive.
      if \<not> alive then ret None else
      bind (ctrl_all (\<lambda>i. run_ctrl E (''sc.jssc.js.ctrl.'' @ tag @ ''.'' @ str_nat i))
              (\<lambda>i. ''  N='' @ str_nat n @ '' instance '' @ str_nat i @ '' ctrl FAILED: '')
              [1..<n + 1]) (\<lambda>registered.
      if \<not> registered then ret None else
      andthen (sleep E (3/10))
      (bind (popen_subfield E) (\<lambda>sub.
       andthen (sleep E (3/10))
       (bind (time_time E) (\<lambda>t0.
        bind (run_cmd E (PSQL @ [pub_sql_stream]) 120) (\<lambda>pub.
        bind (time_time E) (\<lambda>t1.
        if returncode pub \<noteq> 0 then
          andthen (print_err (''  N='' @ str_nat n @ '' JetStream publish FAILED: '' @ err pub)) (ret None)
        else
          bind (communicate E sub 100) (\<lambda>sub_out.
            jssc_collect E n (map (snd \<circ> snd) sidecars) (t1 - t0) sub_out))))))))))"

definition run_n_jetstream :: "env \<Rightarrow> nat \<Rightarrow> string \<Rightarrow> js_result option os" where
  "run_n_jetstream E n tag =
     with_fleet E (jssc_start_server E tag) (\<lambda>i. jssc_start_sidecar_js E i tag 2000) [1..<n + 1]
       (jssc_body E n tag)"

section \<open>The three checks\<close>

definition int_opt_repr :: "int option \<Rightarrow> string" where
  "int_opt_repr v = (case v of None \<Rightarrow> ''None'' | Some i \<Rightarrow> str_int i)"

definition per_instance_repr :: "int option list option \<Rightarrow> string" where
  "per_instance_repr v = (case v of None \<Rightarrow> ''None'' | Some cs \<Rightarrow> list_repr (map int_opt_repr cs))"

definition js_result_repr :: "env \<Rightarrow> js_result \<Rightarrow> string" where
  "js_result_repr E r = dict_repr
     [(''total'', repr_opt (js_total r)), (''wrong'', repr_opt (js_wrong r)),
      (''stalled'', py_bool_str (js_stalled r)), (''pub_secs'', float_repr E (js_pub_secs r)),
      (''per_instance'', per_instance_repr (per_instance r))]"

definition integration_check :: "env \<Rightarrow> nat \<Rightarrow> bool os" where
  "integration_check E n =
     andthen (print_out (''=== Integration check: N='' @ str_nat n
                @ '' JetStream-consumer instances, real ground truth ===''))
     (bind (run_n_jetstream E n (''integ'' @ str_nat n)) (\<lambda>result.
      case result of
        None \<Rightarrow> andthen (print_out ''  FAILED: run_n_jetstream returned None'') (ret False)
      | Some r \<Rightarrow>
          andthen (print_out (''  total='' @ str_opt (js_total r) @ '' wrong='' @ str_opt (js_wrong r)
                     @ '' expected='' @ str_nat EXPECTED @ '' stalled='' @ py_bool_str (js_stalled r)
                     @ '' pub_secs='' @ fmt_rat 2 (js_pub_secs r)))
          (andthen (print_out (''  per-instance processed counts: '' @ per_instance_repr (per_instance r)))
          (ret (\<not> js_stalled r \<and> js_total r = Some (str_nat EXPECTED))))))"

text \<open>One trial of the stress reproduction; the answer is whether it counts as a stall.\<close>

definition stress_trial :: "env \<Rightarrow> nat \<Rightarrow> bool os" where
  "stress_trial E t =
     andthen (run_n32_load E)
     (bind (run_n_jetstream E 1 ''stress1'') (\<lambda>result.
      case result of
        None \<Rightarrow> andthen (print_out (''  trial '' @ str_nat t @ '': FAILED (run returned None)'')) (ret True)
      | Some r \<Rightarrow>
          andthen (print_out (''  trial '' @ str_nat t @ '': total='' @ str_opt (js_total r) @ '' wrong=''
                     @ str_opt (js_wrong r) @ '' pub_secs='' @ fmt_rat 2 (js_pub_secs r) @ '' -> ''
                     @ (if js_stalled r then ''STALLED'' else ''clean'')))
          (ret (js_stalled r))))"

fun stress_loop :: "env \<Rightarrow> nat list \<Rightarrow> nat \<Rightarrow> nat os" where
  "stress_loop E [] stalls = ret stalls"
| "stress_loop E (t # ts) stalls =
     bind (stress_trial E t) (\<lambda>bad. stress_loop E ts (if bad then stalls + 1 else stalls))"

definition stress_repro :: "env \<Rightarrow> int \<Rightarrow> nat os" where
  "stress_repro E trials =
     andthen (print_out (''=== Stress repro: N=32 teardown -> immediate N=1 JetStream-consumer burst, ''
                @ str_int trials @ '' trials ===''))
     (bind (stress_loop E [1..<nat (trials + 1)] 0) (\<lambda>stalls.
      andthen (print_out (''=== Stress repro result: '' @ str_nat stalls @ ''/'' @ str_int trials
                 @ '' trials stalled ===''))
      (ret stalls)))"

text \<open>The table of the sweep, in the order of its keys; a failed size has no rate.\<close>

type_synonym rate_table = "(nat \<times> rat option) list"

fun sweep_sizes :: "env \<Rightarrow> nat list \<Rightarrow> rate_table \<Rightarrow> rate_table os" where
  "sweep_sizes E [] table = ret table"
| "sweep_sizes E (n # ns) table =
     bind (run_n_jetstream E n (''tp'' @ str_nat n)) (\<lambda>result.
       case result of
         None \<Rightarrow> andthen (print_out (''  N='' @ str_nat n @ '': FAILED or stalled (None)''))
                   (sweep_sizes E ns (table @ [(n, None)]))
       | Some r \<Rightarrow>
           if js_stalled r then
             andthen (print_out (''  N='' @ str_nat n @ '': FAILED or stalled ('' @ js_result_repr E r @ '')''))
               (sweep_sizes E ns (table @ [(n, None)]))
           else
             bind (lift (py_truediv 200000 (js_pub_secs r))) (\<lambda>rate.
             andthen (print_out (''  N='' @ str_nat n @ '': '' @ fmt_rat 0 rate @ '' msgs/sec (''
                        @ fmt_rat 2 (js_pub_secs r) @ ''s for 200000 rows)''))
               (sweep_sizes E ns (table @ [(n, Some rate)]))))"

definition throughput_sweep :: "env \<Rightarrow> rate_table os" where
  "throughput_sweep E =
     andthen (print_out ''=== Throughput sweep: N in (1, 4, 8, 16, 32) ==='')
       (sweep_sizes E [1, 4, 8, 16, 32] [])"

definition rate_table_repr :: "env \<Rightarrow> rate_table \<Rightarrow> string" where
  "rate_table_repr E table =
     ''{'' @ py_join '', '' (map (\<lambda>(n, r). str_nat n @ '': ''
        @ (case r of None \<Rightarrow> ''None'' | Some x \<Rightarrow> float_repr E x)) table) @ ''}''"

text \<open>The command line accepts the four modes only.\<close>

datatype js_mode = M_integration | M_stress | M_throughput | M_all

definition jssc_main :: "env \<Rightarrow> js_mode \<Rightarrow> int \<Rightarrow> unit os" where
  "jssc_main E mode trials =
     andthen (if mode = M_integration \<or> mode = M_all
              then bind (integration_check E 4) (\<lambda>good.
                     print_out (''INTEGRATION: '' @ (if good then ''PASS'' else ''FAIL'')))
              else ret ())
     (andthen (if mode = M_stress \<or> mode = M_all
               then bind (stress_repro E trials) (\<lambda>stalls.
                      print_out (''STRESS: '' @ str_nat stalls @ ''/'' @ str_int trials @ '' stalled''))
               else ret ())
     (if mode = M_throughput \<or> mode = M_all
      then bind (throughput_sweep E) (\<lambda>table. print_out (''THROUGHPUT: '' @ rate_table_repr E table))
      else ret ()))"

section \<open>The fleet contracts\<close>

lemma jssc_launch_eq:
  "\<exists>path args c. jssc_start_sidecar_js E i tag m
     = bind (spawn_logged E path (SIDECAR E # args)) (\<lambda>(p, l). ret (p, l, c))"
  "\<exists>path args c. n32_launch E i
     = bind (spawn_logged E path (SIDECAR E # args)) (\<lambda>(p, l). ret (p, l, c))"
  by (auto simp: jssc_start_sidecar_js_def n32_launch_def jssc_start_sidecar_plain_def)

text \<open>Reading the logs shows only \<^verbatim>\<open>ReadFile\<close> interactions.\<close>

lemma processed_counts_silent:
  assumes "\<And>k p. ob k (ReadFile p) = []"
  shows "silent ob (processed_counts E ps)"
proof (induction ps)
  case (Cons p ps)
  have "silent ob (instance_processed_count E p)"
    using assms by (simp add: silent_def instance_processed_count_def read_file_def act_def observe_snoc
        split: sum.split)
  with Cons show ?case by (simp add: silent_intros)
qed simp

lemma bystander_processed_counts [bystander_intros]: "bystander (processed_counts E ps)"
  by (simp add: bystander_def processed_counts_silent observer_defs)

lemma phase_processed_counts [silent_intros]: "silent (phase_ev E) (processed_counts E' ps)"
  by (simp add: processed_counts_silent phase_ev_def)

lemma bystander_jssc_body: "bystander (jssc_body E n tag server scs)"
  unfolding jssc_body_def jssc_collect_def by (intro bystander_intros)

lemma bystander_n32_body: "bystander (n32_body E c server scs)"
  unfolding n32_body_def n32_ctrl_def by (intro bystander_intros)

lemma stage_jssc_collect:
  "completes (phase_ev E) g (jssc_collect E n ps secs txt) []"
  unfolding jssc_collect_def by (intro completes_silent silent_intros)

lemma completes_jssc_body:
  "completes (phase_ev E) (\<lambda>r. r \<noteq> None) (jssc_body E n tag server scs)
     (replicate n Ctrl @ [Sub, Publish, Collect])"
proof -
  have "completes (phase_ev E) (\<lambda>r. r \<noteq> None) (jssc_body E n tag server scs)
     (replicate (length [1..<n + 1]) Ctrl @ [Sub, Publish, Collect])"
    unfolding jssc_body_def
    by (rule stage_jssc_collect stage_intros silent_intros)+
  then show ?thesis by (simp only: length_range1)
qed

interpretation jssc: staged_fleet E "jssc_start_server E tag" "\<lambda>i. jssc_start_sidecar_js E i tag 2000"
  "jssc_body E n tag" "\<lambda>r. r \<noteq> None" "\<lambda>_. replicate n Ctrl @ [Sub, Publish, Collect]" for E tag n
  by (rule staged_fleetI [OF jssc_start_server_def jssc_launch_eq(1) bystander_jssc_body
        completes_jssc_body])

interpretation n32: sidecar_fleet E "jssc_start_server E tag" "n32_launch E" "n32_body E c" for E tag c
  by (rule sidecar_fleetI [OF jssc_start_server_def jssc_launch_eq(2) bystander_n32_body])

section \<open>Reading the statistics back\<close>

lemma py_startswith_append: "py_startswith (p @ s) p"
  by (induction p) auto

lemma py_startswith_more: "py_startswith s p \<Longrightarrow> py_startswith (s @ t) p"
  by (induction s p rule: py_startswith.induct) auto

lemma py_in_empty [simp]: "py_in [] s"
  by (induction s) auto

lemma py_in_prefix: "py_startswith s sub \<Longrightarrow> py_in sub s"
  by (cases s; cases sub) auto

lemma py_in_append: "py_in sub s \<Longrightarrow> py_in sub (a @ s @ b)"
proof (induction a)
  case Nil
  then show ?case
    by (induction s) (auto intro: py_startswith_more [where s = "_ # _", simplified])
qed auto

lemma py_startswith_shorter: "py_startswith s (p @ q) \<Longrightarrow> py_startswith s p"
  by (induction s p rule: py_startswith.induct) auto

lemma py_in_shorter: "py_in (p @ q) s \<Longrightarrow> py_in p s"
  by (induction s) (auto dest: py_startswith_shorter)

lemma py_in_join: "t \<in> set toks \<Longrightarrow> py_in t (py_join '' '' toks)"
proof (induction "'' ''" toks rule: py_join.induct)
  case (2 p)
  then show ?case using py_in_prefix py_startswith_append [of p "[]"] by simp
next
  case (3 p q ps)
  then show ?case
    using py_in_append [of t t "[]"] py_in_prefix [OF py_startswith_append [of p]]
      py_in_append [of t "py_join '' '' (q # ps)" "p @ '' ''" "[]"]
    by auto
qed simp

lemma py_split_newline: "py_split (s @ [CHR 0x0A]) = py_split s"
proof (induction s rule: py_split.induct)
  case (2 c s)
  show ?case
  proof (cases "py_isspace c")
    case True
    with 2 show ?thesis by simp
  next
    case False
    have "dropWhile (\<lambda>d. \<not> py_isspace d) s = [] \<or> dropWhile (\<lambda>d. \<not> py_isspace d) s \<noteq> []" by blast
    then show ?thesis
    proof
      assume "dropWhile (\<lambda>d. \<not> py_isspace d) s = []"
      then have "\<forall>d \<in> set s. \<not> py_isspace d" by simp
      moreover from this have "takeWhile (\<lambda>d. \<not> py_isspace d) s = s" "dropWhile (\<lambda>d. \<not> py_isspace d) s = []"
        by simp_all
      moreover have "py_isspace (CHR 0x0A)" by (simp add: py_isspace_def)
      ultimately show ?thesis using False by (simp add: takeWhile_append dropWhile_append
          del: takeWhile_eq_all_conv dropWhile_eq_Nil_conv)
    next
      assume "dropWhile (\<lambda>d. \<not> py_isspace d) s \<noteq> []"
      then have "\<exists>d \<in> set s. py_isspace d" by auto
      then show ?thesis using False 2 by (auto simp: takeWhile_append dropWhile_append)
    qed
  qed
qed (simp add: py_isspace_def)

lemma last_processed_skip:
  "\<forall>l \<in> set ls. \<not> (py_in ''stats:'' l \<and> py_in ''processed='' l) \<Longrightarrow>
   last_processed (ls @ ms) = last_processed ms"
  by (induction ls) auto

lemma processed_in_first:
  "\<forall>t \<in> set pre. \<not> py_startswith t ''processed='' \<Longrightarrow>
   processed_in (pre @ (''processed='' @ str_nat k) # post) = Some (Some (int k))"
  by (induction pre) (simp_all add: split_eq_def)

text \<open>
  What an instance logged last is what the script reads: whatever complete lines come
  before and whatever lines without both marks come after, from a log whose last statistics
  line carries the token \<^verbatim>\<open>processed=k\<close> the function \<^verbatim>\<open>instance_processed_count\<close> returns \<open>k\<close>.
\<close>

theorem processed_count_reads_back:
  assumes "read_ans E h p = Inr (before @ py_join '' '' toks @ [CHR 0x0A] @ after)"
    and "before = [] \<or> last before = CHR 0x0A"
    and "toks = pre @ (''processed='' @ str_nat k) # post" and "''stats:'' \<in> set pre"
    and "\<forall>t \<in> set toks. is_token t" and "\<forall>t \<in> set pre. \<not> py_startswith t ''processed=''"
    and "\<forall>l \<in> set (readlines after). \<not> (py_in ''stats:'' l \<and> py_in ''processed='' l)"
  shows "instance_processed_count E p h = (Inr (Some (int k)), h @ [ReadFile p])"
proof -
  let ?line = "py_join '' '' toks"
  have "CHR 0x0A \<notin> set ?line"
    using token_line [OF assms(5)] assms(3) by (auto simp: py_isnewline_def)
  from readlines_line [OF this] readlines_append [OF assms(2)]
  have lines: "rev (readlines (before @ ?line @ [CHR 0x0A] @ after))
      = rev (readlines after) @ (?line @ [CHR 0x0A]) # rev (readlines before)" by simp
  have "py_in ''stats:'' ?line" using py_in_join assms(3,4) by simp
  moreover have "py_in ''processed='' ?line"
  proof -
    have "py_in (''processed='' @ str_nat k) ?line" using py_in_join assms(3) by simp
    then show ?thesis by (rule py_in_shorter)
  qed
  ultimately have "last_processed ((?line @ [CHR 0x0A]) # rev (readlines before)) = Some (int k)"
    using py_in_append [of _ ?line "[]" "[CHR 0x0A]"] processed_in_first [OF assms(6)]
      py_split_join [OF assms(5)] assms(3)
    by (simp add: py_split_newline)
  then show ?thesis
    using assms(1,7) last_processed_skip [of "rev (readlines after)"] lines
    by (simp add: instance_processed_count_def read_file_def act_def)
qed

theorem processed_count_reads_back_witness:
  "instance_processed_count ((demo_env []) \<lparr> read_ans :=
       \<lambda>_ _. Inr ([] @ py_join '' '' [''stats:'', ''processed='' @ str_nat 54012] @ [CHR 0x0A] @ ''bye'') \<rparr>)
     ''/tmp/log'' [] = (Inr (Some 54012), [ReadFile ''/tmp/log''])"
proof -
  have "\<forall>c \<in> set ''processed=''. \<not> py_isspace c" by (simp add: py_isspace_def)
  then have "is_token (''processed='' @ str_nat 54012)"
    by (simp add: is_token_def str_nat_no_space)
  then show ?thesis
    using processed_count_reads_back [of "(demo_env []) \<lparr> read_ans := \<lambda>_ _. Inr ([] @
        py_join '' '' [''stats:'', ''processed='' @ str_nat 54012] @ [CHR 0x0A] @ ''bye'') \<rparr>" "[]"
        "''/tmp/log''" "[]" "[''stats:'', ''processed='' @ str_nat 54012]" "''bye''" "[''stats:'']" 54012 "[]"]
    by (simp add: is_token_def py_isspace_def)
qed

section \<open>Properties of the runs\<close>

lemma jssc_collect_result:
  assumes "jssc_collect E n ps secs sub_out h = (Inr (Some d), h')"
  shows "scan_totals (sub_line_of sub_out) = (js_total d, js_wrong d)
    \<and> stalled_of (js_total d) = Inr (js_stalled d)"
  using assms by (auto simp: jssc_collect_def bind_eq_Inr split: prod.splits)

lemma jssc_body_result:
  assumes "jssc_body E n tag server scs h = (Inr (Some d), h')"
  shows "\<exists>h1 q sub_out. communicate_ans E h1 q = Inr sub_out
    \<and> scan_totals (sub_line_of sub_out) = (js_total d, js_wrong d)
    \<and> stalled_of (js_total d) = Inr (js_stalled d)"
proof -
  from assms obtain h1 q sub_out t0 t1 h2 where "communicate E q 100 h1 = (Inr sub_out, h2)"
      and "jssc_collect E n (map (snd \<circ> snd) scs) (t1 - t0) sub_out h2 = (Inr (Some d), h')"
    by (auto simp: jssc_body_def prog_eqs split: if_splits)
  then show ?thesis
    using jssc_collect_result by (fastforce simp: communicate_def)
qed

lemma not_stalled: "stalled_of t = Inr b \<Longrightarrow> \<not> b \<longleftrightarrow> (\<exists>s. t = Some s \<and> py_int s = Some (int EXPECTED))"
  by (auto simp: stalled_of_def split: option.splits)

text \<open>
  A run over the durable consumer stops all it started, on every path; it goes through
  its stages in order, all of them when it gives a result; and a result that is not marked
  as stalled has a total that reads as the 21683 expected messages, and conversely.
\<close>

theorem run_n_jetstream_safe:
  assumes "calm E" and "run_n_jetstream E n tag h = (r, h')"
  shows "(\<exists>new. logged h' = logged h @ new
            \<and> terminated h' = terminated h @ rotate1 (map fst new)
            \<and> closed_logs h' = closed_logs h @ rotate1 (map snd new))
    \<and> (\<exists>k. phases E h' = phases E h @ take k (fleet_stages n))
    \<and> (\<forall>d. r = Inr (Some d) \<longrightarrow> phases E h' = phases E h @ fleet_stages n
         \<and> (\<not> js_stalled d \<longleftrightarrow> (\<exists>s. js_total d = Some s \<and> py_int s = Some (int EXPECTED))))"
proof -
  have res: "\<not> js_stalled d \<longleftrightarrow> (\<exists>s. js_total d = Some s \<and> py_int s = Some (int EXPECTED))"
    if "r = Inr (Some d)" for d
  proof -
    have "run_n_jetstream E n tag h = (Inr (Some d), h')" using assms(2) that by simp
    then obtain server scs h1 h2 where "jssc_body E n tag server scs h1 = (Inr (Some d), h2)"
      unfolding run_n_jetstream_def by (rule with_fleet_result)
    from jssc_body_result [OF this] show ?thesis using not_stalled by blast
  qed
  show ?thesis
    using jssc.staged_run [OF assms(2) [unfolded run_n_jetstream_def], of n "fleet_stages n"]
      jssc.fleet_stopped [OF assms(1) assms(2) [unfolded run_n_jetstream_def]] res
    by (simp add: fleet_stages_def length_range1)
qed

lemma demo_jssc_run:
  assumes "scan_totals (sub_line_of (rep @ [CHR 0x0A])) = (Some (str_nat EXPECTED), w)"
  shows "\<exists>d h'. run_n_jetstream (demo_env rep) 1 tag h = (Inr (Some d), h')
    \<and> js_total d = Some (str_nat EXPECTED) \<and> js_wrong d = w \<and> \<not> js_stalled d"
    and "\<exists>d h'. run_n_jetstream (demo_env rep) 2 tag h = (Inr (Some d), h')
    \<and> js_total d = Some (str_nat EXPECTED) \<and> js_wrong d = w \<and> \<not> js_stalled d
    \<and> per_instance d = Some [None, None]"
  using assms
  by (simp_all add: run_n_jetstream_def jssc_start_server_def jssc_start_sidecar_js_def jssc_body_def
      jssc_collect_def stalled_of_def instance_processed_count_def numeral_2_eq_2 demo_simps)

theorem run_n_jetstream_safe_witness:
  "\<exists>d h'. run_n_jetstream (demo_env good_report) 1 ''t'' [] = (Inr (Some d), h')
     \<and> phases (demo_env good_report) h' = fleet_stages 1 \<and> \<not> js_stalled d"
proof -
  obtain d h' where run: "run_n_jetstream (demo_env good_report) 1 ''t'' [] = (Inr (Some d), h')"
    and d: "\<not> js_stalled d"
    using demo_jssc_run(1) [OF good_report_totals] by blast
  from run_n_jetstream_safe [OF calm_demo_env run] run d show ?thesis by simp
qed

text \<open>
  What the integration check establishes: it passes only if the subscriber counted the
  21683 expected messages, and it passes whenever it did, whatever the number of messages
  with a wrong field and whatever the shares of the instances. In particular it passes on a
  run in which every delivered message has a wrong field and no instance logged a share,
  although the script says that it confirms a nonzero share of every instance.
\<close>

theorem integration_check_total_only:
  "(\<forall>E n h h'. integration_check E n h = (Inr True, h') \<longrightarrow>
      (\<exists>h1 q sub_out. communicate_ans E h1 q = Inr sub_out
         \<and> fst (scan_totals (sub_line_of sub_out)) = Some (str_nat EXPECTED)))
   \<and> (\<exists>h'. integration_check (demo_env (sub_done_line 21683 21683 ''1.5'' ''14455.3'')) 2 [] = (Inr True, h'))"
proof (intro conjI allI impI)
  fix E n h h' assume "integration_check E n h = (Inr True, h')"
  then obtain d h1 h2 where run: "run_n_jetstream E n (''integ'' @ str_nat n) h1 = (Inr (Some d), h2)"
    and d: "js_total d = Some (str_nat EXPECTED)"
    by (auto simp: integration_check_def prog_eqs split: option.splits)
  from run obtain server scs h3 h4 where "jssc_body E n (''integ'' @ str_nat n) server scs h3 = (Inr (Some d), h4)"
    unfolding run_n_jetstream_def by (rule with_fleet_result)
  from jssc_body_result [OF this] d show "\<exists>h1 q sub_out. communicate_ans E h1 q = Inr sub_out
      \<and> fst (scan_totals (sub_line_of sub_out)) = Some (str_nat EXPECTED)"
    by (metis fst_conv)
next
  let ?rep = "sub_done_line 21683 21683 ''1.5'' ''14455.3''"
  have "scan_totals (sub_line_of (?rep @ [CHR 0x0A])) = (Some (str_nat EXPECTED), Some (str_nat 21683))"
    using sub_line_of_report [OF sub_done_line_shape, of "''1.5''" "''14455.3''" "[]" 21683 21683]
      scan_sub_done [of "''1.5''" "''14455.3''" 21683 21683]
    by (simp add: EXPECTED_def py_isspace_def)
  from demo_jssc_run(2) [OF this, of "''integ'' @ str_nat 2"
      "[Stdout (''=== Integration check: N='' @ str_nat 2 @ '' JetStream-consumer instances, real ground truth ==='')]"]
  show "\<exists>h'. integration_check (demo_env ?rep) 2 [] = (Inr True, h')"
    by (auto simp: integration_check_def prog_defs print_out_def)
qed

theorem integration_check_total_only_witness:
  "\<exists>h1 q sub_out. communicate_ans (demo_env (sub_done_line 21683 21683 ''1.5'' ''14455.3'')) h1 q = Inr sub_out
     \<and> fst (scan_totals (sub_line_of sub_out)) = Some (str_nat EXPECTED)"
  using integration_check_total_only by blast

end
