(* ===== verification/N1_Repro.thy ===== *)
theory N1_Repro
  imports Jetstream_Consumer
begin

text \<open>
  \<^verbatim>\<open>bench/nats_sidecar_n1_jetstream_repro.py\<close>: repeated trials of a heavy teardown of 32 instances
  followed at once by a run of one instance whose publisher waits for JetStream's
  acknowledgements. A trial that cannot be set up counts as a stall.
\<close>

section \<open>Settings\<close>

definition VENV_PY :: "env \<Rightarrow> string" where
  "VENV_PY E = expanduser E ''/duckdb-nats-jetstream/.venv/bin/python3''"

definition STREAM_NAME :: string where "STREAM_NAME = ''SCJS''"

text \<open>\<^verbatim>\<open>q2 s\<close> is \<open>s\<close> in double quotes.\<close>

definition q2 :: "string \<Rightarrow> string" where
  "q2 s = [CHR 0x22] @ s @ [CHR 0x22]"

definition CREATE_STREAM_PY :: string where
  "CREATE_STREAM_PY = concat (map (\<lambda>l. CHR 0x0A # l)
     [''import asyncio, nats'',
      ''async def main():'',
      ''    nc = await nats.connect('' @ q2 ''nats://127.0.0.1:4222'' @ '')'',
      ''    js = nc.jetstream()'',
      ''    try:'',
      ''        await js.add_stream(name='' @ q2 STREAM_NAME @ '', subjects=['' @ q2 (INPUT_SUBJECT @ ''.>'')
        @ '', '' @ q2 INPUT_SUBJECT @ ''])'',
      ''    except Exception as e:'',
      ''        print('' @ q2 ''stream create:'' @ '', e)'',
      ''    await nc.close()'',
      ''asyncio.run(main())'',
      []])"

section \<open>Launches\<close>

definition n1_start_server :: "env \<Rightarrow> string \<Rightarrow> (nat \<times> nat) os" where
  "n1_start_server E tag =
     start_server_at E (''/tmp/n1js_store'' @ ''_'' @ tag) (''/tmp/n1js_server_'' @ tag @ ''.log'')"

definition n1_start_sidecar :: "env \<Rightarrow> nat \<Rightarrow> string \<Rightarrow> string \<Rightarrow> (nat \<times> nat) os" where
  "n1_start_sidecar E i tag subscribe_subject =
     spawn_logged E (''/tmp/n1js_sidecar_'' @ tag @ ''_'' @ str_nat i @ ''.log'')
       [SIDECAR E,
        ''-a'', ''127.0.0.1'', ''-p'', ''4222'',
        ''-i'', INPUT_SUBJECT,
        ''--queue-group'', ''qg-real'',
        ''--attr'', FILTER_FIELD @ '':string'',
        ''--engine'', ''atree'',
        ''--output-prefix'', OUTPUT_PREFIX,
        ''--subscribe-subject'', subscribe_subject,
        ''--workers'', ''2'',
        ''--lease-bucket'', ''sc-n1js-leases-'' @ tag]"

definition n1_warm_launch :: "env \<Rightarrow> nat \<Rightarrow> unit sidecar os" where
  "n1_warm_launch E i =
     bind (n1_start_sidecar E i ''32'' (''sc.n1js.ctrl.'' @ str_nat i)) (\<lambda>(sp, sl). ret (sp, sl, ()))"

definition n1_run_n32_load :: "env \<Rightarrow> unit os" where
  "n1_run_n32_load E =
     with_fleet E (n1_start_server E ''32'') (n1_warm_launch E) [1..<33] (n32_body E ''sc.n1js.ctrl.'')"

definition n1_launch :: "env \<Rightarrow> nat \<Rightarrow> unit sidecar os" where
  "n1_launch E i = bind (n1_start_sidecar E i ''1'' ''sc.n1js.ctrl.solo'') (\<lambda>(sp, sl). ret (sp, sl, ()))"

section \<open>The run under test\<close>

record n1_result =
  n1_total :: "string option"
  n1_wrong :: "string option"
  n1_stalled :: bool
  n1_pub_secs :: rat
  n1_flush_out :: string

definition n1_measure :: "env \<Rightarrow> n1_result option os" where
  "n1_measure E =
     bind (popen_subfield E) (\<lambda>sub.
     andthen (sleep E (3/10))
     (bind (time_time E) (\<lambda>t0.
      bind (run_cmd E (PSQL @ [pub_sql_stream]) 120) (\<lambda>pub.
      bind (time_time E) (\<lambda>t1.
      if returncode pub \<noteq> 0 then
        andthen (print_err (''  N=1 JetStream publish FAILED: '' @ err pub)) (ret None)
      else
        bind (communicate E sub 100) (\<lambda>sub_out.
        case scan_totals (sub_line_of sub_out) of (tot, wrong) \<Rightarrow>
          bind (lift (stalled_of tot)) (\<lambda>stalled.
            ret (Some \<lparr>n1_total = tot, n1_wrong = wrong, n1_stalled = stalled, n1_pub_secs = t1 - t0,
                       n1_flush_out = out pub\<rparr>))))))))"

definition n1_body :: "env \<Rightarrow> nat \<Rightarrow> unit sidecar list \<Rightarrow> n1_result option os" where
  "n1_body E server sidecars =
     andthen (sleep E (15/10))
     (bind (run_cmd E [VENV_PY E, ''-c'', CREATE_STREAM_PY] 15) (\<lambda>r.
      if returncode r \<noteq> 0 then
        andthen (print_err (''  stream create FAILED: '' @ out r @ '' '' @ err r)) (ret None)
      else
      bind (run_ctrl E ''sc.n1js.ctrl.solo'') (\<lambda>reply.
      if py_in error_mark reply then
        andthen (print_err (''  N=1 ctrl FAILED: '' @ reply)) (ret None)
      else
      andthen (sleep E (3/10)) (n1_measure E))))"

definition run_n1_jetstream :: "env \<Rightarrow> n1_result option os" where
  "run_n1_jetstream E = with_fleet E (n1_start_server E ''1'') (n1_launch E) [1] (n1_body E)"

section \<open>The trials\<close>

type_synonym trial_row = "nat \<times> string option \<times> string option \<times> bool \<times> rat option"

definition n1_row_of :: "nat \<Rightarrow> n1_result option \<Rightarrow> trial_row" where
  "n1_row_of t r =
     (case r of None \<Rightarrow> (t, None, None, True, None)
      | Some d \<Rightarrow> (t, n1_total d, n1_wrong d, n1_stalled d, Some (n1_pub_secs d)))"

definition n1_trial_line :: "nat \<Rightarrow> n1_result option \<Rightarrow> string" where
  "n1_trial_line t r =
     (case r of
        None \<Rightarrow> ''  trial '' @ str_nat t @ '': HARD FAILURE (setup error)''
      | Some d \<Rightarrow> ''  trial '' @ str_nat t @ '': total='' @ str_opt (n1_total d) @ ''/'' @ str_nat EXPECTED
          @ '' wrong='' @ str_opt (n1_wrong d) @ '' pub_secs='' @ fmt_rat 3 (n1_pub_secs d) @ '' [''
          @ (if n1_stalled d then ''STALL'' else ''clean'') @ '']'')"

fun n1_trials :: "env \<Rightarrow> int \<Rightarrow> nat list \<Rightarrow> nat \<times> trial_row list \<Rightarrow> (nat \<times> trial_row list) os" where
  "n1_trials E trials [] acc = ret acc"
| "n1_trials E trials (t # ts) (stalls, results) =
     andthen (print_out (''=== trial '' @ str_nat t @ ''/'' @ str_int trials @ '': N=32 warmup+teardown ===''))
     (andthen (n1_run_n32_load E)
     (andthen (print_out (''=== trial '' @ str_nat t @ ''/'' @ str_int trials
        @ '': immediate N=1 (JetStream publish) ===''))
     (bind (run_n1_jetstream E) (\<lambda>r.
      andthen (print_out (n1_trial_line t r))
      (n1_trials E trials ts
        (case r of
           None \<Rightarrow> (stalls + 1, results @ [n1_row_of t r])
         | Some d \<Rightarrow> (if n1_stalled d then stalls + 1 else stalls, results @ [n1_row_of t r])))))))"

definition n1_summary_row :: "env \<Rightarrow> trial_row \<Rightarrow> string" where
  "n1_summary_row E row =
     (case row of (t, tot, wrong, stalled, pub_secs) \<Rightarrow>
        ''  trial '' @ str_nat t @ '': total='' @ str_opt tot @ '' wrong='' @ str_opt wrong @ '' stalled=''
        @ py_bool_str stalled @ '' pub_secs='' @ (case pub_secs of None \<Rightarrow> ''None'' | Some x \<Rightarrow> float_repr E x))"

definition n1_main :: "env \<Rightarrow> int \<Rightarrow> unit os" where
  "n1_main E trials =
     bind (n1_trials E trials [1..<nat (trials + 1)] (0, [])) (\<lambda>(stalls, results).
     andthen (print_out (CHR 0x0A # ''=== SUMMARY: '' @ str_nat stalls @ ''/'' @ str_int trials
        @ '' trials stalled (JetStream stream_async+flush publish path) ===''))
     (for_each (\<lambda>row. print_out (n1_summary_row E row)) results))"

section \<open>The fleet contracts\<close>

lemma n1_launch_eq:
  "\<exists>path args c. n1_launch E i = bind (spawn_logged E path (SIDECAR E # args)) (\<lambda>(p, l). ret (p, l, c))"
  "\<exists>path args c. n1_warm_launch E i = bind (spawn_logged E path (SIDECAR E # args)) (\<lambda>(p, l). ret (p, l, c))"
  by (auto simp: n1_launch_def n1_warm_launch_def n1_start_sidecar_def)

lemma bystander_n1_body: "bystander (n1_body E server scs)"
  unfolding n1_body_def n1_measure_def by (intro bystander_intros)

lemma exe_python [simp]: "VENV_PY E \<noteq> DRIVER E" "VENV_PY E \<noteq> ''psql''"
proof -
  have "length (VENV_PY E) > length ''psql''" by (simp add: VENV_PY_def expanduser_def)
  then show "VENV_PY E \<noteq> ''psql''" by (metis less_irrefl)
qed (simp add: VENV_PY_def DRIVER_def expanduser_def)

lemma silent_create_stream [silent_intros]: "silent (phase_ev E) (run_cmd E' (VENV_PY E # args) t)"
  unfolding run_cmd_def by (rule silent_act) (simp add: phase_ev_def)

lemma stage_run_ctrl:
  "(\<And>x. completes (phase_ev E) g (k x) ys) \<Longrightarrow>
   completes (phase_ev E) g (bind (run_ctrl E s) k) (Ctrl # ys)"
  using completes_bind_all [OF completes_run_ctrl, of E g k ys] by simp

lemma completes_n1_body:
  "completes (phase_ev E) (\<lambda>r. r \<noteq> None) (n1_body E server scs) [Ctrl, Sub, Publish, Collect]"
  unfolding n1_body_def n1_measure_def
  by (rule stage_run_ctrl stage_intros silent_intros)+

interpretation n1: staged_fleet E "n1_start_server E tag" "n1_launch E" "n1_body E"
  "\<lambda>r. r \<noteq> None" "\<lambda>_. [Ctrl, Sub, Publish, Collect]" for E tag
  by (rule staged_fleetI [OF n1_start_server_def n1_launch_eq(1) bystander_n1_body completes_n1_body])

interpretation n1_warm: sidecar_fleet E "n1_start_server E tag" "n1_warm_launch E" "n32_body E c" for E tag c
  by (rule sidecar_fleetI [OF n1_start_server_def n1_launch_eq(2) bystander_n32_body])

section \<open>What the trials report\<close>

definition reads_expected :: "string option \<Rightarrow> bool" where
  "reads_expected tot \<longleftrightarrow> (\<exists>s. tot = Some s \<and> py_int s = Some (int EXPECTED))"

lemma stalled_of_reads: "stalled_of tot = Inr b \<Longrightarrow> b \<longleftrightarrow> \<not> reads_expected tot"
  by (auto simp: stalled_of_def reads_expected_def split: option.splits)

lemma n1_run_stalled:
  assumes "run_n1_jetstream E h = (Inr (Some d), h')"
  shows "n1_stalled d \<longleftrightarrow> \<not> reads_expected (n1_total d)"
proof -
  from assms obtain server scs h1 h2 where "n1_body E server scs h1 = (Inr (Some d), h2)"
    unfolding run_n1_jetstream_def by (rule with_fleet_result)
  then show ?thesis
    by (auto simp: n1_body_def n1_measure_def prog_eqs case_prod_beta split: if_splits dest!: stalled_of_reads [OF sym])
qed

definition row_stalled :: "trial_row \<Rightarrow> bool" where
  "row_stalled row = (case row of (t, tot, wrong, stalled, secs) \<Rightarrow> stalled)"

definition row_ok :: "trial_row \<Rightarrow> bool" where
  "row_ok row = (case row of (t, tot, wrong, stalled, secs) \<Rightarrow> stalled \<longleftrightarrow> \<not> reads_expected tot)"

lemma n1_row_ok: "run_n1_jetstream E h = (Inr r, h') \<Longrightarrow> row_ok (n1_row_of t r)"
  using n1_run_stalled by (cases r) (auto simp: row_ok_def n1_row_of_def reads_expected_def)

lemma n1_trials_rows:
  assumes "n1_trials E k ts (stalls, rows) h = (Inr (stalls', rows'), h')"
  shows "\<exists>new. rows' = rows @ new \<and> map fst new = ts \<and> stalls' = stalls + length (filter row_stalled new)
    \<and> (\<forall>row \<in> set new. row_ok row)"
  using assms
proof (induction ts arbitrary: stalls rows h)
  case (Cons t ts)
  then obtain h1 r h2 h3 stalls1 where run: "run_n1_jetstream E h1 = (Inr r, h2)"
    and rest: "n1_trials E k ts (stalls1, rows @ [n1_row_of t r]) h3 = (Inr (stalls', rows'), h')"
    and stalls1: "stalls1 = stalls + (if row_stalled (n1_row_of t r) then 1 else 0)"
    by (auto simp: prog_eqs row_stalled_def n1_row_of_def split: option.splits if_splits)
  from Cons.IH [OF rest] obtain new where "rows' = rows @ n1_row_of t r # new" "map fst new = ts"
      "stalls' = stalls1 + length (filter row_stalled new)" "\<forall>row \<in> set new. row_ok row"
    by auto
  moreover have "fst (n1_row_of t r) = t" by (simp add: n1_row_of_def split: option.split)
  ultimately show ?case
    using stalls1 n1_row_ok [OF run] by (intro exI [of _ "n1_row_of t r # new"]) simp
qed simp

text \<open>
  The stall count is honest: when the trials end, there is one row for every trial, in order;
  a row is marked as stalled exactly if its total does not read as the 21683 expected messages (a
  trial that could not be set up included); and the reported number of stalls is the number of
  such rows.
\<close>

theorem n1_stall_count:
  assumes "n1_trials E trials [1..<nat (trials + 1)] (0, []) h = (Inr (stalls, results), h')"
  shows "map fst results = [1..<nat (trials + 1)] \<and> stalls = length (filter row_stalled results)
    \<and> (\<forall>(t, tot, wrong, stalled, secs) \<in> set results. stalled \<longleftrightarrow> \<not> reads_expected tot)"
  using n1_trials_rows [OF assms] by (auto simp: row_ok_def)

lemma demo_n32_body:
  "\<exists>h'. n32_body (demo_env rep) c server scs h = (Inr (), h')"
proof -
  have ctrl: "\<exists>h'. for_each (n32_ctrl (demo_env rep) c) is h = (Inr (), h')" for "is" h
  proof (induction "is" arbitrary: h)
    case (Cons i "is")
    obtain h1 where "n32_ctrl (demo_env rep) c i h = (Inr (), h1)"
      by (simp add: n32_ctrl_def demo_simps)
    with Cons show ?case by (simp add: andthen_eq_Inr)
  qed (simp add: ret_def)
  obtain h1 where "for_each (n32_ctrl (demo_env rep) c) [1..<33] (h @ [Sleep (25/10 + 2/10 * 32)]) = (Inr (), h1)"
    using ctrl by blast
  then show ?thesis
    by (simp add: n32_body_def demo_simps del: upt_rec_numeral)
qed

lemma demo_warm: "\<exists>h'. n1_run_n32_load (demo_env rep) h = (Inr (), h')"
proof -
  have launch: "\<exists>scs h'. launch_all (n1_warm_launch (demo_env rep)) is acc h = (Inr (), scs, h')" for "is" acc h
    by (induction "is" arbitrary: acc h)
      (simp_all add: n1_warm_launch_def n1_start_sidecar_def demo_simps)
  have stop: "\<exists>h'. teardown (demo_env rep) scs server slog h = (Inr (), h')" for scs :: "unit sidecar list" and server slog h
    using teardown_calm [OF calm_demo_env] by blast
  obtain server slog h1 where "n1_start_server (demo_env rep) ''32'' h = (Inr (server, slog), h1)"
    by (simp add: n1_start_server_def demo_simps)
  moreover obtain scs h2 where "launch_all (n1_warm_launch (demo_env rep)) [1..<33] [] h1 = (Inr (), scs, h2)"
    using launch by blast
  moreover obtain h3 where "n32_body (demo_env rep) ''sc.n1js.ctrl.'' server scs h2 = (Inr (), h3)"
    using demo_n32_body by blast
  moreover obtain h4 where "teardown (demo_env rep) scs server slog h3 = (Inr (), h4)" using stop by blast
  ultimately show ?thesis
    by (simp add: n1_run_n32_load_def with_fleet_def bind_def try_finally_def del: upt_rec_numeral)
qed

lemma demo_n1_run:
  assumes "scan_totals (sub_line_of (rep @ [CHR 0x0A])) = (Some t, Some w)" and "py_int t = Some v"
  shows "\<exists>d h'. run_n1_jetstream (demo_env rep) h = (Inr (Some d), h') \<and> n1_total d = Some t"
  using assms
  by (simp add: run_n1_jetstream_def n1_start_server_def n1_launch_def n1_start_sidecar_def n1_body_def
      n1_measure_def stalled_of_def demo_simps)

text \<open>One trial in which all expected messages arrive.\<close>

theorem n1_stall_count_witness:
  "\<exists>results h'. n1_trials (demo_env good_report) 1 [1..<nat (1 + 1)] (0, []) [] = (Inr (0, results), h')
     \<and> map fst results = [1] \<and> \<not> (\<exists>row \<in> set results. row_stalled row)"
proof -
  let ?E = "demo_env good_report"
  have two: "[1..<nat (1 + 1)] = [1]" by (simp add: upt_rec)
  have expected: "py_int (str_nat EXPECTED) = Some (int EXPECTED)" by simp
  have "\<exists>stalls results h'. n1_trials ?E 1 [1] (0, []) [] = (Inr (stalls, results), h')
      \<and> (\<forall>(t, tot, wrong, stalled, secs) \<in> set results. reads_expected tot)"
  proof -
    obtain h1 where h1: "n1_run_n32_load ?E [Stdout (''=== trial '' @ str_nat 1 @ ''/'' @ str_int 1
        @ '': N=32 warmup+teardown ==='')] = (Inr (), h1)" using demo_warm by blast
    obtain d h2 where "run_n1_jetstream ?E (h1 @ [Stdout (''=== trial '' @ str_nat 1 @ ''/'' @ str_int 1
        @ '': immediate N=1 (JetStream publish) ==='')]) = (Inr (Some d), h2)" "n1_total d = Some (str_nat EXPECTED)"
      using demo_n1_run [OF good_report_totals expected] by blast
    with h1 show ?thesis
      by (simp add: andthen_def bind_def print_out_def act_def n1_row_of_def reads_expected_def)
  qed
  then obtain stalls results h' where run: "n1_trials ?E 1 [1..<nat (1 + 1)] (0, []) [] = (Inr (stalls, results), h')"
    and all: "\<forall>(t, tot, wrong, stalled, secs) \<in> set results. reads_expected tot"
    unfolding two by blast
  note facts = n1_stall_count [OF run]
  have "\<forall>row \<in> set results. \<not> row_stalled row" using facts all by (fastforce simp: row_stalled_def)
  moreover from this have "filter row_stalled results = []" by simp
  ultimately show ?thesis using run facts two by auto
qed

end
