(* ===== verification/Capture_Harness.thy ===== *)
theory Capture_Harness
  imports Sidecar_Config
begin

text \<open>
  Scripts that run a measuring program beside the fleet (\<^verbatim>\<open>mpstat\<close> in the extended sweep,
  \<^verbatim>\<open>perf record\<close> in the profiling run) or fetch a profile before the launches. Their
  \<^verbatim>\<open>finally\<close> block reads a local variable that the \<^verbatim>\<open>try\<close> block assigns on its way (the
  capture object, \<^verbatim>\<open>perf_proc\<close>), so the \<^verbatim>\<open>try\<close> block is a function that also tells the
  value of this variable when it ends, by a result or by an exception.
\<close>

section \<open>The try block and its finally\<close>

type_synonym ('x, 'a) block = "hist \<Rightarrow> (exc + 'a) \<times> 'x \<times> hist"

text \<open>
  A body whose variable keeps its first value \<open>x0\<close> up to one assignment in the middle:
  \<open>before\<close> may return early (the answer \<open>Inl a\<close>), \<open>start\<close> assigns the variable,
  and the \<open>rest\<close> only reads it.
\<close>

definition captured ::
  "'x \<Rightarrow> ('a + 's) os \<Rightarrow> ('x, 'l) block \<Rightarrow> ('s \<Rightarrow> 'l \<Rightarrow> 'x \<Rightarrow> 'a os) \<Rightarrow> ('x, 'a) block" where
  "captured x0 before start rest h =
     (case before h of
        (Inl e, h1) \<Rightarrow> (Inl e, x0, h1)
      | (Inr (Inl a), h1) \<Rightarrow> (Inr a, x0, h1)
      | (Inr (Inr s), h1) \<Rightarrow>
          (case start h1 of
             (Inl e, x, h2) \<Rightarrow> (Inl e, x, h2)
           | (Inr l, x, h2) \<Rightarrow> (case rest s l x h2 of (r, h3) \<Rightarrow> (r, x, h3))))"

text \<open>
  The \<^verbatim>\<open>try\<close> block: what comes before the launches, the launches, the body. It tells the
  list of sidecars so far and the variable.
\<close>

definition guarded_try ::
  "unit os \<Rightarrow> ('i \<Rightarrow> 'c sidecar os) \<Rightarrow> 'i list \<Rightarrow> 'x \<Rightarrow> ('c sidecar list \<Rightarrow> ('x, 'a) block)
   \<Rightarrow> ('c sidecar list \<times> 'x, 'a) block" where
  "guarded_try pre start is x0 body h =
     (case pre h of
        (Inl e, h1) \<Rightarrow> (Inl e, ([], x0), h1)
      | (Inr _, h1) \<Rightarrow>
          (case launch_all start is [] h1 of
             (Inl e, scs, h2) \<Rightarrow> (Inl e, (scs, x0), h2)
           | (Inr _, scs, h2) \<Rightarrow> (case body scs h2 of (r, x, h3) \<Rightarrow> (r, (scs, x), h3))))"

text \<open>The \<^verbatim>\<open>finally\<close> block ends the capture first, then the sidecars and the server.\<close>

definition with_guard ::
  "env \<Rightarrow> (nat \<times> nat) os \<Rightarrow> unit os \<Rightarrow> ('i \<Rightarrow> 'c sidecar os) \<Rightarrow> 'i list \<Rightarrow> 'x
   \<Rightarrow> (nat \<Rightarrow> 'c sidecar list \<Rightarrow> ('x, 'a) block) \<Rightarrow> ('x \<Rightarrow> unit os) \<Rightarrow> 'a os" where
  "with_guard E start_server pre start is x0 body cleanup =
     bind start_server (\<lambda>(server, slog). \<lambda>h.
       (case guarded_try pre start is x0 (body server) h of
          (r, (scs, x), h1) \<Rightarrow>
            try_finally (lift r) (andthen (cleanup x) (teardown E scs server slog)) h1))"

text \<open>A result of the whole run is a result of the body.\<close>

lemma with_guard_result:
  assumes "with_guard E start_server pre start is x0 body cleanup h = (Inr a, h')"
  obtains server scs h1 x h2 where "body server scs h1 = (Inr a, x, h2)"
  using assms
  by (auto simp: with_guard_def guarded_try_def bind_def try_finally_def lift_def
      split: prod.splits sum.splits)

lemma captured_result:
  assumes "captured x0 before start rest h = (Inr a, x, h')"
  obtains (early) "before h = (Inr (Inl a), h')" "x = x0"
  | (full) s h1 l h2 where "before h = (Inr (Inr s), h1)" "start h1 = (Inr l, x, h2)"
      "rest s l x h2 = (Inr a, h')"
  using assms by (auto simp: captured_def split: prod.splits sum.splits)

section \<open>The contract of a captured run\<close>

text \<open>
  \<open>keeps own b\<close>: the block \<open>b\<close> starts exactly the logged processes \<open>own x\<close>, with \<open>x\<close> the
  value of the variable it ends with, and only adds to the history.
\<close>

definition keeps :: "('x \<Rightarrow> nat list) \<Rightarrow> ('x, 'a) block \<Rightarrow> bool" where
  "keeps own b \<longleftrightarrow>
     (\<forall>h r x h'. b h = (r, x, h') \<longrightarrow>
        (\<exists>es. h' = h @ es) \<and> (\<exists>new. logged h' = logged h @ new \<and> map fst new = own x))"

lemma keepsD:
  assumes "keeps own b" and "b h = (r, x, h')"
  obtains es new where "h' = h @ es" and "logged h' = logged h @ new" and "map fst new = own x"
  using assms unfolding keeps_def by blast

text \<open>Code that starts no logged process and only adds to the history.\<close>

definition quiet :: "'a os \<Rightarrow> bool" where
  "quiet m \<longleftrightarrow> extends m \<and> silent logged_ev m"

lemma quietD:
  assumes "quiet m" and "m h = (r, h')"
  obtains es where "h' = h @ es" and "logged h' = logged h"
  using assms by (auto simp: quiet_def elim: extendsD dest: silentD)

lemma quietI: "extends m \<Longrightarrow> bystander m \<Longrightarrow> quiet m"
  by (simp add: quiet_def bystander_def)

lemma keeps_captured:
  assumes "own x0 = []" and before: "quiet before" and start: "keeps own start"
    and rest: "\<And>s l x. quiet (rest s l x)"
  shows "keeps own (captured x0 before start rest)"
  unfolding keeps_def
proof (intro allI impI)
  fix h r x h' assume run: "captured x0 before start rest h = (r, x, h')"
  obtain r1 h1 where r1: "before h = (r1, h1)" by (cases "before h")
  from before r1 obtain es1 where es1: "h1 = h @ es1" "logged h1 = logged h" by (rule quietD)
  show "(\<exists>es. h' = h @ es) \<and> (\<exists>new. logged h' = logged h @ new \<and> map fst new = own x)"
  proof (cases "\<exists>s. r1 = Inr (Inr s)")
    case False
    with run r1 assms(1) es1 show ?thesis
      by (cases r1) (auto simp: captured_def split: sum.splits)
  next
    case True
    then obtain s where s: "r1 = Inr (Inr s)" by blast
    obtain r2 x2 h2 where r2: "start h1 = (r2, x2, h2)" by (cases "start h1") auto
    from start r2 obtain es2 new where es2: "h2 = h1 @ es2" "logged h2 = logged h1 @ new" "map fst new = own x2"
      by (rule keepsD)
    show ?thesis
    proof (cases r2)
      case (Inl e)
      with run r1 s r2 es1 es2 show ?thesis by (auto simp: captured_def)
    next
      case (Inr l)
      obtain r3 h3 where r3: "rest s l x2 h2 = (r3, h3)" by (cases "rest s l x2 h2")
      from rest r3 obtain es3 where "h3 = h2 @ es3" "logged h3 = logged h2" by (rule quietD)
      with run r1 s r2 Inr r3 es1 es2 show ?thesis by (auto simp: captured_def)
    qed
  qed
qed

lemma extends_launch_all:
  assumes "\<And>i. extends (start i)" and "launch_all start is acc h = (r, scs, h')"
  shows "\<exists>es. h' = h @ es"
  using assms(2)
proof (induction "is" arbitrary: acc h)
  case (Cons i "is")
  obtain r1 h1 where r1: "start i h = (r1, h1)" by (cases "start i h")
  obtain es where "h1 = h @ es" using assms(1) r1 by (rule extendsD)
  with Cons r1 show ?case by (cases r1) fastforce+
qed simp

lemma extends_teardown: "extends (teardown E scs server slog)"
  unfolding teardown_def stop_sidecar_def stop_def by (intro extends_intros)

text \<open>
  What such a script provides. \<open>tame\<close> is what its \<^verbatim>\<open>finally\<close> block needs of the environment
  to run to its end; \<open>own x\<close> are the processes the capture holds. The cleanup must neither
  raise nor start anything, and leave every process of the capture ended.
\<close>

locale guarded_fleet =
  fixes E :: env
    and start_server :: "(nat \<times> nat) os"
    and pre :: "unit os"
    and start :: "'i \<Rightarrow> 'c sidecar os"
    and body :: "nat \<Rightarrow> 'c sidecar list \<Rightarrow> ('x, 'a) block"
    and x0 :: 'x
    and cleanup :: "'x \<Rightarrow> unit os"
    and own :: "'x \<Rightarrow> nat list"
    and tame :: "env \<Rightarrow> bool"
  assumes tame_calm: "tame E \<Longrightarrow> calm E"
    and server_launch: "calm E \<Longrightarrow> launches id start_server"
    and sidecar_launch: "launches sidecar_handle (start i)"
    and sidecar_extends: "extends (start i)"
    and pre_quiet: "quiet pre"
    and own_x0: "own x0 = []"
    and body_keeps: "keeps own (body server scs)"
    and cleanup_ends: "tame E \<Longrightarrow> \<exists>h'. cleanup x h = (Inr (), h') \<and> (\<exists>es. h' = h @ es)
          \<and> logged h' = logged h \<and> (\<forall>p \<in> set (own x). ended E p h')"

text \<open>The launches of such a script keep the contract of a fleet with an empty body.\<close>

sublocale guarded_fleet \<subseteq> fleet: sidecar_fleet E start_server start "\<lambda>_ _. ret ()"
  by unfold_locales (simp_all add: server_launch sidecar_launch bystander_control)

context guarded_fleet
begin

lemma guarded_try_observed:
  assumes "tame E" and run: "guarded_try pre start is x0 (body server) h = (r, (scs, x), h')"
  shows "\<exists>new. logged h' = logged h @ map sidecar_handle scs @ new \<and> map fst new = own x"
proof -
  obtain r1 h1 where r1: "pre h = (r1, h1)" by (cases "pre h")
  from pre_quiet r1 have l1: "logged h1 = logged h" by (rule quietD) blast
  show ?thesis
  proof (cases r1)
    case (Inl e)
    with run r1 l1 own_x0 show ?thesis by (auto simp: guarded_try_def)
  next
    case (Inr u)
    obtain r2 scs2 h2 where r2: "launch_all start is [] h1 = (r2, scs2, h2)"
      by (cases "launch_all start is [] h1") auto
    have l2: "logged h2 = logged h1 @ map sidecar_handle scs2"
      using fleet.launch_all_observed [OF tame_calm [OF assms(1)] r2] by auto
    show ?thesis
    proof (cases r2)
      case (Inl e)
      with run r1 Inr r2 l1 l2 own_x0 show ?thesis by (auto simp: guarded_try_def)
    next
      case (Inr v)
      obtain r3 x3 h3 where r3: "body server scs2 h2 = (r3, x3, h3)" by (cases "body server scs2 h2") auto
      from body_keeps r3 obtain new where "logged h3 = logged h2 @ new" "map fst new = own x3"
        by (rule keepsD)
      with run r1 \<open>r1 = Inr u\<close> r2 Inr r3 l1 l2 show ?thesis by (auto simp: guarded_try_def)
    qed
  qed
qed

text \<open>
  However the run ends, every logged process it started has ended: the fleet (the server and
  the sidecars) is terminated, each once and in this order, after the capture, and its logs
  are closed.
\<close>

lemma all_ended:
  assumes tame: "tame E" and run: "with_guard E start_server pre start is x0 body cleanup h = (r, h')"
  shows "\<exists>fleet caps. logged h' = logged h @ fleet @ caps \<and> (\<exists>x. map fst caps = own x)
    \<and> (\<forall>(p, l) \<in> set (fleet @ caps). ended E p h')
    \<and> (\<exists>ts. terminated h' = ts @ rotate1 (map fst fleet))
    \<and> (\<exists>cs. closed_logs h' = cs @ rotate1 (map snd fleet))"
proof -
  obtain rs h1 where rs: "start_server h = (rs, h1)" by (cases "start_server h")
  note ls = launchesD [OF server_launch [OF tame_calm [OF tame]] rs]
  show ?thesis
  proof (cases rs)
    case (Inl e)
    with run rs ls own_x0 show ?thesis
      by (intro exI [of _ "[]"]) (auto simp: with_guard_def bind_def intro!: exI [of _ x0])
  next
    case (Inr sv)
    obtain server slog where sv: "sv = (server, slog)" by (cases sv)
    obtain rb scs x h2 where rb: "guarded_try pre start is x0 (body server) h1 = (rb, (scs, x), h2)"
      by (cases "guarded_try pre start is x0 (body server) h1") auto
    from guarded_try_observed [OF tame rb] obtain caps
      where caps: "logged h2 = logged h1 @ map sidecar_handle scs @ caps" "map fst caps = own x" by blast
    from cleanup_ends [OF tame, of x h2] obtain h3
      where h3: "cleanup x h2 = (Inr (), h3)" "logged h3 = logged h2" "\<forall>p \<in> set (own x). ended E p h3"
      by blast
    obtain h4 where h4: "teardown E scs server slog h3 = (Inr (), h4)" "logged h4 = logged h3"
        "terminated h4 = terminated h3 @ map fst scs @ [server]"
        "closed_logs h4 = closed_logs h3 @ map (fst \<circ> snd) scs @ [slog]"
      using teardown_calm [OF tame_calm [OF tame]] by blast
    from extends_teardown h4(1) obtain es where es: "h4 = h3 @ es" by (rule extendsD)
    define fleet where "fleet = (server, slog) # map sidecar_handle scs"
    have "h' = h4"
      using run rs Inr sv rb h3(1) h4(1)
      by (simp add: with_guard_def bind_def try_finally_def andthen_def lift_def)
    moreover have "ended E p h4" if "(p, l) \<in> set caps" for p l
    proof -
      have "p \<in> set (own x)" using that caps(2) by (metis fst_conv in_set_zipE zip_map_fst_snd image_eqI set_map)
      then show ?thesis using h3(3) es ended_append by blast
    qed
    moreover have "ended E p h4" if "(p, l) \<in> set fleet" for p l
      using that h4(3) by (auto simp: fleet_def ended_def sidecar_handle_def)
    moreover have "logged h4 = logged h @ fleet @ caps"
      using ls Inr sv caps h3 h4 by (simp add: fleet_def)
    moreover have "terminated h4 = terminated h3 @ rotate1 (map fst fleet)"
        "closed_logs h4 = closed_logs h3 @ rotate1 (map snd fleet)"
      using h4(3,4) by (simp_all add: fleet_def sidecar_handle_def comp_def)
    ultimately show ?thesis using caps(2) by (intro exI [of _ fleet] exI [of _ caps]) auto
  qed
qed

end

section \<open>The parts the interpretations share\<close>

text \<open>What the body left in the history is still there when the run returns its result.\<close>

lemma with_guard_extends:
  assumes "with_guard E start_server pre start is x0 body cleanup h = (Inr a, h')"
    and "\<And>x. extends (cleanup x)"
  obtains server scs h1 x h2 es where "body server scs h1 = (Inr a, x, h2)" and "h' = h2 @ es"
proof -
  from assms(1) obtain server slog h0 scs x h2 h1 where body: "body server scs h1 = (Inr a, x, h2)"
    and fin: "andthen (cleanup x) (teardown E scs server slog) h2 = (Inr (), h')"
    by (fastforce simp: with_guard_def guarded_try_def bind_def try_finally_def lift_def
        split: prod.splits sum.splits)
  have "extends (andthen (cleanup x) (teardown E scs server slog))"
    using assms(2) extends_teardown by (rule extends_andthen)
  then obtain es where "h' = h2 @ es" using fin by (rule extendsD)
  with body show ?thesis by (rule that)
qed

lemma silent_logged_ends [silent_intros]:
  "silent logged_ev (terminate E p)" "silent logged_ev (kill E p)" "silent logged_ev (wait E p t)"
  "silent logged_ev (close_file E f)"
  by (simp_all add: os_call_defs silent_act observer_defs)

lemma silent_logged_bystander: "bystander m \<Longrightarrow> silent logged_ev m"
  by (simp add: bystander_def)

lemmas silent_logged_intros = silent_intros
  bystander_calls [THEN silent_logged_bystander] bystander_commands [THEN silent_logged_bystander]
  bystander_captures [THEN silent_logged_bystander] bystander_popen_pipe [THEN silent_logged_bystander]

lemma extends_start_sidecar:
  "extends (bind (spawn_logged E path argv) (\<lambda>(p, l). ret (p, l, c)))"
  unfolding spawn_logged_def by (intro extends_intros)

lemma extends_run_ctrl [extends_intros]: "extends (run_ctrl E s)"
  unfolding run_ctrl_def by (intro extends_intros)

lemma extends_popen_subfield [extends_intros]: "extends (popen_subfield E)"
  unfolding popen_subfield_def by (intro extends_intros)

lemma extends_poll_all [extends_intros]: "extends (poll_all E msg scs)"
  by (induction E msg scs rule: poll_all.induct) (simp_all add: extends_intros)

lemma extends_ctrl_all [extends_intros]:
  "(\<And>s. extends (rc s)) \<Longrightarrow> extends (ctrl_all rc msg ss)"
  by (induction ss) (simp_all add: extends_intros)

end
