(* ===== verification/Scaling_Ext.thy ===== *)
theory Scaling_Ext
  imports Capture_Harness
begin

text \<open>
  \<^verbatim>\<open>bench/nats_sidecar_scaling_real_data_ext.py\<close>: the real-data sweep for 16 and 32
  instances, with \<^verbatim>\<open>mpstat\<close> sampling the cores around the publish phase. The capture
  object is a record of its fields; \<^verbatim>\<open>_f\<close> is set by \<^verbatim>\<open>start()\<close> only, so stopping a
  capture that never started raises \<^verbatim>\<open>AttributeError\<close>.
\<close>

section \<open>The mpstat capture\<close>

record MpstatCapture =
  mp_path :: string
  mp_proc :: "nat option"
  mp_f :: "nat option"     \<comment> \<open>\<open>None\<close>: the attribute does not exist yet\<close>

definition mp_init :: "string \<Rightarrow> MpstatCapture" where
  "mp_init path = \<lparr>mp_path = path, mp_proc = None, mp_f = None\<rparr>"

text \<open>\<^verbatim>\<open>start\<close> tells the object as it is when the method ends, an exception included.\<close>

definition mp_start :: "env \<Rightarrow> MpstatCapture \<Rightarrow> (MpstatCapture, unit) block" where
  "mp_start E mp h =
     (case open_w E (mp_path mp) h of
        (Inl e, h1) \<Rightarrow> (Inl e, mp, h1)
      | (Inr f, h1) \<Rightarrow>
          (case popen E [''mpstat'', ''-P'', ''ALL'', ''1''] (Some f) h1 of
             (Inl e, h2) \<Rightarrow> (Inl e, mp\<lparr>mp_f := Some f\<rparr>, h2)
           | (Inr p, h2) \<Rightarrow> (Inr (), mp\<lparr>mp_f := Some f, mp_proc := Some p\<rparr>, h2)))"

definition mp_stop :: "env \<Rightarrow> MpstatCapture \<Rightarrow> unit os" where
  "mp_stop E mp =
     andthen
       (case mp_proc mp of
          None \<Rightarrow> ret ()
        | Some p \<Rightarrow> andthen (terminate E p) (try_except (wait E p 3) (kill E p)))
       (case mp_f mp of None \<Rightarrow> raise AttributeError | Some f \<Rightarrow> close_file E f)"

text \<open>\<^verbatim>\<open>min(xs)\<close> and \<^verbatim>\<open>max(xs)\<close> of a nonempty list keep the first of the equal or unordered values.\<close>

definition fl_min :: "pyfloat list \<Rightarrow> pyfloat" where
  "fl_min xs = fold (\<lambda>x m. if fl_less x m then x else m) (tl xs) (hd xs)"

definition fl_max :: "pyfloat list \<Rightarrow> pyfloat" where
  "fl_max xs = fold (\<lambda>x m. if fl_less m x then x else m) (tl xs) (hd xs)"

fun idle_samples :: "string list \<Rightarrow> pyfloat list" where
  "idle_samples [] = []"
| "idle_samples (line # lines) =
     (let parts = py_split line in
      if 3 \<le> length parts \<and> parts ! 1 = ''all'' then
        (case py_float (last parts) of None \<Rightarrow> [] | Some x \<Rightarrow> [x]) @ idle_samples lines
      else idle_samples lines)"

definition idle_line :: "pyfloat list \<Rightarrow> string" where
  "idle_line idles =
     (if idles = [] then ''no mpstat samples parsed''
      else ''all-core %idle samples: min='' @ fmt_fixed 1 (fl_min idles)
        @ '' avg='' @ fmt_fixed 1 (fl_div_len (fl_sum idles) (length idles))
        @ '' max='' @ fmt_fixed 1 (fl_max idles) @ '' n='' @ str_nat (length idles))"

text \<open>\<^verbatim>\<open>except FileNotFoundError\<close>: any other exception of the read leaves the method.\<close>

definition mp_summarize :: "env \<Rightarrow> MpstatCapture \<Rightarrow> string os" where
  "mp_summarize E mp h =
     (case read_file E (mp_path mp) h of
        (Inl FileNotFoundError, h') \<Rightarrow> (Inr ''no mpstat data'', h')
      | (Inl e, h') \<Rightarrow> (Inl e, h')
      | (Inr contents, h') \<Rightarrow> (Inr (idle_line (idle_samples (readlines contents))), h'))"

section \<open>The sweep\<close>

definition WORKERS_FOR_N :: "nat \<rightharpoonup> string" where
  "WORKERS_FOR_N = [16 \<mapsto> ''1'', 32 \<mapsto> ''1'']"

definition workers_for :: "nat \<Rightarrow> string" where
  "workers_for n = (case WORKERS_FOR_N n of None \<Rightarrow> ''2'' | Some w \<Rightarrow> w)"

definition ext_start_server :: "env \<Rightarrow> nat \<Rightarrow> (nat \<times> nat) os" where
  "ext_start_server E n =
     start_server_at E (''/tmp/nsc_real_store_ext'' @ ''_'' @ str_nat n)
       (''/tmp/nsc_real_server_ext_'' @ str_nat n @ ''.log'')"

definition ext_start_sidecar :: "env \<Rightarrow> nat \<Rightarrow> nat \<Rightarrow> string \<Rightarrow> (nat \<times> nat) os" where
  "ext_start_sidecar E i n workers =
     spawn_logged E (''/tmp/nsc_real_sidecar_ext_'' @ str_nat n @ ''_'' @ str_nat i @ ''.log'')
       [SIDECAR E,
        ''-a'', ''127.0.0.1'', ''-p'', ''4222'',
        ''-i'', INPUT_SUBJECT,
        ''--queue-group'', ''qg-real'',
        ''--attr'', FILTER_FIELD @ '':string'',
        ''--engine'', ''atree'',
        ''--output-prefix'', OUTPUT_PREFIX,
        ''--subscribe-subject'', ''sc.real.ctrl.'' @ str_nat i,
        ''--workers'', workers,
        ''--lease-bucket'', ''sc-real-leases-ext-'' @ str_nat n]"

definition ext_launch :: "env \<Rightarrow> nat \<Rightarrow> nat \<Rightarrow> unit sidecar os" where
  "ext_launch E n i = bind (ext_start_sidecar E i n (workers_for n)) (\<lambda>(sp, sl). ret (sp, sl, ()))"

definition ext_run_ctrl :: "env \<Rightarrow> nat \<Rightarrow> string os" where
  "ext_run_ctrl E i = run_ctrl E (''sc.real.ctrl.'' @ str_nat i)"

type_synonym ext_result = "rat \<times> rat \<times> string \<times> string \<times> string"

text \<open>Up to \<^verbatim>\<open>mp.start()\<close>: the early return, or the started subscriber.\<close>

definition ext_before :: "env \<Rightarrow> nat \<Rightarrow> (ext_result option + nat) os" where
  "ext_before E n =
     andthen (sleep E (if 16 \<le> n then 3 else 25/10))
     (bind (ctrl_all (ext_run_ctrl E)
              (\<lambda>i. ''  N='' @ str_nat n @ '' instance '' @ str_nat i @ '' ctrl FAILED: '')
              [1..<n + 1]) (\<lambda>registered.
      if \<not> registered then ret (Inl None) else
      andthen (sleep E (3/10))
      (bind (popen E [DRIVER E, ''subfield'', OUTPUT_PREFIX @ ''.>'', str_nat EXPECTED, ''120000'',
                      FILTER_FIELD, FILTER_VALUE] None) (\<lambda>sub.
       andthen (sleep E (3/10)) (ret (Inr sub))))))"

text \<open>After \<^verbatim>\<open>mp.start()\<close>.\<close>

definition ext_rest :: "env \<Rightarrow> nat \<Rightarrow> nat \<Rightarrow> unit \<Rightarrow> MpstatCapture \<Rightarrow> ext_result option os" where
  "ext_rest E n sub u mp =
     bind (time_time E) (\<lambda>t0.
     bind (run_cmd E (PSQL @ [pub_sql_plain]) 180) (\<lambda>pub.
     bind (time_time E) (\<lambda>t1.
     if returncode pub \<noteq> 0 then
       andthen (print_err (''  N='' @ str_nat n @ '' publish FAILED: '' @ err pub)) (ret None)
     else
       bind (lift (py_truediv 200000 (t1 - t0))) (\<lambda>pub_rate.
       bind (communicate E sub 130) (\<lambda>sub_out.
       andthen (sleep E (25/10))
       (andthen (mp_stop E mp)
       (bind (mp_summarize E mp) (\<lambda>summary.
         ret (Some (pub_rate, t1 - t0, sub_line_of sub_out, summary, workers_for n)))))))))) "

definition ext_body :: "env \<Rightarrow> nat \<Rightarrow> nat \<Rightarrow> unit sidecar list \<Rightarrow> (MpstatCapture, ext_result option) block" where
  "ext_body E n server sidecars =
     captured (mp_init (''/tmp/nsc_mpstat_'' @ str_nat n @ ''.log''))
       (ext_before E n)
       (mp_start E (mp_init (''/tmp/nsc_mpstat_'' @ str_nat n @ ''.log'')))
       (ext_rest E n)"

text \<open>\<^verbatim>\<open>try: mp.stop() except Exception: pass\<close> in the \<^verbatim>\<open>finally\<close> block.\<close>

definition ext_cleanup :: "env \<Rightarrow> MpstatCapture \<Rightarrow> unit os" where
  "ext_cleanup E mp = try_except (mp_stop E mp) (ret ())"

definition ext_run_n :: "env \<Rightarrow> nat \<Rightarrow> ext_result option os" where
  "ext_run_n E n =
     with_guard E (ext_start_server E n) (ret ()) (ext_launch E n) [1..<n + 1]
       (mp_init (''/tmp/nsc_mpstat_'' @ str_nat n @ ''.log'')) (ext_body E n) (ext_cleanup E)"

type_synonym ext_row =
  "nat \<times> rat \<times> string option \<times> string option \<times> string option \<times> string \<times> string"

fun ext_sweep :: "env \<Rightarrow> nat list \<Rightarrow> ext_row list \<Rightarrow> ext_row list os" where
  "ext_sweep E [] results = ret results"
| "ext_sweep E (n # ns) results =
     andthen (print_out (''=== N='' @ str_nat n @ '' (workers='' @ workers_for n @ '') ===''))
     (bind (ext_run_n E n) (\<lambda>r.
       case r of
         None \<Rightarrow> andthen (print_out (''N='' @ str_nat n @ '' FAILED'')) (ext_sweep E ns results)
       | Some (pub_rate, pub_secs, sub_line, mp_summary, workers) \<Rightarrow>
           andthen (print_out (''  publish: '' @ fmt_rat 0 pub_rate @ '' rows/s (''
                      @ fmt_rat 2 pub_secs @ ''s)''))
           (andthen (print_out (''  '' @ sub_line))
           (andthen (print_out (''  mpstat: '' @ mp_summary))
           (andthen (sleep E 2)
             (ext_sweep E ns
                (results @ [(n, pub_rate, parse sub_line ''total'', parse sub_line ''wrong'',
                             parse sub_line ''rate'', mp_summary, workers)])))))))"

definition ext_summary_row :: "ext_row \<Rightarrow> string" where
  "ext_summary_row row =
     (case row of (n, pr, tot, wrong, rate, mp_summary, workers) \<Rightarrow>
        str_nat n @ '' | '' @ workers @ '' | '' @ fmt_rat 0 pr @ '' | '' @ str_opt tot @ ''/''
          @ str_nat EXPECTED @ '' | '' @ str_opt wrong @ '' | '' @ str_opt rate @ '' | '' @ mp_summary)"

definition ext_main :: "env \<Rightarrow> unit os" where
  "ext_main E =
     bind (ext_sweep E [16, 32] []) (\<lambda>results.
     andthen (print_out (CHR 0x0A # ''=== SUMMARY (N=16/32 extension, real NYSE data, Exchange==N, 200000 rows, expected=21683) ===''))
     (andthen (print_out ''N | workers | publish_rate(rows/s) | total | wrong | filtered_rate(matches/s) | mpstat'')
     (for_each (\<lambda>row. print_out (ext_summary_row row)) results)))"

section \<open>The capture contract of the sweep\<close>

definition mp_own :: "MpstatCapture \<Rightarrow> nat list" where
  "mp_own mp = (case mp_proc mp of None \<Rightarrow> [] | Some p \<Rightarrow> [p])"

lemma mp_init_simps [simp]:
  "mp_path (mp_init path) = path" "mp_proc (mp_init path) = None" "mp_f (mp_init path) = None"
  by (simp_all add: mp_init_def)

lemma keeps_mp_start: "keeps mp_own (mp_start E (mp_init path))"
  by (auto simp: keeps_def mp_start_def mp_own_def open_w_def popen_def trace_simps observer_defs
      split: sum.splits)

lemma extends_mp_summarize [extends_intros]: "extends (mp_summarize E mp)"
  by (auto simp: extends_def mp_summarize_def read_file_def act_def split: sum.splits exc.splits)

lemma silent_mp_summarize: "silent logged_ev (mp_summarize E mp)"
  by (auto simp: silent_def mp_summarize_def read_file_def act_def observe_snoc logged_ev_def
      split: sum.splits exc.splits)

lemma extends_mp_stop [extends_intros]: "extends (mp_stop E mp)"
  unfolding mp_stop_def by (intro extends_intros)

lemma silent_mp_stop: "silent logged_ev (mp_stop E mp)"
  unfolding mp_stop_def by (intro silent_intros)

lemma quiet_ext_before: "quiet (ext_before E n)"
  unfolding ext_before_def ext_run_ctrl_def by (intro quietI extends_intros bystander_intros)

lemma quiet_ext_rest: "quiet (ext_rest E n sub u mp)"
  unfolding quiet_def ext_rest_def
  by (intro conjI extends_intros silent_logged_intros silent_mp_stop silent_mp_summarize)

lemma keeps_ext_body: "keeps mp_own (ext_body E n server scs)"
  unfolding ext_body_def
  by (rule keeps_captured [OF _ quiet_ext_before keeps_mp_start quiet_ext_rest]) (simp add: mp_own_def)

text \<open>The cleanup never raises in a calm environment, and asks \<^verbatim>\<open>mpstat\<close> to terminate if it runs.\<close>

lemma mp_stop_ends:
  assumes "mp_proc mp = Some p"
  shows "p \<in> set (terminated (snd (mp_stop E mp h)))"
  using assms
  by (auto simp: mp_stop_def prog_defs os_call_defs trace_simps observer_defs
      split: sum.splits option.splits prod.splits)

lemma mp_stop_exception:
  assumes "calm E" and "mp_stop E mp h = (Inl e, h')"
  shows "is_Exception e"
  using assms
  by (auto simp: calm_def is_Exception_def mp_stop_def prog_defs os_call_defs
      split: sum.splits option.splits prod.splits if_splits)

lemma ext_cleanup_ends:
  assumes "calm E"
  shows "\<exists>h'. ext_cleanup E mp h = (Inr (), h') \<and> (\<exists>es. h' = h @ es)
    \<and> logged h' = logged h \<and> (\<forall>p \<in> set (mp_own mp). ended E p h')"
proof -
  obtain r h1 where run: "mp_stop E mp h = (r, h1)" by (cases "mp_stop E mp h")
  have "ext_cleanup E mp h = (Inr (), h1)"
    using run mp_stop_exception [OF assms, of mp h]
    by (cases r) (auto simp: ext_cleanup_def try_except_def ret_def)
  moreover obtain es where "h1 = h @ es" using extends_mp_stop run by (rule extendsD)
  moreover have "logged h1 = logged h" using silent_mp_stop run by (rule silentD)
  moreover have "\<forall>p \<in> set (mp_own mp). ended E p h1"
    using mp_stop_ends [of mp _ E h] run by (auto simp: mp_own_def ended_def split: option.splits)
  ultimately show ?thesis by auto
qed

interpretation ext: guarded_fleet E "ext_start_server E n" "ret ()" "ext_launch E n" "ext_body E n"
  "mp_init path" "ext_cleanup E" mp_own calm for E n path
proof unfold_locales
  show "calm E \<Longrightarrow> launches id (ext_start_server E n)"
    unfolding ext_start_server_def by (rule launches_start_server)
  show "launches sidecar_handle (ext_launch E n i)" "extends (ext_launch E n i)" for i
    unfolding ext_launch_def ext_start_sidecar_def by (rule launches_sidecar extends_start_sidecar)+
  show "quiet (ret () :: unit os)" by (intro quietI extends_intros bystander_intros)
qed (simp_all add: keeps_ext_body ext_cleanup_ends, simp add: mp_own_def)

section \<open>Properties of the extended sweep\<close>

lemma ext_rest_result:
  assumes "ext_rest E n sub u mp h = (Inr (Some (rate, secs, line, summary, workers)), h')"
  shows "rate * secs = 200000 \<and> workers = workers_for n
    \<and> (\<exists>h1 h2. mp_summarize E mp h1 = (Inr summary, h2))"
  using assms by (auto simp: ext_rest_def prog_eqs py_truediv_rate split: if_splits)

lemma ext_body_result:
  assumes "ext_body E n server scs h = (Inr (Some (rate, secs, line, summary, workers)), x, h')"
  shows "rate * secs = 200000 \<and> workers = workers_for n"
  using assms unfolding ext_body_def
proof (cases rule: captured_result)
  case early
  then show ?thesis
    by (auto simp: ext_before_def prog_eqs split: if_splits)
next
  case (full s h1 l h2)
  then show ?thesis using ext_rest_result by blast
qed

lemma workers_for_cases: "workers_for n = (if n = 16 \<or> n = 32 then ''1'' else ''2'')"
  by (simp add: workers_for_def WORKERS_FOR_N_def)

text \<open>
  A run of the extended sweep leaves nothing behind, whatever happens in it: every process
  it started with a log file has ended when it returns or raises, also an \<^verbatim>\<open>mpstat\<close> whose
  capture was cut short and also when the capture never started (stopping it then raises and
  the exception is swallowed); the server and the sidecars are terminated in order and their
  logs closed after it. A result is consistent: the rate times the elapsed seconds is the
  200000 rows, and 16 or 32 instances run one worker each, any other number two.
\<close>

theorem ext_run_stops:
  assumes "calm E" and "ext_run_n E n h = (r, h')"
  shows "(\<exists>fleet caps. logged h' = logged h @ fleet @ caps
      \<and> (\<forall>(p, l) \<in> set (fleet @ caps). ended E p h')
      \<and> (\<exists>ts. terminated h' = ts @ rotate1 (map fst fleet))
      \<and> (\<exists>cs. closed_logs h' = cs @ rotate1 (map snd fleet)))
    \<and> (\<forall>rate secs line summary workers. r = Inr (Some (rate, secs, line, summary, workers)) \<longrightarrow>
         rate * secs = 200000 \<and> workers = (if n = 16 \<or> n = 32 then ''1'' else ''2''))"
proof -
  have "rate * secs = 200000 \<and> workers = workers_for n"
    if "r = Inr (Some (rate, secs, line, summary, workers))" for rate secs line summary workers
  proof -
    have "ext_run_n E n h = (Inr (Some (rate, secs, line, summary, workers)), h')" using assms(2) that by simp
    then obtain server scs h1 x h2
      where "ext_body E n server scs h1 = (Inr (Some (rate, secs, line, summary, workers)), x, h2)"
      unfolding ext_run_n_def by (rule with_guard_result)
    then show ?thesis by (rule ext_body_result)
  qed
  then show ?thesis
    using ext.all_ended [OF assms(1) assms(2) [unfolded ext_run_n_def]] by (auto simp: workers_for_cases)
qed

text \<open>One instance, in an environment where \<^verbatim>\<open>mpstat\<close> left no file.\<close>

lemma demo_ext_run:
  "\<exists>secs line h'. ext_run_n (demo_env rep) 1 []
     = (Inr (Some (200000 / secs, secs, line, ''no mpstat data'', ''2'')), h') \<and> secs \<noteq> 0
     \<and> length (logged h') = 3"
  by (simp add: ext_run_n_def ext_start_server_def ext_launch_def ext_start_sidecar_def ext_body_def
      ext_before_def ext_rest_def ext_cleanup_def mp_start_def mp_stop_def mp_summarize_def mp_init_def
      ext_run_ctrl_def with_guard_def guarded_try_def captured_def workers_for_cases demo_simps
      observe_def observer_defs)

theorem ext_run_stops_witness:
  "\<exists>r h'. ext_run_n (demo_env good_report) 1 [] = (r, h') \<and> length (logged h') = 3
     \<and> (\<forall>(p, l) \<in> set (logged h'). ended (demo_env good_report) p h')"
proof -
  obtain r h' where run: "ext_run_n (demo_env good_report) 1 [] = (r, h')" "length (logged h') = 3"
    using demo_ext_run by blast
  from ext_run_stops [OF calm_demo_env run(1)] obtain fleet caps
    where "logged h' = fleet @ caps" "\<forall>(p, l) \<in> set (fleet @ caps). ended (demo_env good_report) p h'"
    by auto
  with run show ?thesis by auto
qed

section \<open>The summary of the samples\<close>

lemma fl_min_Fin: "xs \<noteq> [] \<Longrightarrow> fl_min (map Fin xs) = Fin (Min (set xs))"
proof -
  have "fold (\<lambda>x m. if fl_less x m then x else m) (map Fin ys) (Fin y) = Fin (fold min ys y)" for y ys
    by (induction ys arbitrary: y) (auto simp: min_def)
  then show "xs \<noteq> [] \<Longrightarrow> fl_min (map Fin xs) = Fin (Min (set xs))"
    by (cases xs) (simp_all add: fl_min_def Min.set_eq_fold [symmetric] del: list.set Min_insert)
qed

lemma fl_max_Fin: "xs \<noteq> [] \<Longrightarrow> fl_max (map Fin xs) = Fin (Max (set xs))"
proof -
  have "fold (\<lambda>x m. if fl_less m x then x else m) (map Fin ys) (Fin y) = Fin (fold max ys y)" for y ys
    by (induction ys arbitrary: y) (auto simp: max_def)
  then show "xs \<noteq> [] \<Longrightarrow> fl_max (map Fin xs) = Fin (Max (set xs))"
    by (cases xs) (simp_all add: fl_max_def Max.set_eq_fold [symmetric] del: list.set Max_insert)
qed

lemma mean_bounds:
  fixes xs :: "rat list"
  assumes "xs \<noteq> []"
  shows "Min (set xs) \<le> sum_list xs / of_nat (length xs)" "sum_list xs / of_nat (length xs) \<le> Max (set xs)"
proof -
  have "of_nat (length xs) * Min (set xs) \<le> sum_list xs"
    using sum_list_mono [of xs "\<lambda>_. Min (set xs)" id] by (simp add: sum_list_triv)
  moreover have "sum_list xs \<le> of_nat (length xs) * Max (set xs)"
    using sum_list_mono [of xs id "\<lambda>_. Max (set xs)"] by (simp add: sum_list_triv)
  moreover have "(0::rat) < of_nat (length xs)" using assms by simp
  ultimately show "Min (set xs) \<le> sum_list xs / of_nat (length xs)"
    "sum_list xs / of_nat (length xs) \<le> Max (set xs)"
    by (simp_all add: pos_le_divide_eq pos_divide_le_eq mult.commute)
qed

text \<open>The rows of the report that hold the average over all cores.\<close>

definition all_row :: "string \<Rightarrow> bool" where
  "all_row line \<longleftrightarrow> 3 \<le> length (py_split line) \<and> py_split line ! 1 = ''all''"

lemma idle_samples_rows:
  assumes "\<forall>line \<in> set lines. all_row line \<longrightarrow> py_float (last (py_split line)) = Some (Fin (idle line))"
  shows "idle_samples lines = map (Fin \<circ> idle) (filter all_row lines)"
  using assms by (induction lines) (auto simp: all_row_def Let_def)

text \<open>
  The summary of the samples is right: if the last column of every all-core row is a finite
  number, and there is such a row, the line names the smallest, the mean and the largest of
  these numbers, with the mean between the two others, and counts exactly the all-core rows.
\<close>

theorem mpstat_summary_bounds:
  assumes "read_ans E h (mp_path mp) = Inr contents"
    and "\<forall>line \<in> set (readlines contents). all_row line \<longrightarrow>
           py_float (last (py_split line)) = Some (Fin (idle line))"
    and "\<exists>line \<in> set (readlines contents). all_row line"
  shows "\<exists>lo avg hi. fst (mp_summarize E mp h) = Inr (''all-core %idle samples: min='' @ fmt_rat 1 lo
        @ '' avg='' @ fmt_rat 1 avg @ '' max='' @ fmt_rat 1 hi
        @ '' n='' @ str_nat (length (filter all_row (readlines contents))))
    \<and> lo \<le> avg \<and> avg \<le> hi
    \<and> (\<forall>line \<in> set (readlines contents). all_row line \<longrightarrow> lo \<le> idle line \<and> idle line \<le> hi)
    \<and> avg * of_nat (length (filter all_row (readlines contents)))
        = sum_list (map idle (filter all_row (readlines contents)))"
proof -
  define rows where "rows = filter all_row (readlines contents)"
  define xs where "xs = map idle rows"
  have ne: "xs \<noteq> []" using assms(3) by (auto simp: xs_def rows_def filter_empty_conv)
  then have len: "length rows \<noteq> 0" by (simp add: xs_def)
  have samples: "idle_samples (readlines contents) = map Fin xs"
    using idle_samples_rows [OF assms(2)] by (simp add: xs_def rows_def)
  have "fst (mp_summarize E mp h) = Inr (idle_line (map Fin xs))"
    using assms(1) samples by (simp add: mp_summarize_def read_file_def act_def)
  moreover have "idle_line (map Fin xs) = ''all-core %idle samples: min='' @ fmt_rat 1 (Min (set xs))
      @ '' avg='' @ fmt_rat 1 (sum_list xs / of_nat (length xs)) @ '' max='' @ fmt_rat 1 (Max (set xs))
      @ '' n='' @ str_nat (length rows)"
    using ne by (simp add: idle_line_def fl_min_Fin fl_max_Fin fl_sum_Fin) (simp add: xs_def)
  moreover have "Min (set xs) \<le> idle line \<and> idle line \<le> Max (set xs)"
    if "line \<in> set (readlines contents)" "all_row line" for line
    using that by (auto simp: xs_def rows_def)
  moreover have "sum_list xs / of_nat (length xs) * of_nat (length rows) = sum_list (map idle rows)"
    using len by (simp add: xs_def)
  ultimately show ?thesis
    using mean_bounds [OF ne] unfolding rows_def
    by (intro exI [of _ "Min (set xs)"] exI [of _ "sum_list xs / of_nat (length xs)"] exI [of _ "Max (set xs)"])
      simp
qed

definition demo_mpstat :: string where
  "demo_mpstat = ''1 CPU idle'' @ [CHR 0x0A] @ ''2 all 29.5'' @ [CHR 0x0A]
     @ ''3 all 40'' @ [CHR 0x0A]"

theorem mpstat_summary_bounds_witness:
  "\<exists>lo avg hi. fst (mp_summarize ((demo_env [])\<lparr>read_ans := \<lambda>_ _. Inr demo_mpstat\<rparr>) (mp_init ''/tmp/m'') [])
      = Inr (''all-core %idle samples: min='' @ fmt_rat 1 lo @ '' avg='' @ fmt_rat 1 avg @ '' max=''
          @ fmt_rat 1 hi @ '' n='' @ str_nat 2)
    \<and> lo \<le> avg \<and> avg \<le> hi \<and> avg * 2 = 69.5"
proof -
  let ?E = "(demo_env [])\<lparr>read_ans := \<lambda>_ _. Inr demo_mpstat\<rparr>"
  let ?l1 = "''2 all 29.5'' @ [CHR 0x0A]" and ?l2 = "''3 all 40'' @ [CHR 0x0A]"
  let ?idle = "\<lambda>line. if line = ?l1 then 29.5 else (40 :: rat)"
  have lines: "readlines demo_mpstat = [''1 CPU idle'' @ [CHR 0x0A], ?l1, ?l2]"
    by (simp add: demo_mpstat_def)
  have rows: "filter all_row (readlines demo_mpstat) = [?l1, ?l2]"
    by (simp add: lines all_row_def py_isspace_def)
  have idle: "\<forall>line \<in> set (readlines demo_mpstat). all_row line \<longrightarrow>
      py_float (last (py_split line)) = Some (Fin (?idle line))"
    by (simp add: lines all_row_def py_isspace_def py_float_def parse_unsigned_def parse_mantissa_def py_strip_def strip_with_def lower_char_def digits_or_empty_def digit_val_def Let_def)
  have "\<exists>line \<in> set (readlines demo_mpstat). all_row line"
    by (simp add: lines all_row_def py_isspace_def)
  from mpstat_summary_bounds [OF _ idle this, of ?E "[]" "mp_init ''/tmp/m''"] obtain lo avg hi
    where "fst (mp_summarize ?E (mp_init ''/tmp/m'') []) = Inr (''all-core %idle samples: min='' @ fmt_rat 1 lo
          @ '' avg='' @ fmt_rat 1 avg @ '' max='' @ fmt_rat 1 hi @ '' n='' @ str_nat (length [?l1, ?l2]))"
      "lo \<le> avg" "avg \<le> hi" "avg * of_nat (length [?l1, ?l2]) = sum_list (map ?idle [?l1, ?l2])"
    unfolding rows by auto
  moreover have "length [?l1, ?l2] = 2" "sum_list (map ?idle [?l1, ?l2]) = 69.5" by simp_all
  ultimately show ?thesis by (intro exI [of _ lo] exI [of _ avg] exI [of _ hi]) (simp only: of_nat_numeral simp_thms)
qed

end
