(* ===== verification/Perf_Profile.thy ===== *)
theory Perf_Profile
  imports Capture_Harness
begin

text \<open>
  \<^verbatim>\<open>bench/nats_sidecar_perf_profile.py\<close>: a run of 16 instances in each of three modes, with
  \<^verbatim>\<open>perf record\<close> attached to the server from just before the publish statement until the
  subscriber has reported.
\<close>

section \<open>Settings and launches\<close>

definition perf_INPUT_STREAM :: string where "perf_INPUT_STREAM = ''SC_PERF_INPUT''"
definition perf_DURABLE_NAME :: string where "perf_DURABLE_NAME = ''sc-perf-durable''"
definition perf_DELIVER_SUBJECT :: string where "perf_DELIVER_SUBJECT = ''sc.perf.deliver''"
definition perf_DELIVER_GROUP :: string where "perf_DELIVER_GROUP = ''sc-perf-group''"

definition perf_N :: nat where "perf_N = 16"

definition perf_start_server :: "env \<Rightarrow> string \<Rightarrow> (nat \<times> nat) os" where
  "perf_start_server E tag =
     start_server_at E (''/tmp/nsc_perf_store_'' @ tag) (''/tmp/nsc_perf_server_'' @ tag @ ''.log'')"

definition perf_start_sidecar_plain :: "env \<Rightarrow> nat \<Rightarrow> string \<Rightarrow> (nat \<times> nat) os" where
  "perf_start_sidecar_plain E i tag =
     spawn_logged E (''/tmp/nsc_perf_sidecar_'' @ tag @ ''_'' @ str_nat i @ ''.log'')
       [SIDECAR E, ''-a'', ''127.0.0.1'', ''-p'', ''4222'',
        ''-i'', INPUT_SUBJECT, ''--queue-group'', ''qg-perf'',
        ''--attr'', FILTER_FIELD @ '':string'', ''--engine'', ''atree'',
        ''--output-prefix'', OUTPUT_PREFIX,
        ''--subscribe-subject'', ''sc.perf.plain.ctrl.'' @ str_nat i,
        ''--workers'', ''2'', ''--lease-bucket'', ''sc-perf-plain-leases-'' @ tag]"

definition perf_start_sidecar_js :: "env \<Rightarrow> nat \<Rightarrow> string \<Rightarrow> string \<Rightarrow> (nat \<times> nat) os" where
  "perf_start_sidecar_js E i tag storage =
     spawn_logged E (''/tmp/nsc_perf_sidecar_'' @ tag @ ''_'' @ str_nat i @ ''.log'')
       [SIDECAR E, ''-a'', ''127.0.0.1'', ''-p'', ''4222'',
        ''-i'', INPUT_SUBJECT,
        ''--input-stream'', perf_INPUT_STREAM,
        ''--input-stream-storage'', storage,
        ''--consumer-durable-name'', perf_DURABLE_NAME,
        ''--consumer-deliver-subject'', perf_DELIVER_SUBJECT,
        ''--consumer-deliver-group'', perf_DELIVER_GROUP,
        ''--consumer-max-ack-pending'', ''2000'',
        ''--consumer-ack-wait'', ''30'',
        ''--attr'', FILTER_FIELD @ '':string'', ''--engine'', ''atree'',
        ''--output-prefix'', OUTPUT_PREFIX,
        ''--subscribe-subject'', ''sc.perf.js.ctrl.'' @ tag @ ''.'' @ str_nat i,
        ''--workers'', ''2'', ''--lease-bucket'', ''sc-perf-js-leases-'' @ tag]"

definition perf_launch :: "env \<Rightarrow> string \<Rightarrow> string \<Rightarrow> nat \<Rightarrow> string sidecar os" where
  "perf_launch E mode tag i =
     (if mode = ''plain'' then
        bind (perf_start_sidecar_plain E i tag)
          (\<lambda>(sp, sl). ret (sp, sl, ''sc.perf.plain.ctrl.'' @ str_nat i))
      else
        bind (perf_start_sidecar_js E i tag (if mode = ''js-file'' then ''file'' else ''memory''))
          (\<lambda>(sp, sl). ret (sp, sl, ''sc.perf.js.ctrl.'' @ tag @ ''.'' @ str_nat i)))"

section \<open>A profiled run\<close>

record perf_result =
  perf_rate :: pyfloat
  perf_total :: "string option"
  perf_wrong :: "string option"
  perf_ok :: bool

definition perf_before :: "env \<Rightarrow> string \<Rightarrow> string sidecar list \<Rightarrow> (perf_result option + nat) os" where
  "perf_before E mode sidecars =
     andthen (sleep E (15/10 + 2/10 * of_nat perf_N))
     (bind (poll_all E (\<lambda>_. ''  ['' @ mode @ ''] instance exited early'') sidecars) (\<lambda>alive.
      if \<not> alive then ret (Inl None) else
      bind (ctrl_all (run_ctrl E) (\<lambda>_. ''  ['' @ mode @ ''] ctrl FAILED: '')
              (map (snd \<circ> snd) sidecars)) (\<lambda>registered.
      if \<not> registered then ret (Inl None) else
      andthen (sleep E (3/10))
      (bind (popen_subfield E) (\<lambda>sub.
       andthen (sleep E (3/10)) (ret (Inr sub)))))))"

text \<open>\<^verbatim>\<open>perf_proc\<close> is assigned once \<^verbatim>\<open>perf record\<close> runs; the block tells it as it ends.\<close>

definition perf_start ::
  "env \<Rightarrow> string \<Rightarrow> string \<Rightarrow> nat \<Rightarrow> (nat option, nat \<times> nat) block" where
  "perf_start E mode perf_out server h =
     (case open_w E (''/tmp/nsc_perf_'' @ mode @ ''.log'') h of
        (Inl e, h1) \<Rightarrow> (Inl e, None, h1)
      | (Inr perf_log, h1) \<Rightarrow>
          (case popen E [''perf'', ''record'', ''-p'', str_nat (pid_of E server), ''-g'', ''--call-graph'', ''fp'',
                         ''-o'', perf_out, ''--''] (Some perf_log) h1 of
             (Inl e, h2) \<Rightarrow> (Inl e, None, h2)
           | (Inr p, h2) \<Rightarrow> (Inr (perf_log, p), Some p, h2)))"

text \<open>\<^verbatim>\<open>send_signal(2)\<close>, and a termination if \<^verbatim>\<open>perf\<close> does not end within ten seconds.\<close>

definition stop_perf :: "env \<Rightarrow> nat \<Rightarrow> nat \<Rightarrow> unit os" where
  "stop_perf E perf_proc perf_log =
     andthen (send_signal E perf_proc 2)
     (andthen (try_except (wait E perf_proc 10)
        (andthen (terminate E perf_proc) (wait E perf_proc 5)))
     (close_file E perf_log))"

definition perf_e2e_rate :: "rat \<Rightarrow> pyfloat" where
  "perf_e2e_rate e2e_secs = (if 0 < e2e_secs then Fin (200000 / e2e_secs) else NaN)"

definition perf_rest :: "env \<Rightarrow> string \<Rightarrow> nat \<Rightarrow> nat \<times> nat \<Rightarrow> nat option \<Rightarrow> perf_result option os" where
  "perf_rest E mode sub l x =
     (case l of (perf_log, perf_proc) \<Rightarrow>
     andthen (sleep E (3/10))
     (bind (time_time E) (\<lambda>t_start.
      bind (run_cmd E (PSQL @ [if mode = ''plain'' then pub_sql_plain else pub_sql_stream]) 120) (\<lambda>pub.
      if returncode pub \<noteq> 0 then
        andthen (print_err (''  ['' @ mode @ ''] publish FAILED: '' @ err pub)) (ret None)
      else
        bind (communicate E sub 100) (\<lambda>sub_out.
        bind (time_time E) (\<lambda>t_e2e_done.
        andthen (stop_perf E perf_proc perf_log)
        (let rate = perf_e2e_rate (t_e2e_done - t_start);
             totals = scan_totals (sub_line_of sub_out);
             good = (fst totals = Some (str_nat EXPECTED) \<and> snd totals = Some ''0'') in
         andthen (print_out (''  ['' @ mode @ ''] e2e_rate='' @ fmt_fixed 0 rate @ ''/s total=''
            @ str_opt (fst totals) @ '' wrong='' @ str_opt (snd totals) @ '' ok='' @ py_bool_str good))
         (ret (Some \<lparr>perf_rate = rate, perf_total = fst totals, perf_wrong = snd totals, perf_ok = good\<rparr>)))))))))"

definition perf_body ::
  "env \<Rightarrow> string \<Rightarrow> string \<Rightarrow> nat \<Rightarrow> string sidecar list \<Rightarrow> (nat option, perf_result option) block" where
  "perf_body E mode perf_out server sidecars =
     captured None (perf_before E mode sidecars) (perf_start E mode perf_out server) (perf_rest E mode)"

text \<open>\<^verbatim>\<open>if perf_proc is not None and perf_proc.poll() is None: perf_proc.terminate()\<close>\<close>

definition perf_cleanup :: "env \<Rightarrow> nat option \<Rightarrow> unit os" where
  "perf_cleanup E x =
     (case x of
        None \<Rightarrow> ret ()
      | Some p \<Rightarrow> bind (poll E p) (\<lambda>rc. if rc = None then terminate E p else ret ()))"

definition run_profiled :: "env \<Rightarrow> string \<Rightarrow> string \<Rightarrow> string \<Rightarrow> perf_result option os" where
  "run_profiled E mode tag perf_out =
     with_guard E (perf_start_server E tag) (ret ()) (perf_launch E mode tag) [1..<perf_N + 1] None
       (perf_body E mode perf_out) (perf_cleanup E)"

definition perf_result_text :: "env \<Rightarrow> perf_result option \<Rightarrow> string" where
  "perf_result_text E res =
     (case res of
        None \<Rightarrow> ''None''
      | Some d \<Rightarrow> dict_repr
          [(''e2e_rate'', pyfloat_repr (float_repr E) (perf_rate d)), (''total'', repr_opt (perf_total d)),
           (''wrong'', repr_opt (perf_wrong d)), (''ok'', py_bool_str (perf_ok d))])"

definition perf_mode :: "env \<Rightarrow> string \<times> string \<Rightarrow> unit os" where
  "perf_mode E mp =
     (case mp of (mode, perf_out) \<Rightarrow>
      andthen (print_out (''=== profiling mode='' @ mode @ '' N='' @ str_nat perf_N @ '' ===''))
      (bind (run_profiled E mode mode perf_out) (\<lambda>res.
       if (case res of None \<Rightarrow> True | Some d \<Rightarrow> \<not> perf_ok d) then
         print_err (''  ['' @ mode @ ''] FAILED/incorrect: '' @ perf_result_text E res)
       else ret ())))"

definition perf_main :: "env \<Rightarrow> unit os" where
  "perf_main E = for_each (perf_mode E)
     [(''plain'', ''/tmp/perf_plain.data''), (''js-file'', ''/tmp/perf_jsfile.data''),
      (''js-memory'', ''/tmp/perf_jsmemory.data'')]"

section \<open>The capture contract of a profiled run\<close>

text \<open>The cleanup does not catch anything: a termination that raises would skip the teardown.\<close>

definition perf_tame :: "env \<Rightarrow> bool" where
  "perf_tame E \<longleftrightarrow> calm E \<and> (\<forall>h p. terminate_ans E h p = Inr ())"

definition perf_own :: "nat option \<Rightarrow> nat list" where
  "perf_own x = (case x of None \<Rightarrow> [] | Some p \<Rightarrow> [p])"

lemma keeps_perf_start: "keeps perf_own (perf_start E mode perf_out server)"
  by (auto simp: keeps_def perf_start_def perf_own_def open_w_def popen_def trace_simps observer_defs
      split: sum.splits)

lemma quiet_perf_before: "quiet (perf_before E mode scs)"
  unfolding perf_before_def by (intro quietI extends_intros bystander_intros)

lemma quiet_perf_rest: "quiet (perf_rest E mode sub l x)"
  unfolding quiet_def perf_rest_def stop_perf_def
  by (intro conjI extends_intros silent_logged_intros)

lemma keeps_perf_body: "keeps perf_own (perf_body E mode perf_out server scs)"
  unfolding perf_body_def
  by (rule keeps_captured [OF _ quiet_perf_before keeps_perf_start quiet_perf_rest]) (simp add: perf_own_def)

lemma perf_cleanup_ends:
  assumes "perf_tame E"
  shows "\<exists>h'. perf_cleanup E x h = (Inr (), h') \<and> (\<exists>es. h' = h @ es)
    \<and> logged h' = logged h \<and> (\<forall>p \<in> set (perf_own x). ended E p h')"
proof (cases x)
  case (Some p)
  show ?thesis
  proof (cases "poll_ans E h p")
    case None
    with assms Some show ?thesis
      by (simp add: perf_cleanup_def perf_own_def perf_tame_def poll_def terminate_def prog_defs ended_def
          trace_simps observer_defs)
  next
    case (Some rc)
    with \<open>x = Some p\<close> show ?thesis using found_finished_poll [of E h p]
      by (simp add: perf_cleanup_def perf_own_def poll_def prog_defs ended_def trace_simps observer_defs)
  qed
qed (simp add: perf_cleanup_def perf_own_def ret_def)

interpretation perf: guarded_fleet E "perf_start_server E tag" "ret ()" "perf_launch E mode tag"
  "perf_body E mode perf_out" None "perf_cleanup E" perf_own perf_tame for E tag mode perf_out
proof unfold_locales
  show "calm E \<Longrightarrow> launches id (perf_start_server E tag)"
    unfolding perf_start_server_def by (rule launches_start_server)
  show "launches sidecar_handle (perf_launch E mode tag i)" "extends (perf_launch E mode tag i)" for i
    unfolding perf_launch_def perf_start_sidecar_plain_def perf_start_sidecar_js_def
    by (simp_all add: launches_sidecar extends_start_sidecar)
  show "quiet (ret () :: unit os)" by (intro quietI extends_intros bystander_intros)
qed (simp_all add: keeps_perf_body perf_cleanup_ends perf_tame_def, simp add: perf_own_def)

section \<open>Properties of a profiled run\<close>

lemma stop_perf_result:
  assumes "stop_perf E p perf_log h = (Inr (), h')"
  shows "SendSignal p 2 \<in> set h' \<and> perf_log \<in> set (closed_logs h')"
proof -
  from assms obtain h1 h2 where "send_signal E p 2 h = (Inr (), h1)"
    and wait: "try_except (wait E p 10) (andthen (terminate E p) (wait E p 5)) h1 = (Inr (), h2)"
    and "close_file E perf_log h2 = (Inr (), h')"
    by (auto simp: stop_perf_def prog_eqs)
  moreover have "extends (try_except (wait E p 10) (andthen (terminate E p) (wait E p 5)))"
    by (intro extends_intros)
  then obtain es where "h2 = h1 @ es" using wait by (rule extendsD)
  ultimately show ?thesis by (auto simp: os_call_defs trace_simps observe_from_append observer_defs)
qed

lemma perf_rest_result:
  assumes "perf_rest E mode sub (perf_log, p) x h = (Inr (Some d), h')"
  shows "(perf_ok d \<longleftrightarrow> perf_total d = Some (str_nat EXPECTED) \<and> perf_wrong d = Some ''0'')
    \<and> SendSignal p 2 \<in> set h' \<and> perf_log \<in> set (closed_logs h')"
proof -
  from assms obtain h1 h2 totals s
    where stop: "stop_perf E p perf_log h1 = (Inr (), h2)" and h': "h' = h2 @ [Stdout s]"
      and "perf_total d = fst totals" "perf_wrong d = snd totals"
        "perf_ok d \<longleftrightarrow> fst totals = Some (str_nat EXPECTED) \<and> snd totals = Some ''0''"
    by (auto simp: perf_rest_def prog_eqs Let_def print_out_def split: if_splits)
  with stop_perf_result [OF stop] show ?thesis by (simp add: observe_append)
qed

lemma perf_body_result:
  assumes "perf_body E mode perf_out server scs h = (Inr (Some d), x, h')"
  shows "(perf_ok d \<longleftrightarrow> perf_total d = Some (str_nat EXPECTED) \<and> perf_wrong d = Some ''0'')
    \<and> (\<exists>(p, l) \<in> set (logged h'). SendSignal p 2 \<in> set h' \<and> l \<in> set (closed_logs h'))"
  using assms unfolding perf_body_def
proof (cases rule: captured_result)
  case early
  then show ?thesis by (auto simp: perf_before_def prog_eqs split: if_splits)
next
  case (full sub h1 l h2)
  obtain perf_log p where l: "l = (perf_log, p)" by (cases l)
  with full(2) have "(p, perf_log) \<in> set (logged h2)"
    by (auto simp: perf_start_def open_w_def popen_def trace_simps observer_defs split: sum.splits)
  moreover obtain es where "h' = h2 @ es" "logged h' = logged h2"
    using quiet_perf_rest full(3) by (rule quietD)
  ultimately show ?thesis using perf_rest_result [OF full(3) [unfolded l]] by auto
qed

text \<open>
  A profiled run ends all it started, provided that terminating a process does not raise:
  \<^verbatim>\<open>perf\<close> is found finished by the poll in the \<^verbatim>\<open>finally\<close> block or terminated there, and the
  server and its sidecars are terminated in order and their logs closed. A run that returns a
  result has interrupted \<^verbatim>\<open>perf\<close> with signal 2 and closed its log, and is marked correct
  exactly if the report has the expected total and no wrong message.
\<close>

theorem perf_run_stops:
  assumes "perf_tame E" and "run_profiled E mode tag perf_out h = (r, h')"
  shows "(\<exists>fleet caps. logged h' = logged h @ fleet @ caps
      \<and> (\<forall>(p, l) \<in> set (fleet @ caps). ended E p h')
      \<and> (\<exists>ts. terminated h' = ts @ rotate1 (map fst fleet))
      \<and> (\<exists>cs. closed_logs h' = cs @ rotate1 (map snd fleet)))
    \<and> (\<forall>d. r = Inr (Some d) \<longrightarrow>
         (perf_ok d \<longleftrightarrow> perf_total d = Some (str_nat EXPECTED) \<and> perf_wrong d = Some ''0'')
         \<and> (\<exists>(p, l) \<in> set (logged h'). SendSignal p 2 \<in> set h' \<and> l \<in> set (closed_logs h')))"
proof -
  have "(perf_ok d \<longleftrightarrow> perf_total d = Some (str_nat EXPECTED) \<and> perf_wrong d = Some ''0'')
      \<and> (\<exists>(p, l) \<in> set (logged h'). SendSignal p 2 \<in> set h' \<and> l \<in> set (closed_logs h'))"
    if "r = Inr (Some d)" for d
  proof -
    have ext: "extends (perf_cleanup E x)" for x
      unfolding perf_cleanup_def by (intro extends_intros)
    have "run_profiled E mode tag perf_out h = (Inr (Some d), h')" using assms(2) that by simp
    then obtain server scs h1 x h2 es
      where body: "perf_body E mode perf_out server scs h1 = (Inr (Some d), x, h2)" and "h' = h2 @ es"
      unfolding run_profiled_def using ext by (rule with_guard_extends)
    with perf_body_result [OF body] show ?thesis by (auto simp: observe_append)
  qed
  then show ?thesis
    using perf.all_ended [OF assms(1) assms(2) [unfolded run_profiled_def]] by blast
qed

lemma perf_tame_demo: "perf_tame (demo_env rep)"
  by (simp add: perf_tame_def calm_demo_env) (simp add: demo_env_def)

theorem perf_run_stops_witness:
  "\<exists>r h'. run_profiled (demo_env good_report) ''plain'' ''plain'' ''/tmp/perf_plain.data'' [] = (r, h')
     \<and> (\<forall>(p, l) \<in> set (logged h'). ended (demo_env good_report) p h')"
proof -
  obtain r h' where run: "run_profiled (demo_env good_report) ''plain'' ''plain'' ''/tmp/perf_plain.data'' [] = (r, h')"
    by (metis prod.exhaust)
  from perf_run_stops [OF perf_tame_demo run] run show ?thesis by auto
qed

text \<open>
  When the publish statement fails, the early return closes nothing: the log of \<^verbatim>\<open>perf\<close> is
  closed neither here nor by the \<^verbatim>\<open>finally\<close> block, which does not know it.
\<close>

theorem perf_log_left_open:
  assumes "perf_rest E mode sub (perf_log, p) x h = (Inr None, h')"
  shows "closed_logs h' = closed_logs h"
    and "closed_logs (snd (perf_cleanup E' y h')) = closed_logs h"
proof -
  from assms show same: "closed_logs h' = closed_logs h"
    by (auto simp: perf_rest_def prog_eqs Let_def os_call_defs trace_simps observer_defs split: if_splits)
  have "silent closed_ev (perf_cleanup E' y)"
    unfolding perf_cleanup_def
    by (intro silent_intros) (simp_all add: os_call_defs silent_act observer_defs)
  with same show "closed_logs (snd (perf_cleanup E' y h')) = closed_logs h" by (simp add: silent_def)
qed

end
