(* ===== verification/Mutex_Profile.thy ===== *)
theory Mutex_Profile
  imports Capture_Harness
begin

text \<open>
  \<^verbatim>\<open>bench/nats_sidecar_mutex_contention_profile.py\<close>: one JetStream run of 16 instances against a
  server started from a configuration file with the block profiler on, with the server's block
  profile fetched over HTTP before the launches and after the run. The exit status tells
  whether the run was correct.
\<close>

section \<open>Settings and launches\<close>

definition mx_INPUT_STREAM :: string where "mx_INPUT_STREAM = ''SC_MUTEXPROF_INPUT''"
definition mx_DURABLE_NAME :: string where "mx_DURABLE_NAME = ''sc-mutexprof-durable''"
definition mx_DELIVER_SUBJECT :: string where "mx_DELIVER_SUBJECT = ''sc.mutexprof.deliver''"
definition mx_DELIVER_GROUP :: string where "mx_DELIVER_GROUP = ''sc-mutexprof-group''"
definition PROF_PORT :: nat where "PROF_PORT = 6061"
definition mx_N :: nat where "mx_N = 16"

definition mx_conf :: "string \<Rightarrow> string" where
  "mx_conf store =
     ''port: 4222'' @ [CHR 0x0A] @ ''jetstream { store_dir: '' @ [CHR 0x22] @ store @ [CHR 0x22] @ '' }'' @ [CHR 0x0A]
       @ ''prof_port: '' @ str_nat PROF_PORT @ [CHR 0x0A] @ ''prof_block_rate: 1'' @ [CHR 0x0A]"

definition mx_start_server :: "env \<Rightarrow> (nat \<times> nat) os" where
  "mx_start_server E =
     (let store = ''/tmp/nsc_mutexprof_store''; conf_path = ''/tmp/nsc_mutexprof_server.conf'' in
      bind (os_path_exists E store) (\<lambda>found.
      andthen (if found then rmtree E store else ret ())
      (andthen (makedirs E store)
      (andthen (write_file E conf_path (mx_conf store))
      (bind (spawn_logged E ''/tmp/nsc_mutexprof_server.log'' [NATS_SERVER E, ''-c'', conf_path])
         (\<lambda>pl. andthen (sleep E (12/10)) (ret pl)))))))"

definition mx_start_sidecar :: "env \<Rightarrow> nat \<Rightarrow> (nat \<times> nat) os" where
  "mx_start_sidecar E i =
     spawn_logged E (''/tmp/nsc_mutexprof_sidecar_'' @ str_nat i @ ''.log'')
       [SIDECAR E, ''-a'', ''127.0.0.1'', ''-p'', ''4222'', ''-i'', INPUT_SUBJECT,
        ''--input-stream'', mx_INPUT_STREAM, ''--input-stream-storage'', ''file'',
        ''--consumer-durable-name'', mx_DURABLE_NAME,
        ''--consumer-deliver-subject'', mx_DELIVER_SUBJECT,
        ''--consumer-deliver-group'', mx_DELIVER_GROUP,
        ''--consumer-max-ack-pending'', ''2000'', ''--consumer-ack-wait'', ''30'',
        ''--attr'', FILTER_FIELD @ '':string'', ''--engine'', ''atree'',
        ''--output-prefix'', OUTPUT_PREFIX,
        ''--subscribe-subject'', ''sc.mutexprof.ctrl.'' @ str_nat i,
        ''--workers'', ''2'', ''--lease-bucket'', ''sc-mutexprof-leases-'' @ str_nat i]"

definition mx_launch :: "env \<Rightarrow> nat \<Rightarrow> unit sidecar os" where
  "mx_launch E i = bind (mx_start_sidecar E i) (\<lambda>(sp, sl). ret (sp, sl, ()))"

section \<open>The profiled run\<close>

definition block_url :: string where
  "block_url = ''http://localhost:'' @ str_nat PROF_PORT @ ''/debug/pprof/block?debug=1''"

definition fetch_block_profile :: "env \<Rightarrow> string \<Rightarrow> string os" where
  "fetch_block_profile E out_path =
     bind (urlopen E block_url) (\<lambda>data. andthen (write_file E out_path data) (ret data))"

definition mx_baseline :: "env \<Rightarrow> unit os" where
  "mx_baseline E = andthen (fetch_block_profile E ''/tmp/nsc_mutexprof_baseline.txt'') (ret ())"

definition mx_measure :: "env \<Rightarrow> nat os" where
  "mx_measure E =
     bind (popen_subfield E) (\<lambda>sub.
     andthen (sleep E (3/10))
     (bind (time_time E) (\<lambda>t0.
      bind (run_cmd E (PSQL @ [pub_sql_stream]) 120) (\<lambda>pub.
      bind (time_time E) (\<lambda>t1.
      if returncode pub \<noteq> 0 then
        andthen (print_err (''publish FAILED: '' @ err pub)) (ret 1)
      else
        bind (communicate E sub 100) (\<lambda>sub_out.
        bind (time_time E) (\<lambda>t2.
        andthen (fetch_block_profile E ''/tmp/nsc_mutexprof_after_run.txt'')
        (let totals = scan_totals (sub_line_of sub_out);
             good = (fst totals = Some (str_nat EXPECTED) \<and> snd totals = Some ''0'') in
         andthen (print_out (''pub_secs='' @ fmt_rat 2 (t1 - t0) @ '' e2e_secs='' @ fmt_rat 2 (t2 - t0)
            @ '' total='' @ str_opt (fst totals) @ '' wrong='' @ str_opt (snd totals)
            @ '' ok='' @ py_bool_str good))
         (ret (if good then 0 else 1)))))))))) "

definition mx_body :: "env \<Rightarrow> nat \<Rightarrow> unit sidecar list \<Rightarrow> nat os" where
  "mx_body E server sidecars =
     andthen (sleep E (15/10 + 2/10 * of_nat mx_N))
     (bind (poll_all E (\<lambda>_. ''N='' @ str_nat mx_N @ '' instance exited early'') sidecars) (\<lambda>alive.
      if \<not> alive then ret 1 else
      bind (ctrl_all (\<lambda>i. run_ctrl E (''sc.mutexprof.ctrl.'' @ str_nat i))
              (\<lambda>_. ''N='' @ str_nat mx_N @ '' ctrl FAILED: '') [1..<mx_N + 1]) (\<lambda>registered.
      if \<not> registered then ret 1 else
      andthen (sleep E (3/10)) (mx_measure E))))"

text \<open>
  The \<^verbatim>\<open>finally\<close> block reads no other variable than the sidecars. The result is the exit
  status of the script.
\<close>

definition mx_block :: "env \<Rightarrow> nat \<Rightarrow> unit sidecar list \<Rightarrow> (unit, nat) block" where
  "mx_block E server sidecars h = (case mx_body E server sidecars h of (r, h') \<Rightarrow> (r, (), h'))"

definition mx_main :: "env \<Rightarrow> nat os" where
  "mx_main E =
     with_guard E (mx_start_server E) (mx_baseline E) (mx_launch E) [1..<mx_N + 1] () (mx_block E) ret"

section \<open>The capture contract\<close>

lemma mx_fetch_intros:
  "bystander (fetch_block_profile E s)" "extends (fetch_block_profile E s)"
  unfolding fetch_block_profile_def by (intro bystander_intros extends_intros)+

lemma quiet_mx_body: "quiet (mx_body E server scs)"
  unfolding mx_body_def mx_measure_def
  by (intro quietI extends_intros bystander_intros mx_fetch_intros)

lemma launches_mx_server: "calm E \<Longrightarrow> launches id (mx_start_server E)"
  unfolding mx_start_server_def Let_def
  by (rule launches_server_spawn bystander_intros launches_andthen launches_bind | assumption)+

interpretation mx: guarded_fleet E "mx_start_server E" "mx_baseline E" "mx_launch E" "mx_block E"
  "()" ret "\<lambda>_. []" calm for E
proof unfold_locales
  show "calm E \<Longrightarrow> launches id (mx_start_server E)" by (rule launches_mx_server)
  show "launches sidecar_handle (mx_launch E i)" "extends (mx_launch E i)" for i
    unfolding mx_launch_def mx_start_sidecar_def by (rule launches_sidecar extends_start_sidecar)+
  show "quiet (mx_baseline E)"
    unfolding mx_baseline_def by (intro quietI extends_intros bystander_intros mx_fetch_intros)
  show "keeps (\<lambda>_. []) (mx_block E server scs)" for server scs
    by (auto simp: keeps_def mx_block_def split: prod.splits elim: quietD [OF quiet_mx_body])
qed (simp_all add: ret_def)

section \<open>The exit status\<close>

text \<open>
  A finished measurement in a history: the subscriber's output was collected, and the block
  profile fetched and written right after it; the output has the expected counters.
\<close>

definition mx_finished :: "env \<Rightarrow> hist \<Rightarrow> bool" where
  "mx_finished E h' \<longleftrightarrow> (\<exists>h1 p sub_out data.
     communicate_ans E h1 p = Inr sub_out
     \<and> scan_totals (sub_line_of sub_out) = (Some (str_nat EXPECTED), Some ''0'')
     \<and> url_ans E (h1 @ [Communicate p 100, ClockRead]) block_url = Inr data
     \<and> prefix (h1 @ [Communicate p 100, ClockRead, UrlOpen block_url,
                 WriteFile ''/tmp/nsc_mutexprof_after_run.txt'' data]) h')"

lemma mx_finished_append: "mx_finished E h \<Longrightarrow> mx_finished E (h @ es)"
  unfolding mx_finished_def by (blast intro: prefix_prefix)

lemma mx_measure_result:
  assumes "mx_measure E h = (Inr status, h')"
  shows "status = 1 \<or> status = 0 \<and> mx_finished E h'"
proof (cases "status = 1")
  case False
  with assms obtain h1 p sub_out data es where "communicate_ans E h1 p = Inr sub_out"
      "url_ans E (h1 @ [Communicate p 100, ClockRead]) block_url = Inr data"
      "h' = (h1 @ [Communicate p 100, ClockRead, UrlOpen block_url,
               WriteFile ''/tmp/nsc_mutexprof_after_run.txt'' data]) @ es"
    and status: "status = (if fst (scan_totals (sub_line_of sub_out)) = Some (str_nat EXPECTED)
        \<and> snd (scan_totals (sub_line_of sub_out)) = Some ''0'' then 0 else 1)"
    by (auto simp: mx_measure_def prog_eqs Let_def fetch_block_profile_def communicate_def time_time_def urlopen_def
        write_file_def print_out_def simp del: One_nat_def split: if_split_asm)
  moreover from status False have "scan_totals (sub_line_of sub_out) = (Some (str_nat EXPECTED), Some ''0'')" "status = 0"
    by (auto simp: prod_eq_iff split: if_splits)
  ultimately show ?thesis unfolding mx_finished_def by (metis prefixI)
qed simp

lemma mx_body_result:
  assumes "mx_body E server scs h = (Inr status, h')"
  shows "status = 1 \<or> status = 0 \<and> mx_finished E h'"
  using assms by (auto simp: mx_body_def prog_eqs split: if_splits dest!: mx_measure_result)

text \<open>
  The contention profile run stops its server and all its sidecars whatever happens (also
  when the baseline profile cannot be fetched, before any sidecar is launched), and its exit
  status is 0 or 1; status 0 means that the subscriber's output had the expected total with no
  wrong message, and that the block profile the server gave right after it was written.
\<close>

theorem mutex_exit_code:
  assumes "calm E" and "mx_main E h = (r, h')"
  shows "(\<exists>fleet. logged h' = logged h @ fleet
      \<and> (\<exists>ts. terminated h' = ts @ rotate1 (map fst fleet))
      \<and> (\<exists>cs. closed_logs h' = cs @ rotate1 (map snd fleet)))
    \<and> (\<forall>status. r = Inr status \<longrightarrow> status = 1 \<or> status = 0 \<and> mx_finished E h')"
proof -
  have res: "status = 1 \<or> status = 0 \<and> mx_finished E h'" if "r = Inr status" for status
  proof -
    have "mx_main E h = (Inr status, h')" using assms(2) that by simp
    then obtain server scs h1 x h2 es where "mx_block E server scs h1 = (Inr status, x, h2)" "h' = h2 @ es"
      unfolding mx_main_def by (rule with_guard_extends) (rule extends_ret)
    then have "mx_body E server scs h1 = (Inr status, h2)" by (auto simp: mx_block_def split: prod.splits)
    from mx_body_result [OF this] \<open>h' = h2 @ es\<close> show ?thesis by (auto intro: mx_finished_append)
  qed
  obtain fleet ts cs where "logged h' = logged h @ fleet" "terminated h' = ts @ rotate1 (map fst fleet)"
      "closed_logs h' = cs @ rotate1 (map snd fleet)"
    using mx.all_ended [OF assms(1) assms(2) [unfolded mx_main_def]] by auto
  with res show ?thesis by blast
qed

text \<open>A run of the 16 instances that ends with status 0.\<close>

lemma demo_mx_run:
  assumes "scan_totals (sub_line_of (rep @ [CHR 0x0A])) = (Some (str_nat EXPECTED), Some ''0'')"
  shows "\<exists>h'. mx_main (demo_env rep) h = (Inr 0, h')"
proof -
  have launch: "\<exists>new h'. launch_all (mx_launch (demo_env rep)) is acc h = (Inr (), new, h')" for "is" acc h
    by (induction "is" arbitrary: acc h) (simp_all add: mx_launch_def mx_start_sidecar_def demo_simps)
  have alive: "\<exists>h'. poll_all (demo_env rep) msg scs h = (Inr True, h')" for msg and scs :: "unit sidecar list" and h
    by (induction "demo_env rep" msg scs arbitrary: h rule: poll_all.induct) (simp_all add: demo_simps)
  have ctrl: "\<exists>h'. ctrl_all (\<lambda>i. run_ctrl (demo_env rep) (c i)) msg ss h = (Inr True, h')"
    for c msg and ss :: "nat list" and h
    by (induction ss arbitrary: h) (simp_all add: demo_simps)
  have body: "\<exists>h'. mx_body (demo_env rep) server scs h = (Inr 0, h')" for server scs h
  proof -
    obtain h1 where h1: "sleep (demo_env rep) (15/10 + 2/10 * of_nat mx_N) h = (Inr (), h1)"
      by (simp add: demo_simps)
    obtain h2 where h2: "poll_all (demo_env rep) (\<lambda>_. ''N='' @ str_nat mx_N @ '' instance exited early'') scs h1
        = (Inr True, h2)" using alive by blast
    obtain h3 where h3: "ctrl_all (\<lambda>i. run_ctrl (demo_env rep) (''sc.mutexprof.ctrl.'' @ str_nat i))
        (\<lambda>_. ''N='' @ str_nat mx_N @ '' ctrl FAILED: '') [1..<mx_N + 1] h2 = (Inr True, h3)" using ctrl [of "\<lambda>i. ''sc.mutexprof.ctrl.'' @ str_nat i"] by blast
    have "\<exists>h'. andthen (sleep (demo_env rep) (3/10)) (mx_measure (demo_env rep)) h3 = (Inr 0, h')"
      using assms by (simp add: mx_measure_def fetch_block_profile_def demo_simps)
    with h1 h2 h3 show ?thesis by (simp add: mx_body_def andthen_def bind_def)
  qed
  obtain server slog h1 where h1: "mx_start_server (demo_env rep) h = (Inr (server, slog), h1)"
    by (simp add: mx_start_server_def demo_simps)
  obtain h2 where h2: "mx_baseline (demo_env rep) h1 = (Inr (), h2)"
    by (simp add: mx_baseline_def fetch_block_profile_def demo_simps)
  obtain scs h3 where h3: "launch_all (mx_launch (demo_env rep)) [1..<mx_N + 1] [] h2 = (Inr (), scs, h3)"
    using launch by blast
  obtain h4 where h4: "mx_body (demo_env rep) server scs h3 = (Inr 0, h4)" using body by blast
  obtain h5 where "teardown (demo_env rep) scs server slog h4 = (Inr (), h5)"
    using teardown_calm [OF calm_demo_env] by blast
  with h1 h2 h3 h4 show ?thesis
    by (simp add: mx_main_def with_guard_def guarded_try_def mx_block_def bind_def andthen_def try_finally_def
        lift_def ret_def)
qed

theorem mutex_exit_code_witness:
  "\<exists>h'. mx_main (demo_env good_report) [] = (Inr 0, h') \<and> mx_finished (demo_env good_report) h'"
proof -
  obtain h' where run: "mx_main (demo_env good_report) [] = (Inr 0, h')"
    using demo_mx_run [OF good_report_totals] by blast
  from mutex_exit_code [OF calm_demo_env run] run show ?thesis by auto
qed

end
