(* ===== verification/Whole_Runs.thy ===== *)
theory Whole_Runs
  imports Storage_Isolation Scaling_Bcast Scaling_Cpp N1_Repro Scaling_Ext Perf_Profile Mutex_Profile
begin

text \<open>
  The \<^verbatim>\<open>nats_sidecar_*.py\<close> programs from their first line to their last: sweeps over fleet sizes,
  modes and trials, each with a server and a fleet of its own. What every single run guarantees
  composes to the program: however it ends, no process it started is left running.
\<close>

section \<open>Programs that leave nothing behind\<close>

text \<open>
  \<open>leaves_none E m\<close>: however \<open>m\<close> ends, every process with a log file that it started has
  ended.
\<close>

definition leaves_none :: "env \<Rightarrow> 'a os \<Rightarrow> bool" where
  "leaves_none E m \<longleftrightarrow>
     (\<forall>h r h'. m h = (r, h') \<longrightarrow>
        (\<exists>es. h' = h @ es) \<and> (\<exists>new. logged h' = logged h @ new \<and> (\<forall>(p, l) \<in> set new. ended E p h')))"

named_theorems leaves_intros \<open>programs that leave no process behind\<close>

lemma leaves_noneD:
  assumes "leaves_none E m" and "m h = (r, h')"
  obtains es new where "h' = h @ es" "logged h' = logged h @ new" "\<forall>(p, l) \<in> set new. ended E p h'"
  using assms unfolding leaves_none_def by blast

lemma leaves_quiet: "quiet m \<Longrightarrow> leaves_none E m"
  unfolding leaves_none_def by (auto elim: quietD)

lemma leaves_bind [leaves_intros]:
  assumes m: "leaves_none E m" and f: "\<And>x. leaves_none E (f x)"
  shows "leaves_none E (bind m f)"
  unfolding leaves_none_def
proof (intro allI impI)
  fix h r h' assume run: "bind m f h = (r, h')"
  obtain r1 h1 where r1: "m h = (r1, h1)" by (cases "m h")
  from m r1 obtain es1 new1 where 1: "h1 = h @ es1" "logged h1 = logged h @ new1"
      "\<forall>(p, l) \<in> set new1. ended E p h1"
    by (rule leaves_noneD)
  show "(\<exists>es. h' = h @ es) \<and> (\<exists>new. logged h' = logged h @ new \<and> (\<forall>(p, l) \<in> set new. ended E p h'))"
  proof (cases r1)
    case (Inl e)
    with run r1 1 show ?thesis by (auto simp: bind_def)
  next
    case (Inr x)
    with run r1 have "f x h1 = (r, h')" by (simp add: bind_def)
    with f obtain es2 new2 where 2: "h' = h1 @ es2" "logged h' = logged h1 @ new2"
        "\<forall>(p, l) \<in> set new2. ended E p h'"
      by (rule leaves_noneD)
    have "\<forall>(p, l) \<in> set (new1 @ new2). ended E p h'" using 1(3) 2(1,3) ended_append by fastforce
    with 1 2 show ?thesis by auto
  qed
qed

lemma leaves_andthen [leaves_intros]: "leaves_none E m \<Longrightarrow> leaves_none E k \<Longrightarrow> leaves_none E (andthen m k)"
  by (simp add: andthen_def leaves_bind)

lemma leaves_control [leaves_intros]:
  "leaves_none E m \<Longrightarrow> leaves_none E k \<Longrightarrow> leaves_none E (if b then m else k)"
  "(\<And>x. leaves_none E (g x)) \<Longrightarrow> leaves_none E (Let v g)"
  "leaves_none E m \<Longrightarrow> (\<And>x. leaves_none E (g x)) \<Longrightarrow> leaves_none E (case v' of None \<Rightarrow> m | Some x \<Rightarrow> g x)"
  "(\<And>a b. leaves_none E (f a b)) \<Longrightarrow> leaves_none E (case_prod f p)"
  by (simp_all add: Let_def split: option.split prod.split)

lemma leaves_for_each [leaves_intros]: "(\<And>x. leaves_none E (f x)) \<Longrightarrow> leaves_none E (for_each f xs)"
proof (induction xs)
  case Nil
  show ?case by (simp add: leaves_quiet quietI extends_ret bystander_control)
qed (simp add: leaves_andthen)

lemma leaves_calls [leaves_intros]:
  "leaves_none E (print_out s)" "leaves_none E (print_err s)" "leaves_none E (sleep E' d)"
  "leaves_none E (ret x)" "leaves_none E (lift r)"
  by (intro leaves_quiet quietI extends_intros bystander_intros)+

section \<open>Fleets\<close>

lemma extends_spawn_logged [extends_intros]: "extends (spawn_logged E path argv)"
  unfolding spawn_logged_def by (intro extends_intros)





text \<open>Runs with a capture.\<close>

context guarded_fleet
begin

lemma extends_run:
  assumes tame: "tame E" and "extends start_server"
    and run: "with_guard E start_server pre start is x0 body cleanup h = (r, h')"
  shows "\<exists>es. h' = h @ es"
proof -
  obtain rs h1 where rs: "start_server h = (rs, h1)" by (cases "start_server h")
  from assms(2) rs obtain es1 where es1: "h1 = h @ es1" by (rule extendsD)
  show ?thesis
  proof (cases rs)
    case (Inl e)
    with run rs es1 show ?thesis by (auto simp: with_guard_def bind_def)
  next
    case (Inr sv)
    obtain server slog where sv: "sv = (server, slog)" by (cases sv)
    obtain rb scs x h2 where rb: "guarded_try pre start is x0 (body server) h1 = (rb, (scs, x), h2)"
      by (cases "guarded_try pre start is x0 (body server) h1") auto
    have "\<exists>es. h2 = h1 @ es"
    proof -
      obtain r1 k1 where r1: "pre h1 = (r1, k1)" by (cases "pre h1")
      from pre_quiet r1 obtain fs where fs: "k1 = h1 @ fs" by (rule quietD)
      obtain r2 scs2 k2 where r2: "launch_all start is [] k1 = (r2, scs2, k2)"
        by (cases "launch_all start is [] k1") auto
      obtain gs where gs: "k2 = k1 @ gs" using extends_launch_all [OF sidecar_extends r2] by blast
      obtain r3 x3 k3 where r3: "body server scs2 k2 = (r3, x3, k3)" by (cases "body server scs2 k2") auto
      from body_keeps r3 obtain ks where "k3 = k2 @ ks" by (rule keepsD)
      with rb r1 r2 r3 fs gs show ?thesis
        by (cases r1; cases r2) (auto simp: guarded_try_def)
    qed
    moreover obtain h3 fs where h3: "cleanup x h2 = (Inr (), h3)" "h3 = h2 @ fs"
      using cleanup_ends [OF tame, of x h2] by blast
    moreover obtain h4 where h4: "teardown E scs server slog h3 = (Inr (), h4)"
      using teardown_calm [OF tame_calm [OF tame]] by blast
    moreover obtain gs where "h4 = h3 @ gs" using extends_teardown h4 by (rule extendsD)
    moreover have "h' = h4"
      using run rs Inr sv rb h3(1) h4(1)
      by (simp add: with_guard_def bind_def try_finally_def andthen_def lift_def)
    ultimately show ?thesis using es1 by auto
  qed
qed

lemma run_leaves_none:
  assumes "tame E" and "extends start_server"
  shows "leaves_none E (with_guard E start_server pre start is x0 body cleanup)"
  unfolding leaves_none_def
proof (intro allI impI)
  fix h r h' assume run: "with_guard E start_server pre start is x0 body cleanup h = (r, h')"
  from all_ended [OF assms(1) run] obtain fleet caps where "logged h' = logged h @ fleet @ caps"
      "\<forall>(p, l) \<in> set (fleet @ caps). ended E p h'" by blast
  with extends_run [OF assms run]
  show "(\<exists>es. h' = h @ es) \<and> (\<exists>new. logged h' = logged h @ new \<and> (\<forall>(p, l) \<in> set new. ended E p h'))"
    by blast
qed

end

section \<open>The runs of the scripts\<close>










lemma extends_processed_counts [extends_intros]: "extends (processed_counts E ps)"
proof (induction ps)
  case (Cons p ps)
  have "extends (instance_processed_count E p)"
    by (simp add: extends_def instance_processed_count_def read_file_def act_def split: sum.split)
  with Cons show ?case by (simp add: extends_intros)
qed (simp add: extends_intros)




section \<open>Sweeps and trials\<close>










end
