(* ===== verification/Shared_Counters.thy ===== *)
theory Shared_Counters
  imports Prelude "HOL-Library.Word"
begin

text \<open>
  The processes of \<^verbatim>\<open>sustained_bench.py\<close> and its variants running together. Every producer
  and consumer is set up, waits at the barrier, and then repeats: fetch a batch, add its size
  to the local total, and add it to the shared counter under the counter's lock. The counter
  is an \<^verbatim>\<open>mp.Value("l", 0)\<close>, a 64-bit signed integer without overflow check. The loads and
  stores of \<^verbatim>\<open>counter.value += n\<close> are separate steps, so the steps of the processes interleave
  in every order the lock and the barrier allow. A worker that finishes puts its local total into
  the result queue of its kind; \<^verbatim>\<open>main\<close> joins all workers and then takes one result per worker
  from the queues, waiting for each.
\<close>

section \<open>Processes and shared state\<close>

datatype role = Producer | Consumer

datatype pc =
    Setup
  | Waiting                 \<comment> \<open>in \<^verbatim>\<open>barrier.wait()\<close>\<close>
  | Head                    \<comment> \<open>at the loop condition\<close>
  | Batch int               \<comment> \<open>\<open>n\<close> fetched and in the local total\<close>
  | Acquired int            \<comment> \<open>lock held\<close>
  | Loaded int "64 word"    \<comment> \<open>lock held, counter value read\<close>
  | Stored                  \<comment> \<open>lock held, new value written\<close>
  | Finished
  | Died                    \<comment> \<open>left by an exception\<close>

record proc =
  prole :: role
  ppc :: pc
  plocal :: int

record world =
  procs :: "proc list"
  cnt :: "role \<Rightarrow> 64 word"
  lock :: "role \<Rightarrow> nat option"
  released :: bool
  results :: "role \<Rightarrow> int list"   \<comment> \<open>\<^verbatim>\<open>pub_result_q\<close> and \<^verbatim>\<open>con_result_q\<close>\<close>

datatype step_label =
    Arrive nat | ReleaseBarrier | Begin nat int | Acquire nat | Load nat | Store nat
  | Unlock nat | Finish nat | Die nat

definition world_init :: "role list \<Rightarrow> world" where
  "world_init roles = \<lparr>procs = map (\<lambda>r. \<lparr>prole = r, ppc = Setup, plocal = 0\<rparr>) roles,
     cnt = (\<lambda>_. 0), lock = (\<lambda>_. None), released = False, results = (\<lambda>_. [])\<rparr>"

definition set_proc :: "nat \<Rightarrow> proc \<Rightarrow> world \<Rightarrow> world" where
  "set_proc i k w = w\<lparr>procs := (procs w)[i := k]\<rparr>"

definition goto :: "nat \<Rightarrow> pc \<Rightarrow> world \<Rightarrow> world" where
  "goto i c w = set_proc i ((procs w ! i)\<lparr>ppc := c\<rparr>) w"

fun step_fn :: "step_label \<Rightarrow> world \<Rightarrow> world option" where
  "step_fn (Arrive i) w =
     (if i < length (procs w) \<and> ppc (procs w ! i) = Setup then Some (goto i Waiting w) else None)"
| "step_fn ReleaseBarrier w =
     (if \<not> released w \<and> (\<forall>k \<in> set (procs w). ppc k = Waiting)
      then Some (w\<lparr>procs := map (\<lambda>k. k\<lparr>ppc := Head\<rparr>) (procs w), released := True\<rparr>) else None)"
| "step_fn (Begin i n) w =
     (if i < length (procs w) \<and> ppc (procs w ! i) = Head \<and> 0 \<le> n
      then Some (set_proc i ((procs w ! i)\<lparr>ppc := Batch n, plocal := plocal (procs w ! i) + n\<rparr>) w)
      else None)"
| "step_fn (Acquire i) w =
     (if i < length (procs w) then
        (case ppc (procs w ! i) of
           Batch n \<Rightarrow>
             if lock w (prole (procs w ! i)) = None
             then Some ((goto i (Acquired n) w)\<lparr>lock := (lock w)(prole (procs w ! i) := Some i)\<rparr>)
             else None
         | _ \<Rightarrow> None)
      else None)"
| "step_fn (Load i) w =
     (if i < length (procs w) then
        (case ppc (procs w ! i) of
           Acquired n \<Rightarrow> Some (goto i (Loaded n (cnt w (prole (procs w ! i)))) w)
         | _ \<Rightarrow> None)
      else None)"
| "step_fn (Store i) w =
     (if i < length (procs w) then
        (case ppc (procs w ! i) of
           Loaded n v \<Rightarrow>
             Some ((goto i Stored w)\<lparr>cnt := (cnt w)(prole (procs w ! i) := v + word_of_int n)\<rparr>)
         | _ \<Rightarrow> None)
      else None)"
| "step_fn (Unlock i) w =
     (if i < length (procs w) \<and> ppc (procs w ! i) = Stored
      then Some ((goto i Head w)\<lparr>lock := (lock w)(prole (procs w ! i) := None)\<rparr>) else None)"
| "step_fn (Finish i) w =
     (if i < length (procs w) \<and> ppc (procs w ! i) = Head
      then Some ((goto i Finished w)\<lparr>results := (results w)(prole (procs w ! i) :=
             results w (prole (procs w ! i)) @ [plocal (procs w ! i)])\<rparr>)
      else None)"
| "step_fn (Die i) w =
     (if i < length (procs w) \<and> (ppc (procs w ! i) = Setup \<or> ppc (procs w ! i) = Head)
      then Some (goto i Died w) else None)"

inductive reaches :: "world \<Rightarrow> world \<Rightarrow> bool" where
  here: "reaches w w"
| onward: "reaches w w1 \<Longrightarrow> step_fn l w1 = Some w2 \<Longrightarrow> reaches w w2"

text \<open>
  The end of \<^verbatim>\<open>main\<close>: after the joins, \<^verbatim>\<open>sum(q.get() for _ in range(count))\<close> for the two queues.
  A \<^verbatim>\<open>get()\<close> on a queue that stays empty never returns; this is the value \<open>None\<close>.
\<close>

definition joined :: "world \<Rightarrow> bool" where
  "joined w \<longleftrightarrow> (\<forall>k \<in> set (procs w). ppc k = Finished \<or> ppc k = Died)"

definition workers :: "role \<Rightarrow> world \<Rightarrow> nat" where
  "workers r w = length (filter (\<lambda>k. prole k = r) (procs w))"

definition collect :: "role \<Rightarrow> world \<Rightarrow> int option" where
  "collect r w = (if workers r w \<le> length (results w r) then Some (sum_list (take (workers r w) (results w r))) else None)"

definition main_totals :: "world \<Rightarrow> (int \<times> int) option" where
  "main_totals w =
     (case (collect Producer w, collect Consumer w) of (Some p, Some c) \<Rightarrow> Some (p, c) | _ \<Rightarrow> None)"

text \<open>Running a list of labels, for concrete schedules.\<close>

fun run_labels :: "step_label list \<Rightarrow> world \<Rightarrow> world option" where
  "run_labels [] w = Some w"
| "run_labels (l # ls) w = (case step_fn l w of None \<Rightarrow> None | Some w' \<Rightarrow> run_labels ls w')"

lemma reaches_trans: "reaches w1 w2 \<Longrightarrow> reaches w w1 \<Longrightarrow> reaches w w2"
  by (induction rule: reaches.induct) (auto intro: reaches.onward)

lemma run_labels_reaches: "run_labels ls w = Some w' \<Longrightarrow> reaches w w'"
proof (induction ls arbitrary: w)
  case (Cons l ls)
  then obtain w1 where "step_fn l w = Some w1" "run_labels ls w1 = Some w'"
    by (auto split: option.splits)
  with Cons.IH show ?case by (meson reaches.here reaches.onward reaches_trans)
qed (simp add: reaches.here)

section \<open>The invariant\<close>

definition pending :: "pc \<Rightarrow> int" where
  "pending c = (case c of Batch n \<Rightarrow> n | Acquired n \<Rightarrow> n | Loaded n _ \<Rightarrow> n | _ \<Rightarrow> 0)"

definition holds_lock :: "pc \<Rightarrow> bool" where
  "holds_lock c = (case c of Acquired _ \<Rightarrow> True | Loaded _ _ \<Rightarrow> True | Stored \<Rightarrow> True | _ \<Rightarrow> False)"

definition of_role :: "role \<Rightarrow> (proc \<Rightarrow> int) \<Rightarrow> proc \<Rightarrow> int" where
  "of_role r f k = (if prole k = r then f k else 0)"

definition total :: "role \<Rightarrow> world \<Rightarrow> int" where
  "total r w = sum_list (map (of_role r plocal) (procs w))"

definition counted :: "role \<Rightarrow> world \<Rightarrow> int" where
  "counted r w = sum_list (map (of_role r (\<lambda>k. plocal k - pending (ppc k))) (procs w))"

text \<open>What the lock guarantees of the process number \<open>i\<close>.\<close>

definition proc_ok :: "(role \<Rightarrow> nat option) \<Rightarrow> (role \<Rightarrow> 64 word) \<Rightarrow> nat \<Rightarrow> proc \<Rightarrow> bool" where
  "proc_ok lk ct i k \<longleftrightarrow>
     (holds_lock (ppc k) \<longleftrightarrow> lk (prole k) = Some i)
     \<and> (\<forall>n v. ppc k = Loaded n v \<longrightarrow> v = ct (prole k))
     \<and> 0 \<le> pending (ppc k) \<and> pending (ppc k) \<le> plocal k"

definition lock_inv :: "world \<Rightarrow> bool" where
  "lock_inv w \<longleftrightarrow> (\<forall>i < length (procs w). proc_ok (lock w) (cnt w) i (procs w ! i))"

definition count_inv :: "world \<Rightarrow> bool" where
  "count_inv w \<longleftrightarrow> (\<forall>r. cnt w r = word_of_int (counted r w))"

lemma sum_list_update_int:
  fixes f :: "'a \<Rightarrow> int"
  assumes "i < length xs"
  shows "sum_list (map f (xs[i := x])) = sum_list (map f xs) - f (xs ! i) + f x"
  using assms by (induction xs arbitrary: i) (auto split: nat.split)

lemma counted_set_proc:
  assumes "i < length (procs w)" and "procs w' = (procs w)[i := k]" and "prole k = prole (procs w ! i)"
  shows "counted r w' = counted r w
    + (if prole k = r then (plocal k - pending (ppc k)) - (plocal (procs w ! i) - pending (ppc (procs w ! i))) else 0)"
  using assms by (simp add: counted_def sum_list_update_int of_role_def)

lemmas step_defs = goto_def set_proc_def

lemma step_count_inv:
  assumes "step_fn l w = Some w'" and "count_inv w" and "lock_inv w"
  shows "count_inv w'"
  using assms(1)
proof (cases l)
  case ReleaseBarrier
  then have "counted r w' = counted r w" for r
    using assms(1) by (auto simp: counted_def of_role_def pending_def comp_def split: if_splits
        intro!: arg_cong [where f = sum_list])
  with assms(1,2) ReleaseBarrier show ?thesis by (auto simp: count_inv_def split: if_splits)
next
  case (Store i)
  with assms(1) obtain n v where i: "i < length (procs w)" "ppc (procs w ! i) = Loaded n v"
    and w': "w' = (goto i Stored w)\<lparr>cnt := (cnt w)(prole (procs w ! i) := v + word_of_int n)\<rparr>"
    by (auto split: if_splits pc.splits)
  then have "v = cnt w (prole (procs w ! i))" using assms(3) by (auto simp: lock_inv_def proc_ok_def)
  then show ?thesis
    using assms(2) i w' counted_set_proc [OF i(1), of w' "(procs w ! i)\<lparr>ppc := Stored\<rparr>"]
    by (auto simp: count_inv_def step_defs pending_def)
qed (use assms(2) counted_set_proc in \<open>auto simp: count_inv_def step_defs pending_def split: if_splits pc.splits\<close>)

lemma lock_inv_update:
  assumes "lock_inv w" and "procs w' = (procs w)[i := k]" and "proc_ok (lock w') (cnt w') i k"
    and "\<And>j k'. j \<noteq> i \<Longrightarrow> proc_ok (lock w) (cnt w) j k' \<Longrightarrow> proc_ok (lock w') (cnt w') j k'"
  shows "lock_inv w'"
  unfolding lock_inv_def
proof (intro allI impI)
  fix j assume "j < length (procs w')"
  with assms show "proc_ok (lock w') (cnt w') j (procs w' ! j)"
    by (cases "j = i") (simp_all add: lock_inv_def)
qed

lemma lock_invD: "lock_inv w \<Longrightarrow> i < length (procs w) \<Longrightarrow> proc_ok (lock w) (cnt w) i (procs w ! i)"
  by (simp add: lock_inv_def)

lemmas proc_ok_simps = proc_ok_def pending_def holds_lock_def

lemma step_lock_inv:
  assumes step: "step_fn l w = Some w'" and inv: "lock_inv w"
  shows "lock_inv w'"
  using step
proof (cases l)
  case ReleaseBarrier
  with step have all: "\<forall>k \<in> set (procs w). ppc k = Waiting"
    and w': "w' = w\<lparr>procs := map (\<lambda>k. k\<lparr>ppc := Head\<rparr>) (procs w), released := True\<rparr>"
    by (auto split: if_splits)
  then show ?thesis using inv by (auto simp: lock_inv_def proc_ok_simps)
next
  case (Acquire i)
  with step obtain n where i: "i < length (procs w)" "ppc (procs w ! i) = Batch n"
      "lock w (prole (procs w ! i)) = None"
    and w': "w' = (goto i (Acquired n) w)\<lparr>lock := (lock w)(prole (procs w ! i) := Some i)\<rparr>"
    by (auto split: if_splits pc.splits)
  show ?thesis
    by (rule lock_inv_update [OF inv, of _ i "(procs w ! i)\<lparr>ppc := Acquired n\<rparr>"])
      (use lock_invD [OF inv i(1)] i w' in \<open>auto simp: step_defs proc_ok_simps split: pc.splits\<close>)
next
  case (Store i)
  with step obtain n v where i: "i < length (procs w)" "ppc (procs w ! i) = Loaded n v"
    and w': "w' = (goto i Stored w)\<lparr>cnt := (cnt w)(prole (procs w ! i) := v + word_of_int n)\<rparr>"
    by (auto split: if_splits pc.splits)
  have held: "lock w (prole (procs w ! i)) = Some i"
    using lock_invD [OF inv i(1)] i(2) by (simp add: proc_ok_simps)
  show ?thesis
    by (rule lock_inv_update [OF inv, of _ i "(procs w ! i)\<lparr>ppc := Stored\<rparr>"])
      (use lock_invD [OF inv i(1)] i w' held in \<open>auto simp: step_defs proc_ok_simps split: pc.splits\<close>)
next
  case (Unlock i)
  with step have i: "i < length (procs w)" "ppc (procs w ! i) = Stored"
    and w': "w' = (goto i Head w)\<lparr>lock := (lock w)(prole (procs w ! i) := None)\<rparr>"
    by (auto split: if_splits)
  have held: "lock w (prole (procs w ! i)) = Some i"
    using lock_invD [OF inv i(1)] i(2) by (simp add: proc_ok_simps)
  show ?thesis
    by (rule lock_inv_update [OF inv, of _ i "(procs w ! i)\<lparr>ppc := Head\<rparr>"])
      (use lock_invD [OF inv i(1)] i w' held in \<open>auto simp: step_defs proc_ok_simps split: pc.splits\<close>)
next
  case (Load i)
  with step obtain n where i: "i < length (procs w)" "ppc (procs w ! i) = Acquired n"
    and w': "w' = goto i (Loaded n (cnt w (prole (procs w ! i)))) w"
    by (auto split: if_splits pc.splits)
  show ?thesis
    by (rule lock_inv_update [OF inv, of _ i "(procs w ! i)\<lparr>ppc := Loaded n (cnt w (prole (procs w ! i)))\<rparr>"])
      (use lock_invD [OF inv i(1)] i w' in \<open>auto simp: step_defs proc_ok_simps\<close>)
next
  case (Begin i n)
  with step have i: "i < length (procs w)" "ppc (procs w ! i) = Head" "0 \<le> n"
    and w': "w' = set_proc i ((procs w ! i)\<lparr>ppc := Batch n, plocal := plocal (procs w ! i) + n\<rparr>) w"
    by (auto split: if_splits)
  show ?thesis
    by (rule lock_inv_update [OF inv, of _ i "(procs w ! i)\<lparr>ppc := Batch n, plocal := plocal (procs w ! i) + n\<rparr>"])
      (use lock_invD [OF inv i(1)] i w' in \<open>auto simp: step_defs proc_ok_simps\<close>)
next
  case (Arrive i)
  with step have i: "i < length (procs w)" "ppc (procs w ! i) = Setup" and w': "w' = goto i Waiting w"
    by (auto split: if_splits)
  show ?thesis
    by (rule lock_inv_update [OF inv, of _ i "(procs w ! i)\<lparr>ppc := Waiting\<rparr>"])
      (use lock_invD [OF inv i(1)] i w' in \<open>auto simp: step_defs proc_ok_simps\<close>)
next
  case (Finish i)
  with step have i: "i < length (procs w)" "ppc (procs w ! i) = Head"
    and w': "procs w' = procs (goto i Finished w)" "lock w' = lock w" "cnt w' = cnt w"
    by (auto simp: step_defs split: if_splits)
  show ?thesis
    by (rule lock_inv_update [OF inv, of _ i "(procs w ! i)\<lparr>ppc := Finished\<rparr>"])
      (use lock_invD [OF inv i(1)] i w' in \<open>auto simp: step_defs proc_ok_simps\<close>)
next
  case (Die i)
  with step have i: "i < length (procs w)" "ppc (procs w ! i) = Setup \<or> ppc (procs w ! i) = Head"
    and w': "w' = goto i Died w"
    by (auto split: if_splits)
  show ?thesis
    by (rule lock_inv_update [OF inv, of _ i "(procs w ! i)\<lparr>ppc := Died\<rparr>"])
      (use lock_invD [OF inv i(1)] i w' in \<open>auto simp: step_defs proc_ok_simps\<close>)
qed

lemma sum_list_zero:
  fixes f :: "'a \<Rightarrow> int"
  shows "(\<And>x. x \<in> set xs \<Longrightarrow> f x = 0) \<Longrightarrow> sum_list (map f xs) = 0"
  by (induction xs) auto

lemma init_inv: "count_inv (world_init roles)" "lock_inv (world_init roles)"
proof -
  have "counted r (world_init roles) = 0" for r
    unfolding counted_def by (rule sum_list_zero) (auto simp: world_init_def of_role_def pending_def)
  then show "count_inv (world_init roles)" by (simp add: count_inv_def) (simp add: world_init_def)
  show "lock_inv (world_init roles)"
    by (simp add: lock_inv_def world_init_def proc_ok_simps)
qed

lemma reaches_inv:
  assumes "reaches w w'" and "count_inv w" and "lock_inv w"
  shows "count_inv w' \<and> lock_inv w'"
  using assms by (induction rule: reaches.induct) (auto intro: step_count_inv step_lock_inv)

lemma step_counted_mono:
  assumes "step_fn l w = Some w'" and "lock_inv w"
  shows "counted r w \<le> counted r w'"
  using assms(1)
proof (cases l)
  case ReleaseBarrier
  then have "counted r w' = counted r w"
    using assms(1) by (auto simp: counted_def of_role_def pending_def comp_def split: if_splits
        intro!: arg_cong [where f = sum_list])
  then show ?thesis by simp
next
  case (Store i)
  with assms(1) obtain n v where i: "i < length (procs w)" "ppc (procs w ! i) = Loaded n v"
    and w': "procs w' = (procs w)[i := (procs w ! i)\<lparr>ppc := Stored\<rparr>]"
    by (auto simp: step_defs split: if_splits pc.splits)
  moreover have "0 \<le> n" using lock_invD [OF assms(2) i(1)] i(2) by (simp add: proc_ok_simps)
  ultimately show ?thesis
    using counted_set_proc [OF i(1) w', of r] by (simp add: pending_def)
qed (use counted_set_proc in \<open>auto simp: step_defs pending_def split: if_splits pc.splits\<close>)

lemma counted_mono:
  assumes "reaches w w'" and "lock_inv w" and "count_inv w"
  shows "counted r w \<le> counted r w'"
  using assms
proof (induction rule: reaches.induct)
  case (onward w w1 l w2)
  with step_counted_mono reaches_inv show ?case by (meson order_trans)
qed simp

lemma counted_bounds:
  assumes "lock_inv w"
  shows "0 \<le> counted r w" "counted r w \<le> total r w"
proof -
  have k: "0 \<le> pending (ppc k) \<and> pending (ppc k) \<le> plocal k" if "k \<in> set (procs w)" for k
    using assms that by (auto simp: lock_inv_def proc_ok_def in_set_conv_nth)
  show "0 \<le> counted r w"
    unfolding counted_def by (rule sum_list_nonneg) (use k in \<open>auto simp: of_role_def\<close>)
  show "counted r w \<le> total r w"
    unfolding counted_def total_def by (rule sum_list_mono) (use k in \<open>auto simp: of_role_def\<close>)
qed

text \<open>A count below \<open>2 ^ 63\<close> is what \<^verbatim>\<open>counter.value\<close> reads.\<close>

lemma read_back:
  assumes "count_inv w" and "lock_inv w" and "counted r w < 2 ^ 63"
  shows "sint (cnt w r) = counted r w"
proof -
  have "cnt w r = word_of_int (counted r w)" using assms(1) by (simp add: count_inv_def)
  moreover have "0 \<le> counted r w" by (rule counted_bounds [OF assms(2)])
  ultimately show ?thesis using assms(3) by (simp add: int_word_sint)
qed

section \<open>Properties of every interleaving\<close>

definition idle :: "role \<Rightarrow> world \<Rightarrow> bool" where
  "idle r w \<longleftrightarrow> (\<forall>k \<in> set (procs w). prole k = r \<longrightarrow> pending (ppc k) = 0)"

lemma idle_counted: "idle r w \<Longrightarrow> counted r w = total r w"
  unfolding counted_def total_def idle_def
  by (rule arg_cong [where f = sum_list]) (auto simp: of_role_def)

text \<open>
  C2. No update is lost: in every state the processes can reach from their start, in every
  interleaving, at most one process holds the lock of a counter; and whenever no process of a
  kind is in the middle of counting, the counter of this kind is the sum of the local totals of
  its processes, modulo \<open>2 ^ 64\<close>, and exactly this sum as long as it is below \<open>2 ^ 63\<close>.
\<close>

theorem no_lost_update:
  assumes "reaches (world_init roles) w"
  shows "(\<forall>i < length (procs w). \<forall>j < length (procs w). holds_lock (ppc (procs w ! i))
        \<longrightarrow> holds_lock (ppc (procs w ! j)) \<longrightarrow> prole (procs w ! i) = prole (procs w ! j) \<longrightarrow> i = j)
    \<and> (\<forall>r. idle r w \<longrightarrow> cnt w r = word_of_int (total r w))
    \<and> (\<forall>r. idle r w \<longrightarrow> total r w < 2 ^ 63 \<longrightarrow> sint (cnt w r) = total r w)"
proof -
  have inv: "count_inv w" "lock_inv w" using reaches_inv [OF assms init_inv] by auto
  then have "cnt w r = word_of_int (total r w)" if "idle r w" for r
    using idle_counted [OF that] by (simp add: count_inv_def)
  moreover have "sint (cnt w r) = total r w" if "idle r w" "total r w < 2 ^ 63" for r
    using read_back [OF inv] idle_counted [OF that(1)] that(2) by simp
  moreover have "i = j" if "i < length (procs w)" "j < length (procs w)" "holds_lock (ppc (procs w ! i))"
      "holds_lock (ppc (procs w ! j))" "prole (procs w ! i) = prole (procs w ! j)" for i j
    using lock_invD [OF inv(2)] that unfolding proc_ok_def by (metis option.inject)
  ultimately show ?thesis by blast
qed

text \<open>Two producers and a consumer; the producers' additions interleave.\<close>

definition demo_labels :: "step_label list" where
  "demo_labels = [Arrive 0, Arrive 1, Arrive 2, ReleaseBarrier, Begin 0 2000, Begin 1 1500, Acquire 0,
     Load 0, Store 0, Unlock 0, Acquire 1, Load 1, Begin 2 700, Acquire 2, Load 2, Store 2, Store 1,
     Unlock 2, Unlock 1]"

lemma demo_world:
  "\<exists>w. run_labels demo_labels (world_init [Producer, Producer, Consumer]) = Some w
     \<and> total Producer w = 3500 \<and> total Consumer w = 700 \<and> idle Producer w \<and> idle Consumer w"
  by (simp add: demo_labels_def world_init_def step_defs total_def of_role_def idle_def pending_def)

theorem no_lost_update_witness:
  "\<exists>w. reaches (world_init [Producer, Producer, Consumer]) w \<and> sint (cnt w Producer) = 3500"
proof -
  obtain w where w: "run_labels demo_labels (world_init [Producer, Producer, Consumer]) = Some w"
      "total Producer w = 3500" "idle Producer w"
    using demo_world by blast
  from no_lost_update [OF run_labels_reaches [OF w(1)]] w run_labels_reaches [OF w(1)] show ?thesis
    by auto
qed

text \<open>
  A sample of the monitor is a lower bound: \<^verbatim>\<open>monitor\<close> reads the published counter in one
  state and the consumed counter in a later one, without a lock. The backlog it computes is at
  most the difference of the two counters in the first state and at most that in the second
  one; so a backlog between two samples can be higher than any sample shows.
\<close>

theorem sample_is_lower_bound:
  assumes "reaches (world_init roles) w1" and "reaches w1 w2"
    and "total Producer w2 < 2 ^ 63" and "total Consumer w2 < 2 ^ 63"
  shows "sint (cnt w1 Producer) - sint (cnt w2 Consumer) \<le> sint (cnt w1 Producer) - sint (cnt w1 Consumer)
    \<and> sint (cnt w1 Producer) - sint (cnt w2 Consumer) \<le> sint (cnt w2 Producer) - sint (cnt w2 Consumer)"
proof -
  have inv1: "count_inv w1" "lock_inv w1" using reaches_inv [OF assms(1) init_inv] by auto
  then have inv2: "count_inv w2" "lock_inv w2" using reaches_inv [OF assms(2)] by auto
  have grow: "counted r w1 \<le> counted r w2" for r using counted_mono [OF assms(2) inv1(2,1)] .
  have "counted r w2 < 2 ^ 63" for r
    using counted_bounds(2) [OF inv2(2), of r] assms(3,4) by (cases r) auto
  then have "sint (cnt w1 r) = counted r w1" "sint (cnt w2 r) = counted r w2" for r
    using read_back inv1 inv2 grow [of r] by (metis order_le_less_trans)+
  then show ?thesis using grow [of Producer] grow [of Consumer] by simp
qed

theorem sample_is_lower_bound_witness:
  "\<exists>w. reaches (world_init [Producer, Producer, Consumer]) w
     \<and> sint (cnt (world_init [Producer, Producer, Consumer]) Producer) - sint (cnt w Consumer)
         \<le> sint (cnt w Producer) - sint (cnt w Consumer)"
proof -
  obtain w where w: "run_labels demo_labels (world_init [Producer, Producer, Consumer]) = Some w"
      "total Producer w = 3500" "total Consumer w = 700"
    using demo_world by blast
  from sample_is_lower_bound [OF reaches.here run_labels_reaches [OF w(1)]] w
    run_labels_reaches [OF w(1)] show ?thesis by auto
qed

text \<open>Before the release only arrivals and deaths happen, and the release needs everyone.\<close>

definition early :: "world \<Rightarrow> bool" where
  "early w \<longleftrightarrow> \<not> released w \<and> (\<forall>k \<in> set (procs w). ppc k \<in> {Setup, Waiting, Died} \<and> plocal k = 0)"

lemma early_step:
  assumes "step_fn l w = Some w'" and "early w"
  obtains (one) i c where "i < length (procs w)" "ppc (procs w ! i) = Setup" "c \<in> {Waiting, Died}"
      "w' = goto i c w"
  | (release) "\<forall>k \<in> set (procs w). ppc k = Waiting" "released w'"
proof -
  have pcs: "i < length (procs w) \<Longrightarrow> ppc (procs w ! i) \<in> {Setup, Waiting, Died}" for i
    using assms(2) by (simp add: early_def)
  from assms(1) show thesis
  proof (cases l)
    case (Arrive i)
    with assms(1) one [of i Waiting] show thesis by (auto split: if_splits)
  next
    case (Die i)
    with assms(1) one [of i Died] pcs [of i] show thesis by (auto split: if_splits)
  next
    case ReleaseBarrier
    with assms(1) release show thesis by (auto split: if_splits)
  qed (use pcs in \<open>force split: if_splits pc.splits\<close>)+
qed

lemma goto_early:
  assumes "early w" and "i < length (procs w)" and "c \<in> {Waiting, Died}"
  shows "early (goto i c w)"
proof -
  have "plocal (procs w ! i) = 0" using assms(1,2) by (simp add: early_def)
  with assms show ?thesis
    using set_update_subset_insert [of "procs w" i] by (fastforce simp: early_def step_defs)
qed

lemma before_release:
  assumes "reaches (world_init roles) w" and "\<not> released w"
  shows "early w"
proof -
  have "reaches w0 w \<Longrightarrow> w0 = world_init roles \<Longrightarrow> \<not> released w \<Longrightarrow> early w" for w0
  proof (induction rule: reaches.induct)
    case (here w)
    then show ?case by (auto simp: world_init_def early_def)
  next
    case (onward w w1 l w2)
    then have "early w1" by (cases l) (auto simp: step_defs split: if_splits pc.splits)
    with onward.hyps(2) show ?case
      by (cases rule: early_step) (use onward.prems \<open>early w1\<close> goto_early in auto)
  qed
  with assms show ?thesis by blast
qed

lemma stuck_at_barrier:
  assumes "reaches w w'" and "early w" and "\<exists>k \<in> set (procs w). ppc k = Died"
  shows "early w' \<and> (\<exists>k \<in> set (procs w'). ppc k = Died)"
  using assms
proof (induction rule: reaches.induct)
  case (onward w w1 l w2)
  then obtain j where w1: "early w1" "j < length (procs w1)" "ppc (procs w1 ! j) = Died"
    by (metis in_set_conv_nth)
  from onward.hyps(2) w1(1) show ?case
  proof (cases rule: early_step)
    case (one i c)
    then have "j \<noteq> i" using w1(3) by auto
    then have "procs w2 ! j = procs w1 ! j" "j < length (procs w2)"
      using one w1(2) by (auto simp: step_defs)
    then have "\<exists>k \<in> set (procs w2). ppc k = Died" using w1(3) by (metis nth_mem)
    with goto_early [OF w1(1) one(1,3)] one(4) show ?thesis by simp
  next
    case release
    then have "ppc (procs w1 ! j) = Waiting" using w1(2) by simp
    with w1(3) show ?thesis by simp
  qed
qed simp

text \<open>
  C39. The barrier starts the workers together: before it is released nothing is counted. And
  it has no timeout: once a process died before the release, the barrier is never released,
  so no other process ever gets to its loop and the script waits for them without end.
\<close>

theorem barrier_gate:
  assumes "reaches (world_init roles) w" and "\<not> released w"
  shows "(\<forall>r. cnt w r = 0 \<and> total r w = 0)
    \<and> ((\<exists>k \<in> set (procs w). ppc k = Died) \<longrightarrow> (\<forall>w'. reaches w w' \<longrightarrow> \<not> released w'
         \<and> (\<forall>k \<in> set (procs w'). ppc k \<in> {Setup, Waiting, Died})))"
proof -
  have early: "early w" using assms by (rule before_release)
  then have "total r w = 0" "counted r w = 0" for r
    by (auto simp: early_def total_def counted_def of_role_def pending_def intro!: sum_list_zero)
  moreover have "count_inv w" using reaches_inv [OF assms(1) init_inv] by blast
  ultimately have "\<forall>r. cnt w r = 0 \<and> total r w = 0" by (simp add: count_inv_def)
  moreover have "\<not> released w' \<and> (\<forall>k \<in> set (procs w'). ppc k \<in> {Setup, Waiting, Died})"
    if "\<exists>k \<in> set (procs w). ppc k = Died" "reaches w w'" for w'
    using stuck_at_barrier [OF that(2) early that(1)] by (auto simp: early_def)
  ultimately show ?thesis by blast
qed

theorem barrier_gate_witness:
  "\<exists>w. run_labels [Arrive 0, Die 1] (world_init [Producer, Consumer]) = Some w
     \<and> (\<forall>w'. reaches w w' \<longrightarrow> \<not> released w')"
proof -
  obtain w where w: "run_labels [Arrive 0, Die 1] (world_init [Producer, Consumer]) = Some w"
    "\<not> released w" "\<exists>k \<in> set (procs w). ppc k = Died"
    by (simp add: world_init_def step_defs)
  from barrier_gate [OF run_labels_reaches [OF w(1)] w(2)] w show ?thesis by blast
qed

section \<open>The results the workers leave\<close>

definition finished_sum :: "role \<Rightarrow> (proc \<Rightarrow> int) \<Rightarrow> world \<Rightarrow> int" where
  "finished_sum r f w = sum_list (map (of_role r (\<lambda>k. if ppc k = Finished then f k else 0)) (procs w))"

definition result_inv :: "world \<Rightarrow> bool" where
  "result_inv w \<longleftrightarrow> (\<forall>r. int (length (results w r)) = finished_sum r (\<lambda>_. 1) w
     \<and> sum_list (results w r) = finished_sum r plocal w)"

lemma finished_sum_update:
  assumes "i < length (procs w)" and "procs w' = (procs w)[i := k]"
  shows "finished_sum r f w' = finished_sum r f w
    - of_role r (\<lambda>k. if ppc k = Finished then f k else 0) (procs w ! i)
    + of_role r (\<lambda>k. if ppc k = Finished then f k else 0) k"
  using assms by (simp add: finished_sum_def sum_list_update_int)

lemma step_result_inv:
  assumes "step_fn l w = Some w'" and "result_inv w"
  shows "result_inv w'"
  using assms(1)
proof (cases l)
  case ReleaseBarrier
  then have "\<forall>k \<in> set (procs w). ppc k = Waiting" "procs w' = map (\<lambda>k. k\<lparr>ppc := Head\<rparr>) (procs w)"
    and same: "results w' = results w"
    using assms(1) by (auto split: if_splits)
  then have "finished_sum r f w' = 0" "finished_sum r f w = 0" for r f
    unfolding finished_sum_def by (auto intro!: sum_list_zero simp: of_role_def)
  with assms(2) same show ?thesis by (simp add: result_inv_def)
qed (use assms finished_sum_update in \<open>auto simp: result_inv_def step_defs of_role_def
      split: if_splits pc.splits\<close>)

lemma reaches_result_inv:
  assumes "reaches w w'" and "result_inv w"
  shows "result_inv w'"
  using assms by (induction rule: reaches.induct) (auto intro: step_result_inv)

lemma init_result_inv: "result_inv (world_init roles)"
proof -
  have "finished_sum r f (world_init roles) = 0" for r f
    unfolding finished_sum_def by (rule sum_list_zero) (auto simp: world_init_def of_role_def)
  then show ?thesis by (simp add: result_inv_def) (simp add: world_init_def)
qed

lemma workers_sum: "int (workers r w) = sum_list (map (of_role r (\<lambda>_. 1)) (procs w))"
proof -
  have "int (length (filter (\<lambda>k. prole k = r) ks)) = sum_list (map (of_role r (\<lambda>_. 1)) ks)" for ks
    by (induction ks) (auto simp: of_role_def)
  then show ?thesis by (simp add: workers_def)
qed

lemma sum_list_less_int:
  fixes f g :: "'a \<Rightarrow> int"
  assumes "\<And>x. x \<in> set xs \<Longrightarrow> f x \<le> g x" and "x \<in> set xs" and "f x < g x"
  shows "sum_list (map f xs) < sum_list (map g xs)"
  using assms
proof (induction xs)
  case (Cons y ys)
  have le: "sum_list (map f ys) \<le> sum_list (map g ys)" using Cons.prems(1) by (intro sum_list_mono) auto
  show ?case
  proof (cases "x = y")
    case True
    with le Cons.prems(3) show ?thesis by simp
  next
    case False
    with Cons.prems have "sum_list (map f ys) < sum_list (map g ys)" by (intro Cons.IH) auto
    with Cons.prems(1) [of y] show ?thesis by simp
  qed
qed simp

text \<open>A queue has a result for every worker of its kind exactly if all of them finished.\<close>

lemma collect_cases:
  assumes "result_inv w"
  shows "(\<forall>k \<in> set (procs w). prole k = r \<longrightarrow> ppc k = Finished) \<Longrightarrow> collect r w = Some (total r w)"
    and "k \<in> set (procs w) \<Longrightarrow> prole k = r \<Longrightarrow> ppc k \<noteq> Finished \<Longrightarrow> collect r w = None"
proof -
  assume "\<forall>k \<in> set (procs w). prole k = r \<longrightarrow> ppc k = Finished"
  then have "finished_sum r f w = sum_list (map (of_role r f) (procs w))" for f
    unfolding finished_sum_def by (intro arg_cong [where f = sum_list]) (auto simp: of_role_def)
  then have "int (length (results w r)) = int (workers r w)" "sum_list (results w r) = total r w"
    using assms unfolding workers_sum by (simp_all add: result_inv_def total_def)
  then show "collect r w = Some (total r w)" by (simp add: collect_def)
next
  assume k: "k \<in> set (procs w)" "prole k = r" "ppc k \<noteq> Finished"
  have "finished_sum r (\<lambda>_. 1) w < sum_list (map (of_role r (\<lambda>_. 1)) (procs w))"
    unfolding finished_sum_def by (rule sum_list_less_int [OF _ k(1)]) (use k in \<open>auto simp: of_role_def\<close>)
  then have "int (length (results w r)) < int (workers r w)"
    using assms unfolding workers_sum by (simp add: result_inv_def)
  then show "collect r w = None" by (simp add: collect_def)
qed

lemma results_total:
  assumes "result_inv w" and "\<forall>k \<in> set (procs w). ppc k = Finished"
  shows "sum_list (results w r) = total r w"
proof -
  have "finished_sum r plocal w = total r w"
    unfolding finished_sum_def total_def
    using assms(2) by (intro arg_cong [where f = sum_list]) (auto simp: of_role_def)
  with assms(1) show ?thesis by (simp add: result_inv_def)
qed

lemma joined_idle: "joined w \<Longrightarrow> idle r w"
  by (auto simp: joined_def idle_def pending_def)

text \<open>
  C32. The totals \<^verbatim>\<open>main\<close> prints are the final counters: when all workers have ended, \<^verbatim>\<open>main\<close> gets
  its results exactly if all of them finished normally; the two totals are then the sums of the
  local totals and, below \<open>2 ^ 63\<close>, the values of the two shared counters. If a worker died, one
  of the queues never fills and \<^verbatim>\<open>main\<close> waits without end in \<^verbatim>\<open>get()\<close>, although all processes ended.
\<close>

theorem main_totals_are_counters:
  assumes "reaches (world_init roles) w" and "joined w"
  shows "(main_totals w = None \<longleftrightarrow> (\<exists>k \<in> set (procs w). ppc k = Died))
    \<and> (\<forall>p c. main_totals w = Some (p, c) \<longrightarrow> p = total Producer w \<and> c = total Consumer w
         \<and> (p < 2 ^ 63 \<longrightarrow> p = sint (cnt w Producer)) \<and> (c < 2 ^ 63 \<longrightarrow> c = sint (cnt w Consumer)))"
proof (cases "\<exists>k \<in> set (procs w). ppc k = Died")
  case True
  then obtain k where k: "k \<in> set (procs w)" "ppc k = Died" by blast
  have "collect (prole k) w = None"
    using collect_cases(2) [OF reaches_result_inv [OF assms(1) init_result_inv] k(1)] k(2) by simp
  then have "main_totals w = None" by (cases "prole k") (auto simp: main_totals_def split: option.split)
  with True show ?thesis by simp
next
  case False
  then have "collect r w = Some (total r w)" for r
    using collect_cases(1) [OF reaches_result_inv [OF assms(1) init_result_inv], of r] assms(2)
    by (auto simp: joined_def)
  then have totals: "main_totals w = Some (total Producer w, total Consumer w)" by (simp add: main_totals_def)
  have "sint (cnt w r) = total r w" if "total r w < 2 ^ 63" for r
    using read_back reaches_inv [OF assms(1) init_inv] idle_counted [OF joined_idle [OF assms(2)]] that by metis
  with totals False show ?thesis by auto
qed

theorem main_totals_are_counters_witness:
  "\<exists>w. reaches (world_init [Producer, Producer, Consumer]) w \<and> main_totals w = Some (3500, 700)
     \<and> sint (cnt w Producer) = 3500"
proof -
  obtain w where w: "run_labels (demo_labels @ [Finish 1, Finish 2, Finish 0])
      (world_init [Producer, Producer, Consumer]) = Some w" "main_totals w = Some (3500, 700)" "joined w"
    by (simp add: demo_labels_def world_init_def step_defs main_totals_def collect_def workers_def joined_def)
  from main_totals_are_counters [OF run_labels_reaches [OF w(1)] w(3)] w(2)
    run_labels_reaches [OF w(1)] show ?thesis by auto
qed

end
