(* ===== verification/Atomic_Counters.thy ===== *)
theory Atomic_Counters
  imports Shared_Counters
begin

text \<open>
  The specification of the shared counters: processes that add to a counter in one atomic step.
  The processes of \<^theory_text>\<open>Shared_Counters\<close>, which take the counter's lock, load, store and release, are a
  refinement of it. The lock never stops the processes: whoever holds it can always give it back.
\<close>

section \<open>Refinement maps\<close>

fun run_with :: "('l \<Rightarrow> 's \<Rightarrow> 's option) \<Rightarrow> 'l list \<Rightarrow> 's \<Rightarrow> 's option" where
  "run_with step [] s = Some s"
| "run_with step (l # ls) s = (case step l s of None \<Rightarrow> None | Some s' \<Rightarrow> run_with step ls s')"

text \<open>
  A step that is not visible leaves the abstract state as it is; a visible one is a step of the
  abstract machine. The invariant of the detailed machine may be used for both.
\<close>

locale refinement_map =
  fixes cstep :: "'l \<Rightarrow> 'c \<Rightarrow> 'c option" and astep :: "'m \<Rightarrow> 'a \<Rightarrow> 'a option"
    and visible :: "'l \<Rightarrow> 'm option" and abs_of :: "'c \<Rightarrow> 'a" and inv :: "'c \<Rightarrow> bool"
  assumes inv_step: "cstep l c = Some c' \<Longrightarrow> inv c \<Longrightarrow> inv c'"
    and silent_step: "cstep l c = Some c' \<Longrightarrow> inv c \<Longrightarrow> visible l = None \<Longrightarrow> abs_of c' = abs_of c"
    and visible_step: "cstep l c = Some c' \<Longrightarrow> inv c \<Longrightarrow> visible l = Some m \<Longrightarrow> astep m (abs_of c) = Some (abs_of c')"
begin

lemma runs_refine:
  "run_with cstep ls c = Some c' \<Longrightarrow> inv c \<Longrightarrow>
   run_with astep (List.map_filter visible ls) (abs_of c) = Some (abs_of c')"
proof (induction ls arbitrary: c)
  case Nil
  then show ?case by (simp add: map_filter_simps)
next
  case (Cons l ls)
  then obtain c1 where c1: "cstep l c = Some c1" "run_with cstep ls c1 = Some c'" by (auto split: option.splits)
  with Cons.IH inv_step Cons.prems(2)
  have "run_with astep (List.map_filter visible ls) (abs_of c1) = Some (abs_of c')" by blast
  then show ?case
    using silent_step [OF c1(1) Cons.prems(2)] visible_step [OF c1(1) Cons.prems(2)]
    by (cases "visible l") (simp_all add: map_filter_simps)
qed

text \<open>What holds in every state the abstract machine can reach holds, seen through the map, of the detailed one.\<close>

lemma invariant_transfers:
  assumes "run_with cstep ls c = Some c'" and "inv c"
    and "\<And>ms a. run_with astep ms (abs_of c) = Some a \<Longrightarrow> Q a"
  shows "Q (abs_of c')"
  using assms(3) [OF runs_refine [OF assms(1,2)]] .

end

section \<open>Atomic additions\<close>

datatype apc = ASetup | AWaiting | AHead | ABatch int | AFinished | ADied

record aproc =
  arole :: role
  apc :: apc
  alocal :: int

record aworld =
  aprocs :: "aproc list"
  acnt :: "role \<Rightarrow> 64 word"
  areleased :: bool
  aresults :: "role \<Rightarrow> int list"

datatype alabel = AArrive nat | ARelease | ABegin nat int | AAdd nat | AFinish nat | ADie nat

definition atomic_init :: "role list \<Rightarrow> aworld" where
  "atomic_init roles = \<lparr>aprocs = map (\<lambda>r. \<lparr>arole = r, apc = ASetup, alocal = 0\<rparr>) roles,
     acnt = (\<lambda>_. 0), areleased = False, aresults = (\<lambda>_. [])\<rparr>"

definition agoto :: "nat \<Rightarrow> apc \<Rightarrow> aworld \<Rightarrow> aworld" where
  "agoto i c a = a\<lparr>aprocs := (aprocs a)[i := (aprocs a ! i)\<lparr>apc := c\<rparr>]\<rparr>"

fun atomic_step :: "alabel \<Rightarrow> aworld \<Rightarrow> aworld option" where
  "atomic_step (AArrive i) a =
     (if i < length (aprocs a) \<and> apc (aprocs a ! i) = ASetup then Some (agoto i AWaiting a) else None)"
| "atomic_step ARelease a =
     (if \<not> areleased a \<and> (\<forall>k \<in> set (aprocs a). apc k = AWaiting)
      then Some (a\<lparr>aprocs := map (\<lambda>k. k\<lparr>apc := AHead\<rparr>) (aprocs a), areleased := True\<rparr>) else None)"
| "atomic_step (ABegin i n) a =
     (if i < length (aprocs a) \<and> apc (aprocs a ! i) = AHead \<and> 0 \<le> n
      then Some (a\<lparr>aprocs := (aprocs a)[i := (aprocs a ! i)\<lparr>apc := ABatch n, alocal := alocal (aprocs a ! i) + n\<rparr>]\<rparr>)
      else None)"
| "atomic_step (AAdd i) a =
     (if i < length (aprocs a) then
        (case apc (aprocs a ! i) of
           ABatch n \<Rightarrow> Some ((agoto i AHead a)\<lparr>acnt := (acnt a)(arole (aprocs a ! i) :=
             acnt a (arole (aprocs a ! i)) + word_of_int n)\<rparr>)
         | _ \<Rightarrow> None)
      else None)"
| "atomic_step (AFinish i) a =
     (if i < length (aprocs a) \<and> apc (aprocs a ! i) = AHead
      then Some ((agoto i AFinished a)\<lparr>aresults := (aresults a)(arole (aprocs a ! i) :=
             aresults a (arole (aprocs a ! i)) @ [alocal (aprocs a ! i)])\<rparr>)
      else None)"
| "atomic_step (ADie i) a =
     (if i < length (aprocs a) \<and> (apc (aprocs a ! i) = ASetup \<or> apc (aprocs a ! i) = AHead)
      then Some (agoto i ADied a) else None)"

text \<open>A process that is between taking the batch and the store has not added it yet; afterwards it has.\<close>

fun abs_pc :: "pc \<Rightarrow> apc" where
  "abs_pc Setup = ASetup"
| "abs_pc Waiting = AWaiting"
| "abs_pc Head = AHead"
| "abs_pc (Batch n) = ABatch n"
| "abs_pc (Acquired n) = ABatch n"
| "abs_pc (Loaded n v) = ABatch n"
| "abs_pc Stored = AHead"
| "abs_pc Finished = AFinished"
| "abs_pc Died = ADied"

definition abs_proc :: "proc \<Rightarrow> aproc" where
  "abs_proc k = \<lparr>arole = prole k, apc = abs_pc (ppc k), alocal = plocal k\<rparr>"

definition abs_world :: "world \<Rightarrow> aworld" where
  "abs_world w = \<lparr>aprocs = map abs_proc (procs w), acnt = cnt w, areleased = released w, aresults = results w\<rparr>"

fun visible_label :: "step_label \<Rightarrow> alabel option" where
  "visible_label (Arrive i) = Some (AArrive i)"
| "visible_label ReleaseBarrier = Some ARelease"
| "visible_label (Begin i n) = Some (ABegin i n)"
| "visible_label (Store i) = Some (AAdd i)"
| "visible_label (Finish i) = Some (AFinish i)"
| "visible_label (Die i) = Some (ADie i)"
| "visible_label _ = None"

lemma abs_init: "abs_world (world_init roles) = atomic_init roles"
  by (simp add: abs_world_def world_init_def atomic_init_def abs_proc_def)

lemma map_update_same: "f x = f (xs ! i) \<Longrightarrow> map f (xs[i := x]) = map f xs"
  by (metis list_update_id map_update)

lemma run_labels_run_with: "run_labels ls w = run_with step_fn ls w"
  by (induction ls arbitrary: w) (auto split: option.split)

lemmas abs_defs = abs_world_def abs_proc_def agoto_def step_defs

interpretation locked: refinement_map step_fn atomic_step visible_label abs_world lock_inv
proof unfold_locales
  fix l w w' m
  assume step: "step_fn l w = Some w'" and inv: "lock_inv w"
  show "lock_inv w'" by (rule step_lock_inv [OF step inv])
  show "abs_world w' = abs_world w" if "visible_label l = None"
    using step that by (cases l) (auto simp: abs_defs intro!: map_update_same split: if_splits pc.splits)
  show "atomic_step m (abs_world w) = Some (abs_world w')" if "visible_label l = Some m"
  proof (cases l)
    case (Store i)
    with step obtain n v where i: "i < length (procs w)" "ppc (procs w ! i) = Loaded n v"
      and w': "w' = (goto i Stored w)\<lparr>cnt := (cnt w)(prole (procs w ! i) := v + word_of_int n)\<rparr>"
      by (auto split: if_splits pc.splits)
    moreover have "v = cnt w (prole (procs w ! i))"
      using lock_invD [OF inv i(1)] i(2) by (simp add: proc_ok_def)
    ultimately show ?thesis using that Store by (auto simp: abs_defs map_update)
  next
    case ReleaseBarrier
    with step that show ?thesis by (auto simp: abs_defs split: if_splits)
  qed (use step that in \<open>auto simp: abs_defs map_update split: if_splits\<close>)
qed

section \<open>Properties\<close>

text \<open>
  C22. Counting under the lock is atomic: every interleaving of the detailed processes, with the
  lock, the load and the store as steps of their own, is a run of the processes that add to the
  counter in one step; the additions happen in the order of the stores, and the two runs end with
  the same counters, local totals and results.
\<close>

theorem counting_is_atomic:
  assumes "run_labels ls (world_init roles) = Some w"
  shows "run_with atomic_step (List.map_filter visible_label ls) (atomic_init roles) = Some (abs_world w)
    \<and> acnt (abs_world w) = cnt w \<and> aresults (abs_world w) = results w"
  using locked.runs_refine [OF assms [unfolded run_labels_run_with] init_inv(2)]
  by (simp add: abs_init) (simp add: abs_world_def)

theorem counting_is_atomic_witness:
  "\<exists>a. run_with atomic_step
      [AArrive 0, AArrive 1, AArrive 2, ARelease, ABegin 0 2000, ABegin 1 1500, AAdd 0, ABegin 2 700, AAdd 2, AAdd 1]
      (atomic_init [Producer, Producer, Consumer]) = Some a \<and> acnt a Producer = 3500"
proof -
  obtain w where w: "run_labels demo_labels (world_init [Producer, Producer, Consumer]) = Some w" "cnt w Producer = 3500"
    by (simp add: demo_labels_def world_init_def step_defs)
  from counting_is_atomic [OF w(1)] w(2) show ?thesis
    by (simp add: demo_labels_def map_filter_simps)
qed

text \<open>The amounts a process counted are those it took in its batches.\<close>

fun begun_in :: "nat \<Rightarrow> step_label \<Rightarrow> int list" where
  "begun_in i (Begin j n) = (if j = i then [n] else [])"
| "begun_in i _ = []"

definition begun :: "nat \<Rightarrow> step_label list \<Rightarrow> int list" where
  "begun i ls = concat (map (begun_in i) ls)"

lemma step_local:
  assumes "step_fn l w = Some w'" and "i < length (procs w)"
  shows "plocal (procs w' ! i) = plocal (procs w ! i) + sum_list (begun_in i l)
    \<and> prole (procs w' ! i) = prole (procs w ! i) \<and> length (procs w') = length (procs w)"
  using assms by (cases l) (auto simp: step_defs nth_list_update split: if_splits pc.splits)

lemma run_local:
  assumes "run_labels ls w = Some w'" and "i < length (procs w)"
  shows "plocal (procs w' ! i) = plocal (procs w ! i) + sum_list (begun i ls)
    \<and> prole (procs w' ! i) = prole (procs w ! i) \<and> length (procs w') = length (procs w)"
  using assms
proof (induction ls arbitrary: w)
  case Nil
  then show ?case by (simp add: begun_def)
next
  case (Cons l ls)
  then obtain w1 where w1: "step_fn l w = Some w1" "run_labels ls w1 = Some w'" by (auto split: option.splits)
  from step_local [OF w1(1) Cons.prems(2)] Cons.IH [OF w1(2)] Cons.prems(2)
  show ?case by (simp add: begun_def)
qed

lemma total_begun:
  assumes "run_labels ls (world_init roles) = Some w"
  shows "total r w = (\<Sum>i<length roles. if roles ! i = r then sum_list (begun i ls) else 0)"
proof (cases "roles = []")
  case True
  have "run_labels ls w0 = Some w \<Longrightarrow> procs w0 = [] \<Longrightarrow> procs w = []" for w0
  proof (induction ls arbitrary: w0)
    case (Cons l ls)
    then show ?case by (cases l) (auto split: if_splits)
  qed simp
  from this [OF assms] True show ?thesis by (simp add: world_init_def total_def)
next
  case False
  have init: "i < length (procs (world_init roles))" if "i < length roles" for i using that by (simp add: world_init_def)
  have "length (procs w) = length roles"
    using run_local [OF assms init [of 0]] False by (simp add: world_init_def)
  moreover have "of_role r plocal (procs w ! i) = (if roles ! i = r then sum_list (begun i ls) else 0)" if "i < length roles" for i
    using run_local [OF assms init [OF that]] that by (simp add: of_role_def world_init_def)
  ultimately show ?thesis
    by (simp add: total_def sum_list_sum_nth atLeast0LessThan)
qed

text \<open>After the release nobody waits at the barrier or is still being set up.\<close>

definition gate_open :: "world \<Rightarrow> bool" where
  "gate_open w \<longleftrightarrow> (released w \<longrightarrow> (\<forall>k \<in> set (procs w). ppc k \<notin> {Setup, Waiting}))"

lemma gate_open_goto:
  assumes "gate_open w" and "procs w' = (procs w)[i := k]" and "released w' = released w" and "ppc k \<notin> {Setup, Waiting}"
  shows "gate_open w'"
  using assms set_update_subset_insert [of "procs w" i k] unfolding gate_open_def by fastforce

lemma step_gate_open:
  assumes step: "step_fn l w = Some w'" and "gate_open w"
  shows "gate_open w'"
proof (cases l)
  case ReleaseBarrier
  with step show ?thesis by (auto simp: gate_open_def split: if_splits)
next
  case (Arrive i)
  with step assms(2) have "\<not> released w" "released w' = released w"
    by (auto simp: gate_open_def step_defs split: if_splits)
  then show ?thesis by (simp add: gate_open_def)
next
  case (Begin i n)
  with step show ?thesis
    by (intro gate_open_goto [OF assms(2), of _ i "(procs w ! i)\<lparr>ppc := Batch n, plocal := plocal (procs w ! i) + n\<rparr>"])
      (auto simp: step_defs split: if_splits)
next
  case (Acquire i)
  with step obtain n where "procs w' = (procs w)[i := (procs w ! i)\<lparr>ppc := Acquired n\<rparr>]" "released w' = released w"
    by (auto simp: step_defs split: if_splits pc.splits)
  then show ?thesis by (rule gate_open_goto [OF assms(2)]) simp
next
  case (Load i)
  with step obtain n v where "procs w' = (procs w)[i := (procs w ! i)\<lparr>ppc := Loaded n v\<rparr>]" "released w' = released w"
    by (auto simp: step_defs split: if_splits pc.splits)
  then show ?thesis by (rule gate_open_goto [OF assms(2)]) simp
next
  case (Store i)
  with step have "procs w' = (procs w)[i := (procs w ! i)\<lparr>ppc := Stored\<rparr>]" "released w' = released w"
    by (auto simp: step_defs split: if_splits pc.splits)
  then show ?thesis by (rule gate_open_goto [OF assms(2)]) simp
next
  case (Unlock i)
  with step have "procs w' = (procs w)[i := (procs w ! i)\<lparr>ppc := Head\<rparr>]" "released w' = released w"
    by (auto simp: step_defs split: if_splits)
  then show ?thesis by (rule gate_open_goto [OF assms(2)]) simp
next
  case (Finish i)
  with step have "procs w' = (procs w)[i := (procs w ! i)\<lparr>ppc := Finished\<rparr>]" "released w' = released w"
    by (auto simp: step_defs split: if_splits)
  then show ?thesis by (rule gate_open_goto [OF assms(2)]) simp
next
  case (Die i)
  with step have "procs w' = (procs w)[i := (procs w ! i)\<lparr>ppc := Died\<rparr>]" "released w' = released w"
    by (auto simp: step_defs split: if_splits)
  then show ?thesis by (rule gate_open_goto [OF assms(2)]) simp
qed

lemma reaches_gate_open: "reaches w w' \<Longrightarrow> gate_open w \<Longrightarrow> gate_open w'"
  by (induction rule: reaches.induct) (auto intro: step_gate_open)

text \<open>A lock that is held is held by a process of its counter's kind.\<close>

definition lock_owned :: "world \<Rightarrow> bool" where
  "lock_owned w \<longleftrightarrow> (\<forall>r i. lock w r = Some i \<longrightarrow> i < length (procs w) \<and> prole (procs w ! i) = r)"

lemma step_roles:
  "step_fn l w = Some w' \<Longrightarrow> length (procs w') = length (procs w)
     \<and> (\<forall>i < length (procs w). prole (procs w' ! i) = prole (procs w ! i))"
  by (cases l) (auto simp: step_defs nth_list_update split: if_splits pc.splits)

lemma step_lock:
  assumes "step_fn l w = Some w'" and "lock w' r = Some i"
  shows "lock w r = Some i \<or> l = Acquire i \<and> i < length (procs w) \<and> prole (procs w ! i) = r"
  using assms by (cases l) (auto simp: step_defs split: if_splits pc.splits)

lemma step_lock_owned:
  assumes "step_fn l w = Some w'" and "lock_owned w"
  shows "lock_owned w'"
  unfolding lock_owned_def
proof (intro allI impI)
  fix r i assume "lock w' r = Some i"
  from step_lock [OF assms(1) this] assms(2) have "i < length (procs w) \<and> prole (procs w ! i) = r"
    by (auto simp: lock_owned_def)
  with step_roles [OF assms(1)] show "i < length (procs w') \<and> prole (procs w' ! i) = r" by simp
qed

lemma reaches_lock_owned: "reaches w w' \<Longrightarrow> lock_owned w \<Longrightarrow> lock_owned w'"
  by (induction rule: reaches.induct) (auto intro: step_lock_owned)

text \<open>The steps a process still needs once it takes no further batch.\<close>

fun steps_left :: "pc \<Rightarrow> nat" where
  "steps_left (Batch n) = 5"
| "steps_left (Acquired n) = 4"
| "steps_left (Loaded n v) = 3"
| "steps_left Stored = 2"
| "steps_left Head = 1"
| "steps_left _ = 0"

definition effort :: "world \<Rightarrow> nat" where
  "effort w = sum_list (map (steps_left \<circ> ppc) (procs w))"

definition moves :: "nat \<Rightarrow> step_label \<Rightarrow> world \<Rightarrow> world \<Rightarrow> bool" where
  "moves i l w w' \<longleftrightarrow> step_fn l w = Some w' \<and> released w' = released w
     \<and> (\<exists>k. procs w' = (procs w)[i := k] \<and> steps_left (ppc k) < steps_left (ppc (procs w ! i)) \<and> ppc k \<noteq> Died)"

lemma holder_moves:
  assumes "i < length (procs w)" and "holds_lock (ppc (procs w ! i)) \<or> ppc (procs w ! i) = Head"
  shows "\<exists>l w'. moves i l w w'"
proof (cases "ppc (procs w ! i)")
  case (Acquired n)
  with assms(1) have "moves i (Load i) w (goto i (Loaded n (cnt w (prole (procs w ! i)))) w)"
    by (simp add: moves_def step_defs exI [of _ "(procs w ! i)\<lparr>ppc := Loaded n (cnt w (prole (procs w ! i)))\<rparr>"])
  then show ?thesis by blast
next
  case (Loaded n v)
  with assms(1) have "moves i (Store i) w ((goto i Stored w)\<lparr>cnt := (cnt w)(prole (procs w ! i) := v + word_of_int n)\<rparr>)"
    by (simp add: moves_def step_defs exI [of _ "(procs w ! i)\<lparr>ppc := Stored\<rparr>"])
  then show ?thesis by blast
next
  case Stored
  with assms(1) have "moves i (Unlock i) w ((goto i Head w)\<lparr>lock := (lock w)(prole (procs w ! i) := None)\<rparr>)"
    by (simp add: moves_def step_defs exI [of _ "(procs w ! i)\<lparr>ppc := Head\<rparr>"])
  then show ?thesis by blast
next
  case Head
  with assms(1) have "moves i (Finish i) w ((goto i Finished w)\<lparr>results := (results w)(prole (procs w ! i) :=
             results w (prole (procs w ! i)) @ [plocal (procs w ! i)])\<rparr>)"
    by (simp add: moves_def step_defs exI [of _ "(procs w ! i)\<lparr>ppc := Finished\<rparr>"])
  then show ?thesis by blast
qed (use assms(2) in \<open>auto simp: holds_lock_def\<close>)

lemma someone_moves:
  assumes "lock_inv w" and "lock_owned w" and "gate_open w" and "released w" and "\<not> joined w"
  shows "\<exists>i l w'. i < length (procs w) \<and> moves i l w w'"
proof -
  from assms(5) obtain i where i: "i < length (procs w)" "ppc (procs w ! i) \<noteq> Finished" "ppc (procs w ! i) \<noteq> Died"
    by (metis in_set_conv_nth joined_def)
  with assms(3,4) have "ppc (procs w ! i) \<notin> {Setup, Waiting}" by (simp add: gate_open_def)
  with i consider n where "ppc (procs w ! i) = Batch n" | "holds_lock (ppc (procs w ! i)) \<or> ppc (procs w ! i) = Head"
    by (cases "ppc (procs w ! i)") (auto simp: holds_lock_def)
  then show ?thesis
  proof cases
    case 1
    show ?thesis
    proof (cases "lock w (prole (procs w ! i))")
      case None
      with 1 i(1) have "moves i (Acquire i) w ((goto i (Acquired n) w)\<lparr>lock := (lock w)(prole (procs w ! i) := Some i)\<rparr>)"
        by (simp add: moves_def step_defs exI [of _ "(procs w ! i)\<lparr>ppc := Acquired n\<rparr>"])
      with i(1) show ?thesis by blast
    next
      case (Some j)
      with assms(2) have "j < length (procs w)" "prole (procs w ! j) = prole (procs w ! i)" by (auto simp: lock_owned_def)
      with lock_invD [OF assms(1)] Some have "j < length (procs w)" "holds_lock (ppc (procs w ! j))" by (auto simp: proc_ok_def)
      with holder_moves show ?thesis by blast
    qed
  next
    case 2
    with holder_moves i(1) show ?thesis by blast
  qed
qed

lemma moves_effort:
  assumes "moves i l w w'" and "i < length (procs w)"
  shows "effort w' < effort w"
proof -
  from assms(1) obtain k where k: "procs w' = (procs w)[i := k]" "steps_left (ppc k) < steps_left (ppc (procs w ! i))"
    by (auto simp: moves_def)
  have "int (sum_list (map f ks)) = sum_list (map (int \<circ> f) ks)" for f :: "proc \<Rightarrow> nat" and ks
    by (induction ks) simp_all
  then have "int (effort v) = sum_list (map (int \<circ> steps_left \<circ> ppc) (procs v))" for v
    by (simp add: effort_def comp_assoc)
  then have "int (effort w') < int (effort w)"
    using k sum_list_update_int [OF assms(2), of "int \<circ> steps_left \<circ> ppc" k] by simp
  then show ?thesis by simp
qed

lemma moves_died:
  assumes "moves i l w w'" and "i < length (procs w)"
  shows "{j. j < length (procs w') \<and> ppc (procs w' ! j) = Died} = {j. j < length (procs w) \<and> ppc (procs w ! j) = Died}"
proof -
  from assms(1) obtain k where k: "procs w' = (procs w)[i := k]" "steps_left (ppc k) < steps_left (ppc (procs w ! i))" "ppc k \<noteq> Died"
    by (auto simp: moves_def)
  then have "ppc (procs w ! i) \<noteq> Died" by auto
  with k assms(2) show ?thesis by (auto simp: nth_list_update split: if_splits)
qed

lemma runs_to_join:
  assumes "lock_inv w" and "lock_owned w" and "gate_open w" and "released w"
  shows "\<exists>w'. reaches w w' \<and> joined w'
    \<and> {j. j < length (procs w') \<and> ppc (procs w' ! j) = Died} = {j. j < length (procs w) \<and> ppc (procs w ! j) = Died}"
  using assms
proof (induction "effort w" arbitrary: w rule: less_induct)
  case less
  show ?case
  proof (cases "joined w")
    case True
    then show ?thesis using reaches.here by blast
  next
    case False
    with someone_moves less.prems obtain i l w1 where m: "i < length (procs w)" "moves i l w w1" by blast
    then have step: "step_fn l w = Some w1" "released w1" using less.prems(4) by (auto simp: moves_def)
    obtain w' where w': "reaches w1 w'" "joined w'"
      "{j. j < length (procs w') \<and> ppc (procs w' ! j) = Died} = {j. j < length (procs w1) \<and> ppc (procs w1 ! j) = Died}"
      using less.hyps [OF moves_effort [OF m(2,1)] step_lock_inv [OF step(1) less.prems(1)]
          step_lock_owned [OF step(1) less.prems(2)] step_gate_open [OF step(1) less.prems(3)] step(2)] by blast
    then show ?thesis
      using moves_died [OF m(2,1)] reaches_trans [OF w'(1) reaches.onward [OF reaches.here step(1)]] by auto
  qed
qed

text \<open>
  C27. The counters never block the workers: in every state after the barrier's release, whatever the
  interleaving so far, a process that holds a lock can take its next step, and the processes can run
  on until every one of them has ended, without another one dying; and when they have, no update
  is missing from the counters.
\<close>

theorem workers_can_end:
  assumes "reaches (world_init roles) w" and "released w"
  shows "(\<forall>r i. lock w r = Some i \<longrightarrow> (\<exists>l w'. moves i l w w'))
    \<and> (\<exists>w'. reaches w w' \<and> joined w' \<and> (\<forall>r. cnt w' r = word_of_int (total r w'))
         \<and> {j. j < length (procs w') \<and> ppc (procs w' ! j) = Died} = {j. j < length (procs w) \<and> ppc (procs w ! j) = Died})"
proof -
  have inv: "lock_inv w" using reaches_inv [OF assms(1) init_inv] by blast
  have owned: "lock_owned w" by (rule reaches_lock_owned [OF assms(1)]) (simp add: lock_owned_def world_init_def)
  have gate: "gate_open w" by (rule reaches_gate_open [OF assms(1)]) (simp add: gate_open_def world_init_def)
  have "\<exists>l w'. moves i l w w'" if "lock w r = Some i" for r i
    using that owned holder_moves lock_invD [OF inv] by (auto simp: lock_owned_def proc_ok_def)
  moreover obtain w' where w': "reaches w w'" "joined w'"
      "{j. j < length (procs w') \<and> ppc (procs w' ! j) = Died} = {j. j < length (procs w) \<and> ppc (procs w ! j) = Died}"
    using runs_to_join [OF inv owned gate assms(2)] by blast
  moreover have "cnt w' r = word_of_int (total r w')" for r
    using reaches_inv [OF reaches_trans [OF w'(1) assms(1)] init_inv] idle_counted [OF joined_idle [OF w'(2)], of r]
    by (simp add: count_inv_def)
  ultimately show ?thesis by blast
qed

theorem workers_can_end_witness:
  "\<exists>w w'. run_labels (take 8 demo_labels) (world_init [Producer, Producer, Consumer]) = Some w
     \<and> lock w Producer = Some 0 \<and> reaches w w' \<and> joined w'"
proof -
  obtain w where w: "run_labels (take 8 demo_labels) (world_init [Producer, Producer, Consumer]) = Some w"
    "released w" "lock w Producer = Some 0"
    by (simp add: demo_labels_def world_init_def step_defs)
  from workers_can_end [OF run_labels_reaches [OF w(1)] w(2)] w show ?thesis by blast
qed

end
