(* ===== verification/Arg_Parse.thy ===== *)
theory Arg_Parse
  imports Py_Float
begin

text \<open>
  Python's \<^verbatim>\<open>argparse\<close> as the scripts use it: long options with one value or with none, at most one
  positional argument, types \<^verbatim>\<open>str\<close>, \<^verbatim>\<open>int\<close> and \<^verbatim>\<open>float\<close>, choices, defaults and required options.
  The algorithm is the one of the standard library (version 3.11): every argument is classified
  first, abbreviations of long options included; then options and positional arguments are taken
  from left to right; then required arguments are looked for, and what was left over is refused.
\<close>

section \<open>Parsers and their results\<close>

datatype argval = VNone | VBool bool | VInt int | VFloat pyfloat | VStr string

datatype conv = AsStr | AsInt | AsFloat

datatype arg_action =
    StoreValue conv "string list option"   \<comment> \<open>\<^verbatim>\<open>type\<close> and \<^verbatim>\<open>choices\<close>\<close>
  | StoreTrue

record argument =
  flag :: string
  action :: arg_action
  fallback :: argval                       \<comment> \<open>\<^verbatim>\<open>default\<close>\<close>
  required :: bool

record parser =
  positional :: "argument option"
  optionals :: "argument list"

datatype usage_error =
    Ambiguous string "string list"
  | ExpectedOne string
  | IgnoredExplicit string string
  | InvalidValue string string
  | InvalidChoice string string
  | MissingRequired "string list"
  | Unrecognized "string list"

type_synonym namespace = "string \<rightharpoonup> argval"

datatype outcome = Parsed namespace | HelpExit | UsageError usage_error

text \<open>The name of the attribute: \<^verbatim>\<open>--ready-file\<close> is kept as \<^verbatim>\<open>ready_file\<close>.\<close>

definition dest :: "argument \<Rightarrow> string" where
  "dest a = map (\<lambda>c. if c = CHR ''-'' then CHR ''_'' else c)
     (if py_startswith (flag a) ''--'' then drop 2 (flag a) else flag a)"

definition arguments :: "parser \<Rightarrow> argument list" where
  "arguments P = (case positional P of None \<Rightarrow> [] | Some a \<Rightarrow> [a]) @ optionals P"

text \<open>An option string stands for the help action every parser has or for one of its own.\<close>

datatype target = Help | Opt argument

definition option_strings :: "parser \<Rightarrow> (string \<times> target) list" where
  "option_strings P = (''-h'', Help) # (''--help'', Help) # map (\<lambda>a. (flag a, Opt a)) (optionals P)"

section \<open>Classifying the arguments\<close>

datatype token =
    TArg string
  | TDash                                   \<comment> \<open>the argument \<^verbatim>\<open>--\<close>\<close>
  | TOpt string target "string option"      \<comment> \<open>option string and the text after \<^verbatim>\<open>=\<close>\<close>
  | TBundle string                          \<comment> \<open>\<^verbatim>\<open>-h\<close> directly followed by more characters\<close>
  | TUnknown string

text \<open>\<^verbatim>\<open>'^-\d+$|^-\d*\.\d+$'\<close>; \<^verbatim>\<open>$\<close> matches before a final line feed too.\<close>

definition dec_digit :: "char \<Rightarrow> bool" where
  "dec_digit c \<longleftrightarrow> digit_val c \<noteq> None"

definition number_like :: "string \<Rightarrow> bool" where
  "number_like r =
     (let d = takeWhile dec_digit r; e = dropWhile dec_digit r in
      (d \<noteq> [] \<and> e = []) \<or> (e \<noteq> [] \<and> hd e = CHR ''.'' \<and> tl e \<noteq> [] \<and> list_all dec_digit (tl e)))"

definition negative_number :: "string \<Rightarrow> bool" where
  "negative_number s =
     (case s of [] \<Rightarrow> False
      | c # r \<Rightarrow> c = CHR ''-'' \<and> (number_like r \<or> (r \<noteq> [] \<and> last r = CHR 0x0A \<and> number_like (butlast r))))"

text \<open>The text after the first \<^verbatim>\<open>=\<close>, if there is one.\<close>

definition explicit_arg :: "string \<Rightarrow> string option" where
  "explicit_arg s = (if CHR ''='' \<in> set s then Some (snd (split_eq s)) else None)"

definition get_option_tuples :: "parser \<Rightarrow> string \<Rightarrow> token list" where
  "get_option_tuples P s =
     (if s ! 1 = CHR ''-''
      then map (\<lambda>(name, t). TOpt name t (explicit_arg s))
             (filter (\<lambda>(name, t). py_startswith name (fst (split_eq s))) (option_strings P))
      else if take 2 s = ''-h'' then [TBundle (drop 2 s)] else [])"

definition token_name :: "token \<Rightarrow> string" where
  "token_name k = (case k of TOpt name t e \<Rightarrow> name | _ \<Rightarrow> ''-h'')"

definition parse_optional :: "parser \<Rightarrow> string \<Rightarrow> usage_error + token" where
  "parse_optional P s =
     (if s = [] \<or> hd s \<noteq> CHR ''-'' then Inr (TArg s)
      else case map_of (option_strings P) s of
        Some t \<Rightarrow> Inr (TOpt s t None)
      | None \<Rightarrow>
          if length s = 1 then Inr (TArg s)
          else case (if CHR ''='' \<in> set s then map_of (option_strings P) (fst (split_eq s)) else None) of
            Some t \<Rightarrow> Inr (TOpt (fst (split_eq s)) t (explicit_arg s))
          | None \<Rightarrow>
              (case get_option_tuples P s of
                 [] \<Rightarrow> Inr (if negative_number s \<or> CHR '' '' \<in> set s then TArg s else TUnknown s)
               | [k] \<Rightarrow> Inr k
               | ks \<Rightarrow> Inl (Ambiguous s (map token_name ks))))"

fun classify :: "parser \<Rightarrow> string list \<Rightarrow> usage_error + token list" where
  "classify P [] = Inr []"
| "classify P (s # ss) =
     (if s = ''--'' then Inr (TDash # map TArg ss)
      else case parse_optional P s of
        Inl e \<Rightarrow> Inl e
      | Inr k \<Rightarrow> map_sum id (\<lambda>ks. k # ks) (classify P ss))"

section \<open>Taking the arguments\<close>

definition get_value :: "argument \<Rightarrow> string \<Rightarrow> usage_error + argval" where
  "get_value a s =
     (case action a of
        StoreTrue \<Rightarrow> Inr (VBool True)
      | StoreValue c choices \<Rightarrow>
          (case (case c of AsStr \<Rightarrow> Some (VStr s)
                 | AsInt \<Rightarrow> map_option VInt (py_int s)
                 | AsFloat \<Rightarrow> map_option VFloat (py_float s)) of
             None \<Rightarrow> Inl (InvalidValue (flag a) s)
           | Some v \<Rightarrow>
               (case choices of
                  None \<Rightarrow> Inr v
                | Some cs \<Rightarrow> if v \<in> set (map VStr cs) then Inr v else Inl (InvalidChoice (flag a) s))))"

record scan =
  ns :: namespace
  seen :: "string list"
  extras :: "string list"
  pos_left :: "argument option"     \<comment> \<open>the positional argument not yet taken\<close>

definition defaults :: "parser \<Rightarrow> namespace" where
  "defaults P = map_of (map (\<lambda>a. (dest a, fallback a)) (arguments P))"

definition scan_start :: "parser \<Rightarrow> scan" where
  "scan_start P = \<lparr>ns = defaults P, seen = [], extras = [], pos_left = positional P\<rparr>"

definition take_action :: "argument \<Rightarrow> string \<Rightarrow> scan \<Rightarrow> usage_error + scan" where
  "take_action a s st =
     map_sum id (\<lambda>v. st\<lparr>ns := (ns st)(dest a \<mapsto> v), seen := seen st @ [dest a]\<rparr>) (get_value a s)"

definition extra :: "string \<Rightarrow> scan \<Rightarrow> scan" where
  "extra s st = st\<lparr>extras := extras st @ [s]\<rparr>"

fun drop_dash :: "token list \<Rightarrow> token list" where
  "drop_dash (TDash # ks) = ks"
| "drop_dash ks = ks"

lemma length_drop_dash [termination_simp]: "length (drop_dash ks) < Suc (length ks)"
  by (cases ks rule: drop_dash.cases) auto

text \<open>The argument that follows, if the next argument is not an option.\<close>

fun next_arg :: "token list \<Rightarrow> (string \<times> token list) option" where
  "next_arg (TArg s # ks) = Some (s, ks)"
| "next_arg ks = None"

lemma length_next_arg [termination_simp]: "next_arg ks = Some (s, ks') \<Longrightarrow> length ks' < length ks"
  by (cases ks rule: next_arg.cases) auto

definition takes_value :: "argument \<Rightarrow> bool" where
  "takes_value a \<longleftrightarrow> action a \<noteq> StoreTrue"

text \<open>The outcome of the characters after \<^verbatim>\<open>-h\<close>: a help action unless an explicit value is hidden in them.\<close>

definition bundle_outcome :: "string \<Rightarrow> outcome" where
  "bundle_outcome r =
     (case dropWhile (\<lambda>c. c = CHR ''h'') r of
        [] \<Rightarrow> HelpExit
      | c # cs \<Rightarrow> if c = CHR ''='' \<or> c = CHR ''-'' then UsageError (IgnoredExplicit ''-h'' (c # cs)) else HelpExit)"

fun consume :: "scan \<Rightarrow> token list \<Rightarrow> outcome + scan" where
  "consume st [] = Inr st"
| "consume st (TArg s # ks) =
     (case pos_left st of
        None \<Rightarrow> consume (extra s st) ks
      | Some a \<Rightarrow>
          (case take_action a s st of
             Inl e \<Rightarrow> Inl (UsageError e)
           | Inr st' \<Rightarrow> consume (st'\<lparr>pos_left := None\<rparr>) (drop_dash ks)))"
| "consume st (TDash # ks) =
     (case next_arg ks of
        None \<Rightarrow> consume (extra ''--'' st) ks
      | Some (s, ks') \<Rightarrow>
          (case pos_left st of
             None \<Rightarrow> consume (extra ''--'' st) ks
           | Some a \<Rightarrow>
               (case take_action a s st of
                  Inl e \<Rightarrow> Inl (UsageError e)
                | Inr st' \<Rightarrow> consume (st'\<lparr>pos_left := None\<rparr>) ks')))"
| "consume st (TUnknown s # ks) = consume (extra s st) ks"
| "consume st (TBundle r # ks) = Inl (bundle_outcome r)"
| "consume st (TOpt name Help None # ks) = Inl HelpExit"
| "consume st (TOpt name Help (Some v) # ks) = Inl (UsageError (IgnoredExplicit name v))"
| "consume st (TOpt name (Opt a) (Some v) # ks) =
     (if takes_value a then
        (case take_action a v st of Inl e \<Rightarrow> Inl (UsageError e) | Inr st' \<Rightarrow> consume st' ks)
      else Inl (UsageError (IgnoredExplicit name v)))"
| "consume st (TOpt name (Opt a) None # ks) =
     (if takes_value a then
        (case next_arg ks of
           None \<Rightarrow> Inl (UsageError (ExpectedOne name))
         | Some (s, ks') \<Rightarrow>
             (case take_action a s st of Inl e \<Rightarrow> Inl (UsageError e) | Inr st' \<Rightarrow> consume st' ks'))
      else case take_action a [] st of Inl e \<Rightarrow> Inl (UsageError e) | Inr st' \<Rightarrow> consume st' ks)"

definition missing :: "parser \<Rightarrow> scan \<Rightarrow> string list" where
  "missing P st = map flag (filter (\<lambda>a. required a \<and> dest a \<notin> set (seen st)) (arguments P))"

definition scan_finish :: "parser \<Rightarrow> scan \<Rightarrow> outcome" where
  "scan_finish P st =
     (if missing P st \<noteq> [] then UsageError (MissingRequired (missing P st))
      else if extras st \<noteq> [] then UsageError (Unrecognized (extras st))
      else Parsed (ns st))"

definition parse_args :: "parser \<Rightarrow> string list \<Rightarrow> outcome" where
  "parse_args P argv =
     (case classify P argv of
        Inl e \<Rightarrow> UsageError e
      | Inr ks \<Rightarrow> (case consume (scan_start P) ks of Inl r \<Rightarrow> r | Inr st \<Rightarrow> scan_finish P st))"

section \<open>Reading what was spelled\<close>

text \<open>
  A caller gives an option as \<^verbatim>\<open>--name=value\<close>, as \<^verbatim>\<open>--name value\<close>, or as \<^verbatim>\<open>--name\<close> when it takes no
  value, where the name may be cut to any prefix that only one option of the parser has.
\<close>

definition abbreviates :: "parser \<Rightarrow> argument \<Rightarrow> string \<Rightarrow> bool" where
  "abbreviates P a p \<longleftrightarrow> a \<in> set (optionals P) \<and>
     (p = flag a \<or> py_startswith p ''--'' \<and> CHR ''='' \<notin> set p
        \<and> filter (\<lambda>(name, t). py_startswith name p) (option_strings P) = [(flag a, Opt a)])"

datatype spelling = Joined argument string string | Apart argument string string | Bare argument string

fun spelled :: "spelling \<Rightarrow> argument" where
  "spelled (Joined a p v) = a"
| "spelled (Apart a p v) = a"
| "spelled (Bare a p) = a"

fun words_of :: "spelling \<Rightarrow> string list" where
  "words_of (Joined a p v) = [p @ ''='' @ v]"
| "words_of (Apart a p v) = [p, v]"
| "words_of (Bare a p) = [p]"

fun given :: "spelling \<Rightarrow> usage_error + argval" where
  "given (Joined a p v) = get_value a v"
| "given (Apart a p v) = get_value a v"
| "given (Bare a p) = Inr (VBool True)"

fun spelled_ok :: "parser \<Rightarrow> spelling \<Rightarrow> bool" where
  "spelled_ok P (Joined a p v) \<longleftrightarrow> abbreviates P a p \<and> takes_value a \<and> \<not> isl (get_value a v)"
| "spelled_ok P (Apart a p v) \<longleftrightarrow> abbreviates P a p \<and> takes_value a \<and> \<not> isl (get_value a v)
     \<and> v \<noteq> ''--'' \<and> parse_optional P v = Inr (TArg v)"
| "spelled_ok P (Bare a p) \<longleftrightarrow> abbreviates P a p \<and> \<not> takes_value a"

definition assign :: "spelling \<Rightarrow> namespace \<Rightarrow> namespace" where
  "assign sp m = m(dest (spelled sp) \<mapsto> projr (given sp))"

fun token_of :: "spelling \<Rightarrow> token list" where
  "token_of (Joined a p v) = [TOpt (flag a) (Opt a) (Some v)]"
| "token_of (Apart a p v) = [TOpt (flag a) (Opt a) None, TArg v]"
| "token_of (Bare a p) = [TOpt (flag a) (Opt a) None]"

text \<open>The values an option may have: what its type reads, one of its choices, or a truth value.\<close>

definition admits :: "argument \<Rightarrow> argval \<Rightarrow> bool" where
  "admits a v =
     (case action a of
        StoreTrue \<Rightarrow> (case v of VBool b \<Rightarrow> True | _ \<Rightarrow> False)
      | StoreValue c choices \<Rightarrow>
          (case (c, v) of (AsStr, VStr s) \<Rightarrow> True | (AsInt, VInt i) \<Rightarrow> True | (AsFloat, VFloat f) \<Rightarrow> True | _ \<Rightarrow> False)
          \<and> (case choices of None \<Rightarrow> True | Some cs \<Rightarrow> v \<in> set (map VStr cs)))"

lemma get_value_admits: "get_value a s = Inr v \<Longrightarrow> admits a v"
  by (auto simp: get_value_def admits_def split: arg_action.splits conv.splits option.splits if_splits)

lemma startswith_iff: "py_startswith s p \<longleftrightarrow> (\<exists>t. s = p @ t)"
  by (induction s p rule: py_startswith.induct) auto

lemma split_eq_joined: "CHR ''='' \<notin> set p \<Longrightarrow> split_eq (p @ CHR ''='' # v) = (p, v)"
  by (induction p) (auto simp: split_eq_def)

lemma split_eq_none: "CHR ''='' \<notin> set p \<Longrightarrow> split_eq p = (p, [])"
  by (induction p) (auto simp: split_eq_def)

lemma consume_not_parsed: "consume st ks \<noteq> Inl (Parsed m)"
  by (induction st ks rule: consume.induct)
    (auto simp: bundle_outcome_def split: option.splits sum.splits list.splits)

section \<open>What every well-formed table promises\<close>

locale option_table =
  fixes P :: parser
  assumes long: "a \<in> set (optionals P) \<Longrightarrow> py_startswith (flag a) ''--'' \<and> 2 < length (flag a) \<and> CHR ''='' \<notin> set (flag a)"
    and flags: "distinct (''--help'' # map flag (optionals P))"
    and dests: "distinct (map dest (arguments P))"
begin

lemma abbreviates_props:
  assumes "abbreviates P a p"
  shows "py_startswith p ''--''" "CHR ''='' \<notin> set p" "a \<in> set (optionals P)"
  using assms long [of a] by (auto simp: abbreviates_def)

lemma option_strings_flag:
  assumes "a \<in> set (optionals P)"
  shows "map_of (option_strings P) (flag a) = Some (Opt a)"
proof -
  have "map_of (map (\<lambda>a. (flag a, Opt a)) (optionals P)) (flag a) = Some (Opt a)"
    using assms flags by (intro map_of_is_SomeI) (auto simp: comp_def)
  moreover have "flag a \<noteq> ''-h''" "flag a \<noteq> ''--help''" using assms long [of a] flags by (auto, force)
  ultimately show ?thesis by (simp add: option_strings_def)
qed

lemma option_string_filtered:
  "map_of (option_strings P) p = Some t \<Longrightarrow> (p, t) \<in> set (filter (\<lambda>(name, t). py_startswith name p) (option_strings P))"
  by (auto simp: startswith_iff dest: map_of_SomeD)

lemma abbreviated:
  assumes "abbreviates P a p"
  shows "p = flag a \<or> map_of (option_strings P) p = None
    \<and> filter (\<lambda>(name, t). py_startswith name p) (option_strings P) = [(flag a, Opt a)]"
proof (cases "map_of (option_strings P) p")
  case (Some t)
  note found = option_string_filtered [OF Some]
  from assms have "p = flag a \<or> filter (\<lambda>(name, t). py_startswith name p) (option_strings P) = [(flag a, Opt a)]"
    by (auto simp: abbreviates_def)
  with found show ?thesis by (metis (no_types, lifting) empty_iff fst_conv list.set(1) set_ConsD)
qed (use assms in \<open>auto simp: abbreviates_def\<close>)

lemma abbreviation_length:
  assumes "abbreviates P a p"
  obtains n where "p = CHR ''-'' # CHR ''-'' # n" "n \<noteq> []"
proof -
  from abbreviates_props [OF assms] obtain n where n: "p = CHR ''-'' # CHR ''-'' # n"
    by (auto simp: startswith_iff)
  have "n \<noteq> []"
  proof
    assume "n = []"
    with n have "p = ''--''" by simp
    with abbreviated [OF assms] have "flag a = ''--''" by (auto simp: option_strings_def)
    with long [OF abbreviates_props(3) [OF assms]] show False by simp
  qed
  with n that show thesis by blast
qed

lemma parse_joined:
  assumes "abbreviates P a p"
  shows "parse_optional P (p @ ''='' @ v) = Inr (TOpt (flag a) (Opt a) (Some v))"
proof -
  obtain n where n: "p = CHR ''-'' # CHR ''-'' # n" "n \<noteq> []" by (rule abbreviation_length [OF assms])
  have noeq: "CHR ''='' \<notin> set name" if "(name, t) \<in> set (option_strings P)" for name t
    using that long by (auto simp: option_strings_def)
  have whole: "map_of (option_strings P) (p @ CHR ''='' # v) = None"
    using noeq by (fastforce simp: map_of_eq_None_iff)
  have split: "split_eq (p @ CHR ''='' # v) = (p, v)"
    by (rule split_eq_joined [OF abbreviates_props(2) [OF assms]])
  from abbreviated [OF assms] show ?thesis
  proof
    assume "p = flag a"
    with whole split n option_strings_flag [OF abbreviates_props(3) [OF assms]] show ?thesis
      by (simp add: parse_optional_def explicit_arg_def)
  next
    assume "map_of (option_strings P) p = None
      \<and> filter (\<lambda>(name, t). py_startswith name p) (option_strings P) = [(flag a, Opt a)]"
    with whole split n show ?thesis
      by (simp add: parse_optional_def get_option_tuples_def explicit_arg_def)
  qed
qed

lemma parse_alone:
  assumes "abbreviates P a p"
  shows "parse_optional P p = Inr (TOpt (flag a) (Opt a) None)"
proof -
  obtain n where n: "p = CHR ''-'' # CHR ''-'' # n" "n \<noteq> []" by (rule abbreviation_length [OF assms])
  note noeq = abbreviates_props(2) [OF assms]
  from abbreviated [OF assms] show ?thesis
  proof
    assume "p = flag a"
    with n option_strings_flag [OF abbreviates_props(3) [OF assms]] show ?thesis
      by (simp add: parse_optional_def)
  next
    assume "map_of (option_strings P) p = None
      \<and> filter (\<lambda>(name, t). py_startswith name p) (option_strings P) = [(flag a, Opt a)]"
    with noeq n split_eq_none [OF noeq] show ?thesis
      by (simp add: parse_optional_def get_option_tuples_def explicit_arg_def)
  qed
qed

lemma not_double_dash: "\<not> abbreviates P a ''--''" "abbreviates P a p \<Longrightarrow> p @ CHR ''='' # v \<noteq> ''--''"
  using abbreviation_length by fastforce+

lemma classify_spelled:
  assumes "spelled_ok P sp"
  shows "classify P (words_of sp @ ss) = map_sum id (\<lambda>ks. token_of sp @ ks) (classify P ss)"
  using assms
  by (cases sp; cases "classify P ss")
    (auto simp: parse_alone parse_joined [simplified] not_double_dash)

lemma classify_spellings:
  assumes "list_all (spelled_ok P) sps"
  shows "classify P (concat (map words_of sps) @ ss) = map_sum id (\<lambda>ks. concat (map token_of sps) @ ks) (classify P ss)"
  using assms by (induction sps; cases "classify P ss") (auto simp: classify_spelled)

lemma consume_spelled:
  assumes "spelled_ok P sp"
  shows "consume st (token_of sp @ ks)
    = consume (st\<lparr>ns := assign sp (ns st), seen := seen st @ [dest (spelled sp)]\<rparr>) ks"
proof -
  have "get_value a [] = Inr (VBool True)" if "\<not> takes_value a" for a
    using that by (simp add: takes_value_def get_value_def)
  then have bare: "take_action a [] st = Inr (st\<lparr>ns := (ns st)(dest a \<mapsto> VBool True), seen := seen st @ [dest a]\<rparr>)"
    if "\<not> takes_value a" for a
    using that by (simp add: take_action_def)
  have "take_action a v st = Inr (st\<lparr>ns := (ns st)(dest a \<mapsto> projr (get_value a v)), seen := seen st @ [dest a]\<rparr>)"
    if "\<not> isl (get_value a v)" for a v
    using that by (cases "get_value a v") (simp_all add: take_action_def)
  with bare show ?thesis using assms by (cases sp) (simp_all add: assign_def)
qed

lemma consume_spellings:
  assumes "list_all (spelled_ok P) sps"
  shows "consume st (concat (map token_of sps) @ ks)
    = consume (st\<lparr>ns := fold assign sps (ns st), seen := seen st @ map (dest \<circ> spelled) sps\<rparr>) ks"
  using assms by (induction sps arbitrary: st) (auto simp: consume_spelled)

text \<open>A well-spelled command line is read as what it spells; a later value replaces an earlier one.\<close>

lemma reads_spellings:
  assumes "positional P = None" and "list_all (spelled_ok P) sps"
    and "\<And>a. a \<in> set (optionals P) \<Longrightarrow> required a \<Longrightarrow> dest a \<in> (dest \<circ> spelled) ` set sps"
  shows "parse_args P (concat (map words_of sps)) = Parsed (fold assign sps (defaults P))"
proof -
  have "classify P (concat (map words_of sps)) = Inr (concat (map token_of sps))"
    using classify_spellings [OF assms(2), of "[]"] by simp
  moreover have "consume (scan_start P) (concat (map token_of sps))
      = Inr ((scan_start P)\<lparr>ns := fold assign sps (defaults P), seen := map (dest \<circ> spelled) sps\<rparr>)"
    using consume_spellings [OF assms(2), of "scan_start P" "[]"] by (simp add: scan_start_def)
  moreover have "missing P ((scan_start P)\<lparr>ns := m, seen := map (dest \<circ> spelled) sps\<rparr>) = []" for m
    using assms(1,3) by (auto simp: missing_def arguments_def filter_empty_conv)
  ultimately show ?thesis by (simp add: parse_args_def scan_finish_def) (simp add: scan_start_def)
qed

text \<open>
  Every argument has a value in every state of the scan: the default until the argument is seen,
  and then a value read from the command line.
\<close>

definition scanned :: "scan \<Rightarrow> bool" where
  "scanned st \<longleftrightarrow> dom (ns st) = dest ` set (arguments P)
     \<and> (\<forall>a \<in> set (arguments P). if dest a \<in> set (seen st) then \<exists>s. map_option Inr (ns st (dest a)) = Some (get_value a s)
          else ns st (dest a) = Some (fallback a))
     \<and> (\<forall>a. pos_left st = Some a \<longrightarrow> a \<in> set (arguments P))"

definition known :: "token \<Rightarrow> bool" where
  "known k \<longleftrightarrow> (\<forall>name a e. k = TOpt name (Opt a) e \<longrightarrow> a \<in> set (optionals P))"

lemma option_strings_known: "(name, Opt a) \<in> set (option_strings P) \<Longrightarrow> a \<in> set (optionals P)"
  by (auto simp: option_strings_def)

lemma option_tuples_known: "k \<in> set (get_option_tuples P s) \<Longrightarrow> known k"
  by (auto simp: known_def get_option_tuples_def option_strings_known split: if_splits)

lemma parse_optional_known:
  assumes "parse_optional P s = Inr k"
  shows "known k"
proof -
  from assms consider t where "k = TArg t" | t where "k = TUnknown t"
    | name t e where "k = TOpt name t e" "map_of (option_strings P) name = Some t" | "get_option_tuples P s = [k]"
    by (fastforce simp: parse_optional_def split: if_splits option.splits list.splits)
  then show ?thesis
    using option_tuples_known [of k s] option_strings_known by cases (auto simp: known_def dest!: map_of_SomeD)
qed

lemma classify_known: "classify P ss = Inr ks \<Longrightarrow> k \<in> set ks \<Longrightarrow> known k"
proof (induction ss arbitrary: ks)
  case (Cons s ss)
  show ?case
  proof (cases "s = ''--''")
    case True
    with Cons.prems show ?thesis by (auto simp: known_def)
  next
    case False
    with Cons.prems(1) obtain k' ks' where "parse_optional P s = Inr k'" "classify P ss = Inr ks'" "ks = k' # ks'"
      by (cases "classify P ss") (auto split: sum.splits)
    with Cons.IH Cons.prems(2) parse_optional_known show ?thesis by auto
  qed
qed simp

lemma dest_inj: "a \<in> set (arguments P) \<Longrightarrow> b \<in> set (arguments P) \<Longrightarrow> dest a = dest b \<Longrightarrow> a = b"
  using dests by (auto simp: distinct_map dest: inj_onD)

lemma scanned_start: "scanned (scan_start P)"
proof -
  have "defaults P (dest a) = Some (fallback a)" if "a \<in> set (arguments P)" for a
    using that dests unfolding defaults_def by (intro map_of_is_SomeI) (auto simp: comp_def)
  then show ?thesis
    by (auto simp: scanned_def scan_start_def arguments_def defaults_def dom_map_of_conv_image_fst image_image split: option.splits)
qed

lemma scanned_take:
  assumes "scanned st" and "a \<in> set (arguments P)" and "take_action a s st = Inr st'"
  shows "scanned st'" and "scanned (st'\<lparr>pos_left := None\<rparr>)"
proof -
  from assms(3) obtain v where v: "get_value a s = Inr v"
    and st': "st' = st\<lparr>ns := (ns st)(dest a \<mapsto> v), seen := seen st @ [dest a]\<rparr>"
    by (cases "get_value a s") (auto simp: take_action_def)
  have "\<exists>s. map_option Inr (ns st' (dest b)) = Some (get_value b s)" if "b \<in> set (arguments P)" "dest b = dest a" for b
    using that dest_inj [OF that(1) assms(2) that(2)] v st' by (metis fun_upd_same option.map(2) scan.select_convs(1) scan.simps(5) scan.surjective scan.update_convs(1,2))
  then show "scanned st'" "scanned (st'\<lparr>pos_left := None\<rparr>)"
    using assms(1,2) st' unfolding scanned_def by (auto split: if_splits)
qed

lemma scanned_extra [simp]: "scanned (extra s st) \<longleftrightarrow> scanned st"
  by (simp add: scanned_def extra_def)

lemma optional_argument: "a \<in> set (optionals P) \<Longrightarrow> a \<in> set (arguments P)"
  by (simp add: arguments_def)

lemma scanned_left: "scanned st \<Longrightarrow> pos_left st = Some a \<Longrightarrow> a \<in> set (arguments P)"
  by (simp add: scanned_def)

lemma next_arg_sub: "next_arg ks = Some (s, ks') \<Longrightarrow> k \<in> set ks' \<Longrightarrow> k \<in> set ks"
  by (cases ks rule: next_arg.cases) auto

lemma consume_scanned:
  assumes "consume st ks = Inr st'" and "scanned st" and "\<And>k. k \<in> set ks \<Longrightarrow> known k"
  shows "scanned st'"
  using assms
proof (induction st ks rule: consume.induct)
  case (2 st s ks)
  have sub: "set (drop_dash ks) \<subseteq> set ks" by (cases ks rule: drop_dash.cases) auto
  show ?case
  proof (cases "pos_left st")
    case (Some a)
    from "2.prems"(1) Some obtain st1 where taken: "take_action a s st = Inr st1"
      and rest: "consume (st1\<lparr>pos_left := None\<rparr>) (drop_dash ks) = Inr st'"
      by (auto split: sum.splits)
    from "2.IH"(2) [OF Some taken rest scanned_take(2) [OF "2.prems"(2) scanned_left [OF "2.prems"(2) Some] taken]]
    show ?thesis using "2.prems"(3) sub by auto
  next
    case None
    with 2 show ?thesis by simp
  qed
next
  case (3 st ks)
  show ?case
  proof (cases "\<exists>a s ks'. pos_left st = Some a \<and> next_arg ks = Some (s, ks')")
    case True
    then obtain a s ks' where found: "pos_left st = Some a" "next_arg ks = Some (s, ks')" by blast
    from "3.prems"(1) found obtain st1 where taken: "take_action a s st = Inr st1"
      and rest: "consume (st1\<lparr>pos_left := None\<rparr>) ks' = Inr st'"
      by (auto split: sum.splits)
    from "3.IH"(3) [OF found(2) refl found(1) taken rest
        scanned_take(2) [OF "3.prems"(2) scanned_left [OF "3.prems"(2) found(1)] taken]]
    show ?thesis using "3.prems"(3) next_arg_sub [OF found(2)] by auto
  next
    case False
    with 3 show ?thesis by (auto split: option.splits)
  qed
next
  case (8 st name a v ks)
  have "a \<in> set (arguments P)"
    using "8.prems"(3) [of "TOpt name (Opt a) (Some v)"] by (simp add: known_def optional_argument)
  with 8 show ?case by (auto split: if_splits sum.splits dest: scanned_take(1))
next
  case (9 st name a ks)
  have "a \<in> set (arguments P)"
    using "9.prems"(3) [of "TOpt name (Opt a) None"] by (simp add: known_def optional_argument)
  note taken_ok = scanned_take(1) [OF "9.prems"(2) this]
  show ?case
  proof (cases "takes_value a")
    case True
    with "9.prems"(1) obtain s ks' st1 where "next_arg ks = Some (s, ks')" "take_action a s st = Inr st1" "consume st1 ks' = Inr st'"
      by (auto split: option.splits sum.splits)
    with "9.IH"(1) [OF True _ refl] taken_ok "9.prems"(3) next_arg_sub show ?thesis by auto
  next
    case False
    with "9.prems"(1) obtain st1 where "take_action a [] st = Inr st1" "consume st1 ks = Inr st'"
      by (auto split: sum.splits)
    with "9.IH"(2) [OF False] taken_ok "9.prems"(3) show ?thesis by auto
  qed
qed auto

text \<open>A namespace has a value for exactly the arguments of the table, each of the argument's type.\<close>

lemma parsed_typed:
  assumes "parse_args P argv = Parsed m"
  shows "dom m = dest ` set (arguments P)"
    and "a \<in> set (arguments P) \<Longrightarrow> \<exists>v. m (dest a) = Some v \<and> (admits a v \<or> v = fallback a \<and> \<not> required a)"
proof -
  from assms obtain ks st where ks: "classify P argv = Inr ks" and st: "consume (scan_start P) ks = Inr st"
    and fin: "scan_finish P st = Parsed m"
    by (auto simp: parse_args_def consume_not_parsed split: sum.splits)
  have inv: "scanned st"
    by (rule consume_scanned [OF st scanned_start classify_known [OF ks]])
  from fin have m: "m = ns st" and none: "missing P st = []" by (auto simp: scan_finish_def split: if_splits)
  from inv m show "dom m = dest ` set (arguments P)" by (simp add: scanned_def)
  show "\<exists>v. m (dest a) = Some v \<and> (admits a v \<or> v = fallback a \<and> \<not> required a)" if a: "a \<in> set (arguments P)"
  proof (cases "dest a \<in> set (seen st)")
    case True
    with inv a obtain s where "map_option Inr (ns st (dest a)) = Some (get_value a s)"
      unfolding scanned_def by meson
    then obtain v where "ns st (dest a) = Some v" "get_value a s = Inr v"
      by (cases "ns st (dest a)") auto
    with m get_value_admits show ?thesis by blast
  next
    case False
    with inv a have "ns st (dest a) = Some (fallback a)" by (simp add: scanned_def)
    moreover have "\<not> required a" using none a False by (auto simp: missing_def filter_empty_conv)
    ultimately show ?thesis using m by simp
  qed
qed

end

end
