(* ===== verification/Db_Session.thy ===== *)
theory Db_Session
  imports Py_Float
begin

text \<open>
  The database side of the BlazingMQ scripts (\<^verbatim>\<open>sustained_bench.py\<close>,
  \<^verbatim>\<open>filtered_bench.py\<close>, \<^verbatim>\<open>multi_queue_bench.py\<close>, \<^verbatim>\<open>parallel_bench.py\<close>): what a worker
  process does through \<^verbatim>\<open>psycopg\<close>, the monotonic clock, the barrier and the shared
  counters, as interactions of a history, and the helper \<^verbatim>\<open>execute_with_open_retry\<close>
  the first three share. The driver and the server behind it are the environment's
  choice: every answer is a function of the worker's history.
\<close>

section \<open>Interactions of a worker\<close>

datatype sqlval = SText string | SInt int | SNull

datatype dbev =
    Connect string
  | Execute string "sqlval list"
  | FetchOne
  | FetchAll
  | CursorExit
  | ConnExit
  | BarrierWait
  | PerfCounter
  | Uniform rat rat
  | DbSleep rat
  | AddCounter nat int     \<comment> \<open>\<^verbatim>\<open>with c.get_lock(): c.value += n\<close> on the shared counter number \<open>c\<close>\<close>
  | ReadCounter nat
  | DbPrint string

type_synonym dbhist = "dbev list"
type_synonym 'a db = "(dbev, 'a) prog"

text \<open>
  \<open>fetchone_ans\<close> answers \<^verbatim>\<open>cur.fetchone()[0]\<close> for the counting statements;
  \<open>fetchall_ans\<close> answers the rows of a statement with one text column, \<open>None\<close> being NULL;
  \<open>fetchsizes_ans\<close> and \<open>fetchverify_ans\<close> answer \<^verbatim>\<open>cur.fetchone()\<close> for a row of two floats and
  a row of four counts.
  \<open>quote_literal\<close> is \<^verbatim>\<open>psycopg.sql.Literal(s).as_string(cur)\<close>.
\<close>

record denv =
  connect_ans :: "dbhist \<Rightarrow> string \<Rightarrow> exc + unit"
  execute_ans :: "dbhist \<Rightarrow> string \<Rightarrow> sqlval list \<Rightarrow> exc + unit"
  fetchone_ans :: "dbhist \<Rightarrow> exc + int"
  fetchall_ans :: "dbhist \<Rightarrow> exc + string option list"
  fetchsizes_ans :: "dbhist \<Rightarrow> exc + rat option \<times> rat option"
  fetchverify_ans :: "dbhist \<Rightarrow> exc + int \<times> int \<times> int \<times> int"
  barrier_ans :: "dbhist \<Rightarrow> exc + unit"
  perf :: "dbhist \<Rightarrow> rat"
  uniform_ans :: "dbhist \<Rightarrow> rat \<Rightarrow> rat \<Rightarrow> rat"
  db_interrupted :: "dbhist \<Rightarrow> bool"
  counter_ans :: "dbhist \<Rightarrow> nat \<Rightarrow> int"
  quote_literal :: "string \<Rightarrow> string"

definition db_connect :: "denv \<Rightarrow> string \<Rightarrow> unit db" where
  "db_connect D dsn = act (\<lambda>h. connect_ans D h dsn) (Connect dsn)"

definition execute :: "denv \<Rightarrow> string \<Rightarrow> sqlval list \<Rightarrow> unit db" where
  "execute D sql params = act (\<lambda>h. execute_ans D h sql params) (Execute sql params)"

definition fetchone :: "denv \<Rightarrow> int db" where
  "fetchone D = act (fetchone_ans D) FetchOne"

definition fetchall :: "denv \<Rightarrow> string option list db" where
  "fetchall D = act (fetchall_ans D) FetchAll"

definition fetchsizes :: "denv \<Rightarrow> (rat option \<times> rat option) db" where
  "fetchsizes D = act (fetchsizes_ans D) FetchOne"

definition fetchverify :: "denv \<Rightarrow> (int \<times> int \<times> int \<times> int) db" where
  "fetchverify D = act (fetchverify_ans D) FetchOne"

definition db_print :: "string \<Rightarrow> unit db" where
  "db_print s = act (\<lambda>_. Inr ()) (DbPrint s)"

definition cursor_exit :: "unit db" where
  "cursor_exit = act (\<lambda>_. Inr ()) CursorExit"

definition conn_exit :: "unit db" where
  "conn_exit = act (\<lambda>_. Inr ()) ConnExit"

definition barrier_wait :: "denv \<Rightarrow> unit db" where
  "barrier_wait D = act (barrier_ans D) BarrierWait"

definition perf_counter :: "denv \<Rightarrow> rat db" where
  "perf_counter D = act (\<lambda>h. Inr (perf D h)) PerfCounter"

definition uniform :: "denv \<Rightarrow> rat \<Rightarrow> rat \<Rightarrow> rat db" where
  "uniform D a b = act (\<lambda>h. Inr (uniform_ans D h a b)) (Uniform a b)"

definition db_sleep :: "denv \<Rightarrow> rat \<Rightarrow> unit db" where
  "db_sleep D d =
     act (\<lambda>h. if d < 0 then Inl ValueError
              else if db_interrupted D h then Inl KeyboardInterrupt else Inr ()) (DbSleep d)"

definition add_counter :: "nat \<Rightarrow> int \<Rightarrow> unit db" where
  "add_counter c n = act (\<lambda>_. Inr ()) (AddCounter c n)"

definition read_counter :: "denv \<Rightarrow> nat \<Rightarrow> int db" where
  "read_counter D c = act (\<lambda>h. Inr (counter_ans D h c)) (ReadCounter c)"

text \<open>\<^verbatim>\<open>with psycopg.connect(dsn) as conn: with conn.cursor() as cur:\<close> around code without a loop.\<close>

definition with_conn :: "denv \<Rightarrow> string \<Rightarrow> 'a db \<Rightarrow> 'a db" where
  "with_conn D dsn block =
     andthen (db_connect D dsn) (try_finally (try_finally block cursor_exit) conn_exit)"

lemmas db_call_defs = db_connect_def execute_def fetchone_def fetchall_def cursor_exit_def
  conn_exit_def barrier_wait_def perf_counter_def uniform_def db_sleep_def add_counter_def
  read_counter_def fetchsizes_def fetchverify_def db_print_def

lemma db_silent:
  "(\<And>k. f k (Connect s) = []) \<Longrightarrow> silent f (db_connect D s)"
  "(\<And>k. f k (Execute s ps) = []) \<Longrightarrow> silent f (execute D s ps)"
  "(\<And>k. f k FetchOne = []) \<Longrightarrow> silent f (fetchone D)"
  "(\<And>k. f k FetchAll = []) \<Longrightarrow> silent f (fetchall D)"
  "(\<And>k. f k CursorExit = []) \<Longrightarrow> silent f cursor_exit"
  "(\<And>k. f k ConnExit = []) \<Longrightarrow> silent f conn_exit"
  "(\<And>k. f k BarrierWait = []) \<Longrightarrow> silent f (barrier_wait D)"
  "(\<And>k. f k PerfCounter = []) \<Longrightarrow> silent f (perf_counter D)"
  "(\<And>k. f k (Uniform a b) = []) \<Longrightarrow> silent f (uniform D a b)"
  "(\<And>k. f k (DbSleep d) = []) \<Longrightarrow> silent f (db_sleep D d)"
  "(\<And>k. f k (AddCounter c n) = []) \<Longrightarrow> silent f (add_counter c n)"
  "(\<And>k. f k (ReadCounter c) = []) \<Longrightarrow> silent f (read_counter D c)"
  by (simp_all add: db_call_defs silent_act)

section \<open>Opening with a retry\<close>

text \<open>
  \<^verbatim>\<open>execute_with_open_retry\<close>: only an internal error whose message contains \<^verbatim>\<open>rc=100\<close> is
  retried, and not on the last attempt. With no attempt at all the loop body never runs and
  the function returns.
\<close>

definition already_opened :: "exc \<Rightarrow> bool" where
  "already_opened e = (case e of InternalError m \<Rightarrow> py_in ''rc=100'' m | _ \<Rightarrow> False)"

fun retry_loop :: "denv \<Rightarrow> string \<Rightarrow> sqlval list \<Rightarrow> nat \<Rightarrow> nat list \<Rightarrow> unit db" where
  "retry_loop D sql params max_attempts [] = ret ()"
| "retry_loop D sql params max_attempts (attempt # attempts) = (\<lambda>h.
     (case execute D sql params h of
        (Inr _, h1) \<Rightarrow> (Inr (), h1)
      | (Inl e, h1) \<Rightarrow>
          if already_opened e \<and> attempt + 1 < max_attempts then
            bind (uniform D 0 (5/100)) (\<lambda>u.
              andthen (db_sleep D (5/100 * of_nat (attempt + 1) + u))
                (retry_loop D sql params max_attempts attempts)) h1
          else (Inl e, h1)))"

definition execute_with_open_retry :: "denv \<Rightarrow> string \<Rightarrow> sqlval list \<Rightarrow> nat \<Rightarrow> unit db" where
  "execute_with_open_retry D sql params max_attempts =
     retry_loop D sql params max_attempts [0..<max_attempts]"

text \<open>What the retry shows: the attempts to execute, and the delays.\<close>

definition tries_ev :: "nat \<Rightarrow> dbev \<Rightarrow> unit list" where
  "tries_ev k e = (case e of Execute _ _ \<Rightarrow> [()] | _ \<Rightarrow> [])"


abbreviation tries :: "dbhist \<Rightarrow> nat" where
  "tries h \<equiv> length (observe tries_ev h)"


definition backoff_ok :: "nat \<Rightarrow> rat list \<Rightarrow> bool" where
  "backoff_ok a ds = (\<forall>i < length ds. 5/100 * of_nat (a + i + 1) \<le> ds ! i
                        \<and> ds ! i \<le> 5/100 * of_nat (a + i + 2))"


lemma backoff_ok_single:
  "backoff_ok a [d] \<longleftrightarrow> 5/100 * of_nat (a + 1) \<le> d \<and> d \<le> 5/100 * of_nat (a + 2)"
  by (simp add: backoff_ok_def)

lemma backoff_delay:
  assumes "0 \<le> u" and "u \<le> 5/100"
  shows "backoff_ok a [5/100 * of_nat (a + 1) + u]" "\<not> 5/100 * of_nat (a + 1) + u < 0"
proof -
  have "5/100 * of_nat (a + 2) = 5/100 * of_nat (a + 1) + (5/100 :: rat)"
    by (simp add: field_simps)
  moreover have "0 \<le> 5/100 * (of_nat (a + 1) :: rat)" by simp
  ultimately show "\<not> 5/100 * of_nat (a + 1) + u < 0" "backoff_ok a [5/100 * of_nat (a + 1) + u]"
    unfolding backoff_ok_single using assms by linarith+
qed

lemma tries_snoc [simp]: "tries (h @ [Execute sql ps]) = tries h + 1"
  by (simp add: observe_snoc tries_ev_def)




section \<open>A concrete session\<close>

text \<open>
  A session in which the first \<open>busy\<close> statements fail with the \<^verbatim>\<open>rc=100\<close> error and all later
  ones succeed, every count is \<open>rows\<close>, and the clock advances by one second per interaction,
  and by the time asked for during a sleep.
\<close>

definition demo_time :: "dbhist \<Rightarrow> rat" where
  "demo_time h = sum_list (map (\<lambda>e. case e of DbSleep d \<Rightarrow> max 0 d | _ \<Rightarrow> 1) h)"

definition demo_db :: "nat \<Rightarrow> int \<Rightarrow> denv" where
  "demo_db busy rows = \<lparr>
     connect_ans = (\<lambda>_ _. Inr ()),
     execute_ans = (\<lambda>h _ _. if tries h < busy then Inl (InternalError ''openQueue: rc=100'') else Inr ()),
     fetchone_ans = (\<lambda>_. Inr rows), fetchall_ans = (\<lambda>_. Inr []),
     fetchsizes_ans = (\<lambda>_. Inr (Some 100, Some (100 * of_int rows))),
     fetchverify_ans = (\<lambda>_. Inr (rows, rows, 0, 0)), barrier_ans = (\<lambda>_. Inr ()),
     perf = demo_time, uniform_ans = (\<lambda>_ a b. (a + b) / 2),
     db_interrupted = (\<lambda>_. False), counter_ans = (\<lambda>_ _. 0), quote_literal = py_repr \<rparr>"



lemma retry_clears:
  assumes ans: "\<forall>h. execute_ans D h sql ps = (if tries h < j then Inl (InternalError m) else Inr ())"
    and "py_in ''rc=100'' m" and "\<forall>h. \<not> db_interrupted D h"
    and u: "\<forall>h. 0 \<le> uniform_ans D h 0 (5/100) \<and> uniform_ans D h 0 (5/100) \<le> 5/100"
    and "tries h \<le> j" and "a \<le> j" and "tries h = t0 + a" and "j < n + t0"
  shows "\<exists>h'. retry_loop D sql ps n [a..<n] h = (Inr (), h') \<and> tries h' = j + 1"
  using assms(5-)
proof (induction "j - tries h" arbitrary: a h)
  case 0
  then have "tries h = j" "a < n" by auto
  then show ?case
    using ans by (auto simp: upt_conv_Cons execute_def act_def)
next
  case (Suc d)
  let ?h1 = "h @ [Execute sql ps]"
  let ?d = "5/100 * of_nat (a + 1) + uniform_ans D ?h1 0 (5/100)"
  let ?h2 = "?h1 @ [Uniform 0 (5/100), DbSleep ?d]"
  have more: "tries h < j" "a + 1 < n" using Suc.hyps(2) Suc.prems by auto
  have t: "tries ?h2 = tries h + 1" by (simp add: trace_simps tries_ev_def)
  have "\<not> ?d < 0" using backoff_delay(2) u by blast
  then have "retry_loop D sql ps n [a..<n] h = retry_loop D sql ps n [Suc a..<n] ?h2"
    using ans assms(2,3) more
    by (simp add: upt_conv_Cons db_call_defs prog_defs already_opened_def)
  moreover have "\<exists>h'. retry_loop D sql ps n [Suc a..<n] ?h2 = (Inr (), h') \<and> tries h' = j + 1"
    using Suc.hyps(2) Suc.prems more t by (intro Suc.hyps(1)) auto
  ultimately show ?case by simp
qed

text \<open>
  The retry clears the startup race: if the statement fails with the \<^verbatim>\<open>rc=100\<close> error
  exactly until it was tried \<open>j\<close> times, with \<open>j\<close> below the allowed number of attempts, and
  nobody interrupts the delays, then the function returns normally, after \<open>j + 1\<close> attempts.
\<close>

theorem open_retry_clears:
  assumes "\<forall>h. execute_ans D h sql ps = (if tries h < j then Inl (InternalError m) else Inr ())"
    and "py_in ''rc=100'' m" and "\<forall>h. \<not> db_interrupted D h"
    and "\<forall>h. 0 \<le> uniform_ans D h 0 (5/100) \<and> uniform_ans D h 0 (5/100) \<le> 5/100" and "j < n"
  shows "\<exists>h'. execute_with_open_retry D sql ps n [] = (Inr (), h') \<and> tries h' = j + 1"
  unfolding execute_with_open_retry_def
  using retry_clears [OF assms(1-4), of "[]" 0 0] assms(5) by simp

theorem open_retry_clears_witness:
  "\<exists>h'. execute_with_open_retry (demo_db 7 5) ''SELECT 1'' [] 8 [] = (Inr (), h') \<and> tries h' = 8"
  using open_retry_clears [of "demo_db 7 5" "''SELECT 1''" "[]" 7 "''openQueue: rc=100''" 8]
  by (simp add: demo_db_def)

end
