(* ===== verification/Db_Loop.thy ===== *)
theory Db_Loop
  imports Db_Session
begin

text \<open>
  The \<^verbatim>\<open>while time.perf_counter() < stop\<close> loops of the worker processes. Such a loop may run
  forever, so it is a partial function into \<open>option\<close>: \<open>None\<close> is a loop that does not return.
  The general lemmas are an invariant rule and a rule that a loop returns; two locales state
  what a body has to promise for them: that it counts what it adds to its shared counter, and
  that it lets time pass.
\<close>

section \<open>Loops\<close>

type_synonym ('ev, 'a) oprog = "'ev list \<Rightarrow> ((exc + 'a) \<times> 'ev list) option"

partial_function (option) while_prog ::
  "('ev, bool) prog \<Rightarrow> ('s \<Rightarrow> ('ev, 's) prog) \<Rightarrow> 's \<Rightarrow> ('ev, 's) oprog" where
  "while_prog cond body s h =
     (case cond h of
        (Inl e, h1) \<Rightarrow> Some (Inl e, h1)
      | (Inr b, h1) \<Rightarrow>
          if b then
            (case body s h1 of
               (Inl e, h2) \<Rightarrow> Some (Inl e, h2)
             | (Inr s', h2) \<Rightarrow> while_prog cond body s' h2)
          else Some (Inr s, h1))"

text \<open>Code before a loop, code after it, and a context manager around it.\<close>

definition then_loop :: "('ev, 'a) prog \<Rightarrow> ('a \<Rightarrow> ('ev, 'b) oprog) \<Rightarrow> ('ev, 'b) oprog" where
  "then_loop m f h = (case m h of (Inl e, h') \<Rightarrow> Some (Inl e, h') | (Inr x, h') \<Rightarrow> f x h')"

definition loop_then :: "('ev, 'a) oprog \<Rightarrow> ('a \<Rightarrow> ('ev, 'b) prog) \<Rightarrow> ('ev, 'b) oprog" where
  "loop_then m f h =
     (case m h of
        None \<Rightarrow> None
      | Some (Inl e, h') \<Rightarrow> Some (Inl e, h')
      | Some (Inr x, h') \<Rightarrow> Some (f x h'))"

definition loop_finally :: "('ev, 'a) oprog \<Rightarrow> ('ev, unit) prog \<Rightarrow> ('ev, 'a) oprog" where
  "loop_finally m k h =
     (case m h of
        None \<Rightarrow> None
      | Some (r, h') \<Rightarrow> (case k h' of (Inl e, h'') \<Rightarrow> Some (Inl e, h'') | (Inr _, h'') \<Rightarrow> Some (r, h'')))"

lemmas loop_defs = then_loop_def loop_then_def loop_finally_def

lemma then_loop_eq_Some_Inr:
  "then_loop m f h = Some (Inr y, h') \<longleftrightarrow> (\<exists>x h1. m h = (Inr x, h1) \<and> f x h1 = Some (Inr y, h'))"
  by (auto simp: then_loop_def split: prod.splits sum.splits)

lemma loop_finally_eq_Some_Inr:
  "loop_finally m k h = Some (Inr y, h') \<longleftrightarrow> (\<exists>h1. m h = Some (Inr y, h1) \<and> k h1 = (Inr (), h'))"
  by (auto simp: loop_finally_def split: option.splits prod.splits sum.splits)

lemma loop_then_eq_Some_Inr:
  "loop_then m f h = Some (Inr y, h') \<longleftrightarrow> (\<exists>x h1. m h = Some (Inr x, h1) \<and> f x h1 = (Inr y, h'))"
  by (auto simp: loop_then_def split: option.splits prod.splits sum.splits)

lemmas loop_eqs = then_loop_eq_Some_Inr loop_finally_eq_Some_Inr loop_then_eq_Some_Inr

text \<open>A property of the state and the history that one round keeps holds at the last check.\<close>

lemma while_prog_invariant:
  fixes body :: "'s \<Rightarrow> ('ev, 's) prog"
  assumes "while_prog cond body s h = Some (Inr s', h')" and "I s h"
    and "\<And>s h h1 s1 h2. I s h \<Longrightarrow> cond h = (Inr True, h1) \<Longrightarrow> body s h1 = (Inr s1, h2) \<Longrightarrow> I s1 h2"
  shows "\<exists>h0. I s' h0 \<and> cond h0 = (Inr False, h')"
proof -
  define P where "P = (\<lambda>c b s h y. c = cond \<longrightarrow> b = body \<longrightarrow> I s h \<longrightarrow>
      (\<forall>s' h'. y = (Inr s' :: exc + 's, h') \<longrightarrow> (\<exists>h0. I s' h0 \<and> cond h0 = (Inr False, h'))))"
  have "P cond body s h (Inr s', h')"
    using _ assms(1)
  proof (rule while_prog.raw_induct [where P = P])
    fix w c b s h y
    assume IH: "\<And>c b s h y. w c b s h = Some y \<Longrightarrow> P c b s h y"
      and eq: "(case c h of (Inl e, h1) \<Rightarrow> Some (Inl e, h1)
        | (Inr t, h1) \<Rightarrow> if t then (case b s h1 of (Inl e, h2) \<Rightarrow> Some (Inl e, h2)
             | (Inr s', h2) \<Rightarrow> w c b s' h2) else Some (Inr s, h1)) = Some y"
    show "P c b s h y"
      unfolding P_def
    proof (intro impI allI)
      fix s' h' assume here: "c = cond" "b = body" "I s h" "y = (Inr s', h')"
      from eq here show "\<exists>h0. I s' h0 \<and> cond h0 = (Inr False, h')"
      proof (cases "cond h")
        case (Pair r h1)
        show ?thesis
        proof (cases "\<exists>s1 h2. r = Inr True \<and> body s h1 = (Inr s1, h2)")
          case True
          then obtain s1 h2 where r: "r = Inr True" "body s h1 = (Inr s1, h2)" by blast
          with eq here Pair have "w cond body s1 h2 = Some (Inr s', h')" by simp
          moreover have "I s1 h2" using assms(3) here(3) Pair r by blast
          ultimately show ?thesis using IH [unfolded P_def] by blast
        next
          case False
          with eq here Pair show ?thesis by (auto split: sum.splits if_splits prod.splits)
        qed
      qed
    qed
  qed
  with assms(2) show ?thesis by (simp add: P_def)
qed

text \<open>
  A loop returns if its condition never raises and every round that goes on makes a measure of
  the history smaller, as long as a property kept by the rounds holds.
\<close>

lemma while_prog_returns:
  fixes \<mu> :: "'ev list \<Rightarrow> nat"
  assumes "\<And>h h1 s s1 h2. cond h = (Inr True, h1) \<Longrightarrow> body s h1 = (Inr s1, h2) \<Longrightarrow> \<mu> h2 < \<mu> h"
  shows "\<exists>r h'. while_prog cond body s h = Some (r, h')"
proof (induction "\<mu> h" arbitrary: s h rule: less_induct)
  case less
  show ?case
  proof (cases "\<exists>h1 s1 h2. cond h = (Inr True, h1) \<and> body s h1 = (Inr s1, h2)")
    case True
    then obtain h1 s1 h2 where step: "cond h = (Inr True, h1)" "body s h1 = (Inr s1, h2)" by blast
    from less [OF assms [OF step]] obtain r h' where "while_prog cond body s1 h2 = Some (r, h')" by blast
    with step show ?thesis by (subst while_prog.simps) simp
  next
    case False
    then show ?thesis
      by (subst while_prog.simps) (auto split: prod.splits sum.splits if_splits)
  qed
qed

section \<open>What a body adds to its counter\<close>

definition added_ev :: "nat \<Rightarrow> nat \<Rightarrow> dbev \<Rightarrow> int list" where
  "added_ev c k e = (case e of AddCounter c' n \<Rightarrow> if c' = c then [n] else [] | _ \<Rightarrow> [])"

definition added :: "nat \<Rightarrow> dbhist \<Rightarrow> int" where
  "added c h = sum_list (observe (added_ev c) h)"

lemma added_snoc [simp]:
  "added c (h @ [AddCounter c' n]) = (if c' = c then added c h + n else added c h)"
  by (simp add: added_def observe_snoc added_ev_def)

lemma added_silent:
  "silent (added_ev c) m \<Longrightarrow> m h = (r, h') \<Longrightarrow> added c h' = added c h"
  by (simp add: added_def silentD)

lemma added_calls [silent_intros]:
  "silent (added_ev c) (db_connect D s)" "silent (added_ev c) (execute D s ps)"
  "silent (added_ev c) (fetchone D)" "silent (added_ev c) (fetchall D)"
  "silent (added_ev c) cursor_exit" "silent (added_ev c) conn_exit"
  "silent (added_ev c) (barrier_wait D)" "silent (added_ev c) (perf_counter D)"
  "silent (added_ev c) (uniform D a b)" "silent (added_ev c) (db_sleep D d)"
  "silent (added_ev c) (read_counter D c')"
  by (simp_all add: db_silent added_ev_def)

lemma silent_retry_loop:
  assumes "\<And>D. silent f (execute D sql ps)" "\<And>D a b. silent f (uniform D a b)"
    and "\<And>D d. silent f (db_sleep D d)"
  shows "silent f (retry_loop D sql ps n as)"
proof (induction as)
  case (Cons a as)
  have "silent f (bind (uniform D 0 (5/100)) (\<lambda>u. andthen (db_sleep D (5/100 * of_nat (a + 1) + u))
      (retry_loop D sql ps n as)))"
    by (intro silent_intros assms Cons)
  moreover have "observe f (snd (execute D sql ps h)) = observe f h" for h
    using assms(1) [of D] by (simp add: silent_def)
  ultimately show ?case
    unfolding silent_def by (auto split: prod.splits sum.splits) (metis snd_conv)+
qed simp

lemma added_retry [silent_intros]: "silent (added_ev c) (execute_with_open_retry D sql ps n)"
  unfolding execute_with_open_retry_def by (intro silent_retry_loop silent_intros)

text \<open>
  A counting loop: its condition adds nothing, and a round that succeeds adds to the shared
  counter \<open>c\<close> exactly what it adds to its local total, the part \<open>val\<close> of its state. Then the local total the loop ends with
  is what the loop added to the counter.
\<close>

locale counting_loop =
  fixes cond :: "bool db" and body :: "'s \<Rightarrow> 's db" and val :: "'s \<Rightarrow> int" and c :: nat
  assumes cond_adds_nothing: "silent (added_ev c) cond"
    and body_counts: "body s h = (Inr s', h') \<Longrightarrow> val s' - val s = added c h' - added c h"
begin

lemma loop_counts:
  assumes "while_prog cond body s h = Some (Inr s', h')"
  shows "val s' - val s = added c h' - added c h"
proof -
  define I where "I = (\<lambda>t k. val t - val s = added c k - added c h)"
  have "\<exists>h0. I s' h0 \<and> cond h0 = (Inr False, h')"
  proof (rule while_prog_invariant [OF assms])
    show "I s h" by (simp add: I_def)
    fix t k k1 t1 k2 assume "I t k" "cond k = (Inr True, k1)" "body t k1 = (Inr t1, k2)"
    with added_silent [OF cond_adds_nothing] body_counts show "I t1 k2" by (force simp: I_def)
  qed
  with added_silent [OF cond_adds_nothing] show ?thesis by (force simp: I_def)
qed

end

section \<open>Loops against the clock\<close>

text \<open>
  The two guarantees of the clock that the scripts rely on: \<^verbatim>\<open>perf_counter\<close> never goes back,
  and \<^verbatim>\<open>sleep(d)\<close> suspends for at least \<open>d\<close> seconds.
\<close>

definition monotone_clock :: "denv \<Rightarrow> bool" where
  "monotone_clock D \<longleftrightarrow> (\<forall>h es. perf D h \<le> perf D (h @ es))"

definition sleep_suspends :: "denv \<Rightarrow> bool" where
  "sleep_suspends D \<longleftrightarrow> (\<forall>h d. perf D h + d \<le> perf D (h @ [DbSleep d]))"

definition before :: "denv \<Rightarrow> rat \<Rightarrow> bool db" where
  "before D stop_time = bind (perf_counter D) (\<lambda>t. ret (t < stop_time))"

lemma before_eq: "before D stop h = (Inr (perf D h < stop), h @ [PerfCounter])"
  by (simp add: before_def perf_counter_def prog_defs)

lemma silent_before: "(\<And>k. f k PerfCounter = []) \<Longrightarrow> silent f (before D stop)"
  unfolding before_def by (intro silent_intros) (rule db_silent)

text \<open>
  A clocked loop runs until a point in time; as long as the environment is \<open>timely\<close>, every
  round that succeeds takes at least \<open>\<delta>\<close> seconds. Such a loop returns, and when it returns
  normally the time is up.
\<close>

locale clocked_loop =
  fixes D :: denv and stop_time :: rat and body :: "'s \<Rightarrow> 's db" and \<delta> :: rat and timely :: bool
  assumes time_passes: "timely \<Longrightarrow> 0 < \<delta>"
    and round_takes: "timely \<Longrightarrow> body s (h @ [PerfCounter]) = (Inr s', h') \<Longrightarrow> perf D h + \<delta> \<le> perf D h'"
begin

lemma loop_returns:
  assumes timely
  shows "\<exists>r h'. while_prog (before D stop_time) body s h = Some (r, h')"
proof (rule while_prog_returns)
  fix h h1 s s1 h2
  assume "before D stop_time h = (Inr True, h1)" and run: "body s h1 = (Inr s1, h2)"
  then have "perf D h < stop_time" "h1 = h @ [PerfCounter]" by (auto simp: before_eq)
  with round_takes [OF assms] run have "perf D h + \<delta> \<le> perf D h2" by blast
  with \<open>perf D h < stop_time\<close> time_passes [OF assms]
  show "nat \<lceil>(stop_time - perf D h2) / \<delta>\<rceil> < nat \<lceil>(stop_time - perf D h) / \<delta>\<rceil>"
    by (intro rounds_left_shrink)
qed

lemma loop_runs_to_stop:
  assumes "while_prog (before D stop_time) body s h = Some (Inr s', h')"
  shows "\<exists>h0. h' = h0 @ [PerfCounter] \<and> stop_time \<le> perf D h0"
  using while_prog_invariant [OF assms, of "\<lambda>_ _. True"] by (auto simp: before_eq not_less)

end

end
