(* ===== verification/Worker_Pool.thy ===== *)
theory Worker_Pool
  imports Db_Loop "HOL-Library.Multiset" "HOL-Library.Word"
begin

text \<open>
  What the \<^verbatim>\<open>main\<close> functions of the multi-process benchmarks do with their workers: start one
  process per worker, join all of them, and take one result per worker from a queue. Every process
  is a program of its own, with its own history; the order in which the workers put their results
  into the queue is a parameter. A process that raises puts no result, and \<^verbatim>\<open>get()\<close> on a queue that
  stays empty never returns: the value \<open>None\<close> of a \<^verbatim>\<open>main\<close> function. An interrupt by the user reaches
  all processes of the terminal, so \<^verbatim>\<open>main\<close> ends with it when one of its processes does. What the
  barrier and the counters answer to a process belongs to its environment; how the processes act
  on each other through them is the subject of \<^verbatim>\<open>Shared_Counters\<close>.

  The locale \<open>counted_pool\<close> is what the reports rely on: if every worker returns what it added to its
  counter, the total of the results is what all of them added, in whatever order they finished.
\<close>

section \<open>Endings and queues\<close>

type_synonym 'a ending = "((exc + 'a) \<times> dbhist) option"

definition returned :: "'a ending \<Rightarrow> 'a option" where
  "returned e = (case e of Some (Inr x, h) \<Rightarrow> Some x | _ \<Rightarrow> None)"

definition history :: "'a ending \<Rightarrow> dbhist" where
  "history e = (case e of None \<Rightarrow> [] | Some (r, h) \<Rightarrow> h)"

definition broken_off :: "'a ending \<Rightarrow> bool" where
  "broken_off e = (case e of Some (Inl x, h) \<Rightarrow> x = KeyboardInterrupt | _ \<Rightarrow> False)"

definition join_all :: "'a ending list \<Rightarrow> bool" where
  "join_all es = list_all (\<lambda>e. e \<noteq> None) es"

definition queue_of :: "nat list \<Rightarrow> 'a ending list \<Rightarrow> 'a list" where
  "queue_of order es = List.map_filter (\<lambda>i. returned (es ! i)) order"

text \<open>\<^verbatim>\<open>[q.get() for _ in range(n)]\<close>\<close>

definition get_results :: "nat \<Rightarrow> 'a list \<Rightarrow> 'a list option" where
  "get_results n q = (if n \<le> length q then Some (take n q) else None)"

text \<open>
  The samples a monitor leaves in the shared list. A negative interval makes its first \<^verbatim>\<open>sleep\<close>
  raise, before it took any.
\<close>

definition samples_of :: "'s list ending \<Rightarrow> 's list" where
  "samples_of mon = (case returned mon of None \<Rightarrow> [] | Some s \<Rightarrow> s)"

record pool =
  now :: rat                          \<comment> \<open>the clock as \<^verbatim>\<open>main\<close> reads it\<close>
  producer_env :: "nat \<Rightarrow> denv"
  consumer_env :: "nat \<Rightarrow> denv"
  monitor_env :: denv
  pub_order :: "nat list"
  con_order :: "nat list"
  pool_repr :: "rat \<Rightarrow> string"

definition run_pool ::
  "pool \<Rightarrow> 'p ending list \<Rightarrow> 'c ending list \<Rightarrow> 's list ending
   \<Rightarrow> ('p list \<Rightarrow> 'c list \<Rightarrow> 's list \<Rightarrow> string list) \<Rightarrow> (exc + string list) option" where
  "run_pool P pubs cons mon report =
     (if \<not> (join_all pubs \<and> join_all cons \<and> mon \<noteq> None) then None
      else if list_ex broken_off pubs \<or> list_ex broken_off cons \<or> broken_off mon then Some (Inl KeyboardInterrupt)
      else
        (case (get_results (length pubs) (queue_of (pub_order P) pubs),
               get_results (length cons) (queue_of (con_order P) cons)) of
           (Some pub_results, Some con_results) \<Rightarrow> Some (Inr (report pub_results con_results (samples_of mon)))
         | _ \<Rightarrow> None))"

text \<open>The final value of a 64-bit counter to which the processes added.\<close>

definition counter_value :: "nat \<Rightarrow> 'a ending list \<Rightarrow> int" where
  "counter_value c es = sint (word_of_int (sum_list (map (\<lambda>e. added c (history e)) es)) :: 64 word)"

lemma sint_small: "0 \<le> n \<Longrightarrow> n < 2 ^ 63 \<Longrightarrow> sint (word_of_int n :: 64 word) = n"
  by (simp add: int_word_sint)

section \<open>The results that arrive\<close>

definition all_returned :: "'a ending list \<Rightarrow> bool" where
  "all_returned es = list_all (\<lambda>e. returned e \<noteq> None) es"

definition in_some_order :: "nat list \<Rightarrow> 'a ending list \<Rightarrow> bool" where
  "in_some_order order es \<longleftrightarrow> mset order = mset [0..<length es]"

definition results_in :: "nat list \<Rightarrow> 'a ending list \<Rightarrow> 'a list" where
  "results_in order es = map (\<lambda>i. the (returned (es ! i))) order"

lemma map_filter_full:
  "n = length xs \<Longrightarrow> (if n \<le> length (List.map_filter f xs) then Some (take n (List.map_filter f xs)) else None)
     = (if \<forall>x \<in> set xs. f x \<noteq> None then Some (map (the \<circ> f) xs) else None)"
proof -
  assume n: "n = length xs"
  have "n \<le> length (List.map_filter f xs) \<longleftrightarrow> (\<forall>x \<in> set xs. f x \<noteq> None)"
  proof (cases "\<forall>x \<in> set xs. f x \<noteq> None")
    case False
    then obtain x where x: "x \<in> set xs" "\<not> f x \<noteq> None" by blast
    from length_filter_less [where P = "\<lambda>x. f x \<noteq> None", OF x] False show ?thesis by (simp add: n map_filter_def)
  qed (simp add: n map_filter_def)
  moreover have "List.map_filter f xs = map (the \<circ> f) xs" if "\<forall>x \<in> set xs. f x \<noteq> None"
    using that by (simp add: map_filter_def)
  ultimately show ?thesis by (simp add: n)
qed

lemma order_set: "in_some_order order es \<Longrightarrow> set order = {..<length es}"
  unfolding in_some_order_def by (metis atLeast_upt set_mset_mset)

lemma order_length: "in_some_order order es \<Longrightarrow> length order = length es"
  unfolding in_some_order_def by (metis length_upt minus_nat.diff_0 size_mset)

lemma get_results_eq:
  assumes "in_some_order order es"
  shows "get_results (length es) (queue_of order es) = (if all_returned es then Some (results_in order es) else None)"
  using map_filter_full [OF order_length [OF assms, symmetric], of "\<lambda>i. returned (es ! i)"]
  by (simp add: get_results_def queue_of_def all_returned_def list_all_length results_in_def order_set [OF assms]
      comp_def Ball_def)

lemma returned_cases:
  "returned e \<noteq> None \<Longrightarrow> e \<noteq> None \<and> \<not> broken_off e"
  by (auto simp: returned_def broken_off_def split: option.splits sum.splits)

lemma all_returned_joins:
  "all_returned es \<Longrightarrow> join_all es" "all_returned es \<Longrightarrow> \<not> list_ex broken_off es"
  using returned_cases by (fastforce simp: all_returned_def join_all_def list_all_iff list_ex_iff)+

lemma run_pool_report:
  assumes "in_some_order (pub_order P) pubs" and "in_some_order (con_order P) cons"
  shows "run_pool P pubs cons mon report = Some (Inr lines)
    \<longleftrightarrow> all_returned pubs \<and> all_returned cons \<and> mon \<noteq> None \<and> \<not> broken_off mon
        \<and> lines = report (results_in (pub_order P) pubs) (results_in (con_order P) cons) (samples_of mon)"
  by (auto simp: run_pool_def get_results_eq [OF assms(1)] get_results_eq [OF assms(2)] all_returned_joins
      split: if_splits)

lemma run_pool_hangs:
  assumes "in_some_order (pub_order P) pubs" and "in_some_order (con_order P) cons"
    and "join_all pubs" "join_all cons" "mon \<noteq> None"
    and "\<not> list_ex broken_off pubs" "\<not> list_ex broken_off cons" "\<not> broken_off mon"
  shows "run_pool P pubs cons mon report = None \<longleftrightarrow> \<not> (all_returned pubs \<and> all_returned cons)"
  using assms(3-) by (simp add: run_pool_def get_results_eq [OF assms(1)] get_results_eq [OF assms(2)])

lemma sum_results:
  fixes amount :: "'a \<Rightarrow> 'b::comm_monoid_add"
  assumes "in_some_order order es"
  shows "sum_list (map amount (results_in order es)) = sum_list (map (\<lambda>e. amount (the (returned e))) es)"
proof -
  have "mset (map amount (results_in order es)) = image_mset (\<lambda>i. amount (the (returned (es ! i)))) (mset order)"
    by (simp add: results_in_def comp_def)
  also have "\<dots> = mset (map (\<lambda>e. amount (the (returned e))) (map ((!) es) [0..<length es]))"
    using assms by (simp add: in_some_order_def comp_def del: map_nth)
  finally show ?thesis unfolding map_nth by (metis sum_mset_sum_list)
qed

section \<open>Workers that return what they counted\<close>

locale counted_pool =
  fixes work :: "nat \<Rightarrow> 'r ending" and amount :: "'r \<Rightarrow> int" and counter :: "nat \<Rightarrow> nat"
  assumes counts: "work i = Some (Inr x, h) \<Longrightarrow> amount x = added (counter i) h"
begin

lemma total_is_added:
  assumes "in_some_order order (map work [0..<n])" and "all_returned (map work [0..<n])"
  shows "sum_list (map amount (results_in order (map work [0..<n])))
    = (\<Sum>i<n. added (counter i) (history (work i)))"
proof -
  have "amount (the (returned (work i))) = added (counter i) (history (work i))" if "i < n" for i
  proof -
    from assms(2) that have "returned (work i) \<noteq> None" by (simp add: all_returned_def list_all_iff)
    then show ?thesis
      using counts by (auto simp: returned_def history_def split: option.splits sum.splits)
  qed
  then show ?thesis
    by (simp add: sum_results [OF assms(1)] comp_def interv_sum_list_conv_sum_set_nat atLeast0LessThan)
qed

end

end
