(* ===== verification/Bmq_Worker.thy ===== *)
theory Bmq_Worker
  imports Db_Loop
begin

text \<open>
  The producers, consumers and monitors of \<^verbatim>\<open>sustained_bench.py\<close>, \<^verbatim>\<open>filtered_bench.py\<close> and
  \<^verbatim>\<open>multi_queue_bench.py\<close>. The three scripts repeat these functions with other arguments;
  here they are written once, and the scripts' own functions are instances. The shared
  counters have numbers; the scripts use one or two of them per queue.
\<close>

section \<open>Sessions\<close>

text \<open>\<^verbatim>\<open>with psycopg.connect(dsn) as conn: with conn.cursor() as cur: ...\<close>\<close>

definition with_cursor :: "denv \<Rightarrow> string \<Rightarrow> (dbev, 'a) oprog \<Rightarrow> (dbev, 'a) oprog" where
  "with_cursor D dsn block =
     then_loop (db_connect D dsn) (\<lambda>_. loop_finally (loop_finally block cursor_exit) conn_exit)"

definition set_broker :: "denv \<Rightarrow> string \<Rightarrow> unit db" where
  "set_broker D broker_uri = execute D (''SET blazingmq.broker_uri = '' @ quote_literal D broker_uri) []"

section \<open>Producers\<close>

definition create_src :: "denv \<Rightarrow> string \<Rightarrow> int \<Rightarrow> unit db" where
  "create_src D sql batch_rows =
     execute D (''CREATE TEMP TABLE prod_src AS '' @ sql @ '' LIMIT '' @ str_int batch_rows) []"

definition publish_sql :: "string \<Rightarrow> string" where
  "publish_sql attr_array_sql =
     ''SELECT count(*) FROM '' @ ''(SELECT bmq_publish_row(%s, t, '' @ attr_array_sql @ '') FROM prod_src t) s''"

definition prime_sql :: "string \<Rightarrow> string" where
  "prime_sql attr_array_sql = ''SELECT bmq_publish_row(%s, t, '' @ attr_array_sql @ '') FROM prod_src t LIMIT 1''"

text \<open>
  The setup of a producer up to the reading of \<^verbatim>\<open>worker_start\<close>: the priming statement
  publishes one row that no counter ever sees.
\<close>

definition producer_setup :: "denv \<Rightarrow> string \<Rightarrow> string \<Rightarrow> int \<Rightarrow> string \<Rightarrow> string \<Rightarrow> rat db" where
  "producer_setup D broker_uri sql batch_rows attrs queue_uri =
     andthen (set_broker D broker_uri)
     (andthen (create_src D sql batch_rows)
     (andthen (execute_with_open_retry D (prime_sql attrs) [SText queue_uri] 8)
     (andthen (barrier_wait D)
     (perf_counter D))))"

text \<open>
  The pacing of a throttled producer: sleep until the time at which \<open>local\<close> rows are due.
\<close>

definition pace :: "denv \<Rightarrow> rat \<Rightarrow> bool \<Rightarrow> rat \<Rightarrow> int \<Rightarrow> unit db" where
  "pace D worker_start throttled rate local_published =
     (if throttled then
        bind (lift (py_truediv (of_int local_published) rate)) (\<lambda>target_elapsed.
        bind (perf_counter D) (\<lambda>t.
          let actual_elapsed = t - worker_start in
          if actual_elapsed < target_elapsed then db_sleep D (target_elapsed - actual_elapsed) else ret ()))
      else ret ())"

definition produce_round ::
  "denv \<Rightarrow> string \<Rightarrow> string \<Rightarrow> nat \<Rightarrow> bool \<Rightarrow> rat \<Rightarrow> rat \<Rightarrow> int \<Rightarrow> int db" where
  "produce_round D sql queue_uri c throttled rate worker_start local_published =
     andthen (execute_with_open_retry D sql [SText queue_uri] 8)
     (bind (fetchone D) (\<lambda>n.
      andthen (add_counter c n)
      (andthen (pace D worker_start throttled rate (local_published + n))
      (ret (local_published + n)))))"

definition producer_session ::
  "denv \<Rightarrow> string \<Rightarrow> string \<Rightarrow> string \<Rightarrow> int \<Rightarrow> string \<Rightarrow> string \<Rightarrow> bool \<Rightarrow> rat \<Rightarrow> rat \<Rightarrow> nat \<Rightarrow> (dbev, int) oprog" where
  "producer_session D dsn broker_uri sql batch_rows attrs queue_uri throttled rate stop_time c =
     with_cursor D dsn
       (then_loop (producer_setup D broker_uri sql batch_rows attrs queue_uri) (\<lambda>worker_start.
          while_prog (before D stop_time)
            (produce_round D (publish_sql attrs) queue_uri c throttled rate worker_start) 0))"

section \<open>Consumers\<close>

definition consumer_setup :: "denv \<Rightarrow> string \<Rightarrow> string \<Rightarrow> sqlval list \<Rightarrow> unit db" where
  "consumer_setup D broker_uri prime params =
     andthen (set_broker D broker_uri)
     (andthen (execute_with_open_retry D prime params 8)
     (barrier_wait D))"

definition consume_round :: "denv \<Rightarrow> string \<Rightarrow> sqlval list \<Rightarrow> nat \<Rightarrow> int \<Rightarrow> int db" where
  "consume_round D sql params c local_consumed =
     andthen (execute D sql params)
     (bind (fetchone D) (\<lambda>n.
      andthen (add_counter c n)
      (ret (local_consumed + n))))"

definition consumer_session ::
  "denv \<Rightarrow> string \<Rightarrow> string \<Rightarrow> string \<Rightarrow> sqlval list \<Rightarrow> string \<Rightarrow> sqlval list \<Rightarrow> rat \<Rightarrow> nat \<Rightarrow> (dbev, int) oprog" where
  "consumer_session D dsn broker_uri prime prime_params sql params hard_stop_time c =
     with_cursor D dsn
       (then_loop (consumer_setup D broker_uri prime prime_params) (\<lambda>_.
          while_prog (before D hard_stop_time) (consume_round D sql params c) 0))"

section \<open>The monitor\<close>

type_synonym sample = "rat \<times> int \<times> int \<times> int"

definition monitor_round :: "denv \<Rightarrow> nat \<Rightarrow> nat \<Rightarrow> rat \<Rightarrow> sample list \<Rightarrow> sample list db" where
  "monitor_round D pub con sample_interval samples =
     andthen (db_sleep D sample_interval)
     (bind (read_counter D pub) (\<lambda>p.
      bind (read_counter D con) (\<lambda>c.
      bind (perf_counter D) (\<lambda>t.
        ret (samples @ [(t, p, c, p - c)])))))"

definition monitor :: "denv \<Rightarrow> nat \<Rightarrow> nat \<Rightarrow> rat \<Rightarrow> rat \<Rightarrow> sample list \<Rightarrow> (dbev, sample list) oprog" where
  "monitor D pub con stop_time sample_interval samples =
     while_prog (before D stop_time) (monitor_round D pub con sample_interval) samples"

section \<open>Producers and consumers count what they do\<close>

lemma silent_pace [silent_intros]: "silent (added_ev c) (pace D ws th rate n)"
  unfolding pace_def by (intro silent_intros)

lemma produce_round_counts:
  assumes "produce_round D sql uri c th rate ws s h = (Inr s', h')"
  shows "s' - s = added c h' - added c h"
proof -
  from assms obtain h1 h2 n h3 where steps: "execute_with_open_retry D sql [SText uri] 8 h = (Inr (), h1)"
      "fetchone D h1 = (Inr n, h2)" "pace D ws th rate (s + n) (h2 @ [AddCounter c n]) = (Inr (), h3)"
      "s' = s + n" "h' = h3"
    by (auto simp: produce_round_def prog_eqs add_counter_def)
  then show ?thesis
    using added_silent [OF added_retry steps(1), of c] added_silent [OF added_calls(3) steps(2), of c]
      added_silent [OF silent_pace steps(3), of c] by simp
qed

lemma consume_round_counts:
  assumes "consume_round D sql ps c s h = (Inr s', h')"
  shows "s' - s = added c h' - added c h"
proof -
  from assms obtain h1 h2 n where steps: "execute D sql ps h = (Inr (), h1)"
      "fetchone D h1 = (Inr n, h2)" "s' = s + n" "h' = h2 @ [AddCounter c n]"
    by (auto simp: consume_round_def prog_eqs add_counter_def)
  then show ?thesis
    using added_silent [OF added_calls(2) steps(1), of c] added_silent [OF added_calls(3) steps(2), of c] by simp
qed

lemma added_before: "silent (added_ev c) (before D stop)"
  by (rule silent_before) (simp add: added_ev_def)

interpretation producing: counting_loop "before D stop_time" "produce_round D sql uri c th rate ws" id c
  for D stop_time sql uri c th rate ws
  by unfold_locales (simp_all add: added_before produce_round_counts)

interpretation consuming: counting_loop "before D stop_time" "consume_round D sql ps c" id c
  for D stop_time sql ps c
  by unfold_locales (simp_all add: added_before consume_round_counts)

lemma with_cursor_result:
  assumes "with_cursor D dsn block h = Some (Inr x, h')"
  obtains h1 where "block (h @ [Connect dsn]) = Some (Inr x, h1)" "h' = h1 @ [CursorExit, ConnExit]"
  using assms
  by (auto simp: with_cursor_def loop_eqs db_connect_def cursor_exit_def conn_exit_def)

lemma added_setup:
  "silent (added_ev c) (producer_setup D b s n a q)" "silent (added_ev c) (consumer_setup D b p ps)"
  unfolding producer_setup_def consumer_setup_def set_broker_def create_src_def
  by (intro silent_intros)+

lemma added_exit: "added c (h @ [CursorExit, ConnExit]) = added c h" "added c (h @ [Connect dsn]) = added c h"
  by (simp_all add: added_def trace_simps added_ev_def)

lemma producer_session_counts:
  assumes "producer_session D dsn b sql rows attrs uri th rate stop c h = Some (Inr n, h')"
  shows "n = added c h' - added c h"
proof -
  from assms obtain h1 where "then_loop (producer_setup D b sql rows attrs uri) (\<lambda>worker_start.
       while_prog (before D stop) (produce_round D (publish_sql attrs) uri c th rate worker_start) 0)
       (h @ [Connect dsn]) = Some (Inr n, h1)" and h': "h' = h1 @ [CursorExit, ConnExit]"
    unfolding producer_session_def by (rule with_cursor_result)
  then obtain ws h2 where prep: "producer_setup D b sql rows attrs uri (h @ [Connect dsn]) = (Inr ws, h2)"
    and loop: "while_prog (before D stop) (produce_round D (publish_sql attrs) uri c th rate ws) 0 h2
       = Some (Inr n, h1)"
    by (auto simp: loop_eqs)
  from producing.loop_counts [OF loop] added_silent [OF added_setup(1) prep, of c] h' show ?thesis
    by (simp add: added_exit)
qed

lemma consumer_session_counts:
  assumes "consumer_session D dsn b prime pps sql ps stop c h = Some (Inr n, h')"
  shows "n = added c h' - added c h"
proof -
  from assms obtain h1 where "then_loop (consumer_setup D b prime pps) (\<lambda>_.
       while_prog (before D stop) (consume_round D sql ps c) 0) (h @ [Connect dsn]) = Some (Inr n, h1)"
    and h': "h' = h1 @ [CursorExit, ConnExit]"
    unfolding consumer_session_def by (rule with_cursor_result)
  then obtain h2 where prep: "consumer_setup D b prime pps (h @ [Connect dsn]) = (Inr (), h2)"
    and loop: "while_prog (before D stop) (consume_round D sql ps c) 0 h2 = Some (Inr n, h1)"
    by (auto simp: loop_eqs)
  from consuming.loop_counts [OF loop] added_silent [OF added_setup(2) prep, of c] h' show ?thesis
    by (simp add: added_exit)
qed

section \<open>Time in the loops\<close>

text \<open>Histories only grow, so a monotone clock has not gone back after a call.\<close>

lemma extends_calls [extends_intros]:
  "extends (execute D s ps)" "extends (fetchone D)" "extends (add_counter c n)"
  "extends (perf_counter D)" "extends (db_sleep D d)" "extends (uniform D a b)" "extends (read_counter D c)"
  unfolding db_call_defs by (rule extends_act)+

lemma extends_pace [extends_intros]: "extends (pace D ws th rate n)"
  unfolding pace_def by (intro extends_intros)

lemma clock_after:
  assumes "monotone_clock D" and "extends m" and "m h = (r, h')"
  shows "perf D h \<le> perf D h'"
proof -
  from assms(2,3) obtain es where "h' = h @ es" unfolding extends_def by (metis snd_conv)
  with assms(1) show ?thesis by (simp add: monotone_clock_def)
qed

text \<open>A statement takes time: the assumption under which the loops end.\<close>

definition statements_take :: "denv \<Rightarrow> rat \<Rightarrow> bool" where
  "statements_take D \<delta> \<longleftrightarrow> (\<forall>h sql ps. perf D h + \<delta> \<le> perf D (h @ [Execute sql ps]))"

lemma extends_retry_loop: "extends (retry_loop D sql ps n as)"
proof (induction as)
  case (Cons a as)
  have go: "extends (bind (uniform D 0 (5/100)) (\<lambda>u. andthen (db_sleep D (5/100 * of_nat (a + 1) + u))
      (retry_loop D sql ps n as)))"
    by (intro extends_intros Cons)
  show ?case
    unfolding extends_def
  proof
    fix h
    show "\<exists>es. snd (retry_loop D sql ps n (a # as) h) = h @ es"
      using go [unfolded extends_def, rule_format, of "h @ [Execute sql ps]"]
      by (auto simp: execute_def act_def split: sum.split)
  qed
qed (simp add: extends_intros)

lemma retry_takes:
  assumes "monotone_clock D" and "statements_take D \<delta>"
    and "execute_with_open_retry D sql ps 8 h = (r, h')"
  shows "perf D h + \<delta> \<le> perf D h'"
proof -
  have "\<exists>es. h' = h @ [Execute sql ps] @ es"
  proof -
    have go: "extends (bind (uniform D 0 (5/100)) (\<lambda>u. andthen (db_sleep D (5/100 * of_nat (0 + 1) + u))
        (retry_loop D sql ps 8 [1..<8])))"
      by (intro extends_intros extends_retry_loop)
    have "[0..<8] = (0::nat) # [1..<8]" by (simp add: upt_conv_Cons)
    then show ?thesis
      using assms(3) go [unfolded extends_def, rule_format, of "h @ [Execute sql ps]"]
      by (auto simp: execute_with_open_retry_def execute_def act_def split: sum.splits if_splits)
        (metis snd_conv)?
  qed
  then obtain es where "h' = (h @ [Execute sql ps]) @ es" by auto
  with assms(1,2) show ?thesis unfolding monotone_clock_def statements_take_def by (metis order_trans)
qed

lemma produce_round_takes:
  assumes "monotone_clock D" "statements_take D \<delta>"
    and "produce_round D sql uri c th rate ws s (h @ [PerfCounter]) = (Inr s', h')"
  shows "perf D h + \<delta> \<le> perf D h'"
proof -
  from assms(3) obtain h1 where ex: "execute_with_open_retry D sql [SText uri] 8 (h @ [PerfCounter]) = (Inr (), h1)"
    and rest: "bind (fetchone D) (\<lambda>n. andthen (add_counter c n) (andthen (pace D ws th rate (s + n)) (ret (s + n)))) h1
       = (Inr s', h')"
    by (auto simp: produce_round_def andthen_eq_Inr)
  have "extends (bind (fetchone D) (\<lambda>n. andthen (add_counter c n) (andthen (pace D ws th rate (s + n)) (ret (s + n)))))"
    by (intro extends_intros)
  from clock_after [OF assms(1) this rest] have "perf D h1 \<le> perf D h'" .
  moreover have "perf D h \<le> perf D (h @ [PerfCounter])"
    using assms(1) by (simp add: monotone_clock_def)
  ultimately show ?thesis using retry_takes [OF assms(1,2) ex] by linarith
qed

lemma consume_round_takes:
  assumes "monotone_clock D" "statements_take D \<delta>"
    and "consume_round D sql ps c s (h @ [PerfCounter]) = (Inr s', h')"
  shows "perf D h + \<delta> \<le> perf D h'"
proof -
  from assms(3) have rest: "bind (fetchone D) (\<lambda>n. andthen (add_counter c n) (ret (s + n)))
      (h @ [PerfCounter, Execute sql ps]) = (Inr s', h')"
    by (auto simp: consume_round_def andthen_eq_Inr execute_def)
  have "extends (bind (fetchone D) (\<lambda>n. andthen (add_counter c n) (ret (s + n))))"
    by (intro extends_intros)
  from clock_after [OF assms(1) this rest] have "perf D (h @ [PerfCounter, Execute sql ps]) \<le> perf D h'" .
  moreover have "perf D h \<le> perf D (h @ [PerfCounter])"
    using assms(1) by (simp add: monotone_clock_def)
  moreover have "perf D (h @ [PerfCounter]) + \<delta> \<le> perf D ((h @ [PerfCounter]) @ [Execute sql ps])"
    using assms(2) unfolding statements_take_def by blast
  ultimately show ?thesis by simp
qed

section \<open>Pacing\<close>

text \<open>After the pacing step of a throttled producer the rows counted so far are due.\<close>

lemma pace_due:
  assumes "monotone_clock D" and "sleep_suspends D" and "pace D ws True rate n h = (Inr (), h')"
  shows "rate \<noteq> 0 \<and> ws + of_int n / rate \<le> perf D h'"
proof -
  let ?target = "of_int n / rate" and ?t = "perf D h"
  from assms(3) have "rate \<noteq> 0" by (auto simp: pace_def prog_eqs py_truediv_def split: if_splits)
  moreover from assms(3) \<open>rate \<noteq> 0\<close> have cases:
    "(if ?t - ws < ?target then db_sleep D (?target - (?t - ws)) (h @ [PerfCounter]) = (Inr (), h')
      else h' = h @ [PerfCounter])"
    by (auto simp: pace_def prog_eqs py_truediv_def perf_counter_def Let_def split: if_splits)
  moreover have later: "?t \<le> perf D (h @ [PerfCounter])" using assms(1) by (simp add: monotone_clock_def)
  moreover have suspends: "perf D (h @ [PerfCounter]) + d \<le> perf D ((h @ [PerfCounter]) @ [DbSleep d])" for d
    using assms(2) unfolding sleep_suspends_def by blast
  ultimately show ?thesis
  proof (cases "?t - ws < ?target")
    case True
    let ?d = "?target - (?t - ws)"
    from True cases have "h' = (h @ [PerfCounter]) @ [DbSleep ?d]" by (simp add: db_sleep_def)
    with suspends [of ?d] later \<open>rate \<noteq> 0\<close> show ?thesis by (simp add: algebra_simps)
  next
    case False
    with cases later \<open>rate \<noteq> 0\<close> show ?thesis by auto
  qed
qed

lemma produce_round_due:
  assumes "monotone_clock D" and "sleep_suspends D"
    and "produce_round D sql uri c True rate ws s h = (Inr s', h')"
  shows "rate \<noteq> 0 \<and> ws + of_int s' / rate \<le> perf D h'"
proof -
  from assms(3) obtain n h1 where "pace D ws True rate (s + n) h1 = (Inr (), h')" "s' = s + n"
    by (auto simp: produce_round_def prog_eqs)
  with pace_due [OF assms(1,2)] show ?thesis by blast
qed

section \<open>The loops end\<close>

definition statements_timely :: "denv \<Rightarrow> rat \<Rightarrow> bool" where
  "statements_timely D \<delta> \<longleftrightarrow> 0 < \<delta> \<and> monotone_clock D \<and> statements_take D \<delta>"

interpretation producing_clock: clocked_loop D stop_time "produce_round D sql uri c th rate ws" \<delta>
  "statements_timely D \<delta>" for D stop_time sql uri c th rate ws \<delta>
  by unfold_locales (auto simp: statements_timely_def intro: produce_round_takes)

interpretation consuming_clock: clocked_loop D stop_time "consume_round D sql ps c" \<delta>
  "statements_timely D \<delta>" for D stop_time sql ps c \<delta>
  by unfold_locales (auto simp: statements_timely_def intro: consume_round_takes)

lemma monitor_round_eq:
  assumes "monitor_round D pub con iv samples h = (Inr samples', h')"
  shows "\<exists>p c. samples' = samples @ [(perf D (h @ [DbSleep iv, ReadCounter pub, ReadCounter con]), p, c, p - c)]
    \<and> h' = h @ [DbSleep iv, ReadCounter pub, ReadCounter con, PerfCounter]"
  using assms by (auto simp: monitor_round_def prog_eqs db_call_defs split: if_splits)

lemma monitor_round_takes:
  assumes "monotone_clock D" and "sleep_suspends D"
    and "monitor_round D pub con iv samples (h @ [PerfCounter]) = (Inr samples', h')"
  shows "perf D h + iv \<le> perf D h'"
proof -
  from monitor_round_eq [OF assms(3)] have h': "h' = ((h @ [PerfCounter]) @ [DbSleep iv])
      @ [ReadCounter pub, ReadCounter con, PerfCounter]" by auto
  have "perf D h \<le> perf D (h @ [PerfCounter])" using assms(1) by (simp add: monotone_clock_def)
  moreover have "perf D (h @ [PerfCounter]) + iv \<le> perf D ((h @ [PerfCounter]) @ [DbSleep iv])"
    using assms(2) unfolding sleep_suspends_def by blast
  moreover have "perf D ((h @ [PerfCounter]) @ [DbSleep iv]) \<le> perf D h'"
    unfolding h' using assms(1) unfolding monotone_clock_def by blast
  ultimately show ?thesis by linarith
qed

interpretation monitoring_clock: clocked_loop D stop_time "monitor_round D pub con iv" iv
  "0 < iv \<and> monotone_clock D \<and> sleep_suspends D" for D stop_time pub con iv
  by unfold_locales (auto intro: monitor_round_takes)

lemma loop_finally_returns:
  "\<exists>r h'. m h = Some (r, h') \<Longrightarrow> \<exists>r h'. loop_finally m k h = Some (r, h')"
  by (auto simp: loop_finally_def split: prod.splits sum.splits)

lemma then_loop_returns:
  "(\<And>x h. \<exists>r h'. f x h = Some (r, h')) \<Longrightarrow> \<exists>r h'. then_loop m f h = Some (r, h')"
  by (auto simp: then_loop_def split: prod.splits sum.splits)

lemma with_cursor_returns:
  assumes "\<And>h. \<exists>r h'. block h = Some (r, h')"
  shows "\<exists>r h'. with_cursor D dsn block h = Some (r, h')"
  unfolding with_cursor_def by (intro then_loop_returns loop_finally_returns assms)

lemma producer_session_returns:
  assumes "statements_timely D \<delta>"
  shows "\<exists>r h'. producer_session D dsn b sql rows attrs uri th rate stop c h = Some (r, h')"
  unfolding producer_session_def
  by (intro with_cursor_returns then_loop_returns producing_clock.loop_returns [OF assms])

lemma consumer_session_returns:
  assumes "statements_timely D \<delta>"
  shows "\<exists>r h'. consumer_session D dsn b prime pps sql ps stop c h = Some (r, h')"
  unfolding consumer_session_def
  by (intro with_cursor_returns then_loop_returns consuming_clock.loop_returns [OF assms])

section \<open>Sessions against the clock\<close>

lemma consumer_session_to_stop:
  assumes "consumer_session D dsn b prime pps sql ps stop c h = Some (Inr n, h')"
  shows "\<exists>h0. h' = h0 @ [PerfCounter, CursorExit, ConnExit] \<and> stop \<le> perf D h0"
proof -
  from assms obtain h1 where "then_loop (consumer_setup D b prime pps) (\<lambda>_.
       while_prog (before D stop) (consume_round D sql ps c) 0) (h @ [Connect dsn]) = Some (Inr n, h1)"
    and h': "h' = h1 @ [CursorExit, ConnExit]"
    unfolding consumer_session_def by (rule with_cursor_result)
  then obtain h2 where "while_prog (before D stop) (consume_round D sql ps c) 0 h2 = Some (Inr n, h1)"
    by (auto simp: loop_eqs)
  from consuming_clock.loop_runs_to_stop [OF this] h' show ?thesis by auto
qed

lemma producer_setup_start:
  assumes "producer_setup D b sql rows attrs uri h = (Inr ws, h')"
  obtains hs where "ws = perf D hs" "h' = hs @ [PerfCounter]"
  using assms by (auto simp: producer_setup_def prog_eqs perf_counter_def)

lemma producer_session_paced:
  assumes "monotone_clock D" and "sleep_suspends D" and "0 < rate"
    and "producer_session D dsn b sql rows attrs uri True rate stop c h = Some (Inr n, h')"
  shows "\<exists>h0 hs. perf D hs \<le> perf D h0 \<and> h' = h0 @ [PerfCounter, CursorExit, ConnExit]
    \<and> producer_setup D b sql rows attrs uri (h @ [Connect dsn]) = (Inr (perf D hs), hs @ [PerfCounter])
    \<and> of_int n \<le> rate * (perf D h0 - perf D hs)"
proof -
  from assms(4) obtain h1 where "then_loop (producer_setup D b sql rows attrs uri) (\<lambda>worker_start.
       while_prog (before D stop) (produce_round D (publish_sql attrs) uri c True rate worker_start) 0)
       (h @ [Connect dsn]) = Some (Inr n, h1)" and h': "h' = h1 @ [CursorExit, ConnExit]"
    unfolding producer_session_def by (rule with_cursor_result)
  then obtain ws h2 where prep: "producer_setup D b sql rows attrs uri (h @ [Connect dsn]) = (Inr ws, h2)"
    and loop: "while_prog (before D stop) (produce_round D (publish_sql attrs) uri c True rate ws) 0 h2
       = Some (Inr n, h1)"
    by (auto simp: loop_eqs)
  obtain hs where hs: "ws = perf D hs" "h2 = hs @ [PerfCounter]" using prep by (rule producer_setup_start)
  define I where "I = (\<lambda>s k. perf D hs \<le> perf D k \<and> ws + of_int s / rate \<le> perf D k)"
  have "\<exists>h0. I n h0 \<and> before D stop h0 = (Inr False, h1)"
  proof (rule while_prog_invariant [OF loop])
    show "I 0 h2" using assms(1) hs by (simp add: I_def monotone_clock_def)
    fix s k k1 s1 k2
    assume I: "I s k" and "before D stop k = (Inr True, k1)"
      and run: "produce_round D (publish_sql attrs) uri c True rate ws s k1 = (Inr s1, k2)"
    then have k1: "k1 = k @ [PerfCounter]" by (simp add: before_eq)
    have "extends (produce_round D (publish_sql attrs) uri c True rate ws s)"
      unfolding produce_round_def execute_with_open_retry_def by (intro extends_intros extends_retry_loop)
    from clock_after [OF assms(1) this run] have "perf D k1 \<le> perf D k2" .
    moreover have "perf D k \<le> perf D k1" using assms(1) k1 by (simp add: monotone_clock_def)
    ultimately show "I s1 k2"
      using I produce_round_due [OF assms(1,2) run] by (simp add: I_def)
  qed
  then obtain h0 where h0: "I n h0" "h1 = h0 @ [PerfCounter]" by (auto simp: before_eq)
  then have "of_int n / rate \<le> perf D h0 - perf D hs" using hs by (simp add: I_def)
  then have "of_int n \<le> rate * (perf D h0 - perf D hs)"
    using assms(3) by (simp add: pos_divide_le_eq mult.commute)
  with h0 h' hs prep show ?thesis by (auto simp: I_def)
qed

end
