(* ===== verification/Sustained.thy ===== *)
theory Sustained
  imports Bmq_Worker
begin

text \<open>
  \<^verbatim>\<open>bench/sustained_bench.py\<close>: producers and consumers of one queue, the monitor, and the
  steady-state report. Counter 0 is \<^verbatim>\<open>published_counter\<close>, counter 1 \<^verbatim>\<open>consumed_counter\<close>.
\<close>

section \<open>The workers of the script\<close>

record sustained_args =
  a_dsn :: string
  a_sql :: string
  a_producers :: nat
  a_consumers :: nat
  a_batch_rows :: int
  a_consume_batch :: int
  a_consume_timeout_ms :: int
  a_duration_secs :: rat
  a_ramp_up_secs :: rat
  a_drain_tail_secs :: rat
  a_sample_interval_secs :: rat
  a_producer_rate_limit :: rat
  a_queue_uri :: string
  a_broker_uri :: string

definition q1 :: "string \<Rightarrow> string" where
  "q1 s = [CHR 0x27] @ s @ [CHR 0x27]"

definition attr_array_sql :: string where
  "attr_array_sql = ''ARRAY['' @ q1 ''Sequence Number'' @ '','' @ q1 ''Trade Id'' @ '']''"

definition sustained_producer :: "denv \<Rightarrow> sustained_args \<Rightarrow> rat \<Rightarrow> nat \<Rightarrow> (dbev, int) oprog" where
  "sustained_producer D args stop_time counter =
     producer_session D (a_dsn args) (a_broker_uri args) (a_sql args) (a_batch_rows args) attr_array_sql
       (a_queue_uri args) (0 < a_producer_rate_limit args)
       (a_producer_rate_limit args / of_nat (a_producers args)) stop_time counter"

definition sustained_consumer :: "denv \<Rightarrow> sustained_args \<Rightarrow> rat \<Rightarrow> nat \<Rightarrow> (dbev, int) oprog" where
  "sustained_consumer D args hard_stop_time counter =
     consumer_session D (a_dsn args) (a_broker_uri args)
       ''SELECT count(*) FROM bmq_consume(%s, NULL, 1, 50, true)'' [SText (a_queue_uri args)]
       ''SELECT count(*) FROM bmq_consume(%s, NULL, %s, %s, true)''
       [SText (a_queue_uri args), SInt (a_consume_batch args), SInt (a_consume_timeout_ms args)]
       hard_stop_time counter"

section \<open>The timeline and the report\<close>

record timeline =
  start_time :: rat
  stop_time :: rat
  hard_stop_time :: rat
  steady_start :: rat

definition timeline_at :: "sustained_args \<Rightarrow> rat \<Rightarrow> timeline" where
  "timeline_at args t_now =
     (let start = t_now + 1; stop = start + a_duration_secs args
      in \<lparr>start_time = start, stop_time = stop, hard_stop_time = stop + a_drain_tail_secs args,
          steady_start = start + a_ramp_up_secs args\<rparr>)"

record steady =
  w_first :: rat
  w_last :: rat
  w_span :: rat
  w_pub_rate :: rat
  w_con_rate :: rat
  w_max_backlog :: int
  w_min_backlog :: int

definition in_window :: "timeline \<Rightarrow> sample list \<Rightarrow> (rat \<times> int \<times> int) list" where
  "in_window tm samples =
     map (\<lambda>(t, p, c, b). (t, p, c))
       (filter (\<lambda>(t, p, c, b). steady_start tm \<le> t \<and> t \<le> stop_time tm) samples)"

definition rate_over :: "int \<Rightarrow> rat \<Rightarrow> rat" where
  "rate_over d secs = (if 0 < secs then of_int d / secs else 0)"

definition backlogs :: "(rat \<times> int \<times> int) list \<Rightarrow> int list" where
  "backlogs w = map (\<lambda>(t, p, c). p - c) w"

text \<open>\<^verbatim>\<open>max(...)\<close> and \<^verbatim>\<open>min(...)\<close> of a nonempty list.\<close>

definition py_max :: "'a::linorder list \<Rightarrow> 'a" where
  "py_max xs = foldl (\<lambda>m x. if m < x then x else m) (hd xs) (tl xs)"

definition py_min :: "'a::linorder list \<Rightarrow> 'a" where
  "py_min xs = foldl (\<lambda>m x. if x < m then x else m) (hd xs) (tl xs)"

definition steady_state :: "timeline \<Rightarrow> sample list \<Rightarrow> steady option" where
  "steady_state tm samples =
     (let w = in_window tm samples in
      if length w < 2 then None
      else (case (hd w, last w) of ((t0, p0, c0), (t1, p1, c1)) \<Rightarrow>
        Some \<lparr>w_first = t0, w_last = t1, w_span = t1 - t0,
              w_pub_rate = rate_over (p1 - p0) (t1 - t0), w_con_rate = rate_over (c1 - c0) (t1 - t0),
              w_max_backlog = py_max (backlogs w), w_min_backlog = py_min (backlogs w)\<rparr>))"

definition sample_line :: "timeline \<Rightarrow> sample \<Rightarrow> string" where
  "sample_line tm s =
     (case s of (t, p, c, b) \<Rightarrow>
        ''  t='' @ rjust 6 (fmt_rat 1 (t - start_time tm)) @ ''s  published='' @ rjust 9 (str_int p)
        @ '' consumed='' @ rjust 9 (str_int c) @ '' backlog='' @ rjust 7 (str_int b))"

definition steady_lines :: "timeline \<Rightarrow> string \<Rightarrow> steady option \<Rightarrow> string list" where
  "steady_lines tm hint st =
     (case st of
        None \<Rightarrow> [CHR 0x0A # ''not enough samples in steady-state window'' @ hint]
      | Some w \<Rightarrow>
          [CHR 0x0A # ''steady-state window: t='' @ fmt_rat 1 (w_first w - start_time tm) @ ''s..''
             @ fmt_rat 1 (w_last w - start_time tm) @ ''s (span='' @ fmt_rat 1 (w_span w) @ ''s)'',
           ''steady-state publish rate: '' @ fmt_comma (w_pub_rate w) @ ''/s'',
           ''steady-state consume (sustained) rate: '' @ fmt_comma (w_con_rate w) @ ''/s'',
           ''backlog in steady-state window: min='' @ str_int (w_min_backlog w)
             @ '' max='' @ str_int (w_max_backlog w)])"

text \<open>
  What \<^verbatim>\<open>main\<close> prints after the workers ended, from the results the workers put into the two
  queues and the samples of the monitor; \<open>frepr\<close> is the text of a float.
\<close>

definition sustained_report ::
  "(rat \<Rightarrow> string) \<Rightarrow> sustained_args \<Rightarrow> timeline \<Rightarrow> int list \<Rightarrow> int list \<Rightarrow> sample list \<Rightarrow> string list" where
  "sustained_report frepr args tm pub_results con_results samples =
     (let total_published = sum_list pub_results; total_consumed = sum_list con_results in
      [''producers='' @ str_nat (a_producers args) @ '' consumers='' @ str_nat (a_consumers args)
         @ '' duration='' @ frepr (a_duration_secs args) @ ''s ramp_up='' @ frepr (a_ramp_up_secs args)
         @ ''s drain_tail='' @ frepr (a_drain_tail_secs args) @ ''s'',
       ''total_published='' @ str_int total_published @ '' total_consumed='' @ str_int total_consumed
         @ '' final_backlog='' @ str_int (total_published - total_consumed),
       ''backlog curve (t_since_start, published_so_far, consumed_so_far, backlog):'']
      @ map (sample_line tm) samples
      @ steady_lines tm '' - increase --duration-secs or decrease --sample-interval-secs''
          (steady_state tm samples))"

section \<open>Properties of the workers\<close>

text \<open>
  A producer reports what it counted: the number it returns is exactly what it added to
  the shared counter during its run, whatever the batches, the retries and the pacing were;
  and the same holds for a consumer.
\<close>

theorem workers_count_exactly:
  "(\<forall>n h'. sustained_producer D args stop pub h = Some (Inr n, h') \<longrightarrow> n = added pub h' - added pub h)
   \<and> (\<forall>n h'. sustained_consumer D args stop con h = Some (Inr n, h') \<longrightarrow> n = added con h' - added con h)"
  unfolding sustained_producer_def sustained_consumer_def
  by (intro conjI allI impI)
    (rule producer_session_counts, assumption | rule consumer_session_counts, assumption)+

text \<open>
  C10. Producers and consumers end: if the clock is monotone and a statement takes at least
  some \<open>\<delta>\<close> seconds, both return (normally or with an exception) whatever the server answers,
  and a consumer that returns normally has gone on until the hard stop time: no empty batch
  makes it leave earlier.
\<close>

theorem workers_return:
  assumes "statements_timely D \<delta>"
  shows "(\<exists>r h'. sustained_producer D args stop pub h = Some (r, h'))
    \<and> (\<exists>r h'. sustained_consumer D args hard_stop con h = Some (r, h'))
    \<and> (\<forall>n h'. sustained_consumer D args hard_stop con h = Some (Inr n, h') \<longrightarrow>
         (\<exists>h0. h' = h0 @ [PerfCounter, CursorExit, ConnExit] \<and> hard_stop \<le> perf D h0))"
proof (intro conjI allI impI)
  show "\<exists>r h'. sustained_producer D args stop pub h = Some (r, h')"
    unfolding sustained_producer_def by (rule producer_session_returns [OF assms])
  show "\<exists>r h'. sustained_consumer D args hard_stop con h = Some (r, h')"
    unfolding sustained_consumer_def by (rule consumer_session_returns [OF assms])
next
  fix n h' assume "sustained_consumer D args hard_stop con h = Some (Inr n, h')"
  from consumer_session_to_stop [OF this [unfolded sustained_consumer_def]]
  show "\<exists>h0. h' = h0 @ [PerfCounter, CursorExit, ConnExit] \<and> hard_stop \<le> perf D h0" .
qed

text \<open>
  C9. Pacing holds the rate: if the clock is monotone and \<^verbatim>\<open>sleep\<close> suspends for the time
  asked, then a throttled producer that returns \<open>n\<close> has not exceeded its share
  \<^verbatim>\<open>producer_rate_limit / producers\<close> of the target rate over the time from its start to its
  last look at the clock.
\<close>

theorem pacing_holds_rate:
  assumes "monotone_clock D" and "sleep_suspends D" and "0 < a_producer_rate_limit args"
    and "0 < a_producers args"
    and "sustained_producer D args stop pub h = Some (Inr n, h')"
  shows "\<exists>h0 hs. perf D hs \<le> perf D h0 \<and> h' = h0 @ [PerfCounter, CursorExit, ConnExit]
    \<and> producer_setup D (a_broker_uri args) (a_sql args) (a_batch_rows args) attr_array_sql (a_queue_uri args)
        (h @ [Connect (a_dsn args)]) = (Inr (perf D hs), hs @ [PerfCounter])
    \<and> of_int n \<le> a_producer_rate_limit args / of_nat (a_producers args) * (perf D h0 - perf D hs)"
proof -
  let ?rate = "a_producer_rate_limit args / of_nat (a_producers args)"
  have "0 < ?rate" using assms(3,4) by simp
  with assms(3,5) show ?thesis
    using producer_session_paced [OF assms(1,2), where rate = ?rate and c = pub and h = h]
    by (simp add: sustained_producer_def)
qed

section \<open>A concrete run\<close>

definition demo_args :: sustained_args where
  "demo_args = \<lparr>a_dsn = ''dbname=postgres'', a_sql = ''SELECT * FROM trades'', a_producers = 2,
     a_consumers = 1, a_batch_rows = 5, a_consume_batch = 5, a_consume_timeout_ms = 200,
     a_duration_secs = 10, a_ramp_up_secs = 2, a_drain_tail_secs = 5, a_sample_interval_secs = 2,
     a_producer_rate_limit = 4, a_queue_uri = ''bmq://q'', a_broker_uri = ''tcp://localhost:30114''\<rparr>"

lemma demo_clock:
  "monotone_clock (demo_db busy rows)" "sleep_suspends (demo_db busy rows)"
  "statements_timely (demo_db busy rows) 1"
proof -
  have nonneg: "0 \<le> sum_list (map (\<lambda>e. case e of DbSleep d \<Rightarrow> max 0 d | _ \<Rightarrow> (1::rat)) es)" for es
    by (rule sum_list_nonneg) (auto split: dbev.split)
  then show mono: "monotone_clock (demo_db busy rows)"
    by (simp add: monotone_clock_def demo_db_def demo_time_def)
  show "sleep_suspends (demo_db busy rows)"
    by (simp add: sleep_suspends_def demo_db_def demo_time_def)
  show "statements_timely (demo_db busy rows) 1"
    using mono by (simp add: statements_timely_def statements_take_def demo_db_def demo_time_def)
qed

lemmas worker_run = sustained_producer_def sustained_consumer_def producer_session_def
  consumer_session_def with_cursor_def producer_setup_def consumer_setup_def set_broker_def
  create_src_def execute_with_open_retry_def produce_round_def consume_round_def before_eq pace_def
  while_prog.simps loop_defs prog_defs db_call_defs demo_db_def demo_args_def
  demo_time_def py_truediv_def upt_conv_Cons

lemma demo_producer_run:
  "\<exists>h'. sustained_producer (demo_db 0 5) demo_args 7 0 [] = Some (Inr 5, h')"
  by (simp add: worker_run)

theorem workers_count_exactly_witness:
  "\<exists>h'. sustained_producer (demo_db 0 5) demo_args 7 0 [] = Some (Inr 5, h') \<and> added 0 h' = 5"
proof -
  obtain h' where run: "sustained_producer (demo_db 0 5) demo_args 7 0 [] = Some (Inr 5, h')"
    using demo_producer_run by blast
  with workers_count_exactly [of "demo_db 0 5" demo_args 7 0 "[]" 1] have "5 = added 0 h' - added 0 []"
    by blast
  with run show ?thesis by (simp add: added_def)
qed

theorem workers_return_witness:
  "\<exists>r h'. sustained_consumer (demo_db 3 5) demo_args 1000 1 [] = Some (r, h')"
  using workers_return [OF demo_clock(3), of 3 5 demo_args 1000 0 "[]" 1000 1] by blast

theorem pacing_holds_rate_witness:
  "\<exists>h0 hs. (5 :: rat) \<le> 2 * (perf (demo_db 0 5) h0 - perf (demo_db 0 5) hs)
     \<and> sustained_producer (demo_db 0 5) demo_args 7 0 [] = Some (Inr 5, h0 @ [PerfCounter, CursorExit, ConnExit])"
proof -
  obtain h' where run: "sustained_producer (demo_db 0 5) demo_args 7 0 [] = Some (Inr 5, h')"
    using demo_producer_run by blast
  have "0 < a_producer_rate_limit demo_args" "0 < a_producers demo_args"
    by (simp_all add: demo_args_def)
  from pacing_holds_rate [OF demo_clock(1,2) this run] run show ?thesis
    by (auto simp: demo_args_def)
qed

section \<open>Properties of the monitor and the report\<close>

definition consistent_samples :: "rat \<Rightarrow> sample list \<Rightarrow> bool" where
  "consistent_samples interval samples \<longleftrightarrow>
     (\<forall>(t, p, c, b) \<in> set samples. b = p - c)
     \<and> successively (\<lambda>s s'. fst s + interval \<le> fst s') samples"

lemma successively_snoc:
  "successively P (xs @ [x]) \<longleftrightarrow> successively P xs \<and> (xs = [] \<or> P (last xs) x)"
  by (auto simp: successively_append_iff)

lemma monitor_keeps_consistent:
  assumes "monotone_clock D" and "sleep_suspends D"
    and "consistent_samples iv ss" and "ss = [] \<or> fst (last ss) \<le> perf D h"
    and "monitor_round D pub con iv ss (h @ [PerfCounter]) = (Inr ss', h')"
  shows "consistent_samples iv ss' \<and> fst (last ss') \<le> perf D h'"
proof -
  let ?h1 = "(h @ [PerfCounter]) @ [DbSleep iv]"
  let ?h2 = "?h1 @ [ReadCounter pub, ReadCounter con]"
  from monitor_round_eq [OF assms(5)] obtain p c where ss': "ss' = ss @ [(perf D ?h2, p, c, p - c)]"
    and h': "h' = ?h2 @ [PerfCounter]" by auto
  have "perf D h \<le> perf D (h @ [PerfCounter])" "perf D ?h1 \<le> perf D ?h2" "perf D ?h2 \<le> perf D h'"
    unfolding h' using assms(1) unfolding monotone_clock_def by blast+
  moreover have "perf D (h @ [PerfCounter]) + iv \<le> perf D ?h1"
    using assms(2) unfolding sleep_suspends_def by blast
  ultimately have "perf D h + iv \<le> perf D ?h2" "perf D ?h2 \<le> perf D h'" by linarith+
  with assms(3,4) ss' show ?thesis
    by (auto simp: consistent_samples_def successively_snoc)
qed

text \<open>
  The backlog curve is well formed and complete: with a positive sampling interval, a
  monotone clock and a \<^verbatim>\<open>sleep\<close> that suspends, the monitor returns; in the curve it leaves,
  every backlog is the difference of the two counts of its sample, and successive samples are
  at least one interval apart.
\<close>

theorem monitor_curve:
  assumes "0 < iv" and "monotone_clock D" and "sleep_suspends D"
  shows "(\<exists>r h'. monitor D pub con stop iv [] h = Some (r, h'))
    \<and> (\<forall>samples h'. monitor D pub con stop iv [] h = Some (Inr samples, h') \<longrightarrow> consistent_samples iv samples)"
proof (intro conjI allI impI)
  show "\<exists>r h'. monitor D pub con stop iv [] h = Some (r, h')"
    unfolding monitor_def using assms by (intro monitoring_clock.loop_returns) simp
next
  fix samples h' assume "monitor D pub con stop iv [] h = Some (Inr samples, h')"
  then have run: "while_prog (before D stop) (monitor_round D pub con iv) [] h = Some (Inr samples, h')"
    by (simp add: monitor_def)
  have "\<exists>h0. (consistent_samples iv samples \<and> (samples = [] \<or> fst (last samples) \<le> perf D h0))
      \<and> before D stop h0 = (Inr False, h')"
  proof (rule while_prog_invariant [OF run])
    show "consistent_samples iv [] \<and> ([] = [] \<or> fst (last []) \<le> perf D h)"
      by (simp add: consistent_samples_def)
  next
    fix ss k k1 ss1 k2
    assume inv: "consistent_samples iv ss \<and> (ss = [] \<or> fst (last ss) \<le> perf D k)"
      and "before D stop k = (Inr True, k1)" and run: "monitor_round D pub con iv ss k1 = (Inr ss1, k2)"
    then have "k1 = k @ [PerfCounter]" by (simp add: before_eq)
    from monitor_keeps_consistent [OF assms(2,3) conjunct1 [OF inv] conjunct2 [OF inv] run [unfolded this]]
    show "consistent_samples iv ss1 \<and> (ss1 = [] \<or> fst (last ss1) \<le> perf D k2)" by blast
  qed
  then show "consistent_samples iv samples" by blast
qed

theorem monitor_curve_witness:
  "\<exists>r h'. monitor (demo_db 0 5) 0 1 60 2 [] [] = Some (r, h')"
  using monitor_curve [of 2 "demo_db 0 5" 0 1 60 "[]"] demo_clock by simp

lemma py_max_bounds:
  fixes xs :: "'a::linorder list"
  shows "xs \<noteq> [] \<Longrightarrow> x \<in> set xs \<Longrightarrow> x \<le> py_max xs \<and> py_max xs \<in> set xs"
proof -
  have "foldl (\<lambda>m x. if m < x then x else m) a ys \<in> insert a (set ys)
      \<and> (\<forall>y \<in> insert a (set ys). y \<le> foldl (\<lambda>m x. if m < x then x else m) a ys)" for a :: 'a and ys
    by (induction ys arbitrary: a) (auto, fastforce+)
  then show "xs \<noteq> [] \<Longrightarrow> x \<in> set xs \<Longrightarrow> x \<le> py_max xs \<and> py_max xs \<in> set xs"
    unfolding py_max_def by (cases xs) auto
qed

lemma py_min_bounds:
  fixes xs :: "'a::linorder list"
  shows "xs \<noteq> [] \<Longrightarrow> x \<in> set xs \<Longrightarrow> py_min xs \<le> x \<and> py_min xs \<in> set xs"
proof -
  have "foldl (\<lambda>m x. if x < m then x else m) a ys \<in> insert a (set ys)
      \<and> (\<forall>y \<in> insert a (set ys). foldl (\<lambda>m x. if x < m then x else m) a ys \<le> y)" for a :: 'a and ys
    by (induction ys arbitrary: a) (auto, fastforce+)
  then show "xs \<noteq> [] \<Longrightarrow> x \<in> set xs \<Longrightarrow> py_min xs \<le> x \<and> py_min xs \<in> set xs"
    unfolding py_min_def by (cases xs) auto
qed

lemma rate_over_times: "0 < secs \<Longrightarrow> rate_over d secs * secs = of_int d"
  by (simp add: rate_over_def)

text \<open>
  The steady-state figures are consistent: for a report over a window of some length, the
  difference of the two rates times the length of the window is the growth of the backlog
  between its first and its last sample, and every backlog sampled in the window lies between
  the reported minimum and maximum, which are backlogs of the window.
\<close>

theorem steady_state_balance:
  assumes "steady_state tm samples = Some w" and "0 < w_span w"
  shows "(w_pub_rate w - w_con_rate w) * w_span w
      = of_int (last (backlogs (in_window tm samples)) - hd (backlogs (in_window tm samples)))
    \<and> w_max_backlog w \<in> set (backlogs (in_window tm samples))
    \<and> w_min_backlog w \<in> set (backlogs (in_window tm samples))
    \<and> (\<forall>b \<in> set (backlogs (in_window tm samples)). w_min_backlog w \<le> b \<and> b \<le> w_max_backlog w)"
proof -
  let ?w = "in_window tm samples"
  obtain t0 p0 c0 t1 p1 c1 where ends: "hd ?w = (t0, p0, c0)" "last ?w = (t1, p1, c1)"
    by (metis prod_cases3)
  have len: "?w \<noteq> []" using assms(1) by (auto simp: steady_state_def Let_def)
  then have bl: "hd (backlogs ?w) = p0 - c0" "last (backlogs ?w) = p1 - c1" "backlogs ?w \<noteq> []"
    using ends by (simp_all add: backlogs_def hd_map last_map)
  have w: "w_span w = t1 - t0" "w_pub_rate w = rate_over (p1 - p0) (t1 - t0)"
    "w_con_rate w = rate_over (c1 - c0) (t1 - t0)" "w_max_backlog w = py_max (backlogs ?w)"
    "w_min_backlog w = py_min (backlogs ?w)"
    using assms(1) ends by (auto simp: steady_state_def Let_def split: if_splits)
  have "(w_pub_rate w - w_con_rate w) * w_span w = of_int (p1 - p0) - of_int (c1 - c0)"
    using assms(2) unfolding w left_diff_distrib by (simp only: rate_over_times)
  then show ?thesis
    using bl w py_max_bounds [OF bl(3)] py_min_bounds [OF bl(3)] list.set_sel(1) [OF bl(3)] by force
qed

theorem steady_state_balance_witness:
  "\<exists>w. steady_state (timeline_at demo_args 0) [(4, 100, 80, 20), (8, 300, 220, 80)] = Some w
     \<and> (w_pub_rate w - w_con_rate w) * w_span w = 60 \<and> w_max_backlog w = 80"
proof -
  let ?s = "[(4, 100, 80, 20), (8, 300, 220, 80)] :: sample list"
  obtain w where w: "steady_state (timeline_at demo_args 0) ?s = Some w" "w_span w = 4" "w_max_backlog w = 80"
    by (simp add: steady_state_def timeline_at_def demo_args_def in_window_def backlogs_def py_max_def)
  moreover have "backlogs (in_window (timeline_at demo_args 0) ?s) = [20, 80]"
    by (simp add: timeline_at_def demo_args_def in_window_def backlogs_def)
  ultimately show ?thesis using steady_state_balance [OF w(1)] by simp
qed

end
