(* ===== verification/Filtered.thy ===== *)
theory Filtered
  imports Sustained
begin

text \<open>
  \<^verbatim>\<open>bench/filtered_bench.py\<close>: the sustained benchmark with one subscription expression per
  consumer and an optional check of the content of what arrives. Counter 2 is
  \<^verbatim>\<open>verify_mismatch_counter\<close>.
\<close>

section \<open>The filters of a run\<close>

text \<open>\<^verbatim>\<open>if args.filter_values:\<close> is false for \<^verbatim>\<open>None\<close> and for the empty string.\<close>

definition filter_setup ::
  "string \<Rightarrow> string option \<Rightarrow> nat \<Rightarrow> exc + string option list \<times> (nat \<rightharpoonup> string)" where
  "filter_setup filter_column filter_values consumers =
     (case filter_values of
        Some (c # cs) \<Rightarrow>
          (let values = py_split_on (CHR '','') (c # cs) in
           if length values \<noteq> consumers then Inl AssertionError
           else Inr (map (\<lambda>v. Some (filter_column @ '' == '' @ v)) values,
                     map_of (enumerate 0 (map (py_strip_chars [CHR 0x27, CHR 0x22]) values))))
      | _ \<Rightarrow> Inr (replicate consumers None, Map.empty))"

section \<open>The workers of the script\<close>

record filtered_args = sustained_args +
  a_filter_column :: string
  a_verify_content :: bool

definition filtered_attrs :: "string \<Rightarrow> string" where
  "filtered_attrs filter_column =
     ''ARRAY['' @ q1 ''Sequence Number'' @ '','' @ q1 ''Trade Id'' @ '','' @ q1 filter_column @ '']''"

definition filtered_producer :: "denv \<Rightarrow> filtered_args \<Rightarrow> rat \<Rightarrow> nat \<Rightarrow> (dbev, int) oprog" where
  "filtered_producer D args stop counter =
     producer_session D (a_dsn args) (a_broker_uri args) (a_sql args) (a_batch_rows args)
       (filtered_attrs (a_filter_column args)) (a_queue_uri args) (0 < a_producer_rate_limit args)
       (a_producer_rate_limit args / of_nat (a_producers args)) stop counter"

definition sql_opt :: "string option \<Rightarrow> sqlval" where
  "sql_opt v = (case v of None \<Rightarrow> SNull | Some s \<Rightarrow> SText s)"

text \<open>The rows whose value, as text, is not the expected one.\<close>

definition wrong_rows :: "string \<Rightarrow> string option list \<Rightarrow> int" where
  "wrong_rows expected rows = int (length (filter (\<lambda>v. str_opt v \<noteq> expected) rows))"

definition verify_sql :: string where
  "verify_sql = ''SELECT msgpack_to_jsonb(bmq_consume)->>%s FROM bmq_consume(%s, %s, %s, %s, true)''"

definition filtered_count_sql :: string where
  "filtered_count_sql = ''SELECT count(*) FROM bmq_consume(%s, %s, %s, %s, true)''"

text \<open>
  One round: the state is \<^verbatim>\<open>(local_consumed, local_mismatch)\<close>. With the check on, the rows
  themselves are fetched and compared with the value expected of this worker.
\<close>

definition filtered_round ::
  "denv \<Rightarrow> filtered_args \<Rightarrow> (nat \<rightharpoonup> string) \<Rightarrow> nat \<Rightarrow> string option \<Rightarrow> nat \<Rightarrow> int \<times> int \<Rightarrow> (int \<times> int) db" where
  "filtered_round D args expected_value_by_worker worker_id filter_expr c = (\<lambda>(local_consumed, local_mismatch).
     if a_verify_content args \<and> filter_expr \<noteq> None then
       andthen (execute D verify_sql
         [SText (a_filter_column args), SText (a_queue_uri args), sql_opt filter_expr,
          SInt (a_consume_batch args), SInt (a_consume_timeout_ms args)])
       (bind (fetchall D) (\<lambda>rows.
        bind (lift (case expected_value_by_worker worker_id of None \<Rightarrow> Inl KeyError | Some e \<Rightarrow> Inr e)) (\<lambda>expected.
        andthen (add_counter c (int (length rows)))
        (ret (local_consumed + int (length rows), local_mismatch + wrong_rows expected rows)))))
     else
       andthen (execute D filtered_count_sql
         [SText (a_queue_uri args), sql_opt filter_expr, SInt (a_consume_batch args),
          SInt (a_consume_timeout_ms args)])
       (bind (fetchone D) (\<lambda>n.
        andthen (add_counter c n)
        (ret (local_consumed + n, local_mismatch)))))"

definition filtered_consumer ::
  "denv \<Rightarrow> filtered_args \<Rightarrow> (nat \<rightharpoonup> string) \<Rightarrow> nat \<Rightarrow> rat \<Rightarrow> nat \<Rightarrow> string option \<Rightarrow> nat \<Rightarrow> (dbev, int) oprog" where
  "filtered_consumer D args expected worker_id hard_stop counter filter_expr verify_counter =
     with_cursor D (a_dsn args)
       (then_loop (consumer_setup D (a_broker_uri args)
                     ''SELECT count(*) FROM bmq_consume(%s, %s, 1, 50, true)''
                     [SText (a_queue_uri args), sql_opt filter_expr]) (\<lambda>_.
        loop_then
          (while_prog (before D hard_stop)
             (filtered_round D args expected worker_id filter_expr counter) (0, 0))
          (\<lambda>(local_consumed, local_mismatch).
             andthen (if local_mismatch \<noteq> 0 then add_counter verify_counter local_mismatch else ret ())
               (ret local_consumed))))"

section \<open>The report\<close>

definition filtered_report ::
  "filtered_args \<Rightarrow> string option \<Rightarrow> string option list \<Rightarrow> timeline \<Rightarrow> int list \<Rightarrow> int list \<Rightarrow> int
   \<Rightarrow> sample list \<Rightarrow> string list" where
  "filtered_report args filter_values filter_exprs tm pub_results con_results mismatches samples =
     (let total_published = sum_list pub_results; total_consumed = sum_list con_results in
      [''producers='' @ str_nat (a_producers args) @ '' consumers='' @ str_nat (a_consumers args)
         @ '' filters='' @ list_repr (map repr_opt filter_exprs),
       ''total_published='' @ str_int total_published @ '' total_consumed='' @ str_int total_consumed
         @ '' final_backlog='' @ str_int (total_published - total_consumed)]
      @ (if a_verify_content args \<and> filter_values \<noteq> None \<and> filter_values \<noteq> Some []
         then [''content_verify_mismatches='' @ str_int mismatches] else [])
      @ [''backlog curve (t_since_start, published_so_far, consumed_so_far, backlog):'']
      @ map (sample_line tm) samples
      @ steady_lines tm [] (steady_state tm samples))"

section \<open>Properties\<close>

lemma filtered_round_counts:
  assumes "filtered_round D args ex i fe c s h = (Inr s', h')"
  shows "fst s' - fst s = added c h' - added c h"
  using assms
  by (cases s)
    (auto simp: filtered_round_def prog_eqs db_call_defs added_def trace_simps added_ev_def
      split: if_splits option.splits)

interpretation filtering: counting_loop "before D stop" "filtered_round D args ex i fe c" fst c
  for D stop args ex i fe c
  by unfold_locales (simp_all add: added_before filtered_round_counts)

text \<open>Splitting what was joined with commas.\<close>

lemma split_on_no_sep: "sep \<notin> set s \<Longrightarrow> py_split_on sep s = [s]"
  by (induction s) auto

lemma split_on_append:
  "sep \<notin> set s \<Longrightarrow> py_split_on sep (s @ sep # t) = s # py_split_on sep t"
  by (induction s) auto

lemma split_on_join:
  "vs \<noteq> [] \<Longrightarrow> \<forall>v \<in> set vs. sep \<notin> set v \<Longrightarrow> py_split_on sep (py_join [sep] vs) = vs"
  by (induction "[sep]" vs rule: py_join.induct) (auto simp: split_on_no_sep split_on_append)

lemma map_of_enumerate: "map_of (enumerate 0 xs) i = (if i < length xs then Some (xs ! i) else None)"
proof (cases "i < length xs")
  case True
  then have "(i, xs ! i) \<in> set (enumerate 0 xs)" by (simp add: in_set_enumerate_eq)
  with True show ?thesis by (simp add: map_of_is_SomeI)
next
  case False
  then have "i \<notin> fst ` set (enumerate 0 xs)" by (auto simp: in_set_enumerate_eq)
  with False show ?thesis by (simp add: map_of_eq_None_iff)
qed

text \<open>
  One filter per consumer: from a list of values without commas, joined by commas on the
  command line, the script makes for consumer \<open>i\<close> the expression that compares the column with
  the \<open>i\<close>-th value and expects this value, without its quotes, in the content check; and it
  stops with an assertion error exactly when the number of values is not that of consumers.
\<close>

theorem filter_setup_per_consumer:
  assumes "vs \<noteq> []" and "\<forall>v \<in> set vs. CHR '','' \<notin> set v" and "py_join '','' vs \<noteq> []"
  shows "filter_setup column (Some (py_join '','' vs)) consumers =
    (if length vs = consumers
     then Inr (map (\<lambda>v. Some (column @ '' == '' @ v)) vs,
               \<lambda>i. if i < consumers then Some (py_strip_chars [CHR 0x27, CHR 0x22] (vs ! i)) else None)
     else Inl AssertionError)"
proof -
  obtain c cs where join: "py_join '','' vs = c # cs" using assms(3) by (cases "py_join '','' vs") auto
  then have "py_split_on (CHR '','') (c # cs) = vs" using split_on_join [OF assms(1,2)] by simp
  then show ?thesis
    unfolding filter_setup_def join by (auto simp: Let_def map_of_enumerate fun_eq_iff)
qed

theorem filter_setup_per_consumer_witness:
  "\<exists>e. filter_setup ''texi'' (Some (py_join '','' [''0'', q1 ''D''])) 2 =
     Inr ([Some ''texi == 0'', Some (''texi == '' @ q1 ''D'')], e) \<and> e 1 = Some ''D''"
  using filter_setup_per_consumer [of "[''0'', q1 ''D'']" "''texi''" 2]
  by (simp add: q1_def py_strip_chars_def strip_with_def)

text \<open>The rows a worker fetched, and how many of them were wrong.\<close>

fun wrong_seen_from :: "denv \<Rightarrow> string \<Rightarrow> dbhist \<Rightarrow> dbhist \<Rightarrow> int" where
  "wrong_seen_from D expected past [] = 0"
| "wrong_seen_from D expected past (e # es) =
     (if e = FetchAll then (case fetchall_ans D past of Inl _ \<Rightarrow> 0 | Inr rows \<Rightarrow> wrong_rows expected rows) else 0)
     + wrong_seen_from D expected (past @ [e]) es"

definition wrong_seen :: "denv \<Rightarrow> string \<Rightarrow> dbhist \<Rightarrow> int" where
  "wrong_seen D expected h = wrong_seen_from D expected [] h"

lemma wrong_seen_from_append:
  "wrong_seen_from D x past (es @ fs) = wrong_seen_from D x past es + wrong_seen_from D x (past @ es) fs"
  by (induction es arbitrary: past) auto

lemma wrong_seen_append: "wrong_seen D x (h @ es) = wrong_seen D x h + wrong_seen_from D x h es"
  by (simp add: wrong_seen_def wrong_seen_from_append)

lemma wrong_seen_from_none: "FetchAll \<notin> set es \<Longrightarrow> wrong_seen_from D x past es = 0"
  by (induction es arbitrary: past) auto

definition fetch_ev :: "nat \<Rightarrow> dbev \<Rightarrow> unit list" where
  "fetch_ev k e = (if e = FetchAll then [()] else [])"

lemma fetch_silent [silent_intros]:
  "silent fetch_ev (execute D s ps)" "silent fetch_ev (uniform D a b)" "silent fetch_ev (db_sleep D d)"
  "silent fetch_ev (barrier_wait D)"
  by (simp_all add: db_silent fetch_ev_def)

lemma observe_fetch: "observe_from k fetch_ev es = [] \<Longrightarrow> FetchAll \<notin> set es"
  by (induction es arbitrary: k) (auto simp: fetch_ev_def split: if_splits)

lemma wrong_seen_setup:
  assumes "consumer_setup D b prime ps h = (r, h')"
  shows "wrong_seen D x h' = wrong_seen D x h"
proof -
  have "extends (consumer_setup D b prime ps)"
    unfolding consumer_setup_def set_broker_def execute_with_open_retry_def barrier_wait_def
    by (intro extends_intros extends_retry_loop)
  then obtain es where es: "h' = h @ es" using assms unfolding extends_def by (metis snd_conv)
  have "silent fetch_ev (consumer_setup D b prime ps)"
    unfolding consumer_setup_def set_broker_def execute_with_open_retry_def
    by (intro silent_intros silent_retry_loop)
  from silentD [OF this assms] es have "observe_from (length h) fetch_ev es = []"
    by (simp add: trace_simps)
  then have "FetchAll \<notin> set es" by (rule observe_fetch)
  with es show ?thesis by (simp add: wrong_seen_append wrong_seen_from_none)
qed

lemma verified_round:
  assumes "a_verify_content args" and "filtered_round D args ex i (Some fe) c s h = (Inr s', h')"
  shows "\<exists>x. ex i = Some x \<and> snd s' - snd s = wrong_seen D x h' - wrong_seen D x h"
  using assms
  by (cases s)
    (auto simp: filtered_round_def prog_eqs db_call_defs wrong_seen_append split: option.splits)

lemma filtered_consumer_run:
  assumes "filtered_consumer D args expected i hard_stop counter fe verify h = Some (Inr n, h')"
  obtains h2 m h3 where "consumer_setup D (a_broker_uri args) ''SELECT count(*) FROM bmq_consume(%s, %s, 1, 50, true)''
      [SText (a_queue_uri args), sql_opt fe] (h @ [Connect (a_dsn args)]) = (Inr (), h2)"
    and "while_prog (before D hard_stop) (filtered_round D args expected i fe counter) (0, 0) h2 = Some (Inr (n, m), h3)"
    and "h' = h3 @ (if m = 0 then [] else [AddCounter verify m]) @ [CursorExit, ConnExit]"
proof -
  let ?prime = "consumer_setup D (a_broker_uri args) ''SELECT count(*) FROM bmq_consume(%s, %s, 1, 50, true)''
    [SText (a_queue_uri args), sql_opt fe]"
  from assms obtain h1 where "then_loop ?prime (\<lambda>_. loop_then
      (while_prog (before D hard_stop) (filtered_round D args expected i fe counter) (0, 0))
      (\<lambda>(local_consumed, local_mismatch).
         andthen (if local_mismatch \<noteq> 0 then add_counter verify local_mismatch else ret ())
           (ret local_consumed))) (h @ [Connect (a_dsn args)]) = Some (Inr n, h1)"
    and "h' = h1 @ [CursorExit, ConnExit]"
    unfolding filtered_consumer_def by (rule with_cursor_result)
  then show ?thesis
    by (auto simp: loop_eqs prog_eqs add_counter_def split: if_splits intro!: that)
qed

lemma filtered_consumer_counts:
  assumes "filtered_consumer D args expected i hard_stop counter fe verify h = Some (Inr n, h')" and "verify \<noteq> counter"
  shows "n = added counter h' - added counter h"
  using assms(1)
proof (rule filtered_consumer_run)
  fix h2 m h3
  assume prep: "consumer_setup D (a_broker_uri args) ''SELECT count(*) FROM bmq_consume(%s, %s, 1, 50, true)''
      [SText (a_queue_uri args), sql_opt fe] (h @ [Connect (a_dsn args)]) = (Inr (), h2)"
    and loop: "while_prog (before D hard_stop) (filtered_round D args expected i fe counter) (0, 0) h2 = Some (Inr (n, m), h3)"
    and h': "h' = h3 @ (if m = 0 then [] else [AddCounter verify m]) @ [CursorExit, ConnExit]"
  have "added counter h2 = added counter h" using added_silent [OF added_setup(2) prep] by (simp add: added_exit)
  moreover have "added counter h' = added counter h3"
    using assms(2) unfolding h' by (simp add: added_def trace_simps added_ev_def)
  ultimately show ?thesis using filtering.loop_counts [OF loop] by simp
qed

lemma filtered_loop_mismatches:
  assumes "a_verify_content args" and "expected i = Some x" and "verify \<noteq> counter"
    and loop: "while_prog (before D hard_stop) (filtered_round D args expected i (Some fe) counter) (0, 0) h2
       = Some (Inr (n, m), h3)"
  shows "m = wrong_seen D x h3 - wrong_seen D x h2" and "added verify h3 = added verify h2"
proof -
  let ?body = "filtered_round D args expected i (Some fe) counter"
  define I where "I = (\<lambda>(s :: int \<times> int) k. snd s = wrong_seen D x k - wrong_seen D x h2 \<and> added verify k = added verify h2)"
  have "\<exists>h0. I (n, m) h0 \<and> before D hard_stop h0 = (Inr False, h3)"
  proof (rule while_prog_invariant [OF loop])
    show "I (0, 0) h2" by (simp add: I_def)
    fix s k k1 s1 k2
    assume I: "I s k" and "before D hard_stop k = (Inr True, k1)" and run: "?body s k1 = (Inr s1, k2)"
    then have k1: "k1 = k @ [PerfCounter]" by (simp add: before_eq)
    from verified_round [OF assms(1) run] assms(2)
    have "snd s1 - snd s = wrong_seen D x k2 - wrong_seen D x k1" by simp
    moreover have "added verify k2 = added verify k1"
      using run assms(1-3)
      by (cases s) (auto simp: filtered_round_def prog_eqs db_call_defs added_def trace_simps added_ev_def)
    ultimately show "I s1 k2"
      using I k1 by (simp add: I_def wrong_seen_append added_def trace_simps added_ev_def)
  qed
  then show "m = wrong_seen D x h3 - wrong_seen D x h2" "added verify h3 = added verify h2"
    by (auto simp: I_def before_eq wrong_seen_append added_def trace_simps added_ev_def)
qed

lemma filtered_consumer_mismatches:
  assumes "a_verify_content args" and "expected i = Some x" and "verify \<noteq> counter"
    and "filtered_consumer D args expected i hard_stop counter (Some fe) verify h = Some (Inr n, h')"
  shows "added verify h' - added verify h = wrong_seen D x h' - wrong_seen D x h"
  using assms(4)
proof (rule filtered_consumer_run)
  fix h2 m h3
  assume prep: "consumer_setup D (a_broker_uri args) ''SELECT count(*) FROM bmq_consume(%s, %s, 1, 50, true)''
      [SText (a_queue_uri args), sql_opt (Some fe)] (h @ [Connect (a_dsn args)]) = (Inr (), h2)"
    and loop: "while_prog (before D hard_stop) (filtered_round D args expected i (Some fe) counter) (0, 0) h2
       = Some (Inr (n, m), h3)"
    and h': "h' = h3 @ (if m = 0 then [] else [AddCounter verify m]) @ [CursorExit, ConnExit]"
  note m = filtered_loop_mismatches [OF assms(1-3) loop]
  have "wrong_seen D x h2 = wrong_seen D x h" "added verify h2 = added verify h"
    using wrong_seen_setup [OF prep, of x] added_silent [OF added_setup(2) prep]
    by (simp_all add: wrong_seen_append added_exit)
  moreover have "wrong_seen D x h' = wrong_seen D x h3" "added verify h' = added verify h3 + m"
    unfolding h' by (simp_all add: wrong_seen_append wrong_seen_from_none added_def trace_simps added_ev_def)
  ultimately show ?thesis using m by simp
qed

text \<open>
  C12. The content check is exact: with the check on, a consumer with a filter that returns
  normally has added to the mismatch counter the number of rows it fetched whose value is not
  the one expected of it (nothing if there was none), and has returned the number of rows it
  counted as consumed.
\<close>

theorem content_check_exact:
  assumes "a_verify_content args" and "expected i = Some x" and "verify \<noteq> counter"
    and "filtered_consumer D args expected i hard_stop counter (Some fe) verify h = Some (Inr n, h')"
  shows "added verify h' - added verify h = wrong_seen D x h' - wrong_seen D x h
    \<and> n = added counter h' - added counter h"
  using filtered_consumer_mismatches [OF assms] filtered_consumer_counts [OF assms(4,3)] by blast

definition demo_filtered :: filtered_args where
  "demo_filtered = sustained_args.extend demo_args \<lparr>a_filter_column = ''texi'', a_verify_content = True\<rparr>"

definition demo_rows_db :: denv where
  "demo_rows_db = (demo_db 0 5)\<lparr>fetchall_ans := (\<lambda>_. Inr [Some ''0'', Some ''1'', None])\<rparr>"

lemma demo_filtered_run:
  "\<exists>h'. filtered_consumer demo_rows_db demo_filtered [0 \<mapsto> ''0''] 0 5 1 (Some ''texi == 0'') 2 [] = Some (Inr 3, h')
     \<and> added 2 h' = 2"
  by (simp add: filtered_consumer_def demo_rows_db_def demo_filtered_def sustained_args.defs
      filtered_round_def worker_run sql_opt_def wrong_rows_def str_opt_def added_def observe_def added_ev_def)

theorem content_check_exact_witness:
  "\<exists>h'. filtered_consumer demo_rows_db demo_filtered [0 \<mapsto> ''0''] 0 5 1 (Some ''texi == 0'') 2 [] = Some (Inr 3, h')
     \<and> wrong_seen demo_rows_db ''0'' h' = 2"
proof -
  obtain h' where run: "filtered_consumer demo_rows_db demo_filtered [0 \<mapsto> ''0''] 0 5 1 (Some ''texi == 0'') 2 []
      = Some (Inr 3, h')" and two: "added 2 h' = 2"
    using demo_filtered_run by blast
  have "a_verify_content demo_filtered" by (simp add: demo_filtered_def sustained_args.defs)
  from content_check_exact [OF this _ _ run, of "''0''"] run two show ?thesis
    by (simp add: wrong_seen_def added_def)
qed

end
