(* ===== verification/Multi_Queue.thy ===== *)
theory Multi_Queue
  imports Sustained "HOL-Library.AList"
begin

text \<open>
  \<^verbatim>\<open>bench/multi_queue_bench.py\<close>: \<open>k\<close> independent queues, each with its own producer,
  consumer and pair of counters. The published counter of queue \<open>i\<close> is number \<open>2 * i\<close>, its
  consumed counter number \<open>2 * i + 1\<close>.
\<close>

section \<open>The workers of the script\<close>

text \<open>The default of \<^verbatim>\<open>--per-queue-rate\<close> is an integer, a value given on the command line a float.\<close>

datatype rate = IntRate int | FloatRate rat

definition rate_value :: "rate \<Rightarrow> rat" where
  "rate_value r = (case r of IntRate i \<Rightarrow> of_int i | FloatRate x \<Rightarrow> x)"

definition rate_text :: "(rat \<Rightarrow> string) \<Rightarrow> rate \<Rightarrow> string" where
  "rate_text frepr r = (case r of IntRate i \<Rightarrow> str_int i | FloatRate x \<Rightarrow> frepr x)"

record mq_args =
  m_dsn :: string
  m_sql :: string
  m_k_queues :: nat
  m_per_queue_rate :: rate
  m_batch_rows :: int
  m_consume_batch :: int
  m_consume_timeout_ms :: int
  m_duration_secs :: rat
  m_ramp_up_secs :: rat
  m_drain_tail_secs :: rat
  m_sample_interval_secs :: rat
  m_queue_uri_base :: string
  m_broker_uri :: string

definition queue_uris :: "string \<Rightarrow> nat \<Rightarrow> string list" where
  "queue_uris base k = map (\<lambda>i. base @ ''_'' @ str_nat i) [0..<k]"

definition pub_counter :: "nat \<Rightarrow> nat" where "pub_counter i = 2 * i"

definition con_counter :: "nat \<Rightarrow> nat" where "con_counter i = 2 * i + 1"

definition mq_producer :: "denv \<Rightarrow> mq_args \<Rightarrow> nat \<Rightarrow> string \<Rightarrow> rat \<Rightarrow> rat \<Rightarrow> (dbev, int) oprog" where
  "mq_producer D args qidx queue_uri per_producer_rate stop =
     producer_session D (m_dsn args) (m_broker_uri args) (m_sql args) (m_batch_rows args) attr_array_sql
       queue_uri (0 < per_producer_rate) per_producer_rate stop (pub_counter qidx)"

definition mq_consumer :: "denv \<Rightarrow> mq_args \<Rightarrow> nat \<Rightarrow> string \<Rightarrow> rat \<Rightarrow> (dbev, int) oprog" where
  "mq_consumer D args qidx queue_uri hard_stop =
     consumer_session D (m_dsn args) (m_broker_uri args)
       ''SELECT count(*) FROM bmq_consume(%s, NULL, 1, 50, true)'' [SText queue_uri]
       ''SELECT count(*) FROM bmq_consume(%s, NULL, %s, %s, true)''
       [SText queue_uri, SInt (m_consume_batch args), SInt (m_consume_timeout_ms args)]
       hard_stop (con_counter qidx)"

text \<open>A sample: the time, then the two counts of every queue.\<close>

type_synonym mq_sample = "rat \<times> (int \<times> int) list"

fun read_row :: "denv \<Rightarrow> nat list \<Rightarrow> (int \<times> int) list db" where
  "read_row D [] = ret []"
| "read_row D (i # is) =
     bind (read_counter D (pub_counter i)) (\<lambda>p.
     bind (read_counter D (con_counter i)) (\<lambda>c.
     bind (read_row D is) (\<lambda>row. ret ((p, c) # row))))"

definition mq_monitor_round :: "denv \<Rightarrow> nat \<Rightarrow> rat \<Rightarrow> mq_sample list \<Rightarrow> mq_sample list db" where
  "mq_monitor_round D k sample_interval samples =
     andthen (db_sleep D sample_interval)
     (bind (perf_counter D) (\<lambda>t.
      bind (read_row D [0..<k]) (\<lambda>row. ret (samples @ [(t, row)]))))"

definition mq_monitor :: "denv \<Rightarrow> nat \<Rightarrow> rat \<Rightarrow> rat \<Rightarrow> mq_sample list \<Rightarrow> (dbev, mq_sample list) oprog" where
  "mq_monitor D k stop sample_interval samples =
     while_prog (before D stop) (mq_monitor_round D k sample_interval) samples"

section \<open>The report\<close>

definition mq_timeline :: "mq_args \<Rightarrow> rat \<Rightarrow> timeline" where
  "mq_timeline args t_now =
     (let start = t_now + 1; stop = start + m_duration_secs args
      in \<lparr>start_time = start, stop_time = stop, hard_stop_time = stop + m_drain_tail_secs args,
          steady_start = start + m_ramp_up_secs args\<rparr>)"

text \<open>The results arrive as pairs of a queue number and a count, in any order.\<close>

definition totals :: "(nat \<times> int) list \<Rightarrow> (nat \<times> int) list" where
  "totals results = fold (\<lambda>(i, n) d. AList.update i n d) results []"

record queue_stat =
  q_pub_rate :: rat
  q_con_rate :: rat
  q_min :: int
  q_max :: int
  q_first :: int
  q_last :: int
  q_growing :: bool

definition queue_backlogs :: "mq_sample list \<Rightarrow> nat \<Rightarrow> int list" where
  "queue_backlogs w i = map (\<lambda>(t, row). fst (row ! i) - snd (row ! i)) w"

definition queue_stat_of :: "mq_sample list \<Rightarrow> nat \<Rightarrow> queue_stat" where
  "queue_stat_of w i =
     (let (t0, row0) = hd w; (t1, row1) = last w; bl = queue_backlogs w i in
      \<lparr>q_pub_rate = rate_over (fst (row1 ! i) - fst (row0 ! i)) (t1 - t0),
       q_con_rate = rate_over (snd (row1 ! i) - snd (row0 ! i)) (t1 - t0),
       q_min = py_min bl, q_max = py_max bl, q_first = hd bl, q_last = last bl,
       q_growing = (of_int (last bl) > of_int (hd bl) * (6/5 :: rat) + 50)\<rparr>)"

record mq_summary =
  s_first :: rat
  s_last :: rat
  s_stats :: "queue_stat list"
  s_agg_pub :: rat
  s_agg_con :: rat
  s_any_growing :: bool

definition mq_window :: "timeline \<Rightarrow> mq_sample list \<Rightarrow> mq_sample list" where
  "mq_window tm samples = filter (\<lambda>(t, row). steady_start tm \<le> t \<and> t \<le> stop_time tm) samples"

text \<open>The loop over the queues, with the aggregates it accumulates.\<close>

fun mq_loop :: "mq_sample list \<Rightarrow> nat list \<Rightarrow> queue_stat list \<times> rat \<times> rat \<times> bool \<Rightarrow> queue_stat list \<times> rat \<times> rat \<times> bool" where
  "mq_loop w [] acc = acc"
| "mq_loop w (i # is) (stats, agg_pub_rate, agg_con_rate, any_growing) =
     (let s = queue_stat_of w i in
      mq_loop w is (stats @ [s], agg_pub_rate + q_pub_rate s, agg_con_rate + q_con_rate s,
        if q_growing s then True else any_growing))"

definition mq_summarize :: "timeline \<Rightarrow> nat \<Rightarrow> mq_sample list \<Rightarrow> mq_summary option" where
  "mq_summarize tm k samples =
     (let w = mq_window tm samples in
      if length w < 2 then None
      else (case mq_loop w [0..<k] ([], 0, 0, False) of (stats, agg_pub, agg_con, growing) \<Rightarrow>
        Some \<lparr>s_first = fst (hd w), s_last = fst (last w), s_stats = stats,
              s_agg_pub = agg_pub, s_agg_con = agg_con, s_any_growing = growing\<rparr>))"

definition queue_line :: "nat \<Rightarrow> queue_stat \<Rightarrow> string" where
  "queue_line i s =
     ''  q'' @ str_nat i @ '': publish='' @ rjust 9 (fmt_comma (q_pub_rate s)) @ ''/s consume=''
     @ rjust 9 (fmt_comma (q_con_rate s)) @ ''/s backlog[min='' @ rjust 6 (str_int (q_min s)) @ '' max=''
     @ rjust 6 (str_int (q_max s)) @ '' first='' @ rjust 6 (str_int (q_first s)) @ '' last=''
     @ rjust 6 (str_int (q_last s)) @ ''] '' @ (if q_growing s then ''GROWING'' else ''bounded'')"

definition mq_report ::
  "(rat \<Rightarrow> string) \<Rightarrow> mq_args \<Rightarrow> timeline \<Rightarrow> (nat \<times> int) list \<Rightarrow> (nat \<times> int) list \<Rightarrow> mq_sample list \<Rightarrow> string list" where
  "mq_report frepr args tm pub_results con_results samples =
     (let total_published = sum_list (map snd (totals pub_results));
          total_consumed = sum_list (map snd (totals con_results)) in
      [''k_queues='' @ str_nat (m_k_queues args) @ '' per_queue_rate='' @ rate_text frepr (m_per_queue_rate args)
         @ '' duration='' @ frepr (m_duration_secs args) @ ''s ramp_up='' @ frepr (m_ramp_up_secs args)
         @ ''s drain_tail='' @ frepr (m_drain_tail_secs args) @ ''s'',
       ''total_published='' @ str_int total_published @ '' total_consumed='' @ str_int total_consumed
         @ '' final_backlog='' @ str_int (total_published - total_consumed)]
      @ (case mq_summarize tm (m_k_queues args) samples of
           None \<Rightarrow> [CHR 0x0A # ''not enough samples in steady-state window - increase --duration-secs'']
         | Some s \<Rightarrow>
             [CHR 0x0A # ''steady-state window: t='' @ fmt_rat 1 (s_first s - start_time tm) @ ''s..''
                @ fmt_rat 1 (s_last s - start_time tm) @ ''s (span='' @ fmt_rat 1 (s_last s - s_first s) @ ''s)'',
              ''per-queue steady-state rates and backlog bounds:'']
             @ map (\<lambda>(i, q). queue_line i q) (enumerate 0 (s_stats s))
             @ [CHR 0x0A # ''aggregate steady-state publish rate:  '' @ rjust 10 (fmt_comma (s_agg_pub s)) @ ''/s'',
                ''aggregate steady-state consume rate:  '' @ rjust 10 (fmt_comma (s_agg_con s)) @ ''/s'',
                (''any queue'' @ [CHR 0x27] @ ''s backlog growing: '') @ py_bool_str (s_any_growing s)]))"

section \<open>Properties\<close>

lemma mq_loop_eq:
  "mq_loop w is (stats, p, c, g) =
     (stats @ map (queue_stat_of w) is, p + sum_list (map (\<lambda>i. q_pub_rate (queue_stat_of w i)) is),
      c + sum_list (map (\<lambda>i. q_con_rate (queue_stat_of w i)) is),
      g \<or> (\<exists>i \<in> set is. q_growing (queue_stat_of w i)))"
  by (induction w "is" "(stats, p, c, g)" arbitrary: stats p c g rule: mq_loop.induct)
    (auto simp: Let_def)

lemma queue_balance:
  assumes "w \<noteq> []" and "0 < fst (last w) - fst (hd w)"
  shows "(q_pub_rate (queue_stat_of w i) - q_con_rate (queue_stat_of w i)) * (fst (last w) - fst (hd w))
    = of_int (q_last (queue_stat_of w i) - q_first (queue_stat_of w i))"
proof -
  obtain t0 row0 t1 row1 where ends: "hd w = (t0, row0)" "last w = (t1, row1)" by fastforce
  then have "hd (queue_backlogs w i) = fst (row0 ! i) - snd (row0 ! i)"
    "last (queue_backlogs w i) = fst (row1 ! i) - snd (row1 ! i)"
    using assms(1) by (simp_all add: queue_backlogs_def hd_map last_map)
  moreover have "rate_over a (t1 - t0) * (t1 - t0) = of_int a" for a
    using assms(2) ends by (intro rate_over_times) simp
  ultimately show ?thesis
    using ends by (simp add: queue_stat_of_def Let_def left_diff_distrib)
qed

lemma sum_list_diff_times:
  fixes f g :: "'a \<Rightarrow> rat"
  shows "(\<And>i. (f i - g i) * d = of_int (u i)) \<Longrightarrow>
    (sum_list (map f xs) - sum_list (map g xs)) * d = of_int (sum_list (map u xs))"
proof (induction xs)
  case (Cons x xs)
  from Cons.IH [OF Cons.prems] Cons.prems [of x] show ?case by (simp add: algebra_simps)
qed simp

text \<open>
  No queue hides behind the aggregate: the summary has one entry per queue; the run is
  reported as growing exactly if the backlog of some queue grew, from the first to the last
  sample of the window, by more than a fifth and fifty messages; and the difference of the
  aggregate rates times the length of the window is the growth of the sum of all backlogs.
\<close>

theorem aggregate_hides_nothing:
  assumes "mq_summarize tm k samples = Some s"
  shows "length (s_stats s) = k
    \<and> (s_any_growing s \<longleftrightarrow> (\<exists>i < k. of_int (last (queue_backlogs (mq_window tm samples) i))
          > of_int (hd (queue_backlogs (mq_window tm samples) i)) * (6/5 :: rat) + 50))
    \<and> (0 < s_last s - s_first s \<longrightarrow> (s_agg_pub s - s_agg_con s) * (s_last s - s_first s)
         = of_int (sum_list (map (\<lambda>q. q_last q - q_first q) (s_stats s))))"
proof -
  let ?w = "mq_window tm samples"
  have w: "?w \<noteq> []" and s: "s_first s = fst (hd ?w)" "s_last s = fst (last ?w)"
    "s_stats s = map (queue_stat_of ?w) [0..<k]"
    "s_agg_pub s = sum_list (map (\<lambda>i. q_pub_rate (queue_stat_of ?w i)) [0..<k])"
    "s_agg_con s = sum_list (map (\<lambda>i. q_con_rate (queue_stat_of ?w i)) [0..<k])"
    "s_any_growing s \<longleftrightarrow> (\<exists>i \<in> set [0..<k]. q_growing (queue_stat_of ?w i))"
    using assms by (auto simp: mq_summarize_def Let_def mq_loop_eq Bex_def split: if_splits)
  have "(s_agg_pub s - s_agg_con s) * (s_last s - s_first s)
      = of_int (sum_list (map (\<lambda>q. q_last q - q_first q) (s_stats s)))" if "0 < s_last s - s_first s"
    using sum_list_diff_times [where f = "\<lambda>i. q_pub_rate (queue_stat_of ?w i)"
        and g = "\<lambda>i. q_con_rate (queue_stat_of ?w i)" and xs = "[0..<k]", OF queue_balance [OF w]] that
    by (simp add: s comp_def)
  moreover have "q_growing (queue_stat_of ?w i) \<longleftrightarrow> of_int (last (queue_backlogs ?w i))
      > of_int (hd (queue_backlogs ?w i)) * (6/5 :: rat) + 50" for i
    by (simp add: queue_stat_of_def Let_def split: prod.split)
  ultimately show ?thesis by (auto simp: s)
qed

definition demo_mq :: mq_args where
  "demo_mq = \<lparr>m_dsn = ''dbname=postgres'', m_sql = ''SELECT * FROM trades'', m_k_queues = 2,
     m_per_queue_rate = IntRate 42000, m_batch_rows = 2000, m_consume_batch = 2000, m_consume_timeout_ms = 200,
     m_duration_secs = 10, m_ramp_up_secs = 2, m_drain_tail_secs = 5, m_sample_interval_secs = 2,
     m_queue_uri_base = ''bmq://q'', m_broker_uri = ''tcp://localhost:30114''\<rparr>"

theorem aggregate_hides_nothing_witness:
  "\<exists>s. mq_summarize (mq_timeline demo_mq 0) 2
       [(4, [(100, 90), (100, 80)]), (8, [(300, 200), (100, 100)])] = Some s
     \<and> s_any_growing s \<and> (s_agg_pub s - s_agg_con s) * (s_last s - s_first s) = 70"
proof -
  let ?samples = "[(4, [(100, 90), (100, 80)]), (8, [(300, 200), (100, 100)])] :: mq_sample list"
  have w: "mq_window (mq_timeline demo_mq 0) ?samples = ?samples"
    by (simp add: mq_window_def mq_timeline_def demo_mq_def)
  obtain s where s: "mq_summarize (mq_timeline demo_mq 0) 2 ?samples = Some s"
    "s_last s = 8" "s_first s = 4" "map (\<lambda>q. q_last q - q_first q) (s_stats s) = [90, -20]"
    unfolding mq_summarize_def w
    by (simp add: Let_def mq_loop_eq queue_stat_of_def queue_backlogs_def numeral_2_eq_2)
  have "\<exists>i < 2. of_int (last (queue_backlogs ?samples i)) > of_int (hd (queue_backlogs ?samples i)) * (6/5 :: rat) + 50"
    by (intro exI [of _ 0]) (simp add: queue_backlogs_def)
  with aggregate_hides_nothing [OF s(1)] s w show ?thesis by simp
qed

section \<open>The queues are independent\<close>

lemma other_counter [silent_intros]: "c \<noteq> c' \<Longrightarrow> silent (added_ev c) (add_counter c' n)"
  by (simp add: add_counter_def silent_act added_ev_def)

lemma loop_keeps_counter:
  assumes "while_prog (before D stop) body s h = Some (Inr s', h')" and "\<And>s. silent (added_ev c) (body s)"
  shows "added c h' = added c h"
proof -
  have "\<exists>h0. added c h0 = added c h \<and> before D stop h0 = (Inr False, h')"
  proof (rule while_prog_invariant [OF assms(1)])
    fix s k k1 s1 k2
    assume "added c k = added c h" "before D stop k = (Inr True, k1)" "body s k1 = (Inr s1, k2)"
    with added_silent [OF added_before] added_silent [OF assms(2)] show "added c k2 = added c h" by metis
  qed simp
  with added_silent [OF added_before] show ?thesis by metis
qed

lemma session_keeps_counter:
  assumes "c \<noteq> c'"
  shows "producer_session D dsn b sql rows attrs uri th rate stop c' h = Some (Inr n, h') \<Longrightarrow> added c h' = added c h"
    and "consumer_session D dsn b prime pps csql ps stop c' h = Some (Inr n, h') \<Longrightarrow> added c h' = added c h"
proof -
  have pr: "silent (added_ev c) (produce_round D sql uri c' th rate ws s)" for sql ws s
    unfolding produce_round_def by (intro silent_intros assms)
  have co: "silent (added_ev c) (consume_round D csql ps c' s)" for s
    unfolding consume_round_def by (intro silent_intros assms)
  show "added c h' = added c h" if run: "producer_session D dsn b sql rows attrs uri th rate stop c' h = Some (Inr n, h')"
  proof -
    from run obtain h1 where "then_loop (producer_setup D b sql rows attrs uri) (\<lambda>worker_start.
         while_prog (before D stop) (produce_round D (publish_sql attrs) uri c' th rate worker_start) 0)
         (h @ [Connect dsn]) = Some (Inr n, h1)" and h': "h' = h1 @ [CursorExit, ConnExit]"
      unfolding producer_session_def by (rule with_cursor_result)
    then obtain ws h2 where prep: "producer_setup D b sql rows attrs uri (h @ [Connect dsn]) = (Inr ws, h2)"
      and loop: "while_prog (before D stop) (produce_round D (publish_sql attrs) uri c' th rate ws) 0 h2 = Some (Inr n, h1)"
      by (auto simp: loop_eqs)
    from loop_keeps_counter [OF loop pr] added_silent [OF added_setup(1) prep, of c] h' show ?thesis
      by (simp add: added_exit)
  qed
  show "added c h' = added c h" if run: "consumer_session D dsn b prime pps csql ps stop c' h = Some (Inr n, h')"
  proof -
    from run obtain h1 where "then_loop (consumer_setup D b prime pps) (\<lambda>_.
         while_prog (before D stop) (consume_round D csql ps c') 0) (h @ [Connect dsn]) = Some (Inr n, h1)"
      and h': "h' = h1 @ [CursorExit, ConnExit]"
      unfolding consumer_session_def by (rule with_cursor_result)
    then obtain h2 where prep: "consumer_setup D b prime pps (h @ [Connect dsn]) = (Inr (), h2)"
      and loop: "while_prog (before D stop) (consume_round D csql ps c') 0 h2 = Some (Inr n, h1)"
      by (auto simp: loop_eqs)
    from loop_keeps_counter [OF loop co] added_silent [OF added_setup(2) prep, of c] h' show ?thesis
      by (simp add: added_exit)
  qed
qed

text \<open>
  The queues do not mix: their \<open>k\<close> addresses are pairwise different, and the producer and
  the consumer of queue \<open>i\<close> add what they report to their own counter and nothing to any
  counter of another queue.
\<close>

theorem queues_independent:
  "distinct (queue_uris base k)
   \<and> (\<forall>n h'. mq_producer D args i uri rate stop h = Some (Inr n, h') \<longrightarrow>
        n = added (pub_counter i) h' - added (pub_counter i) h \<and> (\<forall>j. j \<noteq> i \<longrightarrow>
          added (pub_counter j) h' = added (pub_counter j) h \<and> added (con_counter j) h' = added (con_counter j) h))
   \<and> (\<forall>n h'. mq_consumer D args i uri stop h = Some (Inr n, h') \<longrightarrow>
        n = added (con_counter i) h' - added (con_counter i) h \<and> (\<forall>j. j \<noteq> i \<longrightarrow>
          added (pub_counter j) h' = added (pub_counter j) h \<and> added (con_counter j) h' = added (con_counter j) h))"
proof (intro conjI allI impI)
  show "distinct (queue_uris base k)"
    by (auto simp: queue_uris_def distinct_map inj_on_def str_nat_inject)
next
  fix n h' assume run: "mq_producer D args i uri rate stop h = Some (Inr n, h')"
  then show "n = added (pub_counter i) h' - added (pub_counter i) h"
    unfolding mq_producer_def by (rule producer_session_counts)
  fix j assume "j \<noteq> i"
  then have "pub_counter j \<noteq> pub_counter i" "con_counter j \<noteq> pub_counter i"
    unfolding pub_counter_def con_counter_def by (simp, presburger)
  then show "added (pub_counter j) h' = added (pub_counter j) h" "added (con_counter j) h' = added (con_counter j) h"
    using session_keeps_counter(1) run [unfolded mq_producer_def] by blast+
next
  fix n h' assume run: "mq_consumer D args i uri stop h = Some (Inr n, h')"
  then show "n = added (con_counter i) h' - added (con_counter i) h"
    unfolding mq_consumer_def by (rule consumer_session_counts)
  fix j assume "j \<noteq> i"
  then have "pub_counter j \<noteq> con_counter i" "con_counter j \<noteq> con_counter i"
    unfolding pub_counter_def con_counter_def by (presburger, simp)
  then show "added (pub_counter j) h' = added (pub_counter j) h" "added (con_counter j) h' = added (con_counter j) h"
    using session_keeps_counter(2) run [unfolded mq_consumer_def] by blast+
qed

lemma demo_mq_run: "\<exists>h'. mq_consumer (demo_db 0 5) demo_mq 1 ''bmq://q_1'' 5 [] = Some (Inr 5, h')"
  by (simp add: mq_consumer_def demo_mq_def worker_run)

theorem queues_independent_witness:
  "\<exists>h'. mq_consumer (demo_db 0 5) demo_mq 1 ''bmq://q_1'' 5 [] = Some (Inr 5, h')
     \<and> added (con_counter 1) h' = 5 \<and> added (con_counter 0) h' = 0"
proof -
  obtain h' where run: "mq_consumer (demo_db 0 5) demo_mq 1 ''bmq://q_1'' 5 [] = Some (Inr 5, h')"
    using demo_mq_run by blast
  have "5 = added (con_counter 1) h' - added (con_counter 1) []"
    "added (con_counter 0) h' = added (con_counter 0) []"
    using queues_independent [of "''bmq://q''" 2 "demo_db 0 5" demo_mq 1 "''bmq://q_1''" 42000 5 "[]"] run
    by auto
  with run show ?thesis by (simp add: added_def)
qed

end
