(* ===== verification/Parallel.thy ===== *)
theory Parallel
  imports Sustained
begin

text \<open>
  \<^verbatim>\<open>bench/parallel_bench.py\<close>: several connections publish their own share of the rows at the
  same time; the rate is taken over the span from the first start to the last finish.
\<close>

section \<open>The workers and the report\<close>

record parallel_args =
  p_dsn :: string
  p_sql :: string
  p_total_rows :: nat
  p_connections :: nat
  p_queue_uri :: string
  p_broker_uri :: string

text \<open>What a worker puts into the result queue: its number, the count, the duration, the start.\<close>

type_synonym part_result = "nat \<times> int \<times> rat \<times> rat"

definition part_sql :: "string \<Rightarrow> nat \<Rightarrow> nat \<Rightarrow> string" where
  "part_sql sql count offset =
     ''CREATE TEMP TABLE bmq_bench_part AS '' @ ''SELECT * FROM '' @ sql @ '' LIMIT '' @ str_nat count
     @ '' OFFSET '' @ str_nat offset"

definition part_publish_sql :: string where
  "part_publish_sql =
     ''SELECT count(*) FROM '' @ ''(SELECT bmq_publish_row(%s, t, '' @ attr_array_sql @ '') ''
     @ ''FROM bmq_bench_part t) s''"

definition worker :: "denv \<Rightarrow> parallel_args \<Rightarrow> nat \<Rightarrow> nat \<Rightarrow> nat \<Rightarrow> part_result db" where
  "worker D args worker_id offset count =
     with_conn D (p_dsn args)
       (andthen (set_broker D (p_broker_uri args))
       (andthen (execute D (part_sql (p_sql args) count offset) [])
       (andthen (barrier_wait D)
       (bind (perf_counter D) (\<lambda>t0.
        andthen (execute D part_publish_sql [SText (p_queue_uri args)])
        (bind (fetchone D) (\<lambda>published.
         bind (perf_counter D) (\<lambda>t1.
           ret (worker_id, published, t1 - t0, t0)))))))))"

text \<open>\<^verbatim>\<open>per_worker = args.total_rows // n\<close>, and the arguments of the workers.\<close>

definition partition_rows :: "nat \<Rightarrow> nat \<Rightarrow> exc + (nat \<times> nat \<times> nat) list" where
  "partition_rows total_rows n =
     (if n = 0 then Inl ZeroDivisionError
      else let per_worker = total_rows div n in
           Inr (map (\<lambda>i. (i, i * per_worker, per_worker)) [0..<n]))"

definition span_of :: "part_result list \<Rightarrow> rat" where
  "span_of results =
     py_max (map (\<lambda>(w, n, elapsed, t0). t0 + elapsed) results)
       - py_min (map (\<lambda>(w, n, elapsed, t0). t0) results)"

definition parallel_report :: "parallel_args \<Rightarrow> part_result list \<Rightarrow> exc + string" where
  "parallel_report args results =
     (let total_published = sum_list (map (\<lambda>(w, n, elapsed, t0). n) results); secs = span_of results in
      case py_truediv (of_int total_published) secs of
        Inl e \<Rightarrow> Inl e
      | Inr rate \<Rightarrow>
          Inr (''connections='' @ str_nat (p_connections args) @ '' per_worker=''
               @ str_nat (p_total_rows args div p_connections args) @ '' total_published=''
               @ str_int total_published @ '' span='' @ fmt_rat 3 secs @ ''s rate='' @ fmt_comma rate @ ''/s''))"

section \<open>Properties\<close>

definition rows_of :: "nat \<times> nat \<times> nat \<Rightarrow> nat set" where
  "rows_of part = (case part of (i, offset, count) \<Rightarrow> {offset..<offset + count})"

lemma rows_of_part: "rows_of (i, i * q, q) = {r. r div q = i \<and> 0 < q}"
proof (intro set_eqI iffI)
  fix r assume "r \<in> rows_of (i, i * q, q)"
  then have "i * q \<le> r" "r < i * q + q" by (auto simp: rows_of_def)
  then show "r \<in> {r. r div q = i \<and> 0 < q}"
    by (simp add: div_nat_eqI mult.commute)
next
  fix r assume "r \<in> {r. r div q = i \<and> 0 < q}"
  then have "0 < q" "r div q = i" by auto
  then have "i * q \<le> r" "r < i * q + q"
    using div_times_less_eq_dividend [of r q] dividend_less_div_times [of q r] by auto
  then show "r \<in> rows_of (i, i * q, q)" by (simp add: rows_of_def)
qed

text \<open>
  The shares of the workers are disjoint, and together they are the rows from 0 up to
  \<open>n * (total div n)\<close>: every row is published by one worker at most, and the last
  \<open>total mod n\<close> rows asked for are published by none.
\<close>

theorem partition_covers:
  assumes "partition_rows total_rows n = Inr parts"
  shows "(\<forall>i < length parts. \<forall>j < length parts. i \<noteq> j \<longrightarrow> rows_of (parts ! i) \<inter> rows_of (parts ! j) = {})
    \<and> (\<Union>part \<in> set parts. rows_of part) = {0..<total_rows - total_rows mod n}"
proof -
  let ?q = "total_rows div n"
  have n: "0 < n" and parts: "parts = map (\<lambda>i. (i, i * ?q, ?q)) [0..<n]"
    using assms by (auto simp: partition_rows_def Let_def split: if_splits)
  have "total_rows - total_rows mod n = n * ?q" by (simp add: minus_mod_eq_mult_div)
  moreover have "(\<Union>i < n. rows_of (i, i * q, q)) = {0..<n * q}" for q
  proof (cases "q = 0")
    case True
    then show ?thesis by (simp add: rows_of_def)
  next
    case False
    then have "(\<Union>i < n. rows_of (i, i * q, q)) = {r. r div q < n}" by (auto simp: rows_of_part)
    also have "\<dots> = {0..<n * q}" using False by (simp add: div_less_iff_less_mult set_eq_iff)
    finally show ?thesis .
  qed
  moreover have "(\<Union>part \<in> set parts. rows_of part) = (\<Union>i < n. rows_of (i, i * ?q, ?q))"
    by (auto simp: parts)
  ultimately show ?thesis by (auto simp: parts rows_of_part)
qed

theorem partition_covers_witness:
  "\<exists>parts. partition_rows 100000 3 = Inr parts \<and> (\<Union>part \<in> set parts. rows_of part) = {0..<99999}"
proof -
  obtain parts where parts: "partition_rows 100000 3 = Inr parts" by (simp add: partition_rows_def Let_def)
  from partition_covers [OF parts] parts show ?thesis by simp
qed

text \<open>
  The span covers every worker: if the durations are not negative, it is at least the
  duration of each, no worker starts before or ends after it, and when it is not zero the
  reported rate is the total over it; with a zero span the report raises.
\<close>

theorem span_covers_workers:
  assumes "results \<noteq> []" and "\<forall>(w, n, elapsed, t0) \<in> set results. 0 \<le> elapsed"
  shows "(\<forall>(w, n, elapsed, t0) \<in> set results. elapsed \<le> span_of results
        \<and> py_min (map (\<lambda>(w, n, elapsed, t0). t0) results) \<le> t0
        \<and> t0 + elapsed \<le> py_min (map (\<lambda>(w, n, elapsed, t0). t0) results) + span_of results)
    \<and> 0 \<le> span_of results
    \<and> (parallel_report args results = Inl ZeroDivisionError \<longleftrightarrow> span_of results = 0)"
proof -
  let ?starts = "map (\<lambda>(w, n, elapsed, t0). t0) results"
  let ?ends = "map (\<lambda>(w, n, elapsed, t0). t0 + elapsed) results"
  have ne: "?starts \<noteq> []" "?ends \<noteq> []" using assms(1) by auto
  have each: "py_min ?starts \<le> t0 \<and> t0 + elapsed \<le> py_max ?ends \<and> 0 \<le> elapsed"
    if "(w, n, elapsed, t0) \<in> set results" for w n elapsed t0
    using py_min_bounds [OF ne(1), of t0] py_max_bounds [OF ne(2), of "t0 + elapsed"] that assms(2)
    by force
  obtain w n elapsed t0 where "(w, n, elapsed, t0) \<in> set results"
    using assms(1) by (metis list.set_intros(1) neq_Nil_conv prod_cases4)
  from each [OF this] have "0 \<le> span_of results" by (auto simp: span_of_def)
  moreover have "parallel_report args results = Inl ZeroDivisionError \<longleftrightarrow> span_of results = 0"
    by (simp add: parallel_report_def Let_def py_truediv_def)
  ultimately show ?thesis using each by (force simp: span_of_def)
qed

theorem span_covers_workers_witness:
  "2 \<le> span_of [(0, 50, 2, 10), (1, 50, 3, 11)]
   \<and> parallel_report \<lparr>p_dsn = [], p_sql = [], p_total_rows = 100, p_connections = 2, p_queue_uri = [],
       p_broker_uri = []\<rparr> [(0, 50, 2, 10), (1, 50, 3, 11)] \<noteq> Inl ZeroDivisionError"
proof -
  have "span_of [(0, 50, 2, 10), (1, 50, 3, 11)] = 4"
    by (simp add: span_of_def py_max_def py_min_def)
  with span_covers_workers [of "[(0, 50, 2, 10), (1, 50, 3, 11)]"] show ?thesis by simp
qed

end
