(* ===== verification/Bench_Mains.thy ===== *)
theory Bench_Mains
  imports Worker_Pool Filtered Multi_Queue Parallel
begin

text \<open>
  The \<^verbatim>\<open>main\<close> functions of \<^verbatim>\<open>sustained_bench.py\<close>, \<^verbatim>\<open>filtered_bench.py\<close>, \<^verbatim>\<open>multi_queue_bench.py\<close> and
  \<^verbatim>\<open>parallel_bench.py\<close>, from the timeline to the last line of the report: which worker runs with
  which arguments and counters, and what of their results is printed.
\<close>

section \<open>The programs\<close>

text \<open>Counter 0 is \<^verbatim>\<open>published_counter\<close>, counter 1 \<^verbatim>\<open>consumed_counter\<close>, counter 2 \<^verbatim>\<open>verify_mismatch_counter\<close>.\<close>

definition sustained_pub :: "pool \<Rightarrow> sustained_args \<Rightarrow> nat \<Rightarrow> int ending" where
  "sustained_pub P args i =
     sustained_producer (producer_env P i) args (stop_time (timeline_at args (now P))) 0 []"

definition sustained_con :: "pool \<Rightarrow> sustained_args \<Rightarrow> nat \<Rightarrow> int ending" where
  "sustained_con P args i =
     sustained_consumer (consumer_env P i) args (hard_stop_time (timeline_at args (now P))) 1 []"

definition sustained_mon :: "pool \<Rightarrow> sustained_args \<Rightarrow> sample list ending" where
  "sustained_mon P args =
     monitor (monitor_env P) 0 1 (hard_stop_time (timeline_at args (now P))) (a_sample_interval_secs args) [] []"

definition sustained_main :: "pool \<Rightarrow> sustained_args \<Rightarrow> (exc + string list) option" where
  "sustained_main P args =
     run_pool P (map (sustained_pub P args) [0..<a_producers args]) (map (sustained_con P args) [0..<a_consumers args])
       (sustained_mon P args) (sustained_report (pool_repr P) args (timeline_at args (now P)))"

definition filtered_timeline :: "pool \<Rightarrow> filtered_args \<Rightarrow> timeline" where
  "filtered_timeline P args = timeline_at (sustained_args.truncate args) (now P)"

definition filtered_pub :: "pool \<Rightarrow> filtered_args \<Rightarrow> nat \<Rightarrow> int ending" where
  "filtered_pub P args i = filtered_producer (producer_env P i) args (stop_time (filtered_timeline P args)) 0 []"

definition filtered_con ::
  "pool \<Rightarrow> filtered_args \<Rightarrow> string option list \<Rightarrow> (nat \<rightharpoonup> string) \<Rightarrow> nat \<Rightarrow> int ending" where
  "filtered_con P args filter_exprs expected i =
     filtered_consumer (consumer_env P i) args expected i (hard_stop_time (filtered_timeline P args)) 1
       (filter_exprs ! i) 2 []"

definition filtered_mon :: "pool \<Rightarrow> filtered_args \<Rightarrow> sample list ending" where
  "filtered_mon P args =
     monitor (monitor_env P) 0 1 (hard_stop_time (filtered_timeline P args)) (a_sample_interval_secs args) [] []"

definition filtered_main :: "pool \<Rightarrow> filtered_args \<Rightarrow> string option \<Rightarrow> (exc + string list) option" where
  "filtered_main P args filter_values =
     (case filter_setup (a_filter_column args) filter_values (a_consumers args) of
        Inl e \<Rightarrow> Some (Inl e)
      | Inr (filter_exprs, expected) \<Rightarrow>
          (let cons = map (filtered_con P args filter_exprs expected) [0..<a_consumers args] in
           run_pool P (map (filtered_pub P args) [0..<a_producers args]) cons (filtered_mon P args)
             (\<lambda>pub_results con_results.
                filtered_report args filter_values filter_exprs (filtered_timeline P args) pub_results con_results
                  (counter_value 2 cons))))"

text \<open>A worker of the multi-queue benchmark puts its queue number with its count.\<close>

definition numbered :: "nat \<Rightarrow> int ending \<Rightarrow> (nat \<times> int) ending" where
  "numbered i e = (case e of None \<Rightarrow> None | Some (Inl x, h) \<Rightarrow> Some (Inl x, h) | Some (Inr n, h) \<Rightarrow> Some (Inr (i, n), h))"

definition mq_pub :: "pool \<Rightarrow> mq_args \<Rightarrow> nat \<Rightarrow> (nat \<times> int) ending" where
  "mq_pub P args i =
     numbered i (mq_producer (producer_env P i) args i (queue_uris (m_queue_uri_base args) (m_k_queues args) ! i)
       (rate_value (m_per_queue_rate args)) (stop_time (mq_timeline args (now P))) [])"

definition mq_con :: "pool \<Rightarrow> mq_args \<Rightarrow> nat \<Rightarrow> (nat \<times> int) ending" where
  "mq_con P args i =
     numbered i (mq_consumer (consumer_env P i) args i (queue_uris (m_queue_uri_base args) (m_k_queues args) ! i)
       (hard_stop_time (mq_timeline args (now P))) [])"

definition mq_mon :: "pool \<Rightarrow> mq_args \<Rightarrow> mq_sample list ending" where
  "mq_mon P args =
     mq_monitor (monitor_env P) (m_k_queues args) (hard_stop_time (mq_timeline args (now P)))
       (m_sample_interval_secs args) [] []"

definition mq_main :: "pool \<Rightarrow> mq_args \<Rightarrow> (exc + string list) option" where
  "mq_main P args =
     run_pool P (map (mq_pub P args) [0..<m_k_queues args]) (map (mq_con P args) [0..<m_k_queues args])
       (mq_mon P args) (mq_report (pool_repr P) args (mq_timeline args (now P)))"

text \<open>The parallel benchmark has no monitor; the environments of its workers are those of the producers.\<close>

definition parallel_part :: "pool \<Rightarrow> parallel_args \<Rightarrow> nat \<times> nat \<times> nat \<Rightarrow> part_result ending" where
  "parallel_part P args part =
     (case part of (i, offset, rows) \<Rightarrow> Some (worker (producer_env P i) args i offset rows []))"

definition parallel_main :: "pool \<Rightarrow> parallel_args \<Rightarrow> (exc + string list) option" where
  "parallel_main P args =
     (case partition_rows (p_total_rows args) (p_connections args) of
        Inl e \<Rightarrow> Some (Inl e)
      | Inr parts \<Rightarrow>
          (let es = map (parallel_part P args) parts in
           if list_ex broken_off es then Some (Inl KeyboardInterrupt)
           else
             (case get_results (p_connections args) (queue_of (pub_order P) es) of
                None \<Rightarrow> None
              | Some results \<Rightarrow> Some (map_sum id (\<lambda>line. [line]) (parallel_report args results)))))"

section \<open>The workers of the programs return what they counted\<close>

lemma added_Nil [simp]: "added c [] = 0"
  by (simp add: added_def)

interpretation sustained_pubs: counted_pool "sustained_pub P args" id "\<lambda>_. 0" for P args
  by unfold_locales (auto simp: sustained_pub_def sustained_producer_def dest: producer_session_counts)

interpretation sustained_cons: counted_pool "sustained_con P args" id "\<lambda>_. 1" for P args
  by unfold_locales (auto simp: sustained_con_def sustained_consumer_def dest: consumer_session_counts)

interpretation filtered_pubs: counted_pool "filtered_pub P args" id "\<lambda>_. 0" for P args
  by unfold_locales (auto simp: filtered_pub_def filtered_producer_def dest: producer_session_counts)

interpretation filtered_cons: counted_pool "filtered_con P args fes ex" id "\<lambda>_. 1" for P args fes ex
  by unfold_locales (auto simp: filtered_con_def dest: filtered_consumer_counts)

lemma numbered_Inr: "numbered i e = Some (Inr x, h) \<longleftrightarrow> e = Some (Inr (snd x), h) \<and> fst x = i"
  by (cases x) (auto simp: numbered_def split: option.splits sum.splits)

interpretation mq_pubs: counted_pool "mq_pub P args" snd pub_counter for P args
  by unfold_locales (auto simp: mq_pub_def mq_producer_def numbered_Inr dest: producer_session_counts)

interpretation mq_cons: counted_pool "mq_con P args" snd con_counter for P args
  by unfold_locales (auto simp: mq_con_def mq_consumer_def numbered_Inr dest: consumer_session_counts)

section \<open>What the programs print\<close>

text \<open>Each process ends, with clocks that do not stand still.\<close>

definition timely_pool :: "pool \<Rightarrow> bool" where
  "timely_pool P \<longleftrightarrow> (\<forall>i. \<exists>\<delta>. statements_timely (producer_env P i) \<delta>) \<and> (\<forall>i. \<exists>\<delta>. statements_timely (consumer_env P i) \<delta>)
     \<and> monotone_clock (monitor_env P) \<and> sleep_suspends (monitor_env P)"

lemma sustained_joins:
  assumes "timely_pool P"
  shows "join_all (map (sustained_pub P args) is)" and "join_all (map (sustained_con P args) js)"
    and "0 < a_sample_interval_secs args \<Longrightarrow> sustained_mon P args \<noteq> None"
proof -
  have "sustained_pub P args i \<noteq> None" "sustained_con P args i \<noteq> None" for i
    using assms producer_session_returns consumer_session_returns
    unfolding timely_pool_def sustained_pub_def sustained_producer_def sustained_con_def sustained_consumer_def
    by (metis option.distinct(1))+
  then show "join_all (map (sustained_pub P args) is)" "join_all (map (sustained_con P args) js)"
    by (simp_all add: join_all_def list_all_iff)
  show "sustained_mon P args \<noteq> None" if "0 < a_sample_interval_secs args"
    using monitoring_clock.loop_returns [of "a_sample_interval_secs args" "monitor_env P"] that assms
    unfolding sustained_mon_def monitor_def timely_pool_def by (metis option.distinct(1))
qed

text \<open>
  C34. The sustained benchmark from start to end: with clocks that do not stand still, a positive
  sampling interval and no interrupt by the user, its outcome is decided by its workers. If every
  producer and every consumer returned, it prints its report, whose totals are what the producers
  and the consumers added to the two shared counters and whose final backlog is the difference, in
  whatever order the workers finished. If one of them raised, it never ends.
\<close>

theorem sustained_main_outcome:
  assumes "timely_pool P" and "0 < a_sample_interval_secs args"
    and "in_some_order (pub_order P) (map (sustained_pub P args) [0..<a_producers args])"
    and "in_some_order (con_order P) (map (sustained_con P args) [0..<a_consumers args])"
    and "\<not> list_ex broken_off (map (sustained_pub P args) [0..<a_producers args])"
    and "\<not> list_ex broken_off (map (sustained_con P args) [0..<a_consumers args])"
    and "\<not> broken_off (sustained_mon P args)"
  shows "(sustained_main P args = None \<longleftrightarrow>
      (\<exists>i < a_producers args. returned (sustained_pub P args i) = None)
      \<or> (\<exists>i < a_consumers args. returned (sustained_con P args i) = None))
    \<and> (\<forall>r. sustained_main P args = Some r \<longrightarrow> (\<exists>lines. r = Inr lines \<and>
        (let published = (\<Sum>i<a_producers args. added 0 (history (sustained_pub P args i)));
             consumed = (\<Sum>i<a_consumers args. added 1 (history (sustained_con P args i))) in
         lines ! 1 = ''total_published='' @ str_int published @ '' total_consumed='' @ str_int consumed
           @ '' final_backlog='' @ str_int (published - consumed))))"
proof -
  let ?pubs = "map (sustained_pub P args) [0..<a_producers args]"
  let ?cons = "map (sustained_con P args) [0..<a_consumers args]"
  note hangs = run_pool_hangs [OF assms(3,4) sustained_joins(1,2) [OF assms(1)] sustained_joins(3) [OF assms(1,2)] assms(5-7),
      of "sustained_report (pool_repr P) args (timeline_at args (now P))", folded sustained_main_def]
  have totals: "lines ! 1 = ''total_published='' @ str_int published @ '' total_consumed='' @ str_int consumed
           @ '' final_backlog='' @ str_int (published - consumed)"
    if "sustained_main P args = Some (Inr lines)"
      and "published = (\<Sum>i<a_producers args. added 0 (history (sustained_pub P args i)))"
      and "consumed = (\<Sum>i<a_consumers args. added 1 (history (sustained_con P args i)))" for lines published consumed
    using that sustained_pubs.total_is_added [OF assms(3)] sustained_cons.total_is_added [OF assms(4)]
    by (auto simp: sustained_main_def run_pool_report [OF assms(3,4)] sustained_report_def Let_def)
  have "\<exists>lines. r = Inr lines" if "sustained_main P args = Some r" for r
    using that assms(5-7) unfolding sustained_main_def run_pool_def
    by (auto split: if_splits option.splits)
  with totals have "\<forall>r. sustained_main P args = Some r \<longrightarrow> (\<exists>lines. r = Inr lines \<and>
        (let published = (\<Sum>i<a_producers args. added 0 (history (sustained_pub P args i)));
             consumed = (\<Sum>i<a_consumers args. added 1 (history (sustained_con P args i))) in
         lines ! 1 = ''total_published='' @ str_int published @ '' total_consumed='' @ str_int consumed
           @ '' final_backlog='' @ str_int (published - consumed)))"
    unfolding Let_def by blast
  moreover have "\<not> (all_returned ?pubs \<and> all_returned ?cons) \<longleftrightarrow>
      (\<exists>i < a_producers args. returned (sustained_pub P args i) = None)
      \<or> (\<exists>i < a_consumers args. returned (sustained_con P args i) = None)"
    by (auto simp: all_returned_def list_all_iff)
  ultimately show ?thesis using hangs by blast
qed

text \<open>Two producers and a consumer over sessions in which every statement handles five rows.\<close>

definition demo_pool :: pool where
  "demo_pool = \<lparr>now = - 4, producer_env = (\<lambda>_. demo_db 0 5), consumer_env = (\<lambda>_. demo_db 0 5),
     monitor_env = demo_db 0 5, pub_order = [1, 0], con_order = [0], pool_repr = fmt_rat 1\<rparr>"

lemma timely_demo_pool: "timely_pool demo_pool"
  using demo_clock(1,2) demo_clock(3) [of 0 5] by (auto simp: timely_pool_def demo_pool_def intro: exI [of _ 1])

lemma demo_pool_runs:
  "\<exists>h. sustained_pub demo_pool demo_args i = Some (Inr 5, h)"
  "\<exists>h. sustained_con demo_pool demo_args i = Some (Inr 10, h)"
  "\<exists>s h. sustained_mon demo_pool demo_args = Some (Inr s, h)"
  by (simp_all add: sustained_pub_def sustained_con_def sustained_mon_def demo_pool_def timeline_at_def
      monitor_def monitor_round_def worker_run)

lemma demo_pool_added:
  "added 0 (history (sustained_pub demo_pool demo_args i)) = 5" "added 1 (history (sustained_con demo_pool demo_args i)) = 10"
  "returned (sustained_pub demo_pool demo_args i) = Some 5" "returned (sustained_con demo_pool demo_args i) = Some 10"
  using demo_pool_runs(1,2) [of i] sustained_pubs.counts [of demo_pool demo_args i 5] sustained_cons.counts [of demo_pool demo_args i 10]
  by (auto simp: history_def returned_def)

lemma demo_in_order:
  "in_some_order (pub_order demo_pool) (map f [0..<2])" "in_some_order (con_order demo_pool) (map g [0..<1])"
  by (simp_all add: in_some_order_def demo_pool_def numeral_2_eq_2)

theorem sustained_main_outcome_witness:
  "\<exists>lines. sustained_main demo_pool demo_args = Some (Inr lines)
     \<and> lines ! 1 = ''total_published=10 total_consumed=10 final_backlog=0''"
proof -
  have size: "a_producers demo_args = 2" "a_consumers demo_args = 1" "0 < a_sample_interval_secs demo_args"
    by (simp_all add: demo_args_def)
  have calm: "\<not> list_ex broken_off (map (sustained_pub demo_pool demo_args) is)"
      "\<not> list_ex broken_off (map (sustained_con demo_pool demo_args) is)" for "is"
    using demo_pool_added(3,4) returned_cases by (fastforce simp: list_ex_iff)+
  have mon: "\<not> broken_off (sustained_mon demo_pool demo_args)"
    using demo_pool_runs(3) by (auto simp: broken_off_def)
  have "str_int 10 = ''10''" "str_int 0 = ''0''" by code_simp+
  then show ?thesis
    using sustained_main_outcome [OF timely_demo_pool size(3) demo_in_order [folded size(1,2)] calm mon]
    by (auto simp: size demo_pool_added demo_pool_added(2) [unfolded One_nat_def] Let_def)
qed

text \<open>The totals of the multi-queue benchmark: the results have different queue numbers, so no entry is overwritten.\<close>

lemma totals_distinct: "distinct (map fst rs) \<Longrightarrow> totals rs = rs"
proof -
  have "distinct (map fst (d @ rs)) \<Longrightarrow> fold (\<lambda>(i, n) d. AList.update i n d) rs d = d @ rs" for d
  proof (induction rs arbitrary: d)
    case (Cons r rs)
    obtain i n where r: "r = (i, n)" by (cases r)
    have "AList.update i n d = d @ [(i, n)]" if "i \<notin> fst ` set d" for d :: "(nat \<times> int) list"
      using that by (induction d) auto
    with Cons r show ?case by auto
  qed simp
  from this [of "[]"] show "distinct (map fst rs) \<Longrightarrow> totals rs = rs" by (simp add: totals_def)
qed

lemma numbered_results:
  assumes "in_some_order order (map (\<lambda>i. numbered i (f i)) [0..<n])" and "all_returned (map (\<lambda>i. numbered i (f i)) [0..<n])"
  shows "map fst (results_in order (map (\<lambda>i. numbered i (f i)) [0..<n])) = order"
proof -
  have "fst (the (returned (numbered i (f i)))) = i" if "i < n" for i
  proof -
    from assms(2) that have "returned (numbered i (f i)) \<noteq> None" by (simp add: all_returned_def list_all_iff)
    then show ?thesis by (auto simp: returned_def numbered_def split: option.splits sum.splits)
  qed
  with order_set [OF assms(1)] show ?thesis
    unfolding results_in_def by (auto simp: comp_def intro!: map_idI)
qed

lemma order_distinct: "in_some_order order es \<Longrightarrow> distinct order"
  unfolding in_some_order_def by (metis distinct_upt mset_eq_imp_distinct_iff)

lemma mq_totals:
  assumes "in_some_order order (map (\<lambda>i. numbered i (f i)) [0..<n])" and "all_returned (map (\<lambda>i. numbered i (f i)) [0..<n])"
  shows "totals (results_in order (map (\<lambda>i. numbered i (f i)) [0..<n])) = results_in order (map (\<lambda>i. numbered i (f i)) [0..<n])"
  using numbered_results [OF assms] order_distinct [OF assms(1)] by (simp add: totals_distinct)

text \<open>
  The multi-queue benchmark prints what its workers counted: when it prints a report, each
  of the \<open>k\<close> producers and consumers returned, and the totals are the sums over the queues of what
  the producer and the consumer of the queue added to its own two counters, in whatever order the
  results arrived; no result is lost or counted twice.
\<close>

theorem mq_main_report:
  assumes "in_some_order (pub_order P) (map (mq_pub P args) [0..<m_k_queues args])"
    and "in_some_order (con_order P) (map (mq_con P args) [0..<m_k_queues args])"
    and "mq_main P args = Some (Inr printed)"
  shows "(\<forall>i < m_k_queues args. returned (mq_pub P args i) \<noteq> None \<and> returned (mq_con P args i) \<noteq> None)
    \<and> (let published = (\<Sum>i<m_k_queues args. added (pub_counter i) (history (mq_pub P args i)));
            consumed = (\<Sum>i<m_k_queues args. added (con_counter i) (history (mq_con P args i))) in
       printed ! 1 = ''total_published='' @ str_int published @ '' total_consumed='' @ str_int consumed
         @ '' final_backlog='' @ str_int (published - consumed))"
proof -
  have ended_well: "all_returned (map (mq_pub P args) [0..<m_k_queues args])" "all_returned (map (mq_con P args) [0..<m_k_queues args])"
    and printed: "printed = mq_report (pool_repr P) args (mq_timeline args (now P))
      (results_in (pub_order P) (map (mq_pub P args) [0..<m_k_queues args]))
      (results_in (con_order P) (map (mq_con P args) [0..<m_k_queues args])) (samples_of (mq_mon P args))"
    using assms(3) by (auto simp: mq_main_def run_pool_report [OF assms(1,2)])
  note totals = mq_totals [OF assms(1) [unfolded mq_pub_def] ended_well(1) [unfolded mq_pub_def], folded mq_pub_def]
    mq_totals [OF assms(2) [unfolded mq_con_def] ended_well(2) [unfolded mq_con_def], folded mq_con_def]
  show ?thesis
    using mq_pubs.total_is_added [OF assms(1) ended_well(1)] mq_cons.total_is_added [OF assms(2) ended_well(2)] ended_well
    by (simp add: printed mq_report_def totals Let_def all_returned_def list_all_iff)
qed

definition demo_pair :: pool where
  "demo_pair = demo_pool\<lparr>con_order := [0, 1]\<rparr>"

lemma demo_pair_order:
  "mset (pub_order demo_pair) = mset [0..<2]" "mset (con_order demo_pair) = mset [0..<2]"
  by (simp_all add: demo_pair_def demo_pool_def numeral_2_eq_2)

lemma demo_mq_runs:
  assumes "i < 2"
  shows "\<exists>h. mq_pub demo_pair demo_mq i = Some (Inr (i, 5), h)" "\<exists>h. mq_con demo_pair demo_mq i = Some (Inr (i, 10), h)"
    and "\<exists>s h. mq_mon demo_pair demo_mq = Some (Inr s, h)"
  by (simp_all add: mq_pub_def mq_con_def mq_mon_def demo_pair_def demo_pool_def demo_mq_def rate_value_def mq_timeline_def mq_producer_def
      mq_consumer_def mq_monitor_def mq_monitor_round_def numbered_def worker_run numeral_2_eq_2)

theorem mq_main_report_witness:
  "\<exists>printed. mq_main demo_pair demo_mq = Some (Inr printed)
     \<and> printed ! 1 = ''total_published=10 total_consumed=20 final_backlog=-10''"
proof -
  have k: "m_k_queues demo_mq = 2" by (simp add: demo_mq_def)
  have "returned (mq_pub demo_pair demo_mq i) = Some (i, 5) \<and> added (pub_counter i) (history (mq_pub demo_pair demo_mq i)) = 5"
      "returned (mq_con demo_pair demo_mq i) = Some (i, 10) \<and> added (con_counter i) (history (mq_con demo_pair demo_mq i)) = 10"
    if "i < 2" for i
    using demo_mq_runs(1,2) [OF that] mq_pubs.counts [of demo_pair demo_mq i] mq_cons.counts [of demo_pair demo_mq i]
    by (auto simp: returned_def history_def)
  note runs = this
  have order: "in_some_order (pub_order demo_pair) (map f [0..<m_k_queues demo_mq])"
      "in_some_order (con_order demo_pair) (map g [0..<m_k_queues demo_mq])" for f :: "nat \<Rightarrow> (nat \<times> int) ending" and g :: "nat \<Rightarrow> (nat \<times> int) ending"
    by (simp_all add: in_some_order_def k demo_pair_order)
  have "all_returned (map (mq_pub demo_pair demo_mq) [0..<2])" "all_returned (map (mq_con demo_pair demo_mq) [0..<2])"
    using runs by (auto simp: all_returned_def list_all_iff)
  then obtain printed where run: "mq_main demo_pair demo_mq = Some (Inr printed)"
    using demo_mq_runs(3) [of 0] unfolding mq_main_def run_pool_report [OF order] by (auto simp: k broken_off_def)
  have "(\<Sum>i<2. added (pub_counter i) (history (mq_pub demo_pair demo_mq i))) = (\<Sum>i<2::nat. 5)"
      "(\<Sum>i<2. added (con_counter i) (history (mq_con demo_pair demo_mq i))) = (\<Sum>i<2::nat. 10)"
    using runs by (intro sum.cong; simp)+
  moreover have "str_int 10 = ''10''" "str_int 20 = ''20''" "str_int (- 10) = ''-10''" by code_simp+
  ultimately show ?thesis
    using mq_main_report [OF order run] run by (simp add: k Let_def)
qed

text \<open>The mismatch counter of the filtered benchmark.\<close>

lemma wrong_seen_nonneg: "0 \<le> wrong_seen D x h"
proof -
  have "0 \<le> wrong_seen_from D x past h" for past
    by (induction h arbitrary: past) (auto simp: wrong_rows_def split: sum.splits)
  then show ?thesis by (simp add: wrong_seen_def)
qed

lemma filter_setup_each:
  assumes "filter_setup column (Some vals) n = Inr (exprs, expected)" and "vals \<noteq> []" and "i < n"
  shows "(\<exists>fe. exprs ! i = Some fe) \<and> (\<exists>x. expected i = Some x)"
  using assms
  by (cases vals) (auto simp: filter_setup_def Let_def map_of_enumerate simp del: py_split_on.simps split: if_splits)

lemma mismatch_counter:
  assumes "a_verify_content args" and "filter_setup (a_filter_column args) (Some vals) n = Inr (exprs, expected)"
    and "vals \<noteq> []" and "all_returned (map (filtered_con P args exprs expected) [0..<n])"
    and "(\<Sum>i<n. wrong_seen (consumer_env P i) (the (expected i)) (history (filtered_con P args exprs expected i))) < 2 ^ 63"
  shows "counter_value 2 (map (filtered_con P args exprs expected) [0..<n])
    = (\<Sum>i<n. wrong_seen (consumer_env P i) (the (expected i)) (history (filtered_con P args exprs expected i)))"
proof -
  have "added 2 (history (filtered_con P args exprs expected i))
      = wrong_seen (consumer_env P i) (the (expected i)) (history (filtered_con P args exprs expected i))" if small: "i < n" for i
  proof -
    obtain fe x where each: "exprs ! i = Some fe" "expected i = Some x" using filter_setup_each [OF assms(2,3) small] by blast
    from assms(4) small have "returned (filtered_con P args exprs expected i) \<noteq> None" by (simp add: all_returned_def list_all_iff)
    then obtain k h where run: "filtered_con P args exprs expected i = Some (Inr k, h)"
      by (auto simp: returned_def split: option.splits sum.splits)
    from filtered_consumer_mismatches [OF assms(1) each(2) _ run [unfolded filtered_con_def each(1)]] run each
    show ?thesis by (simp add: history_def wrong_seen_def)
  qed
  then have "sum_list (map (\<lambda>e. added 2 (history e)) (map (filtered_con P args exprs expected) [0..<n]))
    = (\<Sum>i<n. wrong_seen (consumer_env P i) (the (expected i)) (history (filtered_con P args exprs expected i)))"
    by (simp add: comp_def interv_sum_list_conv_sum_set_nat atLeast0LessThan)
  moreover have "0 \<le> (\<Sum>i<n. wrong_seen (consumer_env P i) (the (expected i)) (history (filtered_con P args exprs expected i)))"
    by (simp add: sum_nonneg wrong_seen_nonneg)
  ultimately show ?thesis unfolding counter_value_def using assms(5) by (simp only: sint_small)
qed

text \<open>
  C35. The content check of the filtered benchmark reaches its report: with the check on and
  filter values given, a report names as mismatches exactly the number of rows, over all
  consumers, that were fetched with a value other than the one expected of the consumer (as long
  as the 64-bit counter does not wrap around), and as totals what the workers added to the counters.
\<close>

theorem filtered_main_report:
  assumes "mset (pub_order P) = mset [0..<a_producers args]" and "mset (con_order P) = mset [0..<a_consumers args]"
    and "filtered_main P args (Some vals) = Some (Inr printed)" and "vals \<noteq> []" and "a_verify_content args"
  shows "\<exists>exprs expected. filter_setup (a_filter_column args) (Some vals) (a_consumers args) = Inr (exprs, expected)
    \<and> (let published = (\<Sum>i<a_producers args. added 0 (history (filtered_pub P args i)));
            consumed = (\<Sum>i<a_consumers args. added 1 (history (filtered_con P args exprs expected i)));
            wrong = (\<Sum>i<a_consumers args. wrong_seen (consumer_env P i) (the (expected i))
                       (history (filtered_con P args exprs expected i))) in
       printed ! 1 = ''total_published='' @ str_int published @ '' total_consumed='' @ str_int consumed
         @ '' final_backlog='' @ str_int (published - consumed)
       \<and> (wrong < 2 ^ 63 \<longrightarrow> printed ! 2 = ''content_verify_mismatches='' @ str_int wrong))"
proof -
  obtain exprs expected where fs: "filter_setup (a_filter_column args) (Some vals) (a_consumers args) = Inr (exprs, expected)"
    using assms(3) by (auto simp: filtered_main_def split: sum.splits)
  let ?pubs = "map (filtered_pub P args) [0..<a_producers args]"
  let ?cons = "map (filtered_con P args exprs expected) [0..<a_consumers args]"
  have order: "in_some_order (pub_order P) ?pubs" "in_some_order (con_order P) ?cons"
    using assms(1,2) by (simp_all add: in_some_order_def)
  have rep: "all_returned ?pubs" "all_returned ?cons" "printed = filtered_report args (Some vals) exprs (filtered_timeline P args)
      (results_in (pub_order P) ?pubs) (results_in (con_order P) ?cons) (counter_value 2 ?cons) (samples_of (filtered_mon P args))"
    using assms(3) fs by (auto simp: filtered_main_def Let_def run_pool_report [OF order])
  show ?thesis
    using fs mismatch_counter [OF assms(5) fs assms(4) rep(2)] assms(4,5)
      filtered_pubs.total_is_added [OF order(1) rep(1)] filtered_cons.total_is_added [OF order(2) rep(2)]
    by (auto simp: rep(3) filtered_report_def Let_def)
qed

text \<open>One consumer that fetches three rows, two of them wrong; the producers find no time to publish.\<close>

definition demo_checked :: pool where
  "demo_checked = demo_pool\<lparr>now := - 11, consumer_env := (\<lambda>_. demo_rows_db)\<rparr>"

lemma demo_checked_runs:
  "\<exists>h. filtered_pub demo_checked demo_filtered i = Some (Inr 0, h)"
  "\<exists>h. filtered_con demo_checked demo_filtered [Some ''texi == 0''] [0 \<mapsto> ''0''] 0 = Some (Inr 3, h) \<and> added 2 h = 2"
  "\<exists>s h. filtered_mon demo_checked demo_filtered = Some (Inr s, h)"
  by (simp_all add: filtered_pub_def filtered_con_def filtered_mon_def filtered_timeline_def demo_checked_def demo_pool_def
      timeline_at_def monitor_def monitor_round_def filtered_producer_def filtered_consumer_def filtered_round_def
      demo_filtered_def demo_rows_db_def sustained_args.defs worker_run sql_opt_def wrong_rows_def str_opt_def
      added_def observe_def added_ev_def)

theorem filtered_main_report_witness:
  "\<exists>printed. filtered_main demo_checked demo_filtered (Some ''0'') = Some (Inr printed)
     \<and> printed ! 2 = ''content_verify_mismatches=2''"
proof -
  have size: "a_producers demo_filtered = 2" "a_consumers demo_filtered = 1" "a_verify_content demo_filtered"
      "a_filter_column demo_filtered = ''texi''"
    by (simp_all add: demo_filtered_def demo_args_def sustained_args.defs)
  have order: "mset (pub_order demo_checked) = mset [0..<a_producers demo_filtered]"
      "mset (con_order demo_checked) = mset [0..<a_consumers demo_filtered]"
    by (simp_all add: size demo_checked_def demo_pool_def numeral_2_eq_2)
  have fs: "filter_setup ''texi'' (Some ''0'') 1 = Inr ([Some ''texi == 0''], [0 \<mapsto> ''0''])"
    by (simp add: filter_setup_def py_strip_chars_def strip_with_def)
  let ?con = "filtered_con demo_checked demo_filtered [Some ''texi == 0''] [0 \<mapsto> ''0'']"
  have exists: "in_some_order (pub_order demo_checked) (map (filtered_pub demo_checked demo_filtered) [0..<a_producers demo_filtered])"
      "in_some_order (con_order demo_checked) (map ?con [0..<a_consumers demo_filtered])"
    using order by (simp_all add: in_some_order_def)
  have "returned (filtered_pub demo_checked demo_filtered i) = Some 0" for i
    using demo_checked_runs(1) [of i] by (auto simp: returned_def)
  then have "all_returned (map (filtered_pub demo_checked demo_filtered) is)" for "is"
    by (simp add: all_returned_def list_all_iff)
  moreover have "returned (?con 0) = Some 3" using demo_checked_runs(2) by (auto simp: returned_def)
  ultimately have "all_returned (map (filtered_pub demo_checked demo_filtered) [0..<a_producers demo_filtered])"
      "all_returned (map ?con [0..<a_consumers demo_filtered])"
    by (simp_all add: size all_returned_def)
  moreover have "filter_setup (a_filter_column demo_filtered) (Some ''0'') (a_consumers demo_filtered)
      = Inr ([Some ''texi == 0''], [0 \<mapsto> ''0''])"
    using fs by (simp add: size)
  ultimately obtain printed where run: "filtered_main demo_checked demo_filtered (Some ''0'') = Some (Inr printed)"
    using demo_checked_runs(3) run_pool_report [OF exists] unfolding filtered_main_def
    by (fastforce simp: Let_def broken_off_def simp del: upt_Suc upt.simps)
  obtain h where con: "?con 0 = Some (Inr 3, h)" "added 2 h = 2" using demo_checked_runs(2) by blast
  have "wrong_seen demo_rows_db ''0'' h = 2"
    using filtered_consumer_mismatches [OF size(3), of "[0 \<mapsto> ''0'']" 0 "''0''" 2 1 demo_rows_db _ "''texi == 0''" "[]" 3 h]
      con by (simp add: filtered_con_def demo_checked_def wrong_seen_def)
  moreover have "str_int 2 = ''2''" by code_simp
  ultimately have "printed ! 2 = ''content_verify_mismatches=2''"
    using filtered_main_report [OF order run _ size(3)] fs con(1)
    by (simp add: size Let_def history_def) (simp add: demo_checked_def)
  with run show ?thesis by blast
qed

text \<open>
  The parallel benchmark prints what its workers published: when it prints a line, the shares
  of the workers were the rows up to the largest multiple of the number of connections, every
  worker returned a result, the total is the sum of their counts in whatever order they finished,
  and the rate is this total over the span of the results. It never ends exactly if a worker
  raised (and none was interrupted).
\<close>

theorem parallel_main_report:
  assumes "mset (pub_order P) = mset [0..<p_connections args]"
    and "partition_rows (p_total_rows args) (p_connections args) = Inr parts"
  shows "(\<forall>printed. parallel_main P args = Some (Inr printed) \<longrightarrow>
      (\<exists>results. mset (map Some results) = mset (map (\<lambda>part. returned (parallel_part P args part)) parts)
        \<and> (\<Union>part \<in> set parts. rows_of part) = {0..<p_total_rows args - p_total_rows args mod p_connections args}
        \<and> span_of results \<noteq> 0
        \<and> (let total = sum_list (map (\<lambda>(w, n, elapsed, t0). n) results) in
           printed = [''connections='' @ str_nat (p_connections args) @ '' per_worker=''
             @ str_nat (p_total_rows args div p_connections args) @ '' total_published='' @ str_int total
             @ '' span='' @ fmt_rat 3 (span_of results) @ ''s rate='' @ fmt_comma (of_int total / span_of results) @ ''/s''])))
    \<and> (parallel_main P args = None \<longleftrightarrow> \<not> list_ex broken_off (map (parallel_part P args) parts)
        \<and> (\<exists>part \<in> set parts. returned (parallel_part P args part) = None))"
proof -
  let ?es = "map (parallel_part P args) parts"
  have n: "length parts = p_connections args"
    using assms(2) by (auto simp: partition_rows_def Let_def split: if_splits)
  have order: "in_some_order (pub_order P) ?es" using assms(1) by (simp add: in_some_order_def n)
  have main: "parallel_main P args = (if list_ex broken_off ?es then Some (Inl KeyboardInterrupt)
      else if all_returned ?es then Some (map_sum id (\<lambda>line. [line]) (parallel_report args (results_in (pub_order P) ?es)))
      else None)"
    using get_results_eq [OF order] by (simp add: parallel_main_def assms(2) Let_def n)
  have results: "mset (map Some (results_in (pub_order P) ?es)) = mset (map returned ?es)" if "all_returned ?es"
  proof -
    have "map Some (results_in (pub_order P) ?es) = map (\<lambda>i. returned (?es ! i)) (pub_order P)"
      using that order_set [OF order] by (auto simp: results_in_def all_returned_def list_all_length)
    also have "mset \<dots> = mset (map (\<lambda>i. returned (?es ! i)) [0..<length ?es])"
      using order by (simp add: in_some_order_def)
    finally show ?thesis by (metis (no_types, lifting) map_nth map_map comp_def map_cong)
  qed
  have "all_returned ?es \<longleftrightarrow> \<not> (\<exists>part \<in> set parts. returned (parallel_part P args part) = None)"
    by (auto simp: all_returned_def list_all_iff)
  then have hangs: "parallel_main P args = None \<longleftrightarrow> \<not> list_ex broken_off ?es
      \<and> (\<exists>part \<in> set parts. returned (parallel_part P args part) = None)"
    unfolding main by (simp del: not_None_eq split_paired_Ex)
  have printed: "all_returned ?es \<and> map_sum id (\<lambda>line. [line]) (parallel_report args (results_in (pub_order P) ?es)) = Inr printed"
    if "parallel_main P args = Some (Inr printed)" for printed
    using that unfolding main by (simp split: if_splits)
  show ?thesis
  proof (intro conjI allI impI exI [of _ "results_in (pub_order P) ?es"])
    fix printed assume "parallel_main P args = Some (Inr printed)"
    note this = printed [OF this]
    then show "mset (map Some (results_in (pub_order P) ?es)) = mset (map (\<lambda>part. returned (parallel_part P args part)) parts)"
      using results by (simp add: comp_def)
    from this show "span_of (results_in (pub_order P) ?es) \<noteq> 0"
      and "let total = sum_list (map (\<lambda>(w, n, elapsed, t0). n) (results_in (pub_order P) ?es)) in
        printed = [''connections='' @ str_nat (p_connections args) @ '' per_worker=''
          @ str_nat (p_total_rows args div p_connections args) @ '' total_published='' @ str_int total
          @ '' span='' @ fmt_rat 3 (span_of (results_in (pub_order P) ?es)) @ ''s rate=''
          @ fmt_comma (of_int total / span_of (results_in (pub_order P) ?es)) @ ''/s'']"
      using \<open>all_returned ?es \<and> _\<close> by (auto simp: parallel_report_def py_truediv_def Let_def split: if_splits)
  qed (use partition_covers [OF assms(2)] hangs in blast)+
qed

text \<open>Two connections share eleven rows; the second finishes first.\<close>

definition demo_parallel :: parallel_args where
  "demo_parallel = \<lparr>p_dsn = ''dbname=postgres'', p_sql = ''trades'', p_total_rows = 11, p_connections = 2,
     p_queue_uri = ''bmq://q'', p_broker_uri = ''tcp://localhost:30114''\<rparr>"

theorem parallel_main_report_witness:
  "\<exists>printed results. parallel_main demo_pool demo_parallel = Some (Inr printed) \<and> span_of results \<noteq> 0
     \<and> printed = [''connections=2 per_worker=5 total_published=10 span='' @ fmt_rat 3 (span_of results) @ ''s rate=''
         @ fmt_comma (10 / span_of results) @ ''/s'']"
proof -
  have size: "p_connections demo_parallel = 2" "p_total_rows demo_parallel = 11" by (simp_all add: demo_parallel_def)
  have order: "mset (pub_order demo_pool) = mset [0..<p_connections demo_parallel]"
    by (simp add: size demo_pool_def numeral_2_eq_2)
  have parts: "partition_rows (p_total_rows demo_parallel) (p_connections demo_parallel) = Inr [(0, 0, 5), (1, 5, 5)]"
    by (simp add: size) code_simp
  have puts: "pub_order demo_pool = [1, 0]" by (simp add: demo_pool_def)
  have run: "\<exists>h. parallel_part demo_pool demo_parallel (i, off, k) = Some (Inr (i, 5, 3, 4), h)" for i off k
    by (simp add: parallel_part_def worker_def demo_pool_def demo_parallel_def with_conn_def worker_run)
  have each: "returned (parallel_part demo_pool demo_parallel (i, off, k)) = Some (i, 5, 3, 4)"
      "\<not> broken_off (parallel_part demo_pool demo_parallel (i, off, k))" for i off k
    using run [of i off k] by (auto simp: returned_def broken_off_def)
  have "parallel_main demo_pool demo_parallel
      = Some (map_sum id (\<lambda>line. [line]) (parallel_report demo_parallel [(1, 5, 3, 4), (0, 5, 3, 4)]))"
    using puts unfolding parallel_main_def parts
    by (simp add: each get_results_def queue_of_def List.map_filter_simps size)
  moreover have "span_of [(1, 5, 3, 4), (0, 5, 3, 4)] = 3" by (simp add: span_of_def py_max_def py_min_def)
  ultimately obtain printed where main: "parallel_main demo_pool demo_parallel = Some (Inr printed)"
    by (simp add: parallel_report_def py_truediv_def Let_def)
  obtain results where r: "mset (map Some results) = {#Some (0, 5, 3, 4), Some (1, 5, 3, 4)#}" "span_of results \<noteq> 0"
      "let total = sum_list (map (\<lambda>(w, n, elapsed, t0). n) results) in
        printed = [''connections='' @ str_nat 2 @ '' per_worker='' @ str_nat (11 div 2) @ '' total_published='' @ str_int total
          @ '' span='' @ fmt_rat 3 (span_of results) @ ''s rate='' @ fmt_comma (of_int total / span_of results) @ ''/s'']"
    using parallel_main_report [OF order parts] main unfolding size by (fastforce simp: each)
  have "sum_list (map (\<lambda>(w, n, elapsed, t0). n) results)
      = \<Sum>\<^sub># (image_mset (\<lambda>x. case the x of (w, n, elapsed, t0) \<Rightarrow> n) (mset (map Some results)))"
    by (simp add: sum_mset_sum_list [symmetric] image_mset.compositionality comp_def case_prod_unfold)
  also have "\<dots> = 10" unfolding r(1) by simp
  finally have "sum_list (map (\<lambda>(w, n, elapsed, t0). n) results) = 10" .
  moreover have "str_nat 2 = ''2''" "str_nat (11 div 2) = ''5''" "str_int 10 = ''10''" by code_simp+
  ultimately have "printed = [''connections=2 per_worker=5 total_published=10 span='' @ fmt_rat 3 (span_of results) @ ''s rate=''
         @ fmt_comma (10 / span_of results) @ ''/s'']"
    using r(3) by (simp add: Let_def)
  with main r(2) show ?thesis by blast
qed

end
