(* ===== verification/Bmq_Bench.thy ===== *)
theory Bmq_Bench
  imports Sustained "HOL-Library.Multiset"
begin

text \<open>
  \<^verbatim>\<open>bench/bmq_bench.py\<close>: publish rows, pull them back with one call, and compare what a second
  publish and pull delivers with the source rows. The comparison is done by the database, in a
  statement the script writes: two grouped projections and the counts of their differences.
\<close>

section \<open>The attribute columns\<close>

definition attr_array_of :: "string \<Rightarrow> string" where
  "attr_array_of attr_columns =
     (if py_strip attr_columns = [] then ''ARRAY[]::text[]''
      else ''ARRAY['' @ py_join '','' (map (\<lambda>c. q1 (py_strip c)) (py_split_on (CHR '','') attr_columns)) @ '']'')"

section \<open>The verification statement\<close>




definition verify_ok :: "int \<Rightarrow> int \<times> int \<times> int \<times> int \<Rightarrow> bool" where
  "verify_ok limit row =
     (case row of (c_count, r_count, d1, d2) \<Rightarrow> (c_count = r_count \<and> r_count = limit) \<and> d1 = 0 \<and> d2 = 0)"

section \<open>The script\<close>

record bench_args =
  b_dsn :: string
  b_sql :: string
  b_limit :: int
  b_attr_columns :: string
  b_queue_uri :: string
  b_broker_uri :: string
  b_consume_timeout_ms :: int
  b_batch_confirm :: bool

definition bench_publish_sql :: "string \<Rightarrow> string" where
  "bench_publish_sql attrs =
     ''SELECT count(*) FROM '' @ ''(SELECT bmq_publish_row(%s, t, '' @ attrs @ '') '' @ ''FROM bmq_bench_source t) s''"

definition sizes_sql :: string where
  "sizes_sql =
     ''SELECT avg(octet_length(row_to_msgpack(t)))::float8, ''
     @ ''sum(octet_length(row_to_msgpack(t)))::float8 FROM bmq_bench_source t''"

definition bench_consume_sql :: "string \<Rightarrow> string" where
  "bench_consume_sql batch_confirm = ''SELECT count(*) FROM bmq_consume(%s, NULL, %s, %s, '' @ batch_confirm @ '')''"

text \<open>A column as text, and one cast to another type, in the normalized projection.\<close>

definition norm_text :: "string \<Rightarrow> string" where
  "norm_text col = q1 col @ '', j->>'' @ q1 col"

definition norm_cast :: "string \<Rightarrow> string \<Rightarrow> string" where
  "norm_cast col ty = q1 col @ '', (j->>'' @ q1 col @ '')::'' @ ty"

definition norm_sql :: string where
  "norm_sql =
     ''jsonb_build_object('' @ py_join '', ''
       [norm_text ''Time'', norm_text ''Exchange'', norm_text ''Symbol'', norm_text ''Sale Condition'',
        norm_cast ''Trade Volume'' ''bigint'', norm_cast ''Trade Price'' ''float8'',
        norm_text ''Trade Stop Stock Indicator'', norm_text ''Trade Correction Indicator'',
        norm_cast ''Sequence Number'' ''bigint'', norm_cast ''Trade Id'' ''bigint'',
        norm_text ''Source of Trade'', norm_text ''Trade Reporting Facility'',
        norm_text ''Participant Timestamp'', norm_text ''Trade Reporting Facility TRF Timestamp'',
        norm_cast ''Trade Through Exempt Indicator'' ''bigint''] @ '')''"

definition bench_verify_sql :: "string \<Rightarrow> string" where
  "bench_verify_sql batch_confirm =
     ''WITH consumed AS (''
     @ ''  SELECT msgpack_to_jsonb(bmq_consume) AS j''
     @ ''  FROM bmq_consume(%s, NULL, %s, %s, '' @ batch_confirm @ '')''
     @ ''), reference AS (''
     @ ''  SELECT to_jsonb(t) AS j FROM bmq_bench_source t''
     @ ''), c_grp AS (SELECT '' @ norm_sql @ '' AS j, count(*) c FROM consumed GROUP BY 1),''
     @ ''     r_grp AS (SELECT '' @ norm_sql @ '' AS j, count(*) c FROM reference GROUP BY 1)''
     @ ''SELECT (SELECT count(*) FROM consumed), (SELECT count(*) FROM reference),''
     @ ''       (SELECT count(*) FROM (SELECT * FROM c_grp EXCEPT SELECT * FROM r_grp) d1),''
     @ ''       (SELECT count(*) FROM (SELECT * FROM r_grp EXCEPT SELECT * FROM c_grp) d2)''"

definition fmt_size :: "nat \<Rightarrow> rat option \<Rightarrow> exc + string" where
  "fmt_size k v = (case v of None \<Rightarrow> Inl TypeError | Some r \<Rightarrow> Inr (fmt_rat k r))"

definition bmq_main :: "denv \<Rightarrow> bench_args \<Rightarrow> unit db" where
  "bmq_main D args =
     (let bc = (if b_batch_confirm args then ''true'' else ''false'');
          attrs = attr_array_of (b_attr_columns args);
          verify_uri = b_queue_uri args @ ''_verify'' in
      with_conn D (b_dsn args)
        (andthen (set_broker D (b_broker_uri args))
        (andthen (execute D (''CREATE TEMP TABLE bmq_bench_source AS '' @ b_sql args @ '' LIMIT ''
                    @ str_int (b_limit args)) [])
        (bind (perf_counter D) (\<lambda>t0.
         andthen (execute D (bench_publish_sql attrs) [SText (b_queue_uri args)])
         (bind (fetchone D) (\<lambda>published.
          bind (perf_counter D) (\<lambda>t1.
          bind (lift (py_truediv (of_int published) (t1 - t0))) (\<lambda>pub_rate.
          andthen (db_print (''published '' @ str_int published @ '' row(s) in '' @ fmt_rat 3 (t1 - t0)
                     @ ''s ('' @ fmt_comma pub_rate @ ''/s)''))
          (andthen (execute D sizes_sql [])
          (bind (fetchsizes D) (\<lambda>(avg_bytes, total_bytes).
           bind (perf_counter D) (\<lambda>t2.
           andthen (execute D (bench_consume_sql bc)
             [SText (b_queue_uri args), SInt (b_limit args), SInt (b_consume_timeout_ms args)])
           (bind (fetchone D) (\<lambda>received.
            bind (perf_counter D) (\<lambda>t3.
            andthen (db_print (if 0 < t3 - t2
               then ''received '' @ str_int received @ '' row(s) in '' @ fmt_rat 3 (t3 - t2) @ ''s (''
                      @ fmt_comma (of_int received / (t3 - t2)) @ ''/s)''
               else ''received '' @ str_int received @ '' row(s) instantly''))
            (bind (lift (fmt_size 1 avg_bytes)) (\<lambda>avg_text.
             bind (lift (fmt_size 1 (map_option (\<lambda>b. b / 1000000) total_bytes))) (\<lambda>total_text.
             andthen (db_print (''avg payload bytes: '' @ avg_text @ ''  total: '' @ total_text @ ''MB''))
             (andthen (execute D (''SELECT bmq_publish_row(%s, t, '' @ attrs @ '') FROM bmq_bench_source t'')
                [SText verify_uri])
             (andthen (execute D (bench_verify_sql bc)
                [SText verify_uri, SInt (b_limit args), SInt (b_consume_timeout_ms args)])
             (bind (fetchverify D) (\<lambda>row.
              (case row of (c_count, r_count, d1, d2) \<Rightarrow>
                db_print (''verify: consumed='' @ str_int c_count @ '' reference='' @ str_int r_count
                  @ '' mismatched_groups='' @ str_int (d1 + d2) @ '' -> ''
                  @ (if verify_ok (b_limit args) row then ''PASS'' else ''FAIL''))))))))))))))))))))))))))"

section \<open>Properties\<close>





end
