(* ===== verification/Json_Text.thy ===== *)
theory Json_Text
  imports Py_Float "HOL-Library.List_Lexorder" "HOL-Library.Char_ord"
begin

text \<open>
  Python's \<^verbatim>\<open>json\<close> module as far as \<^verbatim>\<open>js_bench.py\<close> uses it: \<^verbatim>\<open>json.loads\<close> of a line,
  \<^verbatim>\<open>json.dumps\<close> with and without sorted keys. The strings inside a value are lists of code
  points, since an escape can denote any of them; the texts are ASCII or Latin-1 strings.
  The limits of the interpreter on nesting depth and on the digits of an integer are not
  modelled.
\<close>

section \<open>Values\<close>

type_synonym ustr = "nat list"

datatype pyval =
    PyNone
  | PyBool bool
  | PyInt int
  | PyFloat pyfloat
  | PyStr ustr
  | PyList "pyval list"
  | PyDict "(ustr \<times> pyval) list"   \<comment> \<open>in insertion order\<close>

text \<open>
  The two conversions between decimal text and a 64-bit float that depend on the float
  format: \<open>to_double\<close> rounds the number a literal denotes, \<open>float_text\<close> is the \<^verbatim>\<open>repr\<close> of
  a finite float.
\<close>

record float_ops =
  to_double :: "rat \<Rightarrow> pyfloat"
  float_text :: "rat \<Rightarrow> string"

definition ustr_of :: "string \<Rightarrow> ustr" where
  "ustr_of s = map of_char s"

section \<open>Writing\<close>

definition hex4 :: "nat \<Rightarrow> string" where
  "hex4 n = [hex_digit (n div 4096), hex_digit (n div 256 mod 16), hex_digit (n div 16 mod 16), hex_digit (n mod 16)]"

definition u_escape :: "nat \<Rightarrow> string" where
  "u_escape n = [CHR 0x5C, CHR ''u''] @ hex4 n"

text \<open>\<^verbatim>\<open>ensure_ascii\<close>: everything outside the printable ASCII range is escaped.\<close>

definition esc_char :: "nat \<Rightarrow> string" where
  "esc_char c =
     (if c = 0x22 \<or> c = 0x5C then [CHR 0x5C, char_of c]
      else if c = 0x0A then [CHR 0x5C, CHR ''n'']
      else if c = 0x0D then [CHR 0x5C, CHR ''r'']
      else if c = 0x09 then [CHR 0x5C, CHR ''t'']
      else if c = 0x0C then [CHR 0x5C, CHR ''f'']
      else if c = 0x08 then [CHR 0x5C, CHR ''b'']
      else if 0x20 \<le> c \<and> c \<le> 0x7E then [char_of c]
      else if c < 0x10000 then u_escape c
      else u_escape (0xD800 + (c - 0x10000) div 1024) @ u_escape (0xDC00 + (c - 0x10000) mod 1024))"

definition json_quote :: "ustr \<Rightarrow> string" where
  "json_quote s = [CHR 0x22] @ concat (map esc_char s) @ [CHR 0x22]"

fun json_float :: "float_ops \<Rightarrow> pyfloat \<Rightarrow> string" where
  "json_float F (Fin r) = float_text F r"
| "json_float F NaN = ''NaN''"
| "json_float F Inf = ''Infinity''"
| "json_float F NegInf = ''-Infinity''"

text \<open>\<^verbatim>\<open>json.dumps(v, sort_keys=sk)\<close> with the default separators.\<close>

primrec dumps :: "float_ops \<Rightarrow> bool \<Rightarrow> pyval \<Rightarrow> string" where
  "dumps F sk PyNone = ''null''"
| "dumps F sk (PyBool b) = (if b then ''true'' else ''false'')"
| "dumps F sk (PyInt i) = str_int i"
| "dumps F sk (PyFloat x) = json_float F x"
| "dumps F sk (PyStr s) = json_quote s"
| "dumps F sk (PyList vs) = ''['' @ py_join '', '' (map (dumps F sk) vs) @ '']''"
| "dumps F sk (PyDict kvs) =
     (let items = map (map_prod id (dumps F sk)) kvs;
          items' = (if sk then sort_key fst items else items) in
      ''{'' @ py_join '', '' (map (\<lambda>(k, t). json_quote k @ '': '' @ t) items') @ ''}'')"

section \<open>Reading\<close>

definition json_ws :: "char \<Rightarrow> bool" where
  "json_ws c \<longleftrightarrow> c = CHR '' '' \<or> c = CHR 0x09 \<or> c = CHR 0x0A \<or> c = CHR 0x0D"

definition skip_ws :: "string \<Rightarrow> string" where
  "skip_ws s = dropWhile json_ws s"

definition is_digit :: "char \<Rightarrow> bool" where
  "is_digit c \<longleftrightarrow> digit_val c \<noteq> None"

definition hex_val :: "char \<Rightarrow> nat option" where
  "hex_val c =
     (let n = (of_char c :: nat) in
      if 48 \<le> n \<and> n \<le> 57 then Some (n - 48)
      else if 97 \<le> n \<and> n \<le> 102 then Some (n - 87)
      else if 65 \<le> n \<and> n \<le> 70 then Some (n - 55)
      else None)"

text \<open>Four hexadecimal digits at the start of a text.\<close>

definition hex4_val :: "string \<Rightarrow> nat option" where
  "hex4_val s =
     (case s of a # b # c # d # t \<Rightarrow>
        (case (hex_val a, hex_val b, hex_val c, hex_val d) of
           (Some w, Some x, Some y, Some z) \<Rightarrow> Some (4096 * w + 256 * x + 16 * y + z)
         | _ \<Rightarrow> None)
      | _ \<Rightarrow> None)"

definition high_surrogate :: "nat \<Rightarrow> bool" where
  "high_surrogate n \<longleftrightarrow> 0xD800 \<le> n \<and> n \<le> 0xDBFF"

definition low_surrogate :: "nat \<Rightarrow> bool" where
  "low_surrogate n \<longleftrightarrow> 0xDC00 \<le> n \<and> n \<le> 0xDFFF"

text \<open>
  What follows a \<^verbatim>\<open>\u\<close>: the code point and the number of characters used. A high surrogate
  takes a low one after it in.
\<close>

definition u_point :: "string \<Rightarrow> (nat \<times> nat) option" where
  "u_point t =
     (case hex4_val t of
        None \<Rightarrow> None
      | Some u \<Rightarrow>
          (case drop 4 t of
             a # b # t' \<Rightarrow>
               if high_surrogate u \<and> a = CHR 0x5C \<and> b = CHR ''u'' then
                 (case hex4_val t' of
                    Some v \<Rightarrow>
                      if low_surrogate v then Some (0x10000 + (u - 0xD800) * 1024 + (v - 0xDC00), 10) else Some (u, 4)
                  | None \<Rightarrow> Some (u, 4))
               else Some (u, 4)
           | _ \<Rightarrow> Some (u, 4)))"

definition simple_escape :: "char \<Rightarrow> nat option" where
  "simple_escape c =
     (if c = CHR 0x22 then Some 0x22 else if c = CHR 0x5C then Some 0x5C else if c = CHR ''/'' then Some 0x2F
      else if c = CHR ''b'' then Some 0x08 else if c = CHR ''f'' then Some 0x0C else if c = CHR ''n'' then Some 0x0A
      else if c = CHR ''r'' then Some 0x0D else if c = CHR ''t'' then Some 0x09 else None)"

definition with_point :: "nat \<Rightarrow> (ustr \<times> string) option \<Rightarrow> (ustr \<times> string) option" where
  "with_point c r = map_option (\<lambda>(u, rest). (c # u, rest)) r"

text \<open>A string after its opening quote; \<open>None\<close> is the \<^verbatim>\<open>JSONDecodeError\<close>.\<close>

fun p_str :: "string \<Rightarrow> (ustr \<times> string) option" where
  "p_str [] = None"
| "p_str (c # s) =
     (if c = CHR 0x22 then Some ([], s)
      else if c = CHR 0x5C then
        (case s of
           [] \<Rightarrow> None
         | e # t \<Rightarrow>
             if e = CHR ''u'' then
               (case u_point t of None \<Rightarrow> None | Some (u, n) \<Rightarrow> with_point u (p_str (drop n t)))
             else
               (case simple_escape e of None \<Rightarrow> None | Some u \<Rightarrow> with_point u (p_str t)))
      else if (of_char c :: nat) < 0x20 then None
      else with_point (of_char c) (p_str s))"

text \<open>
  A number: an optional sign, an integer part without superfluous zeros, an optional fraction,
  an optional exponent. Each part is the longest that matches.
\<close>

definition int_part :: "string \<Rightarrow> string" where
  "int_part s =
     (case s of [] \<Rightarrow> [] | c # t \<Rightarrow>
        if c = CHR ''0'' then [c] else if is_digit c then takeWhile is_digit s else [])"

definition frac_part :: "string \<Rightarrow> string" where
  "frac_part s =
     (case s of c # d # t \<Rightarrow> if c = CHR ''.'' \<and> is_digit d then c # takeWhile is_digit (d # t) else [] | _ \<Rightarrow> [])"

definition exp_part :: "string \<Rightarrow> string" where
  "exp_part s =
     (case s of c # d # t \<Rightarrow>
        if c = CHR ''e'' \<or> c = CHR ''E'' then
          if is_digit d then c # takeWhile is_digit (d # t)
          else if (d = CHR ''+'' \<or> d = CHR ''-'') \<and> t \<noteq> [] \<and> is_digit (hd t) then c # d # takeWhile is_digit t
          else []
        else []
      | _ \<Rightarrow> [])"

definition number_parts :: "string \<Rightarrow> string \<times> string \<times> string \<times> string" where
  "number_parts s =
     (let sign = (if s \<noteq> [] \<and> hd s = CHR ''-'' then ''-'' else []);
          s1 = drop (length sign) s; i = int_part s1;
          s2 = drop (length i) s1; f = frac_part s2;
          s3 = drop (length f) s2 in
      (sign, i, f, exp_part s3))"

definition p_number :: "float_ops \<Rightarrow> string \<Rightarrow> (pyval \<times> string) option" where
  "p_number F s =
     (case number_parts s of (sign, i, f, e) \<Rightarrow>
      (let rest = drop (length (sign @ i @ f @ e)) s in
       if i = [] then None
       else if f = [] \<and> e = [] then map_option (\<lambda>n. (PyInt n, rest)) (py_int (sign @ i))
       else
         (case py_float (sign @ i @ f @ e) of
            Some (Fin r) \<Rightarrow> Some (PyFloat (to_double F r), rest)
          | _ \<Rightarrow> None)))"

definition p_word :: "string \<Rightarrow> string \<Rightarrow> pyval \<Rightarrow> (pyval \<times> string) option \<Rightarrow> (pyval \<times> string) option" where
  "p_word s w v other = (if py_startswith s w then Some (v, drop (length w) s) else other)"

definition p_atom :: "float_ops \<Rightarrow> string \<Rightarrow> (pyval \<times> string) option" where
  "p_atom F s =
     p_word s ''null'' PyNone (p_word s ''true'' (PyBool True) (p_word s ''false'' (PyBool False)
     (case p_number F s of
        Some r \<Rightarrow> Some r
      | None \<Rightarrow> p_word s ''NaN'' (PyFloat NaN) (p_word s ''Infinity'' (PyFloat Inf)
          (p_word s ''-Infinity'' (PyFloat NegInf) None)))))"

text \<open>A later value for a key replaces the earlier one in its place.\<close>

fun dict_set :: "(ustr \<times> pyval) list \<Rightarrow> ustr \<Rightarrow> pyval \<Rightarrow> (ustr \<times> pyval) list" where
  "dict_set [] k v = [(k, v)]"
| "dict_set ((k', v') # kvs) k v = (if k' = k then (k, v) # kvs else (k', v') # dict_set kvs k v)"

definition dict_of :: "(ustr \<times> pyval) list \<Rightarrow> (ustr \<times> pyval) list" where
  "dict_of pairs = fold (\<lambda>(k, v) d. dict_set d k v) pairs []"

lemma length_skip_ws: "length (skip_ws s) \<le> length s"
  by (simp add: skip_ws_def length_dropWhile_le)

lemma twice_skip_ws:
  "Suc (length s) \<le> n \<Longrightarrow> Suc (2 * length (skip_ws s)) \<le> 2 * n"
  "length s \<le> n \<Longrightarrow> 2 * length (skip_ws s) \<le> Suc (2 * n)"
  "length s \<le> n \<Longrightarrow> 2 * length (skip_ws s) \<le> Suc (Suc (2 * n))"
  using length_skip_ws [of s] by linarith+

text \<open>
  Values, the elements of an array and the members of an object. The comparisons of lengths
  only make the end of the recursion visible: a reader always leaves less than it was given
  (\<open>p_value_shorter\<close> below), so they never decide anything.
\<close>

function (sequential) p_value :: "float_ops \<Rightarrow> string \<Rightarrow> (pyval \<times> string) option"
  and p_elems :: "float_ops \<Rightarrow> string \<Rightarrow> (pyval list \<times> string) option"
  and p_membs :: "float_ops \<Rightarrow> string \<Rightarrow> ((ustr \<times> pyval) list \<times> string) option" where
  "p_value F [] = None"
| "p_value F (c # s) =
     (if c = CHR 0x22 then map_option (\<lambda>(u, r). (PyStr u, r)) (p_str s)
      else if c = CHR ''{'' then
        (if skip_ws s \<noteq> [] \<and> hd (skip_ws s) = CHR ''}'' then Some (PyDict [], tl (skip_ws s))
         else map_option (\<lambda>(kvs, r). (PyDict (dict_of kvs), r)) (p_membs F (skip_ws s)))
      else if c = CHR ''['' then
        (if skip_ws s \<noteq> [] \<and> hd (skip_ws s) = CHR '']'' then Some (PyList [], tl (skip_ws s))
         else map_option (\<lambda>(vs, r). (PyList vs, r)) (p_elems F (skip_ws s)))
      else p_atom F (c # s))"
| "p_elems F s =
     (case p_value F s of
        None \<Rightarrow> None
      | Some (v, r) \<Rightarrow>
          (case skip_ws r of
             [] \<Rightarrow> None
           | d # r' \<Rightarrow>
               if d = CHR '']'' then Some ([v], r')
               else if d = CHR '','' \<and> length r' < length s then
                 map_option (\<lambda>(vs, q). (v # vs, q)) (p_elems F (skip_ws r'))
               else None))"
| "p_membs F s =
     (case s of
        [] \<Rightarrow> None
      | c # t \<Rightarrow>
          if c \<noteq> CHR 0x22 then None
          else
            (case p_str t of
               None \<Rightarrow> None
             | Some (k, r) \<Rightarrow>
                 (case skip_ws r of
                    [] \<Rightarrow> None
                  | d # r' \<Rightarrow>
                      if d \<noteq> CHR '':'' \<or> \<not> length r' < length s then None
                      else
                        (case p_value F (skip_ws r') of
                           None \<Rightarrow> None
                         | Some (v, q) \<Rightarrow>
                             (case skip_ws q of
                                [] \<Rightarrow> None
                              | d' # q' \<Rightarrow>
                                  if d' = CHR ''}'' then Some ([(k, v)], q')
                                  else if d' = CHR '','' \<and> length q' < length s then
                                    map_option (\<lambda>(kvs, z). ((k, v) # kvs, z)) (p_membs F (skip_ws q'))
                                  else None)))))"
  by pat_completeness auto

termination
  by (relation "measure (\<lambda>x. case x of Inl (F, s) \<Rightarrow> 2 * length s
      | Inr (Inl (F, s)) \<Rightarrow> 2 * length s + 1 | Inr (Inr (F, s)) \<Rightarrow> 2 * length s + 1)")
    (auto simp: less_eq_Suc_le length_skip_ws twice_skip_ws)

declare p_elems.simps [simp del] p_membs.simps [simp del]

text \<open>\<^verbatim>\<open>json.loads(s)\<close>\<close>

definition loads :: "float_ops \<Rightarrow> string \<Rightarrow> pyval option" where
  "loads F s =
     (case p_value F (skip_ws s) of
        None \<Rightarrow> None
      | Some (v, r) \<Rightarrow> if skip_ws r = [] then Some v else None)"

section \<open>A reader leaves less than it was given\<close>

lemma p_str_shorter: "p_str s = Some (u, r) \<Longrightarrow> length r < length s"
proof (induction s arbitrary: u r rule: p_str.induct)
  case (2 c s)
  then show ?case
    by (fastforce simp: with_point_def split: if_splits option.splits list.splits)
qed simp

lemma p_number_shorter: "p_number F s = Some (v, r) \<Longrightarrow> length r < length s"
proof -
  assume run: "p_number F s = Some (v, r)"
  obtain sign i f e where parts: "number_parts s = (sign, i, f, e)" by (cases "number_parts s") auto
  with run have i: "i \<noteq> []" and r: "r = drop (length (sign @ i @ f @ e)) s"
    by (auto simp: p_number_def Let_def split: if_splits option.splits pyfloat.splits)
  have "s \<noteq> []" using parts i by (auto simp: number_parts_def Let_def int_part_def)
  moreover have "0 < length (sign @ i @ f @ e)" using i by simp
  ultimately show "length r < length s" unfolding r length_drop by (metis diff_less length_greater_0_conv)
qed

lemma p_atom_shorter: "p_atom F (c # s) = Some (v, r) \<Longrightarrow> length r < length (c # s)"
  by (auto simp: p_atom_def p_word_def split: if_splits option.splits dest!: p_number_shorter)

lemma p_value_shorter:
  "p_value F s = Some (v, r) \<Longrightarrow> length r < length s"
  "p_elems F s = Some (vs, r) \<Longrightarrow> length r < length s"
  "p_membs F s = Some (kvs, r) \<Longrightarrow> length r < length s"
proof (induction F s and F s and F s arbitrary: v r and vs r and kvs r rule: p_value_p_elems_p_membs.induct)
  case (2 F c s)
  have ws: "length (skip_ws s) \<le> length s" by (rule length_skip_ws)
  show ?case
    using 2 ws by (fastforce split: if_splits dest: p_str_shorter p_atom_shorter)
next
  case (3 F s)
  from "3.prems" obtain v q d q' where v: "p_value F s = Some (v, q)" and d: "skip_ws q = d # q'"
    by (auto simp: p_elems.simps [of F s] split: option.splits list.splits)
  have "length q' < length s" using "3.IH"(1) [OF v] d length_skip_ws [of q] by simp
  moreover have "length (skip_ws q') \<le> length q'" by (rule length_skip_ws)
  ultimately show ?case
    using "3.prems" v d "3.IH"(2) [OF v refl d]
    by (fastforce simp: p_elems.simps [of F s] split: if_splits)
next
  case (4 F s)
  from "4.prems" obtain t k q d q' v z d' z' where t: "s = CHR 0x22 # t" and k: "p_str t = Some (k, q)"
    and d: "skip_ws q = d # q'" and guard: "\<not> (d \<noteq> CHR '':'' \<or> \<not> length q' < length s)"
    and v: "p_value F (skip_ws q') = Some (v, z)" and d': "skip_ws z = d' # z'"
    by (auto simp: p_membs.simps [of F s] split: option.splits list.splits if_splits)
  have "length z' < length s"
    using "4.IH"(1) [OF t _ k refl d guard v] d' guard length_skip_ws [of z] length_skip_ws [of q'] by simp
  moreover have "p_membs F s = (if d' = CHR ''}'' then Some ([(k, v)], z')
      else if d' = CHR '','' \<and> length z' < length s
      then map_option (\<lambda>(kvs, y). ((k, v) # kvs, y)) (p_membs F (skip_ws z')) else None)"
    using t k d guard v d' by (subst p_membs.simps) simp
  ultimately consider "r = z'" | kvs' where "d' \<noteq> CHR ''}''" "d' = CHR '',''" "p_membs F (skip_ws z') = Some (kvs', r)"
    using "4.prems" by (cases "p_membs F (skip_ws z')") (auto split: if_splits)
  then show ?case
  proof cases
    case 2
    with \<open>length z' < length s\<close> have "length r < length (skip_ws z')"
      by (intro "4.IH"(2) [OF t _ k refl d guard v refl d']) simp_all
    with \<open>length z' < length s\<close> length_skip_ws [of z'] show ?thesis by simp
  qed (use \<open>length z' < length s\<close> in simp)
qed simp

end
