(* ===== verification/Json_Roundtrip.thy ===== *)
theory Json_Roundtrip
  imports Json_Text
begin

text \<open>
  What \<^verbatim>\<open>json.dumps\<close> writes, \<^verbatim>\<open>json.loads\<close> reads back: the strings with their escapes, the
  numbers, the nested lists and dictionaries. Hence the text of a value determines it.
\<close>

section \<open>Well-formed values\<close>

text \<open>Code points of characters: no surrogates.\<close>

definition valid_point :: "nat \<Rightarrow> bool" where
  "valid_point c \<longleftrightarrow> c < 0x110000 \<and> \<not> (0xD800 \<le> c \<and> c \<le> 0xDFFF)"

text \<open>The \<^verbatim>\<open>repr\<close> of a finite float reads back as this float.\<close>

definition float_ok :: "float_ops \<Rightarrow> rat \<Rightarrow> bool" where
  "float_ok F r \<longleftrightarrow> p_number F (float_text F r) = Some (PyFloat (Fin r), [])"

primrec wf_val :: "float_ops \<Rightarrow> pyval \<Rightarrow> bool" where
  "wf_val F PyNone = True"
| "wf_val F (PyBool b) = True"
| "wf_val F (PyInt i) = True"
| "wf_val F (PyFloat x) = (case x of Fin r \<Rightarrow> float_ok F r | _ \<Rightarrow> True)"
| "wf_val F (PyStr s) = list_all valid_point s"
| "wf_val F (PyList vs) = list_all id (map (wf_val F) vs)"
| "wf_val F (PyDict kvs) =
     (distinct (map fst kvs) \<and> list_all (\<lambda>(k, b). list_all valid_point k \<and> b) (map (map_prod id (wf_val F)) kvs))"

section \<open>Strings\<close>

lemma char_of_eq: "n < 256 \<Longrightarrow> char_of n = c \<longleftrightarrow> (of_char c :: nat) = n"
  by (metis char_of_char of_char_of mod_less)

lemma hex_val_hex_digit: "d < 16 \<Longrightarrow> hex_val (hex_digit d) = Some d"
  by (auto simp: hex_val_def hex_digit_def)

lemma hex4_val_hex4: "n < 65536 \<Longrightarrow> hex4_val (hex4 n @ t) = Some n"
proof -
  assume n: "n < 65536"
  have "n div 4096 < 16" using n by simp
  moreover have "4096 * (n div 4096) + 256 * (n div 256 mod 16) + 16 * (n div 16 mod 16) + n mod 16 = n"
  proof -
    have "n div 256 = n div 16 div 16" "n div 4096 = n div 256 div 16"
      by (simp_all add: div_mult2_eq [symmetric])
    then show ?thesis
      using mult_div_mod_eq [of 16 n] mult_div_mod_eq [of 16 "n div 16"] mult_div_mod_eq [of 16 "n div 256"]
      by linarith
  qed
  ultimately show ?thesis by (simp add: hex4_val_def hex4_def hex_val_hex_digit)
qed

lemma length_hex4 [simp]: "length (hex4 n) = 4"
  by (simp add: hex4_def)

lemma u_point_plain:
  assumes "n < 65536" and "\<not> high_surrogate n"
  shows "u_point (hex4 n @ t) = Some (n, 4)"
  using assms by (simp add: u_point_def hex4_val_hex4 split: list.split)

lemma u_point_pair:
  assumes "n < 0x100000"
  shows "u_point (hex4 (0xD800 + n div 1024) @ u_escape (0xDC00 + n mod 1024) @ t) = Some (0x10000 + n, 10)"
proof -
  have "n div 1024 < 1024" "n mod 1024 < 1024" using assms by simp_all
  then have "high_surrogate (0xD800 + n div 1024)" "low_surrogate (0xDC00 + n mod 1024)"
      "0xD800 + n div 1024 < 65536" "0xDC00 + n mod 1024 < 65536"
    by (simp_all add: high_surrogate_def low_surrogate_def)
  then show ?thesis
    by (simp add: u_point_def hex4_val_hex4 u_escape_def mult.commute [of _ 1024] mult_div_mod_eq)
qed

lemma p_str_simple:
  "simple_escape e = Some u \<Longrightarrow> e \<noteq> CHR ''u'' \<Longrightarrow> p_str (CHR 0x5C # e # t) = with_point u (p_str t)"
  by simp

lemma p_str_u: "u_point t = Some (u, n) \<Longrightarrow> p_str (CHR 0x5C # CHR ''u'' # t) = with_point u (p_str (drop n t))"
  by simp

lemma esc_named:
  "esc_char 0x0A = [CHR 0x5C, CHR ''n'']" "esc_char 0x0D = [CHR 0x5C, CHR ''r'']"
  "esc_char 0x09 = [CHR 0x5C, CHR ''t'']" "esc_char 0x0C = [CHR 0x5C, CHR ''f'']"
  "esc_char 0x08 = [CHR 0x5C, CHR ''b'']"
  by (simp_all add: esc_char_def)

text \<open>An escaped character is read as this character.\<close>

lemma p_str_esc:
  assumes "valid_point c"
  shows "p_str (esc_char c @ t) = with_point c (p_str t)"
proof (cases "0x20 \<le> c \<and> c \<le> 0x7E")
  case True
  then have c: "of_char (char_of c :: char) = c" by simp
  with True show ?thesis
    by (cases "c = 0x22 \<or> c = 0x5C") (auto simp: esc_char_def simple_escape_def char_of_eq)
next
  case False
  have plain: "c \<noteq> 0x22" "c \<noteq> 0x5C" using False by auto
  consider "c \<in> {0x0A, 0x0D, 0x09, 0x0C, 0x08}" | "c \<notin> {0x0A, 0x0D, 0x09, 0x0C, 0x08}" "c < 0x10000"
    | "0x10000 \<le> c"
    by (meson not_le)
  then show ?thesis
  proof cases
    case 1
    then show ?thesis
      by (elim insertE) (simp_all add: esc_named p_str_simple simple_escape_def del: p_str.simps)
  next
    case 2
    then have "u_point (hex4 c @ t) = Some (c, 4)"
      using assms by (intro u_point_plain) (auto simp: valid_point_def high_surrogate_def)
    moreover have "esc_char c = u_escape c" using 2 False plain by (auto simp: esc_char_def)
    ultimately show ?thesis by (simp add: u_escape_def p_str_u del: p_str.simps)
  next
    case 3
    define n where "n = c - 0x10000"
    have n: "n < 0x100000" "c = 0x10000 + n" using 3 assms by (auto simp: n_def valid_point_def)
    then have "esc_char c = u_escape (0xD800 + n div 1024) @ u_escape (0xDC00 + n mod 1024)"
      by (simp add: esc_char_def)
    with u_point_pair [OF n(1), of t] n(2) show ?thesis by (simp add: u_escape_def p_str_u del: p_str.simps)
  qed
qed

lemma p_str_quoted:
  "list_all valid_point s \<Longrightarrow> p_str (concat (map esc_char s) @ CHR 0x22 # rest) = Some (s, rest)"
  by (induction s) (simp_all add: p_str_esc with_point_def del: p_str.simps(2), simp)

section \<open>Numbers\<close>

text \<open>The text after a value: nothing, or a delimiter.\<close>

definition ends :: "string \<Rightarrow> bool" where
  "ends rest \<longleftrightarrow> rest = [] \<or> hd rest \<in> {CHR '','', CHR '']'', CHR ''}''}"

lemma ends_hd [simp]:
  "ends (c # rest) \<longleftrightarrow> c = CHR '','' \<or> c = CHR '']'' \<or> c = CHR ''}''" "ends []"
  by (simp_all add: ends_def)

lemma not_digit_delim [simp]: "\<not> is_digit (CHR '','')" "\<not> is_digit (CHR '']'')" "\<not> is_digit (CHR ''}'')"
  by (simp_all add: is_digit_def digit_val_def)

lemma takeWhile_ends: "ends rest \<Longrightarrow> takeWhile is_digit (s @ rest) = takeWhile is_digit s"
  by (induction s) (cases rest; auto)+

lemma int_part_ends: "ends rest \<Longrightarrow> s \<noteq> [] \<Longrightarrow> int_part (s @ rest) = int_part s"
  using takeWhile_ends [of rest s] by (cases s) (auto simp: int_part_def)

lemma frac_part_ends: "ends rest \<Longrightarrow> frac_part (s @ rest) = frac_part s"
proof -
  assume e: "ends rest"
  consider "s = []" | c where "s = [c]" | c d t where "s = c # d # t" by (metis list.exhaust)
  then show ?thesis
  proof cases
    case 3
    with takeWhile_ends [OF e, of t] show ?thesis by (simp add: frac_part_def)
  qed (use e in \<open>cases rest; auto simp: frac_part_def split: list.splits\<close>)+
qed

lemma exp_part_ends: "ends rest \<Longrightarrow> exp_part (s @ rest) = exp_part s"
proof -
  assume e: "ends rest"
  consider "s = []" | c where "s = [c]" | c d where "s = [c, d]" | c d d' t where "s = c # d # d' # t"
    by (metis list.exhaust)
  then show ?thesis
  proof cases
    case 4
    with takeWhile_ends [OF e, of t] show ?thesis
      by (simp add: exp_part_def)
  qed (use e in \<open>cases rest; auto simp: exp_part_def split: list.splits\<close>)+
qed

lemma part_lengths:
  "length (int_part s) \<le> length s" "length (frac_part s) \<le> length s" "length (exp_part s) \<le> length s"
  by (auto simp: int_part_def frac_part_def exp_part_def length_takeWhile_le split: list.splits)

lemma drop_part: "length p \<le> length s \<Longrightarrow> drop (length p) (s @ rest) = drop (length p) s @ rest"
  by simp

text \<open>A number that is read from a text is read from the text with a delimiter after it.\<close>

lemma number_parts_ends:
  assumes "number_parts s = (sign, i, f, e)" and "i \<noteq> []" and "ends rest"
  shows "number_parts (s @ rest) = (sign, i, f, e)" and "length (sign @ i @ f @ e) \<le> length s"
proof -
  define s1 where "s1 = drop (length sign) s"
  define s2 where "s2 = drop (length i) s1"
  define s3 where "s3 = drop (length f) s2"
  have parts: "sign = (if s \<noteq> [] \<and> hd s = CHR ''-'' then ''-'' else [])" "i = int_part s1" "f = frac_part s2"
      "e = exp_part s3"
    using assms(1) by (auto simp: number_parts_def Let_def s1_def s2_def s3_def)
  have "s1 \<noteq> []" using assms(2) parts(2) by (auto simp: int_part_def)
  then have s: "s \<noteq> []" by (auto simp: s1_def)
  have len: "length sign \<le> length s" "length i \<le> length s1" "length f \<le> length s2" "length e \<le> length s3"
    using s part_lengths parts by (auto simp: Suc_leI)
  have drops: "drop (length sign) (s @ rest) = s1 @ rest" "drop (length i) (s1 @ rest) = s2 @ rest"
      "drop (length f) (s2 @ rest) = s3 @ rest"
    using len by (simp_all add: s1_def s2_def s3_def)
  have same: "int_part (s1 @ rest) = i" "frac_part (s2 @ rest) = f" "exp_part (s3 @ rest) = e"
    using assms(3) \<open>s1 \<noteq> []\<close> parts by (simp_all add: int_part_ends frac_part_ends exp_part_ends)
  have "(if s @ rest \<noteq> [] \<and> hd (s @ rest) = CHR ''-'' then ''-'' else []) = sign"
    using s parts(1) by simp
  then show "number_parts (s @ rest) = (sign, i, f, e)"
    unfolding number_parts_def Let_def by (simp only: drops same)
  show "length (sign @ i @ f @ e) \<le> length s"
    using len by (simp add: s1_def s2_def s3_def)
qed

lemma p_number_ends:
  assumes "p_number F s = Some (v, q)" and "ends rest"
  shows "p_number F (s @ rest) = Some (v, q @ rest)"
proof -
  obtain sign i f e where parts: "number_parts s = (sign, i, f, e)" by (cases "number_parts s") auto
  with assms(1) have "i \<noteq> []" by (auto simp: p_number_def)
  note ends = number_parts_ends [OF parts this assms(2)]
  have "drop (length (sign @ i @ f @ e)) (s @ rest) = drop (length (sign @ i @ f @ e)) s @ rest"
    using ends(2) by (rule drop_part)
  with assms(1) parts ends(1) \<open>i \<noteq> []\<close> show ?thesis
    by (auto simp: p_number_def Let_def split: if_splits option.splits pyfloat.splits)
qed

lemma p_number_hd:
  assumes "p_number F s = Some r"
  shows "s \<noteq> [] \<and> (hd s = CHR ''-'' \<or> is_digit (hd s))"
  using assms
  by (cases s) (auto simp: p_number_def number_parts_def Let_def int_part_def is_digit_def digit_val_def split: if_splits)

text \<open>The decimal text of an integer.\<close>

lemma is_digit_digit_char [simp]: "d < 10 \<Longrightarrow> is_digit (digit_char d)"
  by (simp add: is_digit_def)

lemma str_nat_all_digits: "takeWhile is_digit (str_nat n) = str_nat n"
  by (rule takeWhile_all) (auto dest: str_nat_digits)

lemma str_nat_hd_zero: "0 < n \<Longrightarrow> hd (str_nat n) \<noteq> CHR ''0''"
proof (induction n rule: str_nat.induct)
  case (1 n)
  show ?case
  proof (cases "n < 10")
    case True
    with "1.prems" show ?thesis by (simp add: str_nat.simps [of n] digit_char_def char_of_eq)
  next
    case False
    then have "hd (str_nat (n div 10)) \<noteq> CHR ''0''" using "1.IH" by simp
    with False show ?thesis by (simp add: str_nat.simps [of n])
  qed
qed

lemma int_part_str_nat: "int_part (str_nat n) = str_nat n"
proof (cases "n = 0")
  case False
  obtain c t where ct: "str_nat n = c # t" by (meson list.exhaust str_nat_not_Nil)
  have "c \<noteq> CHR ''0''" using str_nat_hd_zero [of n] False ct by simp
  moreover have "is_digit c" using str_nat_digits [of c n] ct by auto
  ultimately show ?thesis using str_nat_all_digits [of n] ct by (simp add: int_part_def)
qed (simp add: str_nat_0 int_part_def)

lemma py_int_str_int: "py_int (str_int i) = Some i"
proof (cases "i < 0")
  case True
  have "py_strip (CHR ''-'' # str_nat n) = CHR ''-'' # str_nat n" for n
    unfolding py_strip_def
    by (rule strip_with_none) (auto dest: str_nat_no_space simp: py_isspace_def)
  with True show ?thesis by (simp add: str_int_def py_int_def int_digits_str_nat)
qed (simp add: str_int_def)

lemma p_number_str_int: "p_number F (str_int i) = Some (PyInt i, [])"
proof -
  have hd: "hd (str_nat n) \<noteq> CHR ''-''" for n
  proof -
    obtain d where "d < 10" "hd (str_nat n) = digit_char d"
      using str_nat_digits [of "hd (str_nat n)" n] hd_in_set [OF str_nat_not_Nil] by blast
    then show ?thesis by simp
  qed
  have empty: "frac_part [] = []" "exp_part [] = []" by (simp_all add: frac_part_def exp_part_def)
  show ?thesis
    using py_int_str_int [of i] hd
    by (auto simp: p_number_def number_parts_def Let_def str_int_def int_part_str_nat empty)
qed

section \<open>Values\<close>

lemma p_atom_number:
  assumes "p_number F s = Some (v, [])" and "ends rest"
  shows "p_atom F (s @ rest) = Some (v, rest)"
proof -
  obtain c t where "s = c # t" "c = CHR ''-'' \<or> is_digit c" using p_number_hd [OF assms(1)] by (cases s) auto
  then have "\<not> py_startswith (s @ rest) ''null''" "\<not> py_startswith (s @ rest) ''true''"
      "\<not> py_startswith (s @ rest) ''false''"
    by (auto simp: is_digit_def digit_val_def)
  with p_number_ends [OF assms] show ?thesis by (simp add: p_atom_def p_word_def)
qed

lemma p_value_number:
  assumes "p_number F s = Some (v, [])" and "ends rest"
  shows "p_value F (s @ rest) = Some (v, rest)"
proof -
  obtain c t where ct: "s = c # t" "c = CHR ''-'' \<or> is_digit c" using p_number_hd [OF assms(1)] by (cases s) auto
  then have "c \<noteq> CHR 0x22" "c \<noteq> CHR ''{''" "c \<noteq> CHR ''[''" by (auto simp: is_digit_def digit_val_def)
  with p_atom_number [OF assms] ct show ?thesis by simp
qed

lemma p_number_special:
  "p_number F (''NaN'' @ rest) = None" "p_number F (''Infinity'' @ rest) = None" "p_number F (''-Infinity'' @ rest) = None"
  by (simp_all add: p_number_def number_parts_def Let_def int_part_def is_digit_def digit_val_def)

lemma p_value_words:
  "p_value F (''null'' @ rest) = Some (PyNone, rest)" "p_value F (''true'' @ rest) = Some (PyBool True, rest)"
  "p_value F (''false'' @ rest) = Some (PyBool False, rest)" "p_value F (''NaN'' @ rest) = Some (PyFloat NaN, rest)"
  "p_value F (''Infinity'' @ rest) = Some (PyFloat Inf, rest)"
  "p_value F (''-Infinity'' @ rest) = Some (PyFloat NegInf, rest)"
  using p_number_special [of F rest] by (simp_all add: p_atom_def p_word_def)

text \<open>Lists and dictionaries, given that their parts are read back.\<close>

definition reads_back :: "float_ops \<Rightarrow> (pyval \<Rightarrow> string) \<Rightarrow> pyval \<Rightarrow> bool" where
  "reads_back F t v \<longleftrightarrow>
     (\<forall>rest. ends rest \<longrightarrow> p_value F (t v @ rest) = Some (v, rest)) \<and> t v \<noteq> [] \<and> \<not> json_ws (hd (t v))
     \<and> hd (t v) \<noteq> CHR '']'' \<and> hd (t v) \<noteq> CHR ''}''"

lemma skip_ws_simps [simp]:
  "skip_ws [] = []" "\<not> json_ws c \<Longrightarrow> skip_ws (c # s) = c # s" "skip_ws (CHR '' '' # s) = skip_ws s"
  "skip_ws (CHR '','' # s) = CHR '','' # s" "skip_ws (CHR '']'' # s) = CHR '']'' # s"
  "skip_ws (CHR ''}'' # s) = CHR ''}'' # s" "skip_ws (CHR '':'' # s) = CHR '':'' # s"
  "skip_ws (CHR 0x22 # s) = CHR 0x22 # s"
  by (simp_all add: skip_ws_def json_ws_def)

lemma skip_ws_hd: "s \<noteq> [] \<Longrightarrow> \<not> json_ws (hd s) \<Longrightarrow> skip_ws (s @ r) = s @ r"
  by (cases s) simp_all

lemma reads_backD:
  assumes "reads_back F t v"
  shows "ends rest \<Longrightarrow> p_value F (t v @ rest) = Some (v, rest)" "skip_ws (t v @ r) = t v @ r" "t v \<noteq> []"
  using assms by (auto simp: reads_back_def intro: skip_ws_hd)

lemma py_join_Cons: "py_join sep (p # ps) = p @ (if ps = [] then [] else sep @ py_join sep ps)"
  by (cases ps) simp_all

lemma p_elems_back:
  assumes "\<forall>v \<in> set vs. reads_back F t v" and "vs \<noteq> []"
  shows "p_elems F (py_join '', '' (map t vs) @ CHR '']'' # rest) = Some (vs, rest)"
  using assms
proof (induction vs)
  case (Cons v vs)
  then have v: "reads_back F t v" by simp
  show ?case
  proof (cases "vs = []")
    case True
    then show ?thesis using reads_backD(1) [OF v, of "CHR '']'' # rest"] by (simp add: p_elems.simps)
  next
    case False
    define more where "more = py_join '', '' (map t vs) @ CHR '']'' # rest"
    obtain w ws where vs: "vs = w # ws" using False by (cases vs) auto
    have "skip_ws more = more"
      using Cons.prems(1) reads_backD(2,3) [of F t w] by (simp add: more_def vs py_join_Cons)
    moreover have "p_elems F more = Some (vs, rest)" using Cons.IH Cons.prems(1) False by (simp add: more_def)
    ultimately have "p_elems F (t v @ CHR '','' # CHR '' '' # more) = Some (v # vs, rest)"
      using reads_backD(1,3) [OF v] by (subst p_elems.simps) simp
    then show ?thesis using False by (simp add: py_join_Cons more_def)
  qed
qed simp

definition member_text :: "(pyval \<Rightarrow> string) \<Rightarrow> ustr \<times> pyval \<Rightarrow> string" where
  "member_text t kv = json_quote (fst kv) @ '': '' @ t (snd kv)"

lemma member_text_hd: "member_text t kv = CHR 0x22 # concat (map esc_char (fst kv)) @ CHR 0x22 # '': '' @ t (snd kv)"
  by (simp add: member_text_def json_quote_def)

lemma p_membs_back:
  assumes "\<forall>(k, v) \<in> set kvs. list_all valid_point k \<and> reads_back F t v" and "kvs \<noteq> []"
  shows "p_membs F (py_join '', '' (map (member_text t) kvs) @ CHR ''}'' # rest) = Some (kvs, rest)"
  using assms
proof (induction kvs)
  case (Cons kv kvs)
  obtain k v where kv: "kv = (k, v)" by (cases kv)
  with Cons.prems have k: "list_all valid_point k" and v: "reads_back F t v" by auto
  have step: "p_membs F (member_text t kv @ d # q) =
      (if d = CHR ''}'' then Some ([(k, v)], q)
       else map_option (\<lambda>(kvs, z). ((k, v) # kvs, z)) (p_membs F (skip_ws q)))"
    if "d = CHR ''}'' \<or> d = CHR '',''" for d q
  proof -
    have "p_value F (t v @ d # q) = Some (v, d # q)" using that v by (intro reads_backD(1)) auto
    then show ?thesis
      using that reads_backD(2) [OF v, of "d # q"] p_str_quoted [OF k, of "'': '' @ t v @ d # q"]
      by (subst p_membs.simps) (auto simp: member_text_hd kv)
  qed
  show ?case
  proof (cases "kvs = []")
    case True
    then show ?thesis using step [of "CHR ''}''" rest] kv by simp
  next
    case False
    define more where "more = py_join '', '' (map (member_text t) kvs) @ CHR ''}'' # rest"
    have "skip_ws more = more" using False by (cases kvs) (simp_all add: more_def py_join_Cons member_text_hd)
    moreover have "p_membs F more = Some (kvs, rest)" using Cons.IH Cons.prems(1) False by (simp add: more_def)
    ultimately have "p_membs F (member_text t kv @ CHR '','' # CHR '' '' # more) = Some (kv # kvs, rest)"
      using step [of "CHR '',''" "CHR '' '' # more"] kv by simp
    then show ?thesis using False by (simp add: py_join_Cons more_def)
  qed
qed simp

lemma dict_set_new: "k \<notin> fst ` set d \<Longrightarrow> dict_set d k v = d @ [(k, v)]"
  by (induction d k v rule: dict_set.induct) auto

lemma dict_of_distinct: "distinct (map fst kvs) \<Longrightarrow> dict_of kvs = kvs"
proof -
  have "distinct (map fst (d @ kvs)) \<Longrightarrow> fold (\<lambda>(k, v) d. dict_set d k v) kvs d = d @ kvs" for d
  proof (induction kvs arbitrary: d)
    case (Cons kv kvs)
    then show ?case by (cases kv) (simp add: dict_set_new)
  qed simp
  from this [of "[]"] show "distinct (map fst kvs) \<Longrightarrow> dict_of kvs = kvs" by (simp add: dict_of_def)
qed

lemma reads_back_number:
  assumes "p_number F (t v) = Some (v, [])"
  shows "reads_back F t v"
  using p_value_number [OF assms] p_number_hd [OF assms]
  by (auto simp: reads_back_def json_ws_def is_digit_def digit_val_def)

lemma dumps_dict_plain: "dumps F False (PyDict kvs) = ''{'' @ py_join '', '' (map (member_text (dumps F False)) kvs) @ ''}''"
proof -
  have "map (\<lambda>(k, t). json_quote k @ '': '' @ t) (map (map_prod id (dumps F False)) kvs)
      = map (member_text (dumps F False)) kvs"
    by (auto simp: member_text_def)
  then show ?thesis by (simp only: dumps.simps Let_def if_False)
qed

lemma p_value_list:
  assumes "\<forall>v \<in> set vs. reads_back F t v"
  shows "p_value F (CHR ''['' # py_join '', '' (map t vs) @ CHR '']'' # rest) = Some (PyList vs, rest)"
proof (cases vs)
  case (Cons w ws)
  then have w: "reads_back F t w" using assms by simp
  define more where "more = py_join '', '' (map t vs) @ CHR '']'' # rest"
  have "skip_ws more = more" "hd more \<noteq> CHR '']''"
    using w reads_backD(2,3) [OF w] by (simp_all add: more_def Cons py_join_Cons reads_back_def)
  moreover have "p_elems F more = Some (vs, rest)"
    unfolding more_def using assms Cons by (intro p_elems_back) simp_all
  ultimately show ?thesis by (simp add: more_def)
qed simp

lemma p_value_dict:
  assumes "\<forall>(k, v) \<in> set kvs. list_all valid_point k \<and> reads_back F t v" and "distinct (map fst kvs)"
  shows "p_value F (CHR ''{'' # py_join '', '' (map (member_text t) kvs) @ CHR ''}'' # rest) = Some (PyDict kvs, rest)"
proof (cases kvs)
  case (Cons kv kvs')
  define more where "more = py_join '', '' (map (member_text t) kvs) @ CHR ''}'' # rest"
  have "skip_ws more = more" "hd more \<noteq> CHR ''}''" by (simp_all add: more_def Cons py_join_Cons member_text_hd)
  moreover have "p_membs F more = Some (kvs, rest)"
    unfolding more_def using assms(1) Cons by (intro p_membs_back) simp_all
  ultimately show ?thesis using dict_of_distinct [OF assms(2)] by (simp add: more_def)
qed simp

lemma reads_back_dumps: "wf_val F v \<Longrightarrow> reads_back F (dumps F False) v"
proof (induction v)
  case PyNone
  show ?case using p_value_words(1) [of F] by (simp add: reads_back_def json_ws_def)
next
  case (PyBool b)
  show ?case using p_value_words(2,3) [of F] by (simp add: reads_back_def json_ws_def)
next
  case (PyInt i)
  show ?case by (rule reads_back_number) (simp add: p_number_str_int)
next
  case (PyFloat x)
  then show ?case
  proof (cases x)
    case (Fin r)
    with PyFloat show ?thesis by (intro reads_back_number) (simp add: float_ok_def)
  qed (use p_value_words(4-6) [of F] in \<open>simp_all add: reads_back_def json_ws_def\<close>)
next
  case (PyStr s)
  then show ?case
    using p_str_quoted [of s] by (simp add: reads_back_def json_quote_def json_ws_def)
next
  case (PyList vs)
  then have "\<forall>v \<in> set vs. reads_back F (dumps F False) v" by (simp add: list_all_iff)
  from p_value_list [OF this] show ?case
    by (simp add: reads_back_def json_ws_def del: p_value.simps)
next
  case (PyDict kvs)
  then have "\<forall>(k, v) \<in> set kvs. list_all valid_point k \<and> reads_back F (dumps F False) v" "distinct (map fst kvs)"
    by (auto simp: list_all_iff map_prod_def)
  from p_value_dict [OF this] show ?case
    unfolding reads_back_def dumps_dict_plain by (simp add: json_ws_def del: p_value.simps)
qed

text \<open>The round trip, without sorted keys.\<close>

lemma loads_dumps_plain: "wf_val F v \<Longrightarrow> loads F (dumps F False v) = Some v"
  using reads_backD(1) [OF reads_back_dumps, of F v "[]"] reads_backD(2) [OF reads_back_dumps, of F v "[]"]
  by (simp add: loads_def)

section \<open>Sorted keys\<close>

text \<open>The value with the keys of every dictionary in it sorted.\<close>

primrec sortd :: "pyval \<Rightarrow> pyval" where
  "sortd PyNone = PyNone"
| "sortd (PyBool b) = PyBool b"
| "sortd (PyInt i) = PyInt i"
| "sortd (PyFloat x) = PyFloat x"
| "sortd (PyStr s) = PyStr s"
| "sortd (PyList vs) = PyList (map sortd vs)"
| "sortd (PyDict kvs) = PyDict (sort_key fst (map (map_prod id sortd) kvs))"

lemma insort_map_prod:
  "insort_key fst (k, f v) (map (map_prod id f) kvs) = map (map_prod id f) (insort_key fst (k, v) kvs)"
  by (induction kvs) auto

lemma sort_map_prod: "sort_key fst (map (map_prod id f) kvs) = map (map_prod id f) (sort_key fst kvs)"
proof (induction kvs)
  case (Cons kv kvs)
  then show ?case by (cases kv) (simp add: insort_map_prod [unfolded id_def] id_def)
qed simp

lemma dumps_sorted: "dumps F True v = dumps F False (sortd v)"
proof (induction v)
  case (PyDict kvs)
  then have "map (map_prod id (dumps F True)) kvs = map (map_prod id (dumps F False)) (map (map_prod id sortd) kvs)"
    by (auto simp: comp_def map_prod_def)
  then show ?case by (simp only: dumps.simps sortd.simps Let_def sort_map_prod if_True if_False)
qed (simp_all cong: map_cong)

lemma wf_sortd: "wf_val F v \<Longrightarrow> wf_val F (sortd v)"
proof (induction v)
  case (PyDict kvs)
  then have "\<forall>(k, v) \<in> set kvs. list_all valid_point k \<and> wf_val F (sortd v)" "distinct (map fst kvs)"
    by (auto simp: list_all_iff map_prod_def)
  moreover have "distinct (map fst (sort_key fst (map (map_prod id sortd) kvs)))"
    using calculation(2) by (simp add: sort_map_prod distinct_map comp_def)
  ultimately show ?case by (auto simp: list_all_iff map_prod_def sort_map_prod)
qed (auto simp: list_all_iff)

text \<open>\<^verbatim>\<open>json.dumps\<close> with sorted keys writes a text that reads back as the value with its keys sorted.\<close>

lemma loads_dumps_sorted: "wf_val F v \<Longrightarrow> loads F (dumps F True v) = Some (sortd v)"
  by (simp add: dumps_sorted loads_dumps_plain wf_sortd)

end
