(* ===== verification/Js_Verify.thy ===== *)
theory Js_Verify
  imports Json_Roundtrip Prelude "HOL-Library.Multiset"
begin

text \<open>
  The content check of \<^verbatim>\<open>bench/js_bench.py\<close>: the dumped payloads and the reference rows, each in a
  canonical form and written as JSON with sorted keys, compared as sorted lists.
\<close>

section \<open>The canonical form\<close>

text \<open>\<^verbatim>\<open>if isinstance(v, float) and v.is_integer(): return int(v)\<close>\<close>

fun canon_float :: "pyfloat \<Rightarrow> pyval" where
  "canon_float (Fin r) = (if of_int \<lfloor>r\<rfloor> = r then PyInt \<lfloor>r\<rfloor> else PyFloat (Fin r))"
| "canon_float x = PyFloat x"

primrec canon :: "pyval \<Rightarrow> pyval" where
  "canon PyNone = PyNone"
| "canon (PyBool b) = PyBool b"
| "canon (PyInt i) = PyInt i"
| "canon (PyFloat x) = canon_float x"
| "canon (PyStr s) = PyStr s"
| "canon (PyList vs) = PyList (map canon vs)"
| "canon (PyDict kvs) = PyDict (map (map_prod id canon) kvs)"

text \<open>
  \<^verbatim>\<open>json.dumps({k: canon(d[k]) for k in sorted(d.keys())}, sort_keys=True, default=str)\<close>; the
  default is never asked, since every value here is one that JSON can write. Only a dictionary
  has \<^verbatim>\<open>keys()\<close>.
\<close>

definition norm :: "float_ops \<Rightarrow> pyval \<Rightarrow> exc + string" where
  "norm F d =
     (case d of
        PyDict kvs \<Rightarrow> Inr (dumps F True (PyDict (sort_key fst (map (map_prod id canon) kvs))))
      | _ \<Rightarrow> Inl AttributeError)"

text \<open>\<^verbatim>\<open>d["payload"]\<close>\<close>

definition payload_of :: "pyval \<Rightarrow> exc + pyval" where
  "payload_of d =
     (case d of
        PyDict kvs \<Rightarrow> (case map_of kvs (ustr_of ''payload'') of None \<Rightarrow> Inl KeyError | Some p \<Rightarrow> Inr p)
      | _ \<Rightarrow> Inl TypeError)"

section \<open>The comparison\<close>

text \<open>A comprehension whose expression may raise.\<close>

fun try_map :: "('a \<Rightarrow> exc + 'b) \<Rightarrow> 'a list \<Rightarrow> exc + 'b list" where
  "try_map f [] = Inr []"
| "try_map f (x # xs) =
     (case f x of
        Inl e \<Rightarrow> Inl e
      | Inr y \<Rightarrow> (case try_map f xs of Inl e \<Rightarrow> Inl e | Inr ys \<Rightarrow> Inr (y # ys)))"

definition dumped_set_of :: "float_ops \<Rightarrow> pyval list \<Rightarrow> exc + string list" where
  "dumped_set_of F dumped =
     map_sum id sort
       (try_map (\<lambda>d. case payload_of d of Inl e \<Rightarrow> Inl e | Inr p \<Rightarrow> norm F p) dumped)"

definition ref_set_of :: "float_ops \<Rightarrow> pyval list \<Rightarrow> exc + string list" where
  "ref_set_of F reference = map_sum id sort (try_map (norm F) reference)"

text \<open>\<^verbatim>\<open>sum(a != b for a, b in zip(dumped_set, ref_set))\<close>: the zip ends with the shorter list.\<close>

definition mismatched_groups :: "string list \<Rightarrow> string list \<Rightarrow> nat" where
  "mismatched_groups dumped_set ref_set = length (filter (\<lambda>(a, b). a \<noteq> b) (zip dumped_set ref_set))"

definition verify_text :: "string list \<Rightarrow> string list \<Rightarrow> string" where
  "verify_text dumped_set ref_set =
     (if dumped_set = ref_set then ''PASS''
      else ''FAIL (mismatched_groups='' @ str_nat (mismatched_groups dumped_set ref_set) @ '')'')"

text \<open>
  The examples shown after a failure: \<^verbatim>\<open>Counter(xs) - Counter(ys)\<close>, whose elements are those of
  \<open>xs\<close> with one occurrence removed for each of \<open>ys\<close>, sorted, the first three of each side.
\<close>

definition counter_minus :: "string list \<Rightarrow> string list \<Rightarrow> string list" where
  "counter_minus xs ys = fold remove1 ys xs"

definition shown_lines :: "string list \<Rightarrow> string list \<Rightarrow> string list" where
  "shown_lines dumped_set ref_set =
     concat (map (\<lambda>(a, b). [''  DUMPED-ONLY: '' @ a, ''  REF-ONLY:    '' @ b])
       (zip (take 3 (sort (counter_minus dumped_set ref_set))) (take 3 (sort (counter_minus ref_set dumped_set)))))"

section \<open>The canonical form as a type\<close>

text \<open>No finite float in the value is integral.\<close>

primrec canonical :: "pyval \<Rightarrow> bool" where
  "canonical PyNone = True"
| "canonical (PyBool b) = True"
| "canonical (PyInt i) = True"
| "canonical (PyFloat x) = (case x of Fin r \<Rightarrow> of_int \<lfloor>r\<rfloor> \<noteq> r | _ \<Rightarrow> True)"
| "canonical (PyStr s) = True"
| "canonical (PyList vs) = list_all id (map canonical vs)"
| "canonical (PyDict kvs) = list_all snd (map (map_prod id canonical) kvs)"

lemma canonical_canon: "canonical (canon v)"
proof (induction v)
  case (PyFloat x)
  then show ?case by (cases x) auto
qed (auto simp: list_all_iff)

lemma canon_canonical: "canonical v \<Longrightarrow> canon v = v"
proof (induction v)
  case (PyFloat x)
  then show ?case by (cases x) auto
next
  case (PyDict kvs)
  then have "map (map_prod id canon) kvs = kvs" by (intro map_idI) (auto simp: list_all_iff)
  then show ?case by simp
qed (auto simp: list_all_iff intro!: map_idI)

lemma wf_canon: "wf_val F v \<Longrightarrow> wf_val F (canon v)"
proof (induction v)
  case (PyFloat x)
  then show ?case by (cases x) auto
qed (auto simp: list_all_iff)

text \<open>
  The canonical form is a type of its own: the form of any value contains no integral
  float at any depth, in lists and dictionaries included; a value of this type is its own form;
  and taking the form keeps a well-formed value well-formed (valid strings, distinct keys).
\<close>

theorem canon_typed:
  assumes "wf_val F v"
  shows "canonical (canon v) \<and> wf_val F (canon v) \<and> canon (canon v) = canon v \<and> (canonical v \<longleftrightarrow> canon v = v)"
  using canonical_canon canon_canonical wf_canon [OF assms] by metis

definition demo_floats :: float_ops where
  "demo_floats = \<lparr>to_double = Fin, float_text = (\<lambda>_. ''11.0'')\<rparr>"

lemma demo_float_ok: "float_ok demo_floats 11"
  by (simp add: float_ok_def demo_floats_def p_number_def number_parts_def int_part_def frac_part_def exp_part_def
      is_digit_def digit_val_def py_float_def py_strip_def strip_with_def py_isspace_def parse_unsigned_def
      parse_mantissa_def digits_or_empty_def lower_char_def Let_def)

theorem canon_typed_witness:
  "canonical (canon (PyDict [(ustr_of ''a'', PyList [PyFloat (Fin 11)])]))
   \<and> \<not> canonical (PyDict [(ustr_of ''a'', PyList [PyFloat (Fin 11)])])"
proof -
  let ?v = "PyDict [(ustr_of ''a'', PyList [PyFloat (Fin 11)])]"
  have "wf_val demo_floats ?v" by (simp add: demo_float_ok ustr_of_def valid_point_def)
  from canon_typed [OF this] show ?thesis by simp
qed

section \<open>What a PASS means\<close>

text \<open>The content of a row: its canonical form with the keys of all dictionaries sorted.\<close>

definition content :: "pyval \<Rightarrow> pyval" where
  "content v = sortd (canon v)"

definition is_dict :: "pyval \<Rightarrow> bool" where
  "is_dict v = (case v of PyDict _ \<Rightarrow> True | _ \<Rightarrow> False)"

lemma sortd_sorted: "sortd (PyDict (sort_key fst kvs)) = sortd (PyDict kvs)"
  by (simp add: sort_map_prod sort_key_id_if_sorted)

lemma norm_text: "is_dict v \<Longrightarrow> norm F v = Inr (dumps F False (content v))"
  by (cases v) (simp_all add: is_dict_def norm_def content_def dumps_sorted sortd_sorted del: sortd.simps dumps.simps)

lemma loads_norm:
  assumes "wf_val F v"
  shows "loads F (dumps F False (content v)) = Some (content v)"
  using assms by (simp add: content_def loads_dumps_plain wf_sortd wf_canon)

lemma try_map_Inr: "(\<And>x. x \<in> set xs \<Longrightarrow> f x = Inr (g x)) \<Longrightarrow> try_map f xs = Inr (map g xs)"
  by (induction xs) simp_all

lemma sort_eq_mset: "sort xs = sort ys \<longleftrightarrow> mset xs = mset ys"
  by (metis mset_sort properties_for_sort sorted_sort)

lemma texts_contents:
  assumes "\<forall>v \<in> set ps \<union> set qs. wf_val F v"
  shows "mset (map (\<lambda>v. dumps F False (content v)) ps) = mset (map (\<lambda>v. dumps F False (content v)) qs)
     \<longleftrightarrow> mset (map content ps) = mset (map content qs)"
proof
  let ?t = "\<lambda>v. dumps F False (content v)"
  have reads: "map (the \<circ> loads F) (map ?t vs) = map content vs" if "\<forall>v \<in> set vs. wf_val F v" for vs
    using that by (simp add: loads_norm)
  assume "mset (map ?t ps) = mset (map ?t qs)"
  then have "image_mset (the \<circ> loads F) (mset (map ?t ps)) = image_mset (the \<circ> loads F) (mset (map ?t qs))" by simp
  then show "mset (map content ps) = mset (map content qs)"
    using assms reads by (metis UnI1 UnI2 mset_map)
next
  assume "mset (map content ps) = mset (map content qs)"
  then have "image_mset (dumps F False) (mset (map content ps)) = image_mset (dumps F False) (mset (map content qs))"
    by simp
  then show "mset (map (\<lambda>v. dumps F False (content v)) ps) = mset (map (\<lambda>v. dumps F False (content v)) qs)"
    by (simp add: multiset.map_comp comp_def)
qed

text \<open>
  C17. The content check is exact: for well-formed rows it says \<^verbatim>\<open>PASS\<close> if and only if the
  dumped payloads and the reference rows are the same multiset of contents, where the content
  of a row is its value up to the order of the keys of its dictionaries and up to writing an
  integral number as an integer or as a float. Neither the order of the messages nor the text
  in which they were dumped matters, and no two different contents are taken for each other.
\<close>

theorem verify_pass_iff:
  assumes "\<forall>d \<in> set dumped. \<exists>p. payload_of d = Inr p \<and> is_dict p \<and> wf_val F p"
    and "\<forall>r \<in> set reference. is_dict r \<and> wf_val F r"
  shows "\<exists>ds rs payloads. dumped_set_of F dumped = Inr ds \<and> ref_set_of F reference = Inr rs
    \<and> map payload_of dumped = map Inr payloads
    \<and> (verify_text ds rs = ''PASS'' \<longleftrightarrow> mset (map content payloads) = mset (map content reference))"
proof -
  define pay where "pay = (\<lambda>d. case payload_of d of Inr p \<Rightarrow> p | Inl _ \<Rightarrow> PyNone)"
  define t where "t = (\<lambda>v. dumps F False (content v))"
  have pay: "payload_of d = Inr (pay d) \<and> is_dict (pay d) \<and> wf_val F (pay d)" if "d \<in> set dumped" for d
    using assms(1) that by (auto simp: pay_def)
  have ds: "dumped_set_of F dumped = Inr (sort (map (t \<circ> pay) dumped))"
    unfolding dumped_set_of_def using pay
    by (subst try_map_Inr [where g = "t \<circ> pay"]) (auto simp: norm_text t_def)
  have rs: "ref_set_of F reference = Inr (sort (map t reference))"
    unfolding ref_set_of_def using assms(2)
    by (subst try_map_Inr [where g = t]) (auto simp: norm_text t_def)
  have "verify_text (sort (map (t \<circ> pay) dumped)) (sort (map t reference)) = ''PASS''
      \<longleftrightarrow> mset (map t (map pay dumped)) = mset (map t reference)"
    by (simp add: verify_text_def sort_eq_mset)
  also have "\<dots> \<longleftrightarrow> mset (map content (map pay dumped)) = mset (map content reference)"
    unfolding t_def by (rule texts_contents) (use pay assms(2) in auto)
  finally show ?thesis
    using ds rs pay
    by (intro exI [of _ "sort (map (t \<circ> pay) dumped)"] exI [of _ "sort (map t reference)"]
        exI [of _ "map pay dumped"]) auto
qed

text \<open>A dump and a reference that differ in the order of rows and keys and in the text of a number.\<close>

theorem verify_pass_iff_witness:
  "\<exists>ds rs. dumped_set_of demo_floats
       [PyDict [([112, 97, 121, 108, 111, 97, 100], PyDict [([98], PyNone), ([97], PyFloat (Fin 11))])]] = Inr ds
     \<and> ref_set_of demo_floats [PyDict [([97], PyInt 11), ([98], PyNone)]] = Inr rs \<and> verify_text ds rs = ''PASS''"
proof -
  let ?p = "PyDict [([98], PyNone), ([97], PyFloat (Fin 11))]"
  let ?d = "PyDict [([112, 97, 121, 108, 111, 97, 100], ?p)]" and ?r = "PyDict [([97], PyInt 11), ([98], PyNone)]"
  have pay: "payload_of ?d = Inr ?p" by (simp add: payload_of_def ustr_of_def)
  have "wf_val demo_floats ?p" "wf_val demo_floats ?r" by (simp_all add: demo_float_ok valid_point_def)
  then have "\<forall>d \<in> set [?d]. \<exists>p. payload_of d = Inr p \<and> is_dict p \<and> wf_val demo_floats p"
      "\<forall>r \<in> set [?r]. is_dict r \<and> wf_val demo_floats r"
    using pay by (auto simp: is_dict_def)
  from verify_pass_iff [OF this] obtain ds rs payloads
    where "dumped_set_of demo_floats [?d] = Inr ds" "ref_set_of demo_floats [?r] = Inr rs"
      "map payload_of [?d] = map Inr payloads"
      "verify_text ds rs = ''PASS'' \<longleftrightarrow> mset (map content payloads) = mset (map content [?r])"
    by blast
  moreover have "content ?p = content ?r" by (simp add: content_def)
  ultimately show ?thesis using pay by auto
qed

text \<open>
  The number a failure reports can be 0: the zip stops at the end of the shorter list, so
  messages missing from the end of the sorted dump are not counted.
\<close>

theorem mismatch_count_truncated:
  assumes "missing \<noteq> []"
  shows "verify_text dumped_set (dumped_set @ missing) = ''FAIL (mismatched_groups=0)''"
proof -
  have "zip dumped_set (dumped_set @ missing) = zip dumped_set dumped_set"
    using zip_append [of dumped_set dumped_set "[]" missing] by simp
  then have "mismatched_groups dumped_set (dumped_set @ missing) = 0"
    by (auto simp: mismatched_groups_def filter_empty_conv in_set_zip)
  then show ?thesis using assms by (simp add: verify_text_def str_nat_0)
qed

text \<open>The examples are a multiset difference: what is left of one side after the other is removed.\<close>

lemma mset_counter_minus: "mset (counter_minus xs ys) = mset xs - mset ys"
  unfolding counter_minus_def by (induction ys arbitrary: xs) simp_all

end
