(* ===== verification/Js_Bench.thy ===== *)
theory Js_Bench
  imports Js_Verify Db_Loop
begin

text \<open>
  \<^verbatim>\<open>bench/js_bench.py\<close>: publish rows to a memory stream with no consumer attached, check that all
  of them were persisted, drain the stream with a pull consumer while polling the number of lines
  of its dump file, and compare the dump with the rows.

  The script runs \<^verbatim>\<open>nats_tool\<close> for the requests and for the drain, and publishes through a
  database session; what these answer is the environment's choice.
\<close>

section \<open>Interactions\<close>

datatype jev =
    JRun "string list" nat
  | JUuid
  | JConnect string
  | JExecute string
  | JRows
  | JFetchone
  | JCursorExit
  | JConnExit
  | JMonotonic
  | JOpenW string
  | JPopen "string list"
  | JRead string
  | JSleep rat
  | JTerminate
  | JWait nat
  | JKill
  | JRemove string
  | JPrint string

type_synonym jhist = "jev list"
type_synonym 'a js = "(jev, 'a) prog"

text \<open>
  \<open>j_literal\<close> and \<open>j_literal_int\<close> are \<^verbatim>\<open>psycopg.sql.Literal(v)\<close> as text, \<open>j_str\<close> the text of a value in a message.
  A row of the publish statement has the size of its payload and the reference value.
\<close>

record jenv =
  j_floats :: float_ops
  j_literal :: "string \<Rightarrow> string"
  j_literal_int :: "int \<Rightarrow> string"
  j_str :: "pyval \<Rightarrow> string"
  j_uuid_hex :: "jhist \<Rightarrow> string"
  j_run_ans :: "jhist \<Rightarrow> string list \<Rightarrow> exc + string"
  j_db_ans :: "jhist \<Rightarrow> string \<Rightarrow> exc + unit"     \<comment> \<open>connect, execute\<close>
  j_rows_ans :: "jhist \<Rightarrow> exc + (int \<times> pyval) list"
  j_one_ans :: "jhist \<Rightarrow> exc + int"
  j_clock :: "jhist \<Rightarrow> rat"
  j_file_ans :: "jhist \<Rightarrow> string \<Rightarrow> exc + unit"   \<comment> \<open>open for writing, remove\<close>
  j_popen_ans :: "jhist \<Rightarrow> string list \<Rightarrow> exc + unit"
  j_read_ans :: "jhist \<Rightarrow> string \<Rightarrow> exc + string"
  j_proc_ans :: "jhist \<Rightarrow> exc + unit"               \<comment> \<open>terminate, wait, kill\<close>
  j_interrupted :: "jhist \<Rightarrow> bool"

definition j_run :: "jenv \<Rightarrow> string list \<Rightarrow> nat \<Rightarrow> string js" where
  "j_run J argv timeout = act (\<lambda>h. j_run_ans J h argv) (JRun argv timeout)"

definition j_uuid :: "jenv \<Rightarrow> string js" where "j_uuid J = act (\<lambda>h. Inr (j_uuid_hex J h)) JUuid"

definition j_connect :: "jenv \<Rightarrow> string \<Rightarrow> unit js" where
  "j_connect J dsn = act (\<lambda>h. j_db_ans J h dsn) (JConnect dsn)"

definition j_execute :: "jenv \<Rightarrow> string \<Rightarrow> unit js" where
  "j_execute J sql = act (\<lambda>h. j_db_ans J h sql) (JExecute sql)"

definition j_rows :: "jenv \<Rightarrow> (int \<times> pyval) list js" where "j_rows J = act (j_rows_ans J) JRows"

definition j_fetchone :: "jenv \<Rightarrow> int js" where "j_fetchone J = act (j_one_ans J) JFetchone"

definition j_cursor_exit :: "unit js" where "j_cursor_exit = act (\<lambda>_. Inr ()) JCursorExit"

definition j_conn_exit :: "unit js" where "j_conn_exit = act (\<lambda>_. Inr ()) JConnExit"

definition j_monotonic :: "jenv \<Rightarrow> rat js" where "j_monotonic J = act (\<lambda>h. Inr (j_clock J h)) JMonotonic"

definition j_open_w :: "jenv \<Rightarrow> string \<Rightarrow> unit js" where
  "j_open_w J path = act (\<lambda>h. j_file_ans J h path) (JOpenW path)"

definition j_popen :: "jenv \<Rightarrow> string list \<Rightarrow> unit js" where
  "j_popen J argv = act (\<lambda>h. j_popen_ans J h argv) (JPopen argv)"

definition j_read :: "jenv \<Rightarrow> string \<Rightarrow> string js" where
  "j_read J path = act (\<lambda>h. j_read_ans J h path) (JRead path)"

definition j_sleep :: "jenv \<Rightarrow> rat \<Rightarrow> unit js" where
  "j_sleep J d = act (\<lambda>h. if j_interrupted J h then Inl KeyboardInterrupt else Inr ()) (JSleep d)"

definition j_terminate :: "jenv \<Rightarrow> unit js" where "j_terminate J = act (j_proc_ans J) JTerminate"

definition j_wait :: "jenv \<Rightarrow> nat \<Rightarrow> unit js" where "j_wait J timeout = act (j_proc_ans J) (JWait timeout)"

definition j_kill :: "jenv \<Rightarrow> unit js" where "j_kill J = act (j_proc_ans J) JKill"

definition j_remove :: "jenv \<Rightarrow> string \<Rightarrow> unit js" where
  "j_remove J path = act (\<lambda>h. j_file_ans J h path) (JRemove path)"

definition j_print :: "string \<Rightarrow> unit js" where "j_print s = act (\<lambda>_. Inr ()) (JPrint s)"


text \<open>\<^verbatim>\<open>except X\<close> for one class of exceptions.\<close>

definition catch :: "(exc \<Rightarrow> bool) \<Rightarrow> 'a js \<Rightarrow> 'a js \<Rightarrow> 'a js" where
  "catch P m k h = (case m h of (Inl e, h') \<Rightarrow> if P e then k h' else (Inl e, h') | (Inr x, h') \<Rightarrow> (Inr x, h'))"

section \<open>A request\<close>

text \<open>\<^verbatim>\<open>re.match(r"^\[\d{4}-\d{2}-\d{2}", line)\<close>: a log line of the tool.\<close>

definition is_log_line :: "string \<Rightarrow> bool" where
  "is_log_line line =
     (case line of
        b # y1 # y2 # y3 # y4 # m # o1 # o2 # n # d1 # d2 # t \<Rightarrow>
          b = CHR ''['' \<and> list_all is_digit [y1, y2, y3, y4, o1, o2, d1, d2] \<and> m = CHR ''-'' \<and> n = CHR ''-''
      | _ \<Rightarrow> False)"

text \<open>The part after the first \<^verbatim>\<open>"] "\<close>, as \<^verbatim>\<open>line.partition("] ")\<close> gives it; \<open>None\<close> if there is none.\<close>

fun after_bracket :: "string \<Rightarrow> string option" where
  "after_bracket (a # b # s) = (if a = CHR '']'' \<and> b = CHR '' '' then Some s else after_bracket (b # s))"
| "after_bracket s = None"

fun first_reply :: "float_ops \<Rightarrow> string list \<Rightarrow> pyval option" where
  "first_reply F [] = None"
| "first_reply F (line # lines) =
     (if is_log_line line then first_reply F lines
      else
        (case after_bracket line of
           None \<Rightarrow> first_reply F lines
         | Some body \<Rightarrow> (case loads F body of Some v \<Rightarrow> Some v | None \<Rightarrow> first_reply F lines)))"

definition js_req :: "jenv \<Rightarrow> string \<Rightarrow> string \<Rightarrow> pyval \<Rightarrow> pyval js" where
  "js_req J nats_tool subject payload =
     bind (j_run J [nats_tool, ''req'', ''--topic'', subject, ''--data'', dumps (j_floats J) False payload] 15) (\<lambda>stdout.
     case first_reply (j_floats J) (py_splitlines stdout) of
       Some v \<Rightarrow> ret v
     | None \<Rightarrow> raise (RuntimeError (''no parseable reply for '' @ py_repr subject @ '': '' @ py_repr (take 300 stdout))))"

section \<open>Reading the replies\<close>

text \<open>\<^verbatim>\<open>"error" in resp\<close>\<close>

fun is_sub :: "ustr \<Rightarrow> ustr \<Rightarrow> bool" where
  "is_sub p [] = (p = [])"
| "is_sub p (c # s) = (take (length p) (c # s) = p \<or> is_sub p s)"

definition has_error :: "pyval \<Rightarrow> exc + bool" where
  "has_error resp =
     (case resp of
        PyDict kvs \<Rightarrow> Inr (ustr_of ''error'' \<in> fst ` set kvs)
      | PyList vs \<Rightarrow> Inr (PyStr (ustr_of ''error'') \<in> set vs)
      | PyStr s \<Rightarrow> Inr (is_sub (ustr_of ''error'') s)
      | _ \<Rightarrow> Inl TypeError)"

text \<open>\<^verbatim>\<open>resp["error"]\<close>\<close>

definition error_of :: "pyval \<Rightarrow> exc + pyval" where
  "error_of resp =
     (case resp of
        PyDict kvs \<Rightarrow> (case map_of kvs (ustr_of ''error'') of None \<Rightarrow> Inl KeyError | Some v \<Rightarrow> Inr v)
      | _ \<Rightarrow> Inl TypeError)"

text \<open>\<^verbatim>\<open>d.get(k, default)\<close>\<close>

definition dict_get :: "pyval \<Rightarrow> string \<Rightarrow> pyval \<Rightarrow> exc + pyval" where
  "dict_get d k dflt =
     (case d of
        PyDict kvs \<Rightarrow> Inr (case map_of kvs (ustr_of k) of None \<Rightarrow> dflt | Some v \<Rightarrow> v)
      | _ \<Rightarrow> Inl AttributeError)"

definition persisted_of :: "pyval \<Rightarrow> exc + pyval" where
  "persisted_of info =
     (case dict_get info ''state'' (PyDict []) of
        Inl e \<Rightarrow> Inl e
      | Inr state \<Rightarrow> dict_get state ''messages'' (PyInt (- 1)))"

text \<open>\<^verbatim>\<open>v == n\<close> for a value and an integer.\<close>

definition eq_int :: "pyval \<Rightarrow> int \<Rightarrow> bool" where
  "eq_int v n =
     (case v of
        PyInt i \<Rightarrow> i = n
      | PyBool b \<Rightarrow> (if b then 1 else 0) = n
      | PyFloat (Fin r) \<Rightarrow> r = of_int n
      | _ \<Rightarrow> False)"

section \<open>The phases of the script\<close>

record js_args =
  ja_dsn :: string
  ja_sql :: string
  ja_limit :: int
  ja_subject :: "string option"
  ja_stream :: "string option"
  ja_nats_tool :: string
  ja_drain_timeout_secs :: int

definition upper_char :: "char \<Rightarrow> char" where
  "upper_char c = (let n = (of_char c :: nat) in if 97 \<le> n \<and> n \<le> 122 then char_of (n - 32) else c)"

text \<open>\<^verbatim>\<open>args.subject or ...\<close>: an empty string counts as absent.\<close>

definition opt_or :: "string option \<Rightarrow> string \<Rightarrow> string" where
  "opt_or v dflt = (case v of None \<Rightarrow> dflt | Some s \<Rightarrow> if s = [] then dflt else s)"

definition create_payload :: "string \<Rightarrow> string \<Rightarrow> pyval" where
  "create_payload stream subject =
     PyDict [(ustr_of ''name'', PyStr (ustr_of stream)), (ustr_of ''subjects'', PyList [PyStr (ustr_of subject)]),
             (ustr_of ''retention'', PyStr (ustr_of ''limits'')), (ustr_of ''storage'', PyStr (ustr_of ''memory'')),
             (ustr_of ''max_msgs'', PyInt (- 1)), (ustr_of ''max_bytes'', PyInt (- 1)), (ustr_of ''max_age'', PyInt 0),
             (ustr_of ''max_msg_size'', PyInt (- 1)), (ustr_of ''discard'', PyStr (ustr_of ''old'')),
             (ustr_of ''num_replicas'', PyInt 1)]"

definition js_create :: "jenv \<Rightarrow> string \<Rightarrow> string \<Rightarrow> string \<Rightarrow> unit js" where
  "js_create J nt stream subject =
     andthen (j_print (''== creating stream '' @ py_repr stream @ '' (memory storage) for subject '' @ py_repr subject @ '' ==''))
     (bind (js_req J nt (''$JS.API.STREAM.CREATE.'' @ stream) (create_payload stream subject)) (\<lambda>resp.
      bind (lift (has_error resp)) (\<lambda>bad.
      if bad then
        bind (lift (error_of resp)) (\<lambda>v. raise (RuntimeError (''stream create failed: '' @ j_str J v)))
      else j_print ''  stream ready'')))"

definition js_publish_sql :: "jenv \<Rightarrow> js_args \<Rightarrow> string \<Rightarrow> string" where
  "js_publish_sql J args subject =
     ''SELECT nats_publish_binary_stream_async('' @ j_literal J subject @ '', row_to_msgpack(t.*)), ''
     @ ''octet_length(row_to_msgpack(t.*)), to_jsonb(t.*) ''
     @ ''FROM ('' @ ja_sql args @ '' LIMIT '' @ j_literal_int J (ja_limit args) @ '') t''"

text \<open>The results of the publish phase.\<close>

record published_rows =
  pr_reference :: "pyval list"
  pr_count :: nat
  pr_avg_bytes :: rat
  pr_secs :: rat

definition js_publish_rows :: "jenv \<Rightarrow> js_args \<Rightarrow> string \<Rightarrow> published_rows js" where
  "js_publish_rows J args subject =
     andthen (j_print (''== publishing up to '' @ str_int (ja_limit args) @ '' rows ==''))
     (bind (j_monotonic J) (\<lambda>t0.
      andthen (j_execute J (js_publish_sql J args subject))
      (bind (j_rows J) (\<lambda>rows.
       let total_bytes = sum_list (map fst rows); row_count = length rows in
       andthen (j_execute J ''SELECT nats_publish_stream_flush()'')
       (bind (j_fetchone J) (\<lambda>flushed.
        bind (j_monotonic J) (\<lambda>t1.
        let publish_secs = t1 - t0;
            avg_bytes = (if row_count \<noteq> 0 then of_int total_bytes / of_nat row_count else 0) in
        bind (lift (py_truediv (of_nat row_count) publish_secs)) (\<lambda>rate.
        andthen (j_print (''  published '' @ str_nat row_count @ '' row(s), flushed '' @ str_int flushed
            @ '' ack(s) (remainder past the 3000-message auto-drain window) in '' @ fmt_rat 3 publish_secs
            @ ''s ('' @ fmt_comma rate @ ''/s, avg '' @ fmt_rat 0 avg_bytes @ ''B)''))
        (ret \<lparr>pr_reference = map snd rows, pr_count = row_count, pr_avg_bytes = avg_bytes,
              pr_secs = publish_secs\<rparr>)))))))))"

definition js_publish :: "jenv \<Rightarrow> js_args \<Rightarrow> string \<Rightarrow> published_rows js" where
  "js_publish J args subject =
     andthen (j_connect J (ja_dsn args))
       (try_finally (try_finally (js_publish_rows J args subject) j_cursor_exit) j_conn_exit)"

text \<open>The check before the drain: a backlog other than what was published ends the script.\<close>

definition js_check :: "jenv \<Rightarrow> string \<Rightarrow> string \<Rightarrow> nat \<Rightarrow> unit js" where
  "js_check J nt stream row_count =
     bind (js_req J nt (''$JS.API.STREAM.INFO.'' @ stream) (PyDict [])) (\<lambda>info.
     bind (lift (persisted_of info)) (\<lambda>persisted.
     andthen (j_print (''== stream state after publish: '' @ j_str J persisted @ '' message(s) persisted ==''))
     (if \<not> eq_int persisted (int row_count) then
        raise (RuntimeError (''persisted count '' @ j_str J persisted @ '' != published count '' @ str_nat row_count
          @ '' - not a valid backlog to drain, aborting''))
      else ret ())))"

definition js_start_drain :: "jenv \<Rightarrow> string \<Rightarrow> string \<Rightarrow> string \<Rightarrow> string \<Rightarrow> nat \<Rightarrow> unit js" where
  "js_start_drain J nt tag stream subject row_count =
     andthen (j_print (''== draining '' @ str_nat row_count @ '' messages via js_grub pull consumer ==''))
     (andthen (j_open_w J (''/tmp/js_bench_grub_'' @ tag @ ''.log''))
     (j_popen J [nt, ''--mode'', ''js_grub'', ''--stream'', stream, ''--consumer'', ''drain_'' @ tag,
        ''--topic'', subject, ''--auto_ack'', ''--max_msgs'', str_nat row_count,
        ''--dump'', ''/tmp/js_bench_dump_'' @ tag @ ''.jsonl'', ''--format'', ''msgpack'', ''--json'']))"

text \<open>One look at the dump file: the number of its newlines, 0 if it does not exist.\<close>

definition count_dump :: "jenv \<Rightarrow> string \<Rightarrow> nat js" where
  "count_dump J dump_path =
     catch (\<lambda>e. e = FileNotFoundError)
       (bind (j_read J dump_path) (\<lambda>data. ret (count_list data (CHR 0x0A))))
       (ret 0)"

partial_function (option) drain_loop ::
  "jenv \<Rightarrow> string \<Rightarrow> rat \<Rightarrow> nat \<Rightarrow> nat \<Rightarrow> (jev, nat) oprog" where
  "drain_loop J dump_path deadline row_count last_count h =
     (case j_monotonic J h of
        (Inl e, h1) \<Rightarrow> Some (Inl e, h1)
      | (Inr now, h1) \<Rightarrow>
          if now < deadline then
            (case count_dump J dump_path h1 of
               (Inl e, h2) \<Rightarrow> Some (Inl e, h2)
             | (Inr n, h2) \<Rightarrow>
                 if row_count \<le> n then Some (Inr n, h2)
                 else
                   (case j_sleep J (1/100) h2 of
                      (Inl e, h3) \<Rightarrow> Some (Inl e, h3)
                    | (Inr _, h3) \<Rightarrow> drain_loop J dump_path deadline row_count n h3))
          else Some (Inr last_count, h1))"

text \<open>\<^verbatim>\<open>terminate\<close>, and \<^verbatim>\<open>kill\<close> when the wait times out.\<close>

definition js_stop_drain :: "jenv \<Rightarrow> unit js" where
  "js_stop_drain J =
     andthen (j_terminate J)
       (catch (\<lambda>e. e = TimeoutExpired) (j_wait J 5) (andthen (j_kill J) (j_wait J 5)))"

definition drain_line :: "nat \<Rightarrow> nat \<Rightarrow> rat \<Rightarrow> string" where
  "drain_line last_count row_count drain_secs =
     (if 0 < drain_secs then
        ''  drained '' @ str_nat last_count @ ''/'' @ str_nat row_count @ '' in '' @ fmt_rat 4 drain_secs @ ''s (''
          @ fmt_comma (of_nat last_count / drain_secs) @ ''/s)''
      else ''  instant'')"

text \<open>\<^verbatim>\<open>[json.loads(line) for line in f if line.strip()]\<close>\<close>

definition loads_exc :: "float_ops \<Rightarrow> string \<Rightarrow> exc + pyval" where
  "loads_exc F s = (case loads F s of None \<Rightarrow> Inl JSONDecodeError | Some v \<Rightarrow> Inr v)"

definition read_dump :: "jenv \<Rightarrow> string \<Rightarrow> pyval list js" where
  "read_dump J dump_path =
     bind (j_read J dump_path) (\<lambda>text.
       lift (try_map (loads_exc (j_floats J)) (filter (\<lambda>line. py_strip line \<noteq> []) (readlines text))))"

definition js_verify :: "jenv \<Rightarrow> string \<Rightarrow> pyval list \<Rightarrow> string js" where
  "js_verify J dump_path reference =
     bind (read_dump J dump_path) (\<lambda>dumped.
     bind (lift (dumped_set_of (j_floats J) dumped)) (\<lambda>dumped_set.
     bind (lift (ref_set_of (j_floats J) reference)) (\<lambda>ref_set.
     let verify = verify_text dumped_set ref_set in
     andthen (j_print (''  content verify: '' @ verify))
     (andthen (if verify \<noteq> ''PASS'' then for_each j_print (shown_lines dumped_set ref_set) else ret ())
     (ret verify)))))"

definition js_cleanup :: "jenv \<Rightarrow> string \<Rightarrow> string \<Rightarrow> string list \<Rightarrow> unit js" where
  "js_cleanup J nt stream paths =
     andthen (js_req J nt (''$JS.API.STREAM.DELETE.'' @ stream) (PyDict []))
       (for_each (\<lambda>p. catch (\<lambda>e. e = FileNotFoundError) (j_remove J p) (ret ())) paths)"

definition js_summary :: "published_rows \<Rightarrow> nat \<Rightarrow> rat \<Rightarrow> string \<Rightarrow> unit js" where
  "js_summary pr last_count drain_secs verify =
     andthen (j_print [])
     (andthen (j_print ''=== SUMMARY ==='')
     (andthen (j_print (''rows: '' @ str_nat (pr_count pr) @ ''  avg_bytes: '' @ fmt_rat 0 (pr_avg_bytes pr)))
     (bind (lift (py_truediv (of_nat (pr_count pr)) (pr_secs pr))) (\<lambda>rate.
      andthen (j_print (''publish_rate: '' @ fmt_comma rate @ ''/s''))
      (andthen (j_print (if 0 < drain_secs
          then ''drain_rate: '' @ fmt_comma (of_nat last_count / drain_secs) @ ''/s'' else ''drain_rate: instant''))
      (j_print (''verify: '' @ verify)))))))"

text \<open>What follows the loop.\<close>

definition js_after_drain ::
  "jenv \<Rightarrow> string \<Rightarrow> string \<Rightarrow> string \<Rightarrow> published_rows \<Rightarrow> rat \<Rightarrow> nat \<Rightarrow> unit js" where
  "js_after_drain J nt tag stream pr t0 last_count =
     (let dump_path = ''/tmp/js_bench_dump_'' @ tag @ ''.jsonl''; log_path = ''/tmp/js_bench_grub_'' @ tag @ ''.log'' in
      bind (j_monotonic J) (\<lambda>t1.
      andthen (js_stop_drain J)
      (andthen (j_print (drain_line last_count (pr_count pr) (t1 - t0)))
      (bind (js_verify J dump_path (pr_reference pr)) (\<lambda>verify.
       andthen (js_cleanup J nt stream [dump_path, log_path])
       (js_summary pr last_count (t1 - t0) verify))))))"

text \<open>What precedes it: the tag, the stream, the published rows and the start of the drain.\<close>

definition js_before_drain :: "jenv \<Rightarrow> js_args \<Rightarrow> (string \<times> string \<times> published_rows \<times> rat) js" where
  "js_before_drain J args =
     bind (j_uuid J) (\<lambda>hex.
     let tag = take 8 hex; nt = ja_nats_tool args;
         subject = opt_or (ja_subject args) (''jsbench.'' @ tag);
         stream = opt_or (ja_stream args) (''JSBENCH_'' @ map upper_char tag) in
     andthen (js_create J nt stream subject)
     (bind (js_publish J args subject) (\<lambda>pr.
      andthen (js_check J nt stream (pr_count pr))
      (andthen (js_start_drain J nt tag stream subject (pr_count pr))
      (bind (j_monotonic J) (\<lambda>t0. ret (tag, stream, pr, t0)))))))"

definition js_main :: "jenv \<Rightarrow> js_args \<Rightarrow> (jev, unit) oprog" where
  "js_main J args =
     then_loop (js_before_drain J args) (\<lambda>(tag, stream, pr, t0).
       loop_then
         (drain_loop J (''/tmp/js_bench_dump_'' @ tag @ ''.jsonl'') (t0 + of_int (ja_drain_timeout_secs args))
            (pr_count pr) 0)
         (js_after_drain J (ja_nats_tool args) tag stream pr t0))"

section \<open>A reply is found behind the log lines\<close>

text \<open>A line the scan passes over: a log line, one without the bracket, or one that is not JSON.\<close>

definition passed_over :: "float_ops \<Rightarrow> string \<Rightarrow> bool" where
  "passed_over F line \<longleftrightarrow>
     is_log_line line \<or> (case after_bracket line of None \<Rightarrow> True | Some body \<Rightarrow> loads F body = None)"

lemma first_reply_skip: "\<forall>l \<in> set ls. passed_over F l \<Longrightarrow> first_reply F (ls @ lines) = first_reply F lines"
  by (induction ls) (auto simp: passed_over_def split: option.splits)

lemma after_bracket_append:
  assumes "CHR '']'' \<notin> set lead"
  shows "after_bracket (lead @ ''] '' @ body) = Some body"
  using assms
proof (induction lead)
  case (Cons c s)
  then show ?case by (cases s) auto
qed simp

text \<open>
  A request reads back what the server sent: if the output of the tool consists of lines
  the scan passes over (dated log lines, lines without a bracket, lines that are no JSON), then
  one line with the JSON text of a well-formed value behind a bracketed prefix that is not a
  date, the request returns exactly this value, whatever follows; if every line is passed over
  it raises.
\<close>

theorem js_req_reads_reply:
  assumes "j_run_ans J h [nt, ''req'', ''--topic'', subject, ''--data'', dumps (j_floats J) False payload] = Inr stdout"
    and "\<forall>l \<in> set skipped. passed_over (j_floats J) l"
    and "wf_val (j_floats J) v" and "CHR '']'' \<notin> set lead"
    and "\<not> is_log_line (lead @ ''] '' @ dumps (j_floats J) sk v)"
  shows "(py_splitlines stdout = skipped @ (lead @ ''] '' @ dumps (j_floats J) sk v) # later \<longrightarrow>
            fst (js_req J nt subject payload h) = Inr (if sk then sortd v else v))
    \<and> (py_splitlines stdout = skipped \<longrightarrow> (\<exists>msg. fst (js_req J nt subject payload h) = Inl (RuntimeError msg)))"
proof -
  have "loads (j_floats J) (dumps (j_floats J) sk v) = Some (if sk then sortd v else v)"
    using assms(3) loads_dumps_plain loads_dumps_sorted by (cases sk) simp_all
  then have "first_reply (j_floats J) ((lead @ ''] '' @ dumps (j_floats J) sk v) # later) = Some (if sk then sortd v else v)"
    using assms(4,5) after_bracket_append [of lead "dumps (j_floats J) sk v"] by simp
  moreover have "first_reply (j_floats J) skipped = None"
    using first_reply_skip [OF assms(2), of "[]"] by simp
  ultimately show ?thesis
    using assms(1) first_reply_skip [OF assms(2), of "(lead @ ''] '' @ dumps (j_floats J) sk v) # later"]
    by (auto simp: js_req_def j_run_def prog_defs)
qed

section \<open>The drain ends\<close>

definition j_clock_ok :: "jenv \<Rightarrow> bool" where
  "j_clock_ok J \<longleftrightarrow> (\<forall>h es. j_clock J h \<le> j_clock J (h @ es)) \<and> (\<forall>h d. j_clock J h + d \<le> j_clock J (h @ [JSleep d]))"

lemma count_dump_run:
  assumes "count_dump J path h = (Inr n, h')"
  shows "h' = h @ [JRead path]
    \<and> (n = 0 \<and> j_read_ans J h path = Inl FileNotFoundError
       \<or> (\<exists>data. j_read_ans J h path = Inr data \<and> n = count_list data (CHR 0x0A)))"
  using assms
  by (auto simp: count_dump_def catch_def j_read_def prog_defs split: sum.splits if_splits)

lemma drain_step:
  assumes "j_clock_ok J" and "count_dump J path (h @ [JMonotonic]) = (Inr n, h2)" and "j_sleep J d h2 = (Inr (), h3)"
  shows "j_clock J h + d \<le> j_clock J h3"
proof -
  have "h2 = h @ [JMonotonic, JRead path]" "h3 = h2 @ [JSleep d]"
    using count_dump_run [OF assms(2)] assms(3) by (auto simp: j_sleep_def split: if_splits)
  moreover have "j_clock J h2 + d \<le> j_clock J (h2 @ [JSleep d])" "j_clock J h \<le> j_clock J (h @ [JMonotonic, JRead path])"
    using assms(1) unfolding j_clock_ok_def by blast+
  ultimately show ?thesis by simp
qed

lemma drain_loop_returns:
  assumes "j_clock_ok J"
  shows "\<exists>r h'. drain_loop J path deadline row_count last_count h = Some (r, h')
    \<and> (\<forall>n. r = Inr n \<longrightarrow> row_count \<le> n
         \<and> (\<exists>h1 data. h' = h1 @ [JRead path] \<and> (n = 0 \<or> j_read_ans J h1 path = Inr data \<and> n = count_list data (CHR 0x0A)))
       \<or> (\<exists>h1. h' = h1 @ [JMonotonic] \<and> deadline \<le> j_clock J h1))"
proof (induction "nat \<lceil>(deadline - j_clock J h) / (1/100)\<rceil>" arbitrary: last_count h rule: less_induct)
  case less
  have mono: "j_monotonic J h = (Inr (j_clock J h), h @ [JMonotonic])"
    by (simp add: j_monotonic_def act_def)
  show ?case
  proof (cases "j_clock J h < deadline")
    case False
    with mono show ?thesis by (subst drain_loop.simps) auto
  next
    case True
    obtain rc h2 where rc: "count_dump J path (h @ [JMonotonic]) = (rc, h2)"
      by (cases "count_dump J path (h @ [JMonotonic])")
    show ?thesis
    proof (cases rc)
      case (Inl e)
      with True mono rc show ?thesis by (subst drain_loop.simps) simp
    next
      case (Inr n)
      note counted = count_dump_run [OF rc [unfolded Inr]]
      show ?thesis
      proof (cases "row_count \<le> n")
        case enough: True
        with True mono rc Inr counted show ?thesis by (subst drain_loop.simps) auto
      next
        case False
        obtain rs h3 where rs: "j_sleep J (1/100) h2 = (rs, h3)" by (cases "j_sleep J (1/100) h2")
        show ?thesis
        proof (cases rs)
          case (Inl e)
          with True False mono rc \<open>rc = Inr n\<close> rs show ?thesis by (subst drain_loop.simps) simp
        next
          case (Inr u)
          with drain_step [OF assms] rc \<open>rc = Inr n\<close> rs have "j_clock J h + 1/100 \<le> j_clock J h3" by simp
          from less.hyps [OF rounds_left_shrink [OF True this]] True False mono rc \<open>rc = Inr n\<close> rs Inr
          show ?thesis by (subst drain_loop.simps) simp
        qed
      qed
    qed
  qed
qed

text \<open>
  C33. The script returns: with a clock that never goes back and sleeps that last, the drain
  loop ends, and so does the whole run, by its result or by an exception. The loop ends with a
  count that reaches the number of rows, read from the dump file, or after the deadline.
\<close>

theorem js_main_returns:
  assumes "j_clock_ok J"
  shows "(\<exists>r h'. js_main J args h = Some (r, h'))
    \<and> (\<exists>r h'. drain_loop J path deadline row_count last_count h = Some (r, h')
         \<and> (\<forall>n. r = Inr n \<longrightarrow> row_count \<le> n
              \<and> (\<exists>h1 data. h' = h1 @ [JRead path]
                   \<and> (n = 0 \<or> j_read_ans J h1 path = Inr data \<and> n = count_list data (CHR 0x0A)))
            \<or> (\<exists>h1. h' = h1 @ [JMonotonic] \<and> deadline \<le> j_clock J h1)))"
proof
  obtain r1 h1 where r1: "js_before_drain J args h = (r1, h1)" by (cases "js_before_drain J args h")
  show "\<exists>r h'. js_main J args h = Some (r, h')"
  proof (cases r1)
    case (Inl e)
    with r1 show ?thesis by (simp add: js_main_def then_loop_def)
  next
    case (Inr x)
    obtain tag stream pr t0 where x: "x = (tag, stream, pr, t0)" by (cases x)
    obtain r2 h2 where "drain_loop J (''/tmp/js_bench_dump_'' @ tag @ ''.jsonl'')
        (t0 + of_int (ja_drain_timeout_secs args)) (pr_count pr) 0 h1 = Some (r2, h2)"
      using drain_loop_returns [OF assms] by metis
    with r1 Inr x show ?thesis
      by (cases r2) (simp_all add: js_main_def then_loop_def loop_then_def)
  qed
qed (rule drain_loop_returns [OF assms])

section \<open>What a completed run has checked\<close>
















section \<open>A run\<close>

text \<open>
  One row, one request line of the tool behind a log line, a dump with the row in another
  order of keys. The clock advances by one second with every interaction, or by the length of a
  longer sleep.
\<close>

definition quoted :: "string \<Rightarrow> string" where
  "quoted s = [CHR 0x22] @ s @ [CHR 0x22]"

definition demo_stdout :: string where
  "demo_stdout = ''[2024-01-01 log'' @ [CHR 0x0A] @ ''[r] {'' @ quoted ''state'' @ '': {'' @ quoted ''messages'' @ '': 1}}''"

definition demo_dump :: string where
  "demo_dump = ''{'' @ quoted ''payload'' @ '': {'' @ quoted ''b'' @ '': null, '' @ quoted ''a'' @ '': 11}}'' @ [CHR 0x0A]"

definition demo_tick :: "jev \<Rightarrow> rat" where
  "demo_tick e = (case e of JSleep d \<Rightarrow> max 1 d | _ \<Rightarrow> 1)"

definition demo_jenv :: jenv where
  "demo_jenv = \<lparr>
     j_floats = demo_floats, j_literal = py_repr, j_literal_int = str_int, j_str = (\<lambda>_. ''value''),
     j_uuid_hex = (\<lambda>_. ''0123456789''), j_run_ans = (\<lambda>_ _. Inr demo_stdout), j_db_ans = (\<lambda>_ _. Inr ()),
     j_rows_ans = (\<lambda>_. Inr [(7, PyDict [([97], PyInt 11), ([98], PyNone)])]), j_one_ans = (\<lambda>_. Inr 1),
     j_clock = (\<lambda>h. sum_list (map demo_tick h)),
     j_file_ans = (\<lambda>_ _. Inr ()), j_popen_ans = (\<lambda>_ _. Inr ()), j_read_ans = (\<lambda>_ _. Inr demo_dump),
     j_proc_ans = (\<lambda>_. Inr ()), j_interrupted = (\<lambda>_. False) \<rparr>"

definition demo_js_args :: js_args where
  "demo_js_args = \<lparr>ja_dsn = ''dbname=postgres'', ja_sql = ''SELECT 1'', ja_limit = 1, ja_subject = None, ja_stream = None,
     ja_nats_tool = ''nats_tool'', ja_drain_timeout_secs = 60\<rparr>"

lemma demo_clock_ok: "j_clock_ok demo_jenv"
proof -
  have "0 \<le> sum_list (map demo_tick es)" for es
    by (rule sum_list_nonneg) (auto simp: demo_tick_def split: jev.split)
  then show ?thesis by (simp add: j_clock_ok_def demo_jenv_def) (simp add: demo_tick_def)
qed

theorem js_main_returns_witness: "\<exists>r h'. js_main demo_jenv demo_js_args [] = Some (r, h')"
  using js_main_returns [OF demo_clock_ok, of demo_js_args "[]"] by blast



theorem js_req_reads_reply_witness:
  "fst (js_req demo_jenv ''nats_tool'' ''s'' PyNone [])
   = Inr (PyDict [(ustr_of ''state'', PyDict [(ustr_of ''messages'', PyInt 1)])])"
proof -
  let ?v = "PyDict [(ustr_of ''state'', PyDict [(ustr_of ''messages'', PyInt 1)])]"
  have wf: "wf_val (j_floats demo_jenv) ?v" by (simp add: ustr_of_def valid_point_def)
  have lines: "py_splitlines demo_stdout = [''[2024-01-01 log''] @ (''[r'' @ ''] '' @ dumps (j_floats demo_jenv) False ?v) # []"
    by code_simp
  have skipped: "\<forall>l \<in> set [''[2024-01-01 log'']. passed_over (j_floats demo_jenv) l"
    by (simp add: passed_over_def is_log_line_def is_digit_def digit_val_def)
  have "\<not> is_log_line (''[r'' @ ''] '' @ dumps (j_floats demo_jenv) False ?v)"
    by (simp add: is_log_line_def is_digit_def digit_val_def split: list.split)
  from js_req_reads_reply [OF _ skipped wf _ this, of "[]" "''nats_tool''" "''s''" PyNone demo_stdout] lines
  show ?thesis by (simp add: demo_jenv_def)
qed







end
