(* ===== verification/Nats_Client.thy ===== *)
theory Nats_Client
  imports Db_Loop
begin

text \<open>
  The calls of the two scripts that speak NATS themselves (\<^verbatim>\<open>nats_selectivity.py\<close> and
  \<^verbatim>\<open>nats_queue_group.py\<close>, through \<^verbatim>\<open>nats-py\<close>), as interactions of a history. The client
  library and the server are the environment's choice. A message handler runs while the
  script awaits; the messages it has been given by some moment are a function of the history.
\<close>

section \<open>Values printed as JSON\<close>

datatype json =
    JNull | JBool bool | JInt int | JFloat pyfloat | JStr string | JList "json list"
  | JObj "(string \<times> json) list"

section \<open>Interactions\<close>

type_synonym bytes = "nat list"   \<comment> \<open>each below 256\<close>

datatype nev =
    NConnect string
  | NPublish string bytes
  | NFlush
  | NClose
  | NSubscribe string "string option"   \<comment> \<open>subject, queue group\<close>
  | NUnsubscribe
  | NWrite string string                \<comment> \<open>a file written: path and text\<close>
  | NMonotonic
  | NSleep rat
  | NWaitStop rat                       \<comment> \<open>\<^verbatim>\<open>wait_for(stopped.wait(), timeout)\<close>\<close>
  | NPrint json
  | NDump string json                   \<comment> \<open>\<^verbatim>\<open>json.dump\<close> into a file\<close>

type_synonym nhist = "nev list"
type_synonym 'a nats = "(nev, 'a) prog"

text \<open>
  \<open>delivered h\<close> is the list of the messages the handler has been called with before the next
  step of the script, each with the time at which its handler ran.
\<close>

record nenv =
  n_connect_ans :: "nhist \<Rightarrow> string \<Rightarrow> exc + unit"
  n_publish_ans :: "nhist \<Rightarrow> string \<Rightarrow> bytes \<Rightarrow> exc + unit"
  n_call_ans :: "nhist \<Rightarrow> exc + unit"         \<comment> \<open>flush, close, subscribe, unsubscribe\<close>
  n_write_ans :: "nhist \<Rightarrow> string \<Rightarrow> exc + unit"
  n_clock :: "nhist \<Rightarrow> rat"
  delivered :: "nhist \<Rightarrow> (rat \<times> bytes) list"

definition n_connect :: "nenv \<Rightarrow> string \<Rightarrow> unit nats" where
  "n_connect N url = act (\<lambda>h. n_connect_ans N h url) (NConnect url)"

definition n_publish :: "nenv \<Rightarrow> string \<Rightarrow> bytes \<Rightarrow> unit nats" where
  "n_publish N subject payload = act (\<lambda>h. n_publish_ans N h subject payload) (NPublish subject payload)"

definition n_flush :: "nenv \<Rightarrow> unit nats" where "n_flush N = act (n_call_ans N) NFlush"

definition n_close :: "nenv \<Rightarrow> unit nats" where "n_close N = act (n_call_ans N) NClose"

definition n_subscribe :: "nenv \<Rightarrow> string \<Rightarrow> string option \<Rightarrow> unit nats" where
  "n_subscribe N subject queue = act (n_call_ans N) (NSubscribe subject queue)"

definition n_unsubscribe :: "nenv \<Rightarrow> unit nats" where "n_unsubscribe N = act (n_call_ans N) NUnsubscribe"

definition n_write :: "nenv \<Rightarrow> string \<Rightarrow> string \<Rightarrow> unit nats" where
  "n_write N path text = act (\<lambda>h. n_write_ans N h path) (NWrite path text)"

definition n_dump :: "nenv \<Rightarrow> string \<Rightarrow> json \<Rightarrow> unit nats" where
  "n_dump N path v = act (\<lambda>h. n_write_ans N h path) (NDump path v)"

definition n_monotonic :: "nenv \<Rightarrow> rat nats" where
  "n_monotonic N = act (\<lambda>h. Inr (n_clock N h)) NMonotonic"

definition n_sleep :: "rat \<Rightarrow> unit nats" where "n_sleep d = act (\<lambda>_. Inr ()) (NSleep d)"

text \<open>The timeout of the wait is caught by the script, so the wait returns in any case.\<close>

definition n_wait_stop :: "rat \<Rightarrow> unit nats" where "n_wait_stop d = act (\<lambda>_. Inr ()) (NWaitStop d)"

definition n_print :: "json \<Rightarrow> unit nats" where "n_print v = act (\<lambda>_. Inr ()) (NPrint v)"

text \<open>What the handlers have seen.\<close>

definition n_delivered :: "nenv \<Rightarrow> nhist \<Rightarrow> (exc + (rat \<times> bytes) list) \<times> nhist" where
  "n_delivered N h = (Inr (delivered N h), h)"

lemmas nats_defs = n_connect_def n_publish_def n_flush_def n_close_def n_subscribe_def
  n_unsubscribe_def n_write_def n_dump_def n_monotonic_def n_sleep_def n_wait_stop_def n_print_def
  n_delivered_def

section \<open>The publish loops\<close>

text \<open>\<^verbatim>\<open>for i in range(count): await nc.publish(...)\<close>\<close>

definition publish_step :: "nenv \<Rightarrow> (nat \<Rightarrow> exc + string \<times> bytes) \<Rightarrow> nat \<Rightarrow> unit nats" where
  "publish_step N message i = bind (lift (message i)) (\<lambda>(s, p). n_publish N s p)"

definition publish_each :: "nenv \<Rightarrow> (nat \<Rightarrow> exc + string \<times> bytes) \<Rightarrow> nat \<Rightarrow> unit nats" where
  "publish_each N message count = for_each (publish_step N message) [0..<count]"

definition published_ev :: "nat \<Rightarrow> nev \<Rightarrow> (string \<times> bytes) list" where
  "published_ev k e = (case e of NPublish s p \<Rightarrow> [(s, p)] | _ \<Rightarrow> [])"

abbreviation published :: "nhist \<Rightarrow> (string \<times> bytes) list" where
  "published \<equiv> observe published_ev"

lemma publish_step_run:
  assumes "publish_step N message i h = (Inr (), h1)"
  obtains s p where "message i = Inr (s, p)" "published h1 = published h @ [(s, p)]"
proof (cases "message i")
  case (Inl e)
  with assms show thesis by (simp add: publish_step_def bind_def lift_def)
next
  case (Inr sp)
  obtain s p where "sp = (s, p)" by (cases sp)
  with assms Inr that [of s p] show thesis
    by (simp add: publish_step_def bind_def lift_def n_publish_def observe_snoc published_ev_def)
qed

lemma for_each_publishes:
  assumes "for_each (publish_step N message) is h = (Inr (), h')"
  shows "\<exists>ms. map message is = map Inr ms \<and> published h' = published h @ ms"
  using assms
proof (induction "is" arbitrary: h)
  case Nil
  then show ?case by simp
next
  case (Cons i "is")
  from Cons.prems obtain h1 where step: "publish_step N message i h = (Inr (), h1)"
    and rest: "for_each (publish_step N message) is h1 = (Inr (), h')"
    by (auto simp: andthen_eq_Inr)
  from step obtain s p where sp: "message i = Inr (s, p)" "published h1 = published h @ [(s, p)]"
    by (rule publish_step_run)
  from Cons.IH [OF rest] obtain ms where "map message is = map Inr ms" "published h' = published h1 @ ms"
    by blast
  with sp show ?case by (intro exI [of _ "(s, p) # ms"]) simp
qed

lemma publish_each_run:
  assumes "publish_each N message count h = (Inr (), h')"
  shows "\<exists>ms. map message [0..<count] = map Inr ms \<and> published h' = published h @ ms"
  using for_each_publishes assms unfolding publish_each_def by blast

lemma published_silent [silent_intros]:
  "silent published_ev (n_connect N u)" "silent published_ev (n_flush N)" "silent published_ev (n_close N)"
  "silent published_ev (n_monotonic N)" "silent published_ev (n_print v)"
  by (simp_all add: nats_defs silent_act published_ev_def)

end
