(* ===== verification/Selectivity.thy ===== *)
theory Selectivity
  imports Nats_Client
begin

text \<open>
  \<^verbatim>\<open>bench/nats_selectivity.py\<close>: a publisher that spreads its messages over a fixed hierarchy of
  subjects, and a subscriber that waits for the number of messages its pattern should match.
\<close>

section \<open>Subjects and expected matches\<close>

definition REGIONS :: nat where "REGIONS = 8"

definition SYMBOLS :: nat where "SYMBOLS = 200"

definition TOTAL_SUBJECTS :: nat where "TOTAL_SUBJECTS = REGIONS * SYMBOLS"

definition subject_for :: "nat \<Rightarrow> string" where
  "subject_for i =
     (let region = i mod REGIONS; symbol = (i div REGIONS) mod SYMBOLS
      in ''trades.r'' @ str_nat region @ ''.s'' @ str_nat symbol)"

text \<open>\<^verbatim>\<open>len(range(0, count, step))\<close>\<close>

definition len_range :: "nat \<Rightarrow> nat \<Rightarrow> nat" where
  "len_range count step = (count + step - 1) div step"

definition expected_matches :: "nat \<Rightarrow> string \<Rightarrow> exc + nat" where
  "expected_matches count pattern =
     (if pattern = ''trades.>'' then Inr count
      else if pattern = ''trades.r0.>'' then Inr (len_range count REGIONS)
      else if pattern = ''trades.r0.s0'' then Inr (len_range count TOTAL_SUBJECTS)
      else Inl ValueError)"

section \<open>The two roles\<close>

definition round_digits :: "nat \<Rightarrow> rat \<Rightarrow> rat" where
  "round_digits k r = of_int (round_half_even (r * 10 ^ k)) / 10 ^ k"

definition rate_or_inf :: "nat \<Rightarrow> rat \<Rightarrow> pyfloat" where
  "rate_or_inf count secs = (if 0 < secs then Fin (of_nat count / secs) else Inf)"

fun round_float :: "nat \<Rightarrow> pyfloat \<Rightarrow> pyfloat" where
  "round_float k (Fin r) = Fin (round_digits k r)"
| "round_float k x = x"

definition sel_publisher :: "nenv \<Rightarrow> string \<Rightarrow> nat \<Rightarrow> nat \<Rightarrow> unit nats" where
  "sel_publisher N server_url count payload_size =
     andthen (n_connect N server_url)
     (bind (n_monotonic N) (\<lambda>t0.
      andthen (publish_each N (\<lambda>i. Inr (subject_for i, replicate payload_size 120)) count)
      (andthen (n_flush N)
      (bind (n_monotonic N) (\<lambda>t1.
       andthen (n_close N)
       (n_print (JObj
         [(''role'', JStr ''publisher''), (''count'', JInt (int count)),
          (''publish_secs'', JFloat (Fin (round_digits 4 (t1 - t0)))),
          (''publish_rate'', JFloat (round_float 1 (rate_or_inf count (t1 - t0)))),
          (''publish_end_monotonic'', JFloat (Fin t1))])))))))"

text \<open>The handler counts the messages and keeps the time of the last one.\<close>

definition received :: "nenv \<Rightarrow> nhist \<Rightarrow> nat" where
  "received N h = length (delivered N h)"

definition last_recv_monotonic :: "nenv \<Rightarrow> nhist \<Rightarrow> json" where
  "last_recv_monotonic N h =
     (case delivered N h of [] \<Rightarrow> JNull | ms \<Rightarrow> JFloat (Fin (fst (last ms))))"

text \<open>\<^verbatim>\<open>received < expected and time.monotonic() < deadline\<close>: the clock is read only if needed.\<close>

definition settle_cond :: "nenv \<Rightarrow> nat \<Rightarrow> rat \<Rightarrow> bool nats" where
  "settle_cond N expected deadline = (\<lambda>h.
     if received N h < expected then bind (n_monotonic N) (\<lambda>t. ret (t < deadline)) h
     else (Inr False, h))"

definition settle_loop :: "nenv \<Rightarrow> nat \<Rightarrow> rat \<Rightarrow> (nev, unit) oprog" where
  "settle_loop N expected deadline =
     while_prog (settle_cond N expected deadline) (\<lambda>_. n_sleep (1/100)) ()"

definition sel_subscriber ::
  "nenv \<Rightarrow> string \<Rightarrow> nat \<Rightarrow> string \<Rightarrow> string \<Rightarrow> rat \<Rightarrow> (nev, unit) oprog" where
  "sel_subscriber N server_url count pattern ready_file settle_timeout_s =
     then_loop
       (andthen (n_connect N server_url)
       (andthen (n_subscribe N pattern None)
       (andthen (n_flush N)
       (andthen (n_write N ready_file (''ready'' @ [CHR 0x0A]))
       (bind (lift (expected_matches count pattern)) (\<lambda>expected.
        bind (n_monotonic N) (\<lambda>t. ret (expected, t + settle_timeout_s)))))))) (\<lambda>(expected, deadline).
     loop_then (settle_loop N expected deadline) (\<lambda>_.
       andthen (n_close N) (\<lambda>h.
         n_print (JObj
           [(''role'', JStr ''subscriber''), (''pattern'', JStr pattern),
            (''expected_matches'', JInt (int expected)), (''received'', JInt (int (received N h))),
            (''match_ok'', JBool (received N h = expected)),
            (''last_recv_monotonic'', last_recv_monotonic N h)]) h)))"

section \<open>Properties\<close>

text \<open>
  What NATS documents of subject patterns: a pattern without wildcards matches the subject
  equal to it, and a pattern that ends in a full wildcard matches the subjects that continue
  its prefix with at least one token.
\<close>

definition nats_wildcards :: "(string \<Rightarrow> string \<Rightarrow> bool) \<Rightarrow> bool" where
  "nats_wildcards matches \<longleftrightarrow>
     (\<forall>p s. CHR ''>'' \<notin> set p \<longrightarrow> CHR ''*'' \<notin> set p \<longrightarrow> (matches p s \<longleftrightarrow> s = p))
     \<and> (\<forall>p s. CHR ''>'' \<notin> set p \<longrightarrow> CHR ''*'' \<notin> set p \<longrightarrow>
          (matches (p @ ''.>'') s \<longleftrightarrow> (\<exists>t. t \<noteq> [] \<and> s = p @ ''.'' @ t)))"

definition matching :: "(string \<Rightarrow> string \<Rightarrow> bool) \<Rightarrow> string \<Rightarrow> nat \<Rightarrow> nat" where
  "matching matches pattern count = length (filter (\<lambda>i. matches pattern (subject_for i)) [0..<count])"

lemma len_range_Suc:
  assumes "0 < k"
  shows "len_range (Suc n) k = len_range n k + (if n mod k = 0 then 1 else 0)"
proof -
  define q r where "q = n div k" and "r = n mod k"
  have n: "n = k * q + r" "r < k" using assms by (simp_all add: q_def r_def)
  have "(Suc n + k - 1) div k = q + 1" using n by (intro div_nat_eqI) auto
  moreover have "(n + k - 1) div k = (if r = 0 then q else q + 1)"
    using n by (auto intro!: div_nat_eqI)
  ultimately show ?thesis by (simp add: len_range_def r_def)
qed

lemma count_multiples:
  assumes "0 < k"
  shows "length (filter (\<lambda>i. i mod k = 0) [0..<count]) = len_range count k"
proof (induction count)
  case 0
  with assms show ?case by (simp add: len_range_def)
next
  case (Suc count)
  with len_range_Suc [OF assms] show ?case by simp
qed

lemma subject_region: "(\<exists>t. t \<noteq> [] \<and> subject_for i = ''trades.r0'' @ ''.'' @ t) \<longleftrightarrow> i mod REGIONS = 0"
proof
  assume "\<exists>t. t \<noteq> [] \<and> subject_for i = ''trades.r0'' @ ''.'' @ t"
  then obtain t where t: "str_nat (i mod REGIONS) @ ''.s'' @ str_nat ((i div REGIONS) mod SYMBOLS) = ''0.'' @ t"
    by (auto simp: subject_for_def Let_def)
  have small: "i mod REGIONS < 10"
    using mod_less_divisor [of REGIONS i] by (simp add: REGIONS_def)
  then have "str_nat (i mod REGIONS) = [digit_char (i mod REGIONS)]" by (subst str_nat.simps) simp
  with t have "str_nat (i mod REGIONS) = ''0''" by simp
  then show "i mod REGIONS = 0" by (metis str_nat_0 str_nat_inject)
next
  assume "i mod REGIONS = 0"
  then show "\<exists>t. t \<noteq> [] \<and> subject_for i = ''trades.r0'' @ ''.'' @ t"
    by (simp add: subject_for_def Let_def str_nat_0)
qed

lemma subject_symbol: "subject_for i = ''trades.r0.s0'' \<longleftrightarrow> i mod TOTAL_SUBJECTS = 0"
proof -
  have "subject_for i = ''trades.r0.s0'' \<longleftrightarrow> i mod REGIONS = 0 \<and> (i div REGIONS) mod SYMBOLS = 0"
  proof
    assume eq: "subject_for i = ''trades.r0.s0''"
    then have region: "i mod REGIONS = 0" using subject_region [of i] by simp
    with eq have "str_nat ((i div REGIONS) mod SYMBOLS) = str_nat 0"
      by (simp add: subject_for_def Let_def str_nat_0)
    with region show "i mod REGIONS = 0 \<and> (i div REGIONS) mod SYMBOLS = 0" by simp
  next
    assume "i mod REGIONS = 0 \<and> (i div REGIONS) mod SYMBOLS = 0"
    then show "subject_for i = ''trades.r0.s0''" by (simp add: subject_for_def Let_def str_nat_0)
  qed
  also have "\<dots> \<longleftrightarrow> i mod TOTAL_SUBJECTS = 0"
    by (auto simp: TOTAL_SUBJECTS_def mod_mult2_eq REGIONS_def)
  finally show ?thesis .
qed

lemma subject_all: "\<exists>t. t \<noteq> [] \<and> subject_for i = ''trades'' @ ''.'' @ t"
  by (simp add: subject_for_def Let_def)

text \<open>
  The expected counts are right: for every pattern with a formula, and a server that
  matches wildcards as NATS documents, the number \<^verbatim>\<open>expected_matches\<close> gives is the number of
  published messages whose subject the pattern matches; another pattern raises.
\<close>

theorem expected_matches_correct:
  assumes "nats_wildcards matches"
  shows "(\<forall>e. expected_matches count pattern = Inr e \<longrightarrow> e = matching matches pattern count)
    \<and> (expected_matches count pattern = Inl ValueError \<longleftrightarrow>
         pattern \<notin> {''trades.>'', ''trades.r0.>'', ''trades.r0.s0''})"
proof -
  have star: "matches ''trades.>'' s \<longleftrightarrow> (\<exists>t. t \<noteq> [] \<and> s = ''trades'' @ ''.'' @ t)"
    "matches ''trades.r0.>'' s \<longleftrightarrow> (\<exists>t. t \<noteq> [] \<and> s = ''trades.r0'' @ ''.'' @ t)" for s
    using conjunct2 [OF assms [unfolded nats_wildcards_def], rule_format, of "''trades''" s]
      conjunct2 [OF assms [unfolded nats_wildcards_def], rule_format, of "''trades.r0''" s] by simp_all
  have lit: "matches ''trades.r0.s0'' s \<longleftrightarrow> s = ''trades.r0.s0''" for s
    using conjunct1 [OF assms [unfolded nats_wildcards_def], rule_format, of "''trades.r0.s0''" s] by simp
  have "matching matches ''trades.>'' count = count"
    unfolding matching_def star using subject_all by simp
  moreover have "matching matches ''trades.r0.>'' count = len_range count REGIONS"
    unfolding matching_def star subject_region by (rule count_multiples) (simp add: REGIONS_def)
  moreover have "matching matches ''trades.r0.s0'' count = len_range count TOTAL_SUBJECTS"
    unfolding matching_def lit subject_symbol
    by (rule count_multiples) (simp add: TOTAL_SUBJECTS_def REGIONS_def SYMBOLS_def)
  ultimately show ?thesis by (auto simp: expected_matches_def)
qed

text \<open>A matcher for the two kinds of patterns.\<close>

definition prefix_match :: "string \<Rightarrow> string \<Rightarrow> bool" where
  "prefix_match p s =
     (if CHR ''>'' \<in> set p
      then py_startswith s (butlast p) \<and> length (butlast p) < length s
      else s = p)"

lemma py_startswith_iff: "py_startswith s p \<longleftrightarrow> (\<exists>t. s = p @ t)"
  by (induction s p rule: py_startswith.induct) auto

lemma prefix_match_wildcards: "nats_wildcards prefix_match"
  unfolding nats_wildcards_def
proof (intro conjI allI impI)
  fix p s :: string assume "CHR ''>'' \<notin> set p"
  then show "prefix_match p s \<longleftrightarrow> s = p" by (simp add: prefix_match_def)
  have "butlast (p @ ''.>'') = p @ ''.''" by (simp add: butlast_append)
  then show "prefix_match (p @ ''.>'') s \<longleftrightarrow> (\<exists>t. t \<noteq> [] \<and> s = p @ ''.'' @ t)"
    by (auto simp: prefix_match_def py_startswith_iff)
qed

theorem expected_matches_correct_witness:
  "nats_wildcards prefix_match \<and> expected_matches 100000 ''trades.r0.>'' = Inr 12500
   \<and> matching prefix_match ''trades.r0.>'' 100000 = 12500"
proof -
  have "expected_matches 100000 ''trades.r0.>'' = Inr 12500"
    by (simp add: expected_matches_def len_range_def REGIONS_def)
  with expected_matches_correct [OF prefix_match_wildcards, of 100000 "''trades.r0.>''"]
    prefix_match_wildcards
  show ?thesis by simp
qed

text \<open>
  The subscriber's verdict is about the moment it stops: it ends the wait only when it has
  received the expected number of messages or the deadline has passed, and the verdict it
  prints compares what it has received by then with what was expected.
\<close>

theorem subscriber_verdict:
  assumes "sel_subscriber N url count pattern ready timeout h = Some (Inr (), h')"
  shows "\<exists>expected deadline h0 hc. expected_matches count pattern = Inr expected
    \<and> (expected \<le> received N h0 \<or> deadline \<le> n_clock N h0)
    \<and> h' = hc @ [NPrint (JObj
         [(''role'', JStr ''subscriber''), (''pattern'', JStr pattern),
          (''expected_matches'', JInt (int expected)), (''received'', JInt (int (received N hc))),
          (''match_ok'', JBool (received N hc = expected)),
          (''last_recv_monotonic'', last_recv_monotonic N hc)])]"
proof -
  from assms obtain expected deadline h1 h2 h3 where e: "expected_matches count pattern = Inr expected"
    and loop: "settle_loop N expected deadline h1 = Some (Inr (), h2)"
    and close: "n_close N h2 = (Inr (), h3)"
    and h': "h' = h3 @ [NPrint (JObj
         [(''role'', JStr ''subscriber''), (''pattern'', JStr pattern),
          (''expected_matches'', JInt (int expected)), (''received'', JInt (int (received N h3))),
          (''match_ok'', JBool (received N h3 = expected)),
          (''last_recv_monotonic'', last_recv_monotonic N h3)])]"
    by (auto simp: sel_subscriber_def loop_eqs prog_eqs n_print_def dest!: sym [of "Inr _" "expected_matches _ _"])
  from while_prog_invariant [OF loop [unfolded settle_loop_def], of "\<lambda>_ _. True"]
  obtain h0 where "settle_cond N expected deadline h0 = (Inr False, h2)" by auto
  then have "expected \<le> received N h0 \<or> deadline \<le> n_clock N h0"
    by (auto simp: settle_cond_def prog_eqs n_monotonic_def split: if_splits)
  with e h' show ?thesis by blast
qed

text \<open>The publisher that returns has published its messages, one per index, to their subjects.\<close>

lemma publisher_publishes:
  assumes "sel_publisher N url count payload_size h = (Inr (), h')"
  shows "published h' = published h @ map (\<lambda>i. (subject_for i, replicate payload_size 120)) [0..<count]"
proof -
  let ?message = "(\<lambda>i. Inr (subject_for i, replicate payload_size 120)) :: nat \<Rightarrow> exc + string \<times> bytes"
  from assms obtain h1 h2 where each: "publish_each N ?message count h1 = (Inr (), h2)"
    and ends: "published h1 = published h" "published h' = published h2"
    by (auto simp: sel_publisher_def prog_eqs nats_defs observe_def observe_from_append published_ev_def)
  from publish_each_run [OF each] obtain ms where ms: "map ?message [0..<count] = map Inr ms" "published h2 = published h1 @ ms"
    by blast
  then have "ms = map (\<lambda>i. (subject_for i, replicate payload_size 120)) [0..<count]"
    by (metis (no_types, lifting) list.inj_map_strong map_map comp_def sum.inject(2) list.map_cong0)
  with ms ends show ?thesis by simp
qed

text \<open>A client to which twelve messages have been delivered by the time it looks.\<close>

definition demo_nats :: nenv where
  "demo_nats = \<lparr>n_connect_ans = (\<lambda>_ _. Inr ()), n_publish_ans = (\<lambda>_ _ _. Inr ()), n_call_ans = (\<lambda>_. Inr ()),
     n_write_ans = (\<lambda>_ _. Inr ()), n_clock = (\<lambda>h. of_nat (length h)),
     delivered = (\<lambda>h. replicate 12 (1, []))\<rparr>"

lemma demo_subscriber:
  "\<exists>h'. sel_subscriber demo_nats ''nats://'' 96 ''trades.r0.>'' ''/tmp/ready'' 15 [] = Some (Inr (), h')"
  by (simp add: sel_subscriber_def settle_loop_def while_prog.simps settle_cond_def received_def demo_nats_def
      loop_defs prog_defs nats_defs expected_matches_def len_range_def REGIONS_def)

theorem subscriber_verdict_witness:
  "\<exists>h' hc expected. sel_subscriber demo_nats ''nats://'' 96 ''trades.r0.>'' ''/tmp/ready'' 15 [] = Some (Inr (), h')
     \<and> expected = 12 \<and> h' = hc @ [NPrint (JObj
         [(''role'', JStr ''subscriber''), (''pattern'', JStr ''trades.r0.>''),
          (''expected_matches'', JInt (int expected)), (''received'', JInt (int (received demo_nats hc))),
          (''match_ok'', JBool (received demo_nats hc = expected)),
          (''last_recv_monotonic'', last_recv_monotonic demo_nats hc)])]"
proof -
  obtain h' where run: "sel_subscriber demo_nats ''nats://'' 96 ''trades.r0.>'' ''/tmp/ready'' 15 [] = Some (Inr (), h')"
    using demo_subscriber by blast
  have "expected_matches 96 ''trades.r0.>'' = Inr 12"
    by (simp add: expected_matches_def len_range_def REGIONS_def)
  with subscriber_verdict [OF run] run show ?thesis by auto
qed

end
