(* ===== verification/Queue_Group.thy ===== *)
theory Queue_Group
  imports Nats_Client "HOL-Library.Multiset"
begin

text \<open>
  \<^verbatim>\<open>bench/nats_queue_group.py\<close>: a publisher numbers its messages, the members of a queue group
  record the numbers they receive.
\<close>

section \<open>Sequence numbers in payloads\<close>

definition SUBJECT :: string where "SUBJECT = ''bench.qg.data''"

definition STOP_SUBJECT :: string where "STOP_SUBJECT = ''bench.qg.stop''"

definition GROUP :: string where "GROUP = ''bench-qg''"

text \<open>\<^verbatim>\<open>struct.pack(">Q", i)\<close> and \<^verbatim>\<open>struct.unpack(">Q", data)\<close>: eight bytes, the highest first.\<close>

definition pack_Q :: "nat \<Rightarrow> exc + bytes" where
  "pack_Q i = (if i < 2 ^ 64 then Inr (map (\<lambda>k. (i div 256 ^ k) mod 256) (rev [0..<8])) else Inl StructError)"

definition unpack_Q :: "bytes \<Rightarrow> exc + nat" where
  "unpack_Q data = (if length data = 8 then Inr (foldl (\<lambda>a b. a * 256 + b) 0 data) else Inl StructError)"

definition qg_message :: "nat \<Rightarrow> nat \<Rightarrow> exc + string \<times> bytes" where
  "qg_message payload_size i =
     (case pack_Q i of Inl e \<Rightarrow> Inl e | Inr b \<Rightarrow> Inr (SUBJECT, b @ replicate (payload_size - 8) 120))"

section \<open>The two roles\<close>

definition qg_publisher :: "nenv \<Rightarrow> string \<Rightarrow> nat \<Rightarrow> nat \<Rightarrow> nat \<Rightarrow> unit nats" where
  "qg_publisher N server_url msg_count payload_size n_consumers =
     andthen (n_connect N server_url)
     (bind (n_monotonic N) (\<lambda>t0.
      andthen (publish_each N (qg_message payload_size) msg_count)
      (andthen (n_flush N)
      (bind (n_monotonic N) (\<lambda>t1.
       andthen (n_publish N STOP_SUBJECT [])
       (andthen (n_flush N)
       (andthen (n_close N)
       (n_print (JObj
         [(''role'', JStr ''publisher''), (''count'', JInt (int msg_count)),
          (''n_consumers'', JInt (int n_consumers)), (''publish_secs'', JFloat (Fin (t1 - t0))),
          (''publish_rate'', JFloat (if 0 < t1 - t0 then Fin (of_nat msg_count / (t1 - t0)) else Inf))])))))))))"

record qg_state =
  received_ids :: "nat list"
  first_recv :: "rat option"
  last_recv :: "rat option"

text \<open>
  The message handler: the times are set before the payload is unpacked, so a payload that is
  too short changes them and leaves the list alone (the exception ends the callback only).
\<close>

definition on_msg :: "rat \<times> bytes \<Rightarrow> qg_state \<Rightarrow> qg_state" where
  "on_msg m s =
     (case m of (now, data) \<Rightarrow>
        let s1 = s\<lparr>first_recv := (if first_recv s = None then Some now else first_recv s), last_recv := Some now\<rparr>
        in (case unpack_Q (take 8 data) of Inl _ \<Rightarrow> s1 | Inr seq \<Rightarrow> s1\<lparr>received_ids := received_ids s1 @ [seq]\<rparr>))"

definition qg_received :: "(rat \<times> bytes) list \<Rightarrow> qg_state" where
  "qg_received ms = fold on_msg ms \<lparr>received_ids = [], first_recv = None, last_recv = None\<rparr>"

definition jopt :: "rat option \<Rightarrow> json" where
  "jopt v = (case v of None \<Rightarrow> JNull | Some r \<Rightarrow> JFloat (Fin r))"

definition qg_consumer :: "nenv \<Rightarrow> string \<Rightarrow> string \<Rightarrow> string \<Rightarrow> rat \<Rightarrow> unit nats" where
  "qg_consumer N server_url result_path ready_path drain_grace_secs =
     andthen (n_connect N server_url)
     (andthen (n_subscribe N SUBJECT (Some GROUP))
     (andthen (n_subscribe N STOP_SUBJECT None)
     (andthen (n_flush N)
     (andthen (n_write N ready_path ''ready'')
     (andthen (n_wait_stop 120)
     (andthen (n_sleep drain_grace_secs)
     (andthen (n_unsubscribe N)
     (andthen (n_close N)
     (bind (n_delivered N) (\<lambda>ms.
       let s = qg_received ms in
       n_dump N result_path (JObj
         [(''count'', JInt (int (length (received_ids s)))),
          (''ids'', JList (map (\<lambda>i. JInt (int i)) (received_ids s))),
          (''first_recv'', jopt (first_recv s)), (''last_recv'', jopt (last_recv s))])))))))))))"

section \<open>Properties\<close>

lemma subjects_differ: "STOP_SUBJECT \<noteq> SUBJECT"
  by (simp add: SUBJECT_def STOP_SUBJECT_def)

lemma foldl_base: "foldl (\<lambda>a b. a * 256 + b) x (bs :: nat list) = x * 256 ^ length bs + foldl (\<lambda>a b. a * 256 + b) 0 bs"
proof (induction bs arbitrary: x)
  case (Cons b bs)
  from Cons [of "x * 256 + b"] Cons [of b] show ?case by (simp add: algebra_simps)
qed simp

lemma unpack_digits:
  fixes i :: nat
  shows "foldl (\<lambda>a b. a * 256 + b) 0 (map (\<lambda>k. (i div 256 ^ k) mod 256) (rev [0..<m])) = i mod 256 ^ m"
proof (induction m)
  case (Suc m)
  have "foldl (\<lambda>a b. a * 256 + b) 0 (map (\<lambda>k. (i div 256 ^ k) mod 256) (rev [0..<Suc m]))
      = (i div 256 ^ m) mod 256 * 256 ^ m + i mod 256 ^ m"
    using foldl_base [of "(i div 256 ^ m) mod 256" "map (\<lambda>k. (i div 256 ^ k) mod 256) (rev [0..<m])"] Suc
    by simp
  also have "\<dots> = i mod (256 ^ m * 256)"
    using mod_mult2_eq [of i "256 ^ m" 256] by (simp only: mult.commute)
  finally show ?case by (simp add: mult.commute)
qed simp

lemma payload_reads_back:
  assumes "i < 2 ^ 64"
  shows "\<exists>p. qg_message psize i = Inr (SUBJECT, p) \<and> unpack_Q (take 8 p) = Inr i"
proof -
  let ?b = "map (\<lambda>k. (i div 256 ^ k) mod 256) (rev [0..<8])"
  have "unpack_Q ?b = Inr (i mod 256 ^ 8)" unfolding unpack_Q_def unpack_digits by simp
  moreover have "i mod 256 ^ 8 = i" using assms by simp
  moreover have "length ?b = 8" by simp
  ultimately show ?thesis
    using assms unfolding qg_message_def pack_Q_def by (simp del: upt_Suc)
qed

lemma on_msg_ids:
  assumes "\<forall>m \<in> set ms. \<exists>i. unpack_Q (take 8 (snd m)) = Inr i"
  shows "received_ids (fold on_msg ms s) = received_ids s @ map (\<lambda>m. projr (unpack_Q (take 8 (snd m)))) ms"
  using assms by (induction ms arbitrary: s) (auto simp: on_msg_def Let_def split: prod.split)

text \<open>
  A consumer records what was sent: given the messages of the publisher in any order and
  any selection, the list of identifiers it writes is the list of the numbers packed into
  them, in the order of delivery.
\<close>

theorem consumer_records_ids:
  assumes "\<forall>i \<in> set ids. i < 2 ^ 64"
    and "list_all2 (\<lambda>i m. qg_message psize i = Inr (SUBJECT, snd m)) ids ms"
  shows "received_ids (qg_received ms) = ids"
proof -
  have each: "unpack_Q (take 8 (snd m)) = Inr i" if "qg_message psize i = Inr (SUBJECT, snd m)" "i < 2 ^ 64" for i m
    using payload_reads_back [OF that(2), of psize] that(1) by auto
  from assms(2,1) have "(\<forall>m \<in> set ms. \<exists>i. unpack_Q (take 8 (snd m)) = Inr i)
      \<and> map (\<lambda>m. projr (unpack_Q (take 8 (snd m)))) ms = ids"
    by (induction rule: list_all2_induct) (auto dest: each)
  with on_msg_ids [of ms] show ?thesis by (simp add: qg_received_def)
qed

theorem consumer_records_ids_witness:
  "received_ids (qg_received [(1, the_elem {p. qg_message 64 258 = Inr (SUBJECT, p)})]) = [258]"
proof -
  obtain p where p: "qg_message 64 258 = Inr (SUBJECT, p)" using payload_reads_back [of 258 64] by auto
  then have "the_elem {p. qg_message 64 258 = Inr (SUBJECT, p)} = p" by simp
  with p consumer_records_ids [of "[258]" 64 "[(1, p)]"] show ?thesis by simp
qed

lemma qg_publisher_sends:
  assumes "qg_publisher N url msg_count psize k h = (Inr (), h')"
  shows "\<exists>ms. map (qg_message psize) [0..<msg_count] = map Inr ms \<and> published h' = published h @ ms @ [(STOP_SUBJECT, [])]"
proof -
  from assms obtain h1 h2 h3 h4 h5 h6 h7 h8 t0 t1 v where steps:
    "n_connect N url h = (Inr (), h1)" "n_monotonic N h1 = (Inr t0, h2)"
    "publish_each N (qg_message psize) msg_count h2 = (Inr (), h3)"
    "n_flush N h3 = (Inr (), h4)" "n_monotonic N h4 = (Inr t1, h5)"
    "n_publish N STOP_SUBJECT [] h5 = (Inr (), h6)"
    "n_flush N h6 = (Inr (), h7)" "n_close N h7 = (Inr (), h8)" "n_print v h8 = (Inr (), h')"
    by (auto simp: qg_publisher_def prog_eqs)
  have "published h2 = published h" "published h5 = published h3" "published h' = published h6"
    using silentD [OF published_silent(1) steps(1)] silentD [OF published_silent(4) steps(2)]
      silentD [OF published_silent(2) steps(4)] silentD [OF published_silent(4) steps(5)]
      silentD [OF published_silent(2) steps(7)] silentD [OF published_silent(3) steps(8)]
      silentD [OF published_silent(5) steps(9)] by simp_all
  moreover have "published h6 = published h5 @ [(STOP_SUBJECT, [])]"
    using steps(6) by (simp add: n_publish_def observe_snoc published_ev_def)
  ultimately show ?thesis using publish_each_run [OF steps(3)] by auto
qed

text \<open>
  C13. The check of the sweep is sound: if the publisher ran to its end and the group delivered
  every published message exactly once (to some consumer, in some order), then the identifiers
  the consumers recorded are together exactly the numbers below the count, without duplicates.
\<close>

theorem group_delivers_each_once:
  assumes "qg_publisher N url msg_count psize k h = (Inr (), h')" and "published h = []" and "msg_count \<le> 2 ^ 64"
    and "mset (concat (map (map snd) deliveries)) = mset (map snd (filter (\<lambda>m. fst m = SUBJECT) (published h')))"
  shows "mset (concat (map (\<lambda>ms. received_ids (qg_received ms)) deliveries)) = mset [0..<msg_count]"
proof -
  have sent: "\<exists>ms. map (qg_message psize) [0..<msg_count] = map Inr ms \<and> published h' = ms @ [(STOP_SUBJECT, [])]"
    using qg_publisher_sends [OF assms(1)] assms(2) by simp
  then obtain ms where ms: "map (qg_message psize) [0..<msg_count] = map Inr ms" "published h' = ms @ [(STOP_SUBJECT, [])]"
    by blast
  let ?num = "\<lambda>p. projr (unpack_Q (take 8 p))"
  have msg: "fst (ms ! i) = SUBJECT \<and> unpack_Q (take 8 (snd (ms ! i))) = Inr i \<and> i < length ms" if "i < msg_count" for i
  proof -
    have len: "length ms = msg_count" using arg_cong [OF ms(1), of length] by simp
    have "Inr (ms ! i) = qg_message psize i"
      using arg_cong [OF ms(1), of "\<lambda>l. l ! i"] that len by simp
    with payload_reads_back [of i psize] that assms(3) len show ?thesis by auto
  qed
  have len: "length ms = msg_count" using arg_cong [OF ms(1), of length] by simp
  then have "\<forall>m \<in> set ms. fst m = SUBJECT"
    using msg by (metis in_set_conv_nth)
  then have subj: "filter (\<lambda>m. fst m = SUBJECT) (published h') = ms"
    using ms(2) subjects_differ by (simp add: filter_id_conv)
  have nums: "map (?num \<circ> snd) ms = [0..<msg_count]"
    using msg len by (intro nth_equalityI) auto
  have all: "set (concat (map (map snd) deliveries)) = snd ` set ms"
    using assms(4) subj by (metis list.set_map mset_eq_setD)
  have "received_ids (qg_received d) = map ?num (map snd d)" if "d \<in> set deliveries" for d
  proof -
    have "\<forall>m \<in> set d. \<exists>i. unpack_Q (take 8 (snd m)) = Inr i"
    proof
      fix m assume "m \<in> set d"
      with that all have "snd m \<in> snd ` set ms" by fastforce
      then obtain i where "i < length ms" "snd m = snd (ms ! i)" by (auto simp: in_set_conv_nth)
      with msg len show "\<exists>i. unpack_Q (take 8 (snd m)) = Inr i" by auto
    qed
    with on_msg_ids [of d] show ?thesis by (simp add: qg_received_def comp_def)
  qed
  then have "concat (map (\<lambda>ms. received_ids (qg_received ms)) deliveries)
      = map ?num (concat (map (map snd) deliveries))"
    by (induction deliveries) auto
  then have "mset (concat (map (\<lambda>ms. received_ids (qg_received ms)) deliveries))
      = image_mset ?num (mset (map snd ms))"
    using assms(4) subj by (metis mset_map)
  also have "\<dots> = mset (map (?num \<circ> snd) ms)" by (simp add: multiset.map_comp)
  finally show ?thesis using nums by simp
qed

text \<open>Three messages, delivered to two consumers.\<close>

definition qg_env :: nenv where
  "qg_env = \<lparr>n_connect_ans = (\<lambda>_ _. Inr ()), n_publish_ans = (\<lambda>_ _ _. Inr ()), n_call_ans = (\<lambda>_. Inr ()),
     n_write_ans = (\<lambda>_ _. Inr ()), n_clock = (\<lambda>h. of_nat (length h)), delivered = (\<lambda>_. [])\<rparr>"

definition demo_payload :: "nat \<Rightarrow> bytes" where
  "demo_payload i = replicate 7 0 @ [i]"

lemma demo_message:
  assumes "i < 256"
  shows "qg_message 8 i = Inr (SUBJECT, demo_payload i)"
proof -
  have high: "(i div 256 ^ k) mod 256 = 0" if "0 < k" for k
  proof -
    from that have "(256::nat) ^ 1 \<le> 256 ^ k" by (intro power_increasing) simp_all
    with assms show ?thesis by simp
  qed
  have "rev [0..<8] = map Suc (rev [0..<7]) @ [0::nat]" by (simp add: upt_rec)
  then have "map (\<lambda>k. (i div 256 ^ k) mod 256) (rev [0..<8]) = map (\<lambda>_. 0) (rev [0..<7::nat]) @ [i]"
    using assms high by (simp del: power_Suc)
  also have "\<dots> = demo_payload i" by (simp only: demo_payload_def map_replicate_const length_rev length_upt minus_nat.diff_0)
  finally show ?thesis
    using assms by (simp add: qg_message_def pack_Q_def)
qed

lemma demo_publisher:
  "\<exists>h'. qg_publisher qg_env ''nats://'' 3 8 2 [] = (Inr (), h')
     \<and> published h' = [(SUBJECT, demo_payload 0), (SUBJECT, demo_payload 1), (SUBJECT, demo_payload 2),
                       (STOP_SUBJECT, [])]"
proof -
  have "[0..<3] = [0, 1, 2::nat]" by (simp add: upt_rec)
  then show ?thesis
    by (simp add: qg_publisher_def publish_each_def publish_step_def demo_message qg_env_def prog_defs
        nats_defs observe_def published_ev_def)
qed

theorem group_delivers_each_once_witness:
  "mset (concat (map (\<lambda>ms. received_ids (qg_received ms))
     [[(1, demo_payload 2), (3, demo_payload 0)], [(2, demo_payload 1)]])) = mset [0..<3]"
proof -
  obtain h' where run: "qg_publisher qg_env ''nats://'' 3 8 2 [] = (Inr (), h')"
    and pub: "published h' = [(SUBJECT, demo_payload 0), (SUBJECT, demo_payload 1), (SUBJECT, demo_payload 2),
                       (STOP_SUBJECT, [])]"
    using demo_publisher by blast
  have "filter (\<lambda>m. fst m = SUBJECT) (published h')
      = [(SUBJECT, demo_payload 0), (SUBJECT, demo_payload 1), (SUBJECT, demo_payload 2)]"
    unfolding pub by (simp add: SUBJECT_def STOP_SUBJECT_def)
  then show ?thesis
    by (intro group_delivers_each_once [OF run]) simp_all
qed

end
