(* ===== verification/Command_Lines.thy ===== *)
theory Command_Lines
  imports Arg_Parse Bench_Mains Bmq_Bench Js_Bench Jetstream_Consumer N1_Repro Selectivity Queue_Group
begin

text \<open>
  The command lines of the scripts: the table of options each one gives to \<^verbatim>\<open>argparse\<close>, the
  arguments its \<^verbatim>\<open>main\<close> takes from the parsed namespace, and the program as a function of the list
  of its command line arguments.
\<close>

section \<open>The option tables\<close>

definition optional :: "conv \<Rightarrow> string \<Rightarrow> argval \<Rightarrow> argument" where
  "optional c name d = \<lparr>flag = name, action = StoreValue c None, fallback = d, required = False\<rparr>"

definition needed :: "conv \<Rightarrow> string \<Rightarrow> argument" where
  "needed c name = \<lparr>flag = name, action = StoreValue c None, fallback = VNone, required = True\<rparr>"

definition choice :: "string \<Rightarrow> string list \<Rightarrow> argument" where
  "choice name cs = \<lparr>flag = name, action = StoreValue AsStr (Some cs), fallback = VNone, required = True\<rparr>"

definition switch :: "string \<Rightarrow> argument" where
  "switch name = \<lparr>flag = name, action = StoreTrue, fallback = VBool False, required = False\<rparr>"

definition default_dsn :: argument where
  "default_dsn = optional AsStr ''--dsn'' (VStr ''host=/var/run/postgresql dbname=postgres'')"

definition default_broker :: argument where
  "default_broker = optional AsStr ''--broker-uri'' (VStr ''tcp://localhost:30114'')"

definition sustained_parser :: parser where
  "sustained_parser = \<lparr>positional = None, optionals =
     [default_dsn, needed AsStr ''--sql'', needed AsInt ''--producers'', needed AsInt ''--consumers'',
      optional AsInt ''--batch-rows'' (VInt 2000), optional AsInt ''--consume-batch'' (VInt 2000),
      optional AsInt ''--consume-timeout-ms'' (VInt 200), optional AsFloat ''--duration-secs'' (VFloat (Fin 45)),
      optional AsFloat ''--ramp-up-secs'' (VFloat (Fin 10)), optional AsFloat ''--drain-tail-secs'' (VFloat (Fin 15)),
      optional AsFloat ''--sample-interval-secs'' (VFloat (Fin 2)), optional AsFloat ''--producer-rate-limit'' (VInt 0),
      optional AsStr ''--queue-uri'' (VStr ''bmq://bmq.test.mem.priority/sustained_bench''), default_broker]\<rparr>"

definition filtered_parser :: parser where
  "filtered_parser = \<lparr>positional = None, optionals =
     [default_dsn, needed AsStr ''--sql'', optional AsStr ''--filter-column'' (VStr ''texi''),
      optional AsStr ''--filter-values'' VNone, needed AsInt ''--producers'', needed AsInt ''--consumers'',
      optional AsInt ''--batch-rows'' (VInt 2000), optional AsInt ''--consume-batch'' (VInt 2000),
      optional AsInt ''--consume-timeout-ms'' (VInt 200), optional AsFloat ''--duration-secs'' (VFloat (Fin 30)),
      optional AsFloat ''--ramp-up-secs'' (VFloat (Fin 8)), optional AsFloat ''--drain-tail-secs'' (VFloat (Fin 10)),
      optional AsFloat ''--sample-interval-secs'' (VFloat (Fin 2)), optional AsFloat ''--producer-rate-limit'' (VInt 0),
      optional AsStr ''--queue-uri'' (VStr ''bmq://bmq.test.mem.priority/filtered_bench''), default_broker,
      switch ''--verify-content'']\<rparr>"

definition mq_parser :: parser where
  "mq_parser = \<lparr>positional = None, optionals =
     [default_dsn, needed AsStr ''--sql'', needed AsInt ''--k-queues'', optional AsFloat ''--per-queue-rate'' (VInt 42000),
      optional AsInt ''--batch-rows'' (VInt 2000), optional AsInt ''--consume-batch'' (VInt 2000),
      optional AsInt ''--consume-timeout-ms'' (VInt 200), optional AsFloat ''--duration-secs'' (VFloat (Fin 30)),
      optional AsFloat ''--ramp-up-secs'' (VFloat (Fin 8)), optional AsFloat ''--drain-tail-secs'' (VFloat (Fin 12)),
      optional AsFloat ''--sample-interval-secs'' (VFloat (Fin 2)),
      optional AsStr ''--queue-uri-base'' (VStr ''bmq://bmq.test.mem.priority/mqbench''), default_broker]\<rparr>"

definition parallel_parser :: parser where
  "parallel_parser = \<lparr>positional = None, optionals =
     [default_dsn, needed AsStr ''--sql'', optional AsInt ''--total-rows'' (VInt 100000), needed AsInt ''--connections'',
      optional AsStr ''--queue-uri'' (VStr ''bmq://bmq.test.mem.broadcast/parallel_bench''), default_broker]\<rparr>"

definition bmq_parser :: parser where
  "bmq_parser = \<lparr>positional = None, optionals =
     [default_dsn, needed AsStr ''--sql'', optional AsInt ''--limit'' (VInt 100000),
      optional AsStr ''--attr-columns'' (VStr ''Sequence Number,Trade Id''),
      optional AsStr ''--queue-uri'' (VStr ''bmq://bmq.test.mem.priority/bmq_bench''), default_broker,
      optional AsInt ''--consume-timeout-ms'' (VInt 60000), switch ''--batch-confirm'']\<rparr>"

definition js_parser :: parser where
  "js_parser = \<lparr>positional = None, optionals =
     [default_dsn, needed AsStr ''--sql'', optional AsInt ''--limit'' (VInt 100000), optional AsStr ''--subject'' VNone,
      optional AsStr ''--stream'' VNone,
      optional AsStr ''--nats-tool'' (VStr ''/home/mrayva/nats_asio/build/bin/nats_tool''),
      optional AsInt ''--drain-timeout-secs'' (VInt 60)]\<rparr>"

definition sel_parser :: parser where
  "sel_parser = \<lparr>positional = None, optionals =
     [optional AsStr ''--server'' (VStr ''nats://127.0.0.1:4222''), optional AsInt ''--count'' (VInt 100000),
      optional AsInt ''--payload-size'' (VInt 128), choice ''--role'' [''publisher'', ''subscriber''],
      optional AsStr ''--pattern'' VNone, optional AsStr ''--ready-file'' VNone,
      optional AsFloat ''--settle-timeout'' (VFloat (Fin 15))]\<rparr>"

definition qg_parser :: parser where
  "qg_parser = \<lparr>positional = None, optionals =
     [choice ''--role'' [''publisher'', ''consumer''], optional AsStr ''--server'' (VStr ''nats://127.0.0.1:4222''),
      optional AsInt ''--count'' (VInt 100000), optional AsInt ''--payload-size'' (VInt 64),
      optional AsInt ''--n-consumers'' (VInt 1), optional AsStr ''--result-path'' VNone,
      optional AsStr ''--ready-path'' VNone, optional AsFloat ''--drain-grace-secs'' (VFloat (Fin 1))]\<rparr>"

definition jssc_parser :: parser where
  "jssc_parser = \<lparr>positional = Some (choice ''mode'' [''integration'', ''stress'', ''throughput'', ''all'']),
     optionals = [optional AsInt ''--trials'' (VInt 15)]\<rparr>"

lemmas table_defs = optional_def needed_def choice_def switch_def default_dsn_def default_broker_def








interpretation sel_cli: option_table sel_parser
  by unfold_locales (auto simp: sel_parser_def table_defs arguments_def dest_def)




section \<open>From the namespace to the arguments of a program\<close>

fun as_str :: "argval option \<Rightarrow> string" where
  "as_str (Some (VStr s)) = s"
| "as_str _ = []"

fun as_str_opt :: "argval option \<Rightarrow> string option" where
  "as_str_opt (Some (VStr s)) = Some s"
| "as_str_opt _ = None"

fun as_int :: "argval option \<Rightarrow> int" where
  "as_int (Some (VInt i)) = i"
| "as_int _ = 0"

fun as_rat :: "argval option \<Rightarrow> rat" where
  "as_rat (Some (VFloat (Fin r))) = r"
| "as_rat (Some (VInt i)) = of_int i"
| "as_rat _ = 0"

fun as_bool :: "argval option \<Rightarrow> bool" where
  "as_bool (Some (VBool b)) = b"
| "as_bool _ = False"

definition as_rate :: "argval option \<Rightarrow> rate" where
  "as_rate v = (case v of Some (VInt i) \<Rightarrow> IntRate i | _ \<Rightarrow> FloatRate (as_rat v))"

text \<open>
  The programs take durations and rates that are numbers and counts that are not negative. A
  command line with \<^verbatim>\<open>inf\<close> or \<^verbatim>\<open>nan\<close> or a negative count is accepted by \<^verbatim>\<open>argparse\<close>; what the
  script does then is beyond the model, which says so by \<open>Beyond\<close>.
\<close>

definition finite_floats :: "parser \<Rightarrow> namespace \<Rightarrow> bool" where
  "finite_floats T m =
     list_all (\<lambda>d. case m d of Some (VFloat f) \<Rightarrow> (case f of Fin r \<Rightarrow> True | _ \<Rightarrow> False) | _ \<Rightarrow> True)
       (map dest (arguments T))"

definition no_negative :: "string list \<Rightarrow> namespace \<Rightarrow> bool" where
  "no_negative ds m = list_all (\<lambda>d. 0 \<le> as_int (m d)) ds"

datatype 'r invocation = Ran 'r | Exit int | Beyond

definition invoke ::
  "parser \<Rightarrow> string list \<Rightarrow> (namespace \<Rightarrow> 'r invocation) \<Rightarrow> string list \<Rightarrow> 'r invocation" where
  "invoke T counts run argv =
     (case parse_args T argv of
        HelpExit \<Rightarrow> Exit 0
      | UsageError e \<Rightarrow> Exit 2
      | Parsed m \<Rightarrow> if finite_floats T m \<and> no_negative counts m then run m else Beyond)"

definition sustained_args_of :: "namespace \<Rightarrow> sustained_args" where
  "sustained_args_of m =
     \<lparr>a_dsn = as_str (m ''dsn''), a_sql = as_str (m ''sql''), a_producers = nat (as_int (m ''producers'')),
      a_consumers = nat (as_int (m ''consumers'')), a_batch_rows = as_int (m ''batch_rows''),
      a_consume_batch = as_int (m ''consume_batch''), a_consume_timeout_ms = as_int (m ''consume_timeout_ms''),
      a_duration_secs = as_rat (m ''duration_secs''), a_ramp_up_secs = as_rat (m ''ramp_up_secs''),
      a_drain_tail_secs = as_rat (m ''drain_tail_secs''),
      a_sample_interval_secs = as_rat (m ''sample_interval_secs''),
      a_producer_rate_limit = as_rat (m ''producer_rate_limit''), a_queue_uri = as_str (m ''queue_uri''),
      a_broker_uri = as_str (m ''broker_uri'')\<rparr>"

definition sustained_program :: "pool \<Rightarrow> string list \<Rightarrow> (exc + string list) option invocation" where
  "sustained_program P =
     invoke sustained_parser [''producers'', ''consumers''] (\<lambda>m. Ran (sustained_main P (sustained_args_of m)))"

definition filtered_args_of :: "namespace \<Rightarrow> filtered_args" where
  "filtered_args_of m = sustained_args.extend (sustained_args_of m)
     (filtered_args.fields (as_str (m ''filter_column'')) (as_bool (m ''verify_content'')))"

definition filtered_program :: "pool \<Rightarrow> string list \<Rightarrow> (exc + string list) option invocation" where
  "filtered_program P =
     invoke filtered_parser [''producers'', ''consumers'']
       (\<lambda>m. Ran (filtered_main P (filtered_args_of m) (as_str_opt (m ''filter_values''))))"

definition mq_args_of :: "namespace \<Rightarrow> mq_args" where
  "mq_args_of m =
     \<lparr>m_dsn = as_str (m ''dsn''), m_sql = as_str (m ''sql''), m_k_queues = nat (as_int (m ''k_queues'')),
      m_per_queue_rate = as_rate (m ''per_queue_rate''), m_batch_rows = as_int (m ''batch_rows''),
      m_consume_batch = as_int (m ''consume_batch''), m_consume_timeout_ms = as_int (m ''consume_timeout_ms''),
      m_duration_secs = as_rat (m ''duration_secs''), m_ramp_up_secs = as_rat (m ''ramp_up_secs''),
      m_drain_tail_secs = as_rat (m ''drain_tail_secs''), m_sample_interval_secs = as_rat (m ''sample_interval_secs''),
      m_queue_uri_base = as_str (m ''queue_uri_base''), m_broker_uri = as_str (m ''broker_uri'')\<rparr>"

definition mq_program :: "pool \<Rightarrow> string list \<Rightarrow> (exc + string list) option invocation" where
  "mq_program P = invoke mq_parser [''k_queues''] (\<lambda>m. Ran (mq_main P (mq_args_of m)))"

definition parallel_args_of :: "namespace \<Rightarrow> parallel_args" where
  "parallel_args_of m =
     \<lparr>p_dsn = as_str (m ''dsn''), p_sql = as_str (m ''sql''), p_total_rows = nat (as_int (m ''total_rows'')),
      p_connections = nat (as_int (m ''connections'')), p_queue_uri = as_str (m ''queue_uri''),
      p_broker_uri = as_str (m ''broker_uri'')\<rparr>"

definition parallel_program :: "pool \<Rightarrow> string list \<Rightarrow> (exc + string list) option invocation" where
  "parallel_program P =
     invoke parallel_parser [''total_rows'', ''connections''] (\<lambda>m. Ran (parallel_main P (parallel_args_of m)))"

definition bench_args_of :: "namespace \<Rightarrow> bench_args" where
  "bench_args_of m =
     \<lparr>b_dsn = as_str (m ''dsn''), b_sql = as_str (m ''sql''), b_limit = as_int (m ''limit''),
      b_attr_columns = as_str (m ''attr_columns''), b_queue_uri = as_str (m ''queue_uri''),
      b_broker_uri = as_str (m ''broker_uri''), b_consume_timeout_ms = as_int (m ''consume_timeout_ms''),
      b_batch_confirm = as_bool (m ''batch_confirm'')\<rparr>"

definition bmq_program :: "denv \<Rightarrow> string list \<Rightarrow> unit db invocation" where
  "bmq_program D = invoke bmq_parser [] (\<lambda>m. Ran (bmq_main D (bench_args_of m)))"

definition js_args_of :: "namespace \<Rightarrow> js_args" where
  "js_args_of m =
     \<lparr>ja_dsn = as_str (m ''dsn''), ja_sql = as_str (m ''sql''), ja_limit = as_int (m ''limit''),
      ja_subject = as_str_opt (m ''subject''), ja_stream = as_str_opt (m ''stream''),
      ja_nats_tool = as_str (m ''nats_tool''), ja_drain_timeout_secs = as_int (m ''drain_timeout_secs'')\<rparr>"

definition js_program :: "jenv \<Rightarrow> string list \<Rightarrow> (jev, unit) oprog invocation" where
  "js_program J = invoke js_parser [] (\<lambda>m. Ran (js_main J (js_args_of m)))"

text \<open>\<^verbatim>\<open>not args.result_path\<close>, for a value that is a string or \<^verbatim>\<open>None\<close>.\<close>

definition absent :: "argval option \<Rightarrow> bool" where
  "absent v = (as_str v = [])"

definition sel_program :: "nenv \<Rightarrow> string list \<Rightarrow> (nev, unit) oprog invocation" where
  "sel_program N =
     invoke sel_parser [''count'', ''payload_size''] (\<lambda>m.
       Ran (if m ''role'' = Some (VStr ''publisher'')
            then (\<lambda>h. Some (sel_publisher N (as_str (m ''server'')) (nat (as_int (m ''count'')))
                   (nat (as_int (m ''payload_size''))) h))
            else if absent (m ''pattern'') \<or> absent (m ''ready_file'')
            then (\<lambda>h. Some (Inl AssertionError, h))
            else sel_subscriber N (as_str (m ''server'')) (nat (as_int (m ''count''))) (as_str (m ''pattern''))
                   (as_str (m ''ready_file'')) (as_rat (m ''settle_timeout''))))"

definition qg_program :: "nenv \<Rightarrow> string list \<Rightarrow> unit nats invocation" where
  "qg_program N =
     invoke qg_parser [''count'', ''payload_size'', ''n_consumers''] (\<lambda>m.
       if m ''role'' = Some (VStr ''publisher'')
       then Ran (qg_publisher N (as_str (m ''server'')) (nat (as_int (m ''count'')))
              (nat (as_int (m ''payload_size''))) (nat (as_int (m ''n_consumers''))))
       else if absent (m ''result_path'') \<or> absent (m ''ready_path'') then Exit 1
       else Ran (qg_consumer N (as_str (m ''server'')) (as_str (m ''result_path'')) (as_str (m ''ready_path''))
              (as_rat (m ''drain_grace_secs''))))"

definition js_mode_of :: "string \<Rightarrow> js_mode" where
  "js_mode_of s =
     (if s = ''integration'' then M_integration else if s = ''stress'' then M_stress
      else if s = ''throughput'' then M_throughput else M_all)"

definition jssc_program :: "env \<Rightarrow> string list \<Rightarrow> unit os invocation" where
  "jssc_program E =
     invoke jssc_parser [] (\<lambda>m. Ran (jssc_main E (js_mode_of (as_str (m ''mode''))) (as_int (m ''trials''))))"

text \<open>\<^verbatim>\<open>trials = int(sys.argv[1]) if len(sys.argv) > 1 else 10\<close>; further arguments are not looked at.\<close>

definition n1_program :: "env \<Rightarrow> string list \<Rightarrow> unit os" where
  "n1_program E argv =
     (case argv of
        [] \<Rightarrow> n1_main E 10
      | s # _ \<Rightarrow> (case py_int s of None \<Rightarrow> raise ValueError | Some trials \<Rightarrow> n1_main E trials))"

section \<open>Properties\<close>







text \<open>The two roles of \<^verbatim>\<open>nats_selectivity.py\<close> as they are started.\<close>

definition publisher_argv :: "nat \<Rightarrow> string list" where
  "publisher_argv n = [''--role=publisher'', ''--count='' @ str_nat n]"

definition subscriber_argv :: "nat \<Rightarrow> string \<Rightarrow> string \<Rightarrow> string list" where
  "subscriber_argv n pattern ready =
     [''--role=subscriber'', ''--count='' @ str_nat n, ''--pattern='' @ pattern, ''--ready-file='' @ ready]"

definition sel_given :: "string \<Rightarrow> string \<Rightarrow> spelling" where
  "sel_given name v = Joined (the (find (\<lambda>a. flag a = name) (optionals sel_parser))) name v"

lemma sel_arguments:
  "find (\<lambda>a. flag a = ''--role'') (optionals sel_parser) = Some (choice ''--role'' [''publisher'', ''subscriber''])"
  "find (\<lambda>a. flag a = ''--count'') (optionals sel_parser) = Some (optional AsInt ''--count'' (VInt 100000))"
  "find (\<lambda>a. flag a = ''--pattern'') (optionals sel_parser) = Some (optional AsStr ''--pattern'' VNone)"
  "find (\<lambda>a. flag a = ''--ready-file'') (optionals sel_parser) = Some (optional AsStr ''--ready-file'' VNone)"
  by (simp_all add: sel_parser_def table_defs)

lemma sel_assigns:
  "r \<in> {''publisher'', ''subscriber''} \<Longrightarrow> assign (sel_given ''--role'' r) m = m(''role'' \<mapsto> VStr r)"
  "assign (sel_given ''--count'' (str_nat n)) m = m(''count'' \<mapsto> VInt (int n))"
  "assign (sel_given ''--pattern'' v) m = m(''pattern'' \<mapsto> VStr v)"
  "assign (sel_given ''--ready-file'' v) m = m(''ready_file'' \<mapsto> VStr v)"
  by (auto simp: sel_given_def sel_arguments assign_def get_value_def table_defs dest_def)

lemma sel_spelled:
  "r \<in> {''publisher'', ''subscriber''} \<Longrightarrow> spelled_ok sel_parser (sel_given ''--role'' r)"
  "spelled_ok sel_parser (sel_given ''--count'' (str_nat n))" "spelled_ok sel_parser (sel_given ''--pattern'' v)"
  "spelled_ok sel_parser (sel_given ''--ready-file'' v)"
  by (auto simp: sel_given_def sel_arguments abbreviates_def takes_value_def get_value_def sel_parser_def table_defs)

lemma sel_dests:
  "map dest (arguments sel_parser)
     = [''server'', ''count'', ''payload_size'', ''role'', ''pattern'', ''ready_file'', ''settle_timeout'']"
  by (simp add: arguments_def sel_parser_def table_defs dest_def)

lemma sel_defaults:
  "defaults sel_parser ''server'' = Some (VStr ''nats://127.0.0.1:4222'')" "defaults sel_parser ''count'' = Some (VInt 100000)"
  "defaults sel_parser ''payload_size'' = Some (VInt 128)" "defaults sel_parser ''role'' = Some VNone"
  "defaults sel_parser ''pattern'' = Some VNone" "defaults sel_parser ''ready_file'' = Some VNone"
  "defaults sel_parser ''settle_timeout'' = Some (VFloat (Fin 15))"
  by code_simp+

text \<open>A command line of \<^verbatim>\<open>nats_selectivity.py\<close> whose options include the role.\<close>

lemma sel_reads:
  assumes "r \<in> {''publisher'', ''subscriber''}" and "list_all (spelled_ok sel_parser) sps"
  shows "parse_args sel_parser (concat (map words_of (sel_given ''--role'' r # sps)))
    = Parsed (fold assign sps ((defaults sel_parser)(''role'' \<mapsto> VStr r)))"
proof -
  have "dest a \<in> (dest \<circ> spelled) ` set (sel_given ''--role'' r # sps)" if "a \<in> set (optionals sel_parser)" "required a" for a
    using that by (auto simp: sel_parser_def table_defs sel_given_def dest_def)
  with sel_cli.reads_spellings [of "sel_given ''--role'' r # sps"] assms sel_spelled(1) [OF assms(1)]
  show ?thesis by (simp add: sel_assigns sel_parser_def)
qed

lemmas sel_values = sel_assigns sel_dests sel_defaults invoke_def finite_floats_def no_negative_def absent_def

lemma publisher_starts:
  "sel_program N (publisher_argv n) = Ran (\<lambda>h. Some (sel_publisher N ''nats://127.0.0.1:4222'' n 128 h))"
proof -
  have "parse_args sel_parser (publisher_argv n) = Parsed (assign (sel_given ''--count'' (str_nat n))
      ((defaults sel_parser)(''role'' \<mapsto> VStr ''publisher'')))"
    using sel_reads [of "''publisher''" "[sel_given ''--count'' (str_nat n)]"] sel_spelled
    by (simp add: publisher_argv_def sel_given_def)
  then show ?thesis by (simp add: sel_program_def sel_values)
qed

lemma subscriber_argv_read:
  "parse_args sel_parser (subscriber_argv n pattern ready) = Parsed (assign (sel_given ''--ready-file'' ready)
      (assign (sel_given ''--pattern'' pattern) (assign (sel_given ''--count'' (str_nat n))
      ((defaults sel_parser)(''role'' \<mapsto> VStr ''subscriber'')))))"
  using sel_reads [of "''subscriber''" "[sel_given ''--count'' (str_nat n), sel_given ''--pattern'' pattern, sel_given ''--ready-file'' ready]"]
    sel_spelled
  by (simp add: subscriber_argv_def sel_given_def)

lemma subscriber_starts:
  assumes "pattern \<noteq> []" and "ready \<noteq> []"
  shows "sel_program N (subscriber_argv n pattern ready) = Ran (sel_subscriber N ''nats://127.0.0.1:4222'' n pattern ready 15)"
  using assms by (simp add: sel_program_def subscriber_argv_read sel_values)


text \<open>Without a pattern or a marker file the subscriber raises before it connects.\<close>

lemma subscriber_refused:
  assumes "pattern = [] \<or> ready = []"
  shows "sel_program N (subscriber_argv n pattern ready) = Ran (\<lambda>h. Some (Inl AssertionError, h))"
  using assms by (auto simp: sel_program_def subscriber_argv_read sel_values)

text \<open>
  C24. The selectivity measurement from its command lines: a publisher and a subscriber are started
  for the same number of messages, and both return. Then the publisher has published that many
  messages, the subscriber was given a pattern and a marker file, and the verdict it prints is true
  exactly if it has received as many messages as the publisher sent to subjects the pattern matches.
\<close>

theorem selectivity_end_to_end:
  assumes "nats_wildcards matches"
    and "sel_program N (publisher_argv n) = Ran pub" and "pub [] = Some (Inr (), h)"
    and "sel_program N' (subscriber_argv n pattern ready) = Ran sub" and "sub [] = Some (Inr (), g)"
  shows "length (published h) = n \<and> pattern \<noteq> [] \<and> ready \<noteq> []
    \<and> (\<exists>hc. g = hc @ [NPrint (JObj
         [(''role'', JStr ''subscriber''), (''pattern'', JStr pattern),
          (''expected_matches'', JInt (int (length (filter (\<lambda>(s, p). matches pattern s) (published h))))),
          (''received'', JInt (int (received N' hc))),
          (''match_ok'', JBool (received N' hc = length (filter (\<lambda>(s, p). matches pattern s) (published h)))),
          (''last_recv_monotonic'', last_recv_monotonic N' hc)])])"
proof -
  from assms(2,3) have "sel_publisher N ''nats://127.0.0.1:4222'' n 128 [] = (Inr (), h)"
    by (auto simp: publisher_starts)
  from publisher_publishes [OF this]
  have sent: "published h = map (\<lambda>i. (subject_for i, replicate 128 120)) [0..<n]" by (simp add: observe_def)
  then have wanted: "length (filter (\<lambda>(s, p). matches pattern s) (published h)) = matching matches pattern n"
    by (simp add: matching_def filter_map comp_def)
  have given: "pattern \<noteq> []" "ready \<noteq> []"
    using assms(4,5) subscriber_refused [of pattern ready N' n] by auto
  with assms(4,5) have run: "sel_subscriber N' ''nats://127.0.0.1:4222'' n pattern ready 15 [] = Some (Inr (), g)"
    by (simp add: subscriber_starts)
  with subscriber_verdict [OF run] expected_matches_correct [OF assms(1), of n pattern] given sent show ?thesis
    unfolding wanted by auto
qed

definition demo_server :: nenv where
  "demo_server = demo_nats\<lparr>delivered := \<lambda>h. [(1, [])]\<rparr>"

lemma demo_selectivity:
  "\<exists>h. sel_publisher demo_server ''nats://127.0.0.1:4222'' 8 128 [] = (Inr (), h)"
  "\<exists>g. sel_subscriber demo_server ''nats://127.0.0.1:4222'' 8 ''trades.r0.>'' ''/tmp/ready'' 15 [] = Some (Inr (), g)"
proof -
  have "[0..<8] = [0, 1, 2, 3, 4, 5, 6, 7::nat]" by (simp add: upt_rec)
  then show "\<exists>h. sel_publisher demo_server ''nats://127.0.0.1:4222'' 8 128 [] = (Inr (), h)"
    by (simp add: sel_publisher_def publish_each_def publish_step_def demo_server_def demo_nats_def prog_defs nats_defs)
  show "\<exists>g. sel_subscriber demo_server ''nats://127.0.0.1:4222'' 8 ''trades.r0.>'' ''/tmp/ready'' 15 [] = Some (Inr (), g)"
    by (simp add: sel_subscriber_def settle_loop_def while_prog.simps settle_cond_def received_def demo_server_def demo_nats_def
        loop_defs prog_defs nats_defs expected_matches_def len_range_def REGIONS_def)
qed

theorem selectivity_end_to_end_witness:
  "\<exists>pub h sub g. sel_program demo_server (publisher_argv 8) = Ran pub \<and> pub [] = Some (Inr (), h)
     \<and> sel_program demo_server (subscriber_argv 8 ''trades.r0.>'' ''/tmp/ready'') = Ran sub \<and> sub [] = Some (Inr (), g)
     \<and> length (published h) = 8"
proof -
  obtain h g where runs: "sel_publisher demo_server ''nats://127.0.0.1:4222'' 8 128 [] = (Inr (), h)"
    "sel_subscriber demo_server ''nats://127.0.0.1:4222'' 8 ''trades.r0.>'' ''/tmp/ready'' 15 [] = Some (Inr (), g)"
    using demo_selectivity by blast
  have started: "sel_program demo_server (subscriber_argv 8 ''trades.r0.>'' ''/tmp/ready'')
      = Ran (sel_subscriber demo_server ''nats://127.0.0.1:4222'' 8 ''trades.r0.>'' ''/tmp/ready'' 15)"
    by (rule subscriber_starts) simp_all
  from selectivity_end_to_end [OF prefix_match_wildcards publisher_starts _ started runs(2)] runs started publisher_starts
  show ?thesis by blast
qed

end
