(* ===== verification/Bench_Driver.thy ===== *)
theory Bench_Driver
  imports Ctrl_Plane Db_Loop "HOL-Library.Word"
begin

text \<open>
  \<^verbatim>\<open>bench/mq_bench_driver.cpp\<close>: the program the sidecar scripts start as publisher, as subscriber and
  to send control requests. It is one coroutine per mode over a connection of \<^verbatim>\<open>nats_asio\<close>. The
  connection, the clock, the decoding of msgpack and JSON payloads, the random identifier and the
  text of a \<^verbatim>\<open>double\<close> are the environment's. Message handlers run while the coroutine awaits; what
  they have been given so far is a function of the history. A \<^verbatim>\<open>long\<close> and an \<^verbatim>\<open>int\<close> are integers:
  the counters stay far below their widths.
\<close>

section \<open>Interactions\<close>

type_synonym payload = string   \<comment> \<open>bytes\<close>

datatype dvev =
    DvStart                                  \<comment> \<open>\<^verbatim>\<open>conn->start(conf)\<close>\<close>
  | DvTimer rat                              \<comment> \<open>a timer awaited, in milliseconds\<close>
  | DvNow                                    \<comment> \<open>\<^verbatim>\<open>steady_clock::now()\<close>\<close>
  | DvPublish string payload "string option" \<comment> \<open>subject, payload, reply-to\<close>
  | DvSubscribe string
  | DvRequest string payload rat
  | DvRandom
  | DvInbox
  | DvOut string                             \<comment> \<open>\<^verbatim>\<open>std::cout\<close>\<close>
  | DvErr string                             \<comment> \<open>\<^verbatim>\<open>std::cerr\<close>\<close>
  | DvStop                                   \<comment> \<open>\<^verbatim>\<open>ioc.stop()\<close>\<close>

type_synonym dvhist = "dvev list"
type_synonym 'a dv = "(dvev, 'a) prog"
type_synonym 'a odv = "(dvev, 'a) oprog"

text \<open>A status that failed carries the text of its error.\<close>

record dvenv =
  dv_connected :: "dvhist \<Rightarrow> bool"
  dv_clock :: "dvhist \<Rightarrow> rat"                            \<comment> \<open>in seconds\<close>
  dv_publish_ans :: "dvhist \<Rightarrow> string \<Rightarrow> payload \<Rightarrow> string option"
  dv_subscribe_ans :: "dvhist \<Rightarrow> string \<Rightarrow> string option"
  dv_request_ans :: "dvhist \<Rightarrow> string \<Rightarrow> payload \<Rightarrow> string + payload"
  dv_messages :: "dvhist \<Rightarrow> (rat \<times> payload) list"       \<comment> \<open>handled so far, with the time\<close>
  dv_rng :: "dvhist \<Rightarrow> 64 word"
  dv_inbox_ans :: "dvhist \<Rightarrow> string"
  dv_pack :: "int \<Rightarrow> payload"                            \<comment> \<open>a map with the field \<^verbatim>\<open>region\<close>\<close>
  dv_region :: "payload \<Rightarrow> int option"                   \<comment> \<open>\<open>None\<close>: the decoder throws\<close>
  dv_field :: "string \<Rightarrow> payload \<Rightarrow> string option"
  dv_has_error :: "payload \<Rightarrow> bool option"               \<comment> \<open>\<^verbatim>\<open>json::parse\<close>, then \<^verbatim>\<open>contains("error")\<close>\<close>
  dv_dump :: "string \<Rightarrow> 64 word option \<Rightarrow> payload"       \<comment> \<open>the request's JSON text\<close>
  dv_text :: "pyfloat \<Rightarrow> string"
  dv_out_of_work :: "dvhist \<Rightarrow> bool"                     \<comment> \<open>no work is left for \<^verbatim>\<open>ioc.run()\<close>\<close>

definition dv_now :: "dvenv \<Rightarrow> rat dv" where
  "dv_now V = act (\<lambda>h. Inr (dv_clock V h)) DvNow"

definition dv_timer :: "rat \<Rightarrow> unit dv" where
  "dv_timer ms = act (\<lambda>_. Inr ()) (DvTimer ms)"

definition dv_out :: "string \<Rightarrow> unit dv" where
  "dv_out s = act (\<lambda>_. Inr ()) (DvOut s)"

definition dv_err :: "string \<Rightarrow> unit dv" where
  "dv_err s = act (\<lambda>_. Inr ()) (DvErr s)"

definition dv_stop :: "unit dv" where
  "dv_stop = act (\<lambda>_. Inr ()) DvStop"

definition dv_publish :: "dvenv \<Rightarrow> string \<Rightarrow> payload \<Rightarrow> string option \<Rightarrow> string option dv" where
  "dv_publish V subject payload reply = act (\<lambda>h. Inr (dv_publish_ans V h subject payload)) (DvPublish subject payload reply)"

definition dv_subscribe :: "dvenv \<Rightarrow> string \<Rightarrow> string option dv" where
  "dv_subscribe V pattern = act (\<lambda>h. Inr (dv_subscribe_ans V h pattern)) (DvSubscribe pattern)"

definition dv_request :: "dvenv \<Rightarrow> string \<Rightarrow> payload \<Rightarrow> rat \<Rightarrow> (string + payload) dv" where
  "dv_request V subject payload ms = act (\<lambda>h. Inr (dv_request_ans V h subject payload)) (DvRequest subject payload ms)"

definition dv_random :: "dvenv \<Rightarrow> 64 word dv" where
  "dv_random V = act (\<lambda>h. Inr (dv_rng V h)) DvRandom"

definition dv_inbox :: "dvenv \<Rightarrow> string dv" where
  "dv_inbox V = act (\<lambda>h. Inr (dv_inbox_ans V h)) DvInbox"

definition dv_seen :: "dvenv \<Rightarrow> (rat \<times> payload) list dv" where
  "dv_seen V h = (Inr (dv_messages V h), h)"

lemmas dv_defs = dv_now_def dv_timer_def dv_out_def dv_err_def dv_stop_def dv_publish_def dv_subscribe_def
  dv_request_def dv_random_def dv_inbox_def dv_seen_def

text \<open>Coroutines that wait in loops, in sequence.\<close>

definition obind :: "'a odv \<Rightarrow> ('a \<Rightarrow> 'b odv) \<Rightarrow> 'b odv" where
  "obind m f h =
     (case m h of None \<Rightarrow> None | Some (Inl e, h') \<Rightarrow> Some (Inl e, h') | Some (Inr x, h') \<Rightarrow> f x h')"

definition straight :: "'a dv \<Rightarrow> 'a odv" where
  "straight m h = Some (m h)"

lemma obind_eq_Some_Inr:
  "obind m f h = Some (Inr y, h') \<longleftrightarrow> (\<exists>x h1. m h = Some (Inr x, h1) \<and> f x h1 = Some (Inr y, h'))"
  by (auto simp: obind_def split: option.splits prod.splits sum.splits)

lemma straight_eq: "straight m h = Some (r, h') \<longleftrightarrow> m h = (r, h')"
  by (simp add: straight_def)

lemma dv_runs:
  "dv_now V h = (r, h') \<longleftrightarrow> r = Inr (dv_clock V h) \<and> h' = h @ [DvNow]"
  "dv_timer ms h = (u, h') \<longleftrightarrow> u = Inr () \<and> h' = h @ [DvTimer ms]"
  "dv_out s h = (u, h') \<longleftrightarrow> u = Inr () \<and> h' = h @ [DvOut s]"
  "dv_err s h = (u, h') \<longleftrightarrow> u = Inr () \<and> h' = h @ [DvErr s]"
  "dv_stop h = (u, h') \<longleftrightarrow> u = Inr () \<and> h' = h @ [DvStop]"
  "dv_publish V q p reply h = (x, h') \<longleftrightarrow> x = Inr (dv_publish_ans V h q p) \<and> h' = h @ [DvPublish q p reply]"
  "dv_subscribe V q h = (x, h') \<longleftrightarrow> x = Inr (dv_subscribe_ans V h q) \<and> h' = h @ [DvSubscribe q]"
  "dv_request V q p ms h = (y, h') \<longleftrightarrow> y = Inr (dv_request_ans V h q p) \<and> h' = h @ [DvRequest q p ms]"
  "dv_random V h = (i, h') \<longleftrightarrow> i = Inr (dv_rng V h) \<and> h' = h @ [DvRandom]"
  "dv_inbox V h = (b, h') \<longleftrightarrow> b = Inr (dv_inbox_ans V h) \<and> h' = h @ [DvInbox]"
  "dv_seen V h = (ms', h') \<longleftrightarrow> ms' = Inr (dv_messages V h) \<and> h' = h"
  by (auto simp: dv_defs act_def)

lemmas dv_eqs = obind_eq_Some_Inr straight_eq prog_eqs dv_runs

section \<open>The modes\<close>

text \<open>The connection is waited for without a limit.\<close>

definition wait_connected :: "dvenv \<Rightarrow> unit odv" where
  "wait_connected V = while_prog (\<lambda>h. (Inr (\<not> dv_connected V h), h)) (\<lambda>_. dv_timer 5) ()"

definition dv_connect :: "dvenv \<Rightarrow> unit odv" where
  "dv_connect V = then_loop (act (\<lambda>_. Inr ()) DvStart) (\<lambda>_. wait_connected V)"

text \<open>A quotient of \<^verbatim>\<open>double\<close> values.\<close>

definition c_div :: "rat \<Rightarrow> rat \<Rightarrow> pyfloat" where
  "c_div x y = (if y \<noteq> 0 then Fin (x / y) else if x = 0 then NaN else if 0 < x then Inf else NegInf)"

definition pub_done_line :: "int \<Rightarrow> string \<Rightarrow> string \<Rightarrow> string" where
  "pub_done_line n secs rate = ''PUB_DONE count='' @ str_int n @ '' secs='' @ secs @ '' rate='' @ rate"

definition do_pub :: "dvenv \<Rightarrow> string \<Rightarrow> int \<Rightarrow> unit odv" where
  "do_pub V subject n =
     obind (dv_connect V) (\<lambda>_. straight (
       bind (dv_now V) (\<lambda>t0.
       andthen (for_each (\<lambda>i. andthen (dv_publish V subject (dv_pack V (int (i mod 8) + 1)) None) (ret ())) [0..<nat n])
       (bind (dv_now V) (\<lambda>t1.
        andthen (dv_out (pub_done_line n (dv_text V (Fin (t1 - t0))) (dv_text V (c_div (of_int n) (t1 - t0))) @ [CHR 0x0A]))
        dv_stop)))))"

text \<open>
  The subscriber of the modes \<^verbatim>\<open>sub\<close> and \<^verbatim>\<open>subfield\<close>, which differ in the check of a payload. The
  handler counts every message, and as wrong those that fail the check or do not decode; it keeps
  the time of the first one.
\<close>

definition wrong_of :: "(payload \<Rightarrow> bool) \<Rightarrow> (rat \<times> payload) list \<Rightarrow> nat" where
  "wrong_of right ms = length (filter (\<lambda>(t, p). \<not> right p) ms)"

definition first_time :: "rat \<Rightarrow> (rat \<times> payload) list \<Rightarrow> rat" where
  "first_time t0 ms = (case ms of [] \<Rightarrow> t0 | (t, p) # _ \<Rightarrow> t)"

definition collect_cond :: "dvenv \<Rightarrow> int \<Rightarrow> rat \<Rightarrow> bool dv" where
  "collect_cond V expected deadline h =
     (if int (length (dv_messages V h)) < expected then bind (dv_now V) (\<lambda>t. ret (t < deadline)) h
      else (Inr False, h))"

definition collect_loop :: "dvenv \<Rightarrow> int \<Rightarrow> rat \<Rightarrow> unit odv" where
  "collect_loop V expected deadline = while_prog (collect_cond V expected deadline) (\<lambda>_. dv_timer 10) ()"

definition sub_report :: "dvenv \<Rightarrow> (payload \<Rightarrow> bool) \<Rightarrow> rat \<Rightarrow> rat \<Rightarrow> (rat \<times> payload) list \<Rightarrow> string" where
  "sub_report V right t0 t1 ms =
     (let secs = t1 - first_time t0 ms; tot = length ms in
      sub_done_line tot (wrong_of right ms) (dv_text V (Fin secs))
        (dv_text V (Fin (if 0 < secs then of_nat tot / secs else 0))) @ [CHR 0x0A])"

definition collect_and_report :: "dvenv \<Rightarrow> (payload \<Rightarrow> bool) \<Rightarrow> rat \<Rightarrow> int \<Rightarrow> int \<Rightarrow> unit odv" where
  "collect_and_report V right t0 expected timeout_ms =
     obind (straight (dv_now V)) (\<lambda>t.
     obind (collect_loop V expected (t + of_int timeout_ms / 1000)) (\<lambda>_. straight (
       andthen (dv_timer 300)
       (bind (dv_now V) (\<lambda>t1.
        bind (dv_seen V) (\<lambda>ms.
        andthen (dv_out (sub_report V right t0 t1 ms)) dv_stop))))))"

definition sub_failed_text :: "string \<Rightarrow> string" where
  "sub_failed_text e = ''subscribe failed: '' @ e @ [CHR 0x0A]"

definition count_messages :: "dvenv \<Rightarrow> (payload \<Rightarrow> bool) \<Rightarrow> string \<Rightarrow> int \<Rightarrow> int \<Rightarrow> unit odv" where
  "count_messages V right pattern expected timeout_ms =
     obind (dv_connect V) (\<lambda>_.
     obind (straight (bind (dv_now V) (\<lambda>t0. bind (dv_subscribe V pattern) (\<lambda>status. ret (t0, status))))) (\<lambda>(t0, status).
     case status of
       Some e \<Rightarrow> straight (dv_err (sub_failed_text e))
     | None \<Rightarrow> collect_and_report V right t0 expected timeout_ms))"

definition do_sub :: "dvenv \<Rightarrow> string \<Rightarrow> int \<Rightarrow> int \<Rightarrow> unit odv" where
  "do_sub V pattern expected timeout_ms =
     count_messages V (\<lambda>p. dv_region V p = Some 1) pattern expected timeout_ms"

definition do_subfield :: "dvenv \<Rightarrow> string \<Rightarrow> int \<Rightarrow> int \<Rightarrow> string \<Rightarrow> string \<Rightarrow> unit odv" where
  "do_subfield V pattern expected timeout_ms field expected_value =
     count_messages V (\<lambda>p. dv_field V field p = Some expected_value) pattern expected timeout_ms"

definition do_ctrl :: "dvenv \<Rightarrow> string \<Rightarrow> string \<Rightarrow> unit odv" where
  "do_ctrl V subject expr =
     obind (dv_connect V) (\<lambda>_. straight (
       bind (dv_request V subject (dv_dump V expr None) 5000) (\<lambda>answer.
         case answer of
           Inl e \<Rightarrow> dv_err (''CTRL_FAIL '' @ e @ [CHR 0x0A])
         | Inr reply \<Rightarrow> andthen (dv_out (''CTRL_REPLY '' @ reply @ [CHR 0x0A])) dv_stop)))"

text \<open>An answer that does not parse counts as an error.\<close>

definition acks_of :: "dvenv \<Rightarrow> (rat \<times> payload) list \<Rightarrow> nat" where
  "acks_of V ms = length (filter (\<lambda>(t, p). dv_has_error V p = Some False) ms)"

definition errors_of :: "dvenv \<Rightarrow> (rat \<times> payload) list \<Rightarrow> nat" where
  "errors_of V ms = length (filter (\<lambda>(t, p). dv_has_error V p \<noteq> Some False) ms)"

definition ack_cond :: "dvenv \<Rightarrow> int \<Rightarrow> rat \<Rightarrow> bool dv" where
  "ack_cond V expected deadline h =
     (if int (acks_of V (dv_messages V h) + errors_of V (dv_messages V h)) < expected
      then bind (dv_now V) (\<lambda>t. ret (t < deadline)) h
      else (Inr False, h))"

definition ack_loop :: "dvenv \<Rightarrow> int \<Rightarrow> rat \<Rightarrow> unit odv" where
  "ack_loop V expected deadline = while_prog (ack_cond V expected deadline) (\<lambda>_. dv_timer 5) ()"

definition bcast_id_line :: "64 word \<Rightarrow> string" where
  "bcast_id_line sub_id = ''CTRL_BCAST_ID '' @ str_nat (unat sub_id) @ [CHR 0x0A]"

definition bcast_acks_line :: "dvenv \<Rightarrow> int \<Rightarrow> rat \<Rightarrow> (rat \<times> payload) list \<Rightarrow> string" where
  "bcast_acks_line V expected_acks secs ms =
     ''CTRL_BCAST_ACKS '' @ str_nat (acks_of V ms) @ '' errors='' @ str_nat (errors_of V ms)
       @ '' expected='' @ str_int expected_acks @ '' latency_ms='' @ dv_text V (Fin (secs * 1000)) @ [CHR 0x0A]"

definition await_acks :: "dvenv \<Rightarrow> 64 word \<Rightarrow> int \<Rightarrow> int \<Rightarrow> rat \<Rightarrow> unit odv" where
  "await_acks V sub_id expected_acks timeout_ms t0 =
     obind (ack_loop V expected_acks (t0 + of_int timeout_ms / 1000)) (\<lambda>_. straight (
       bind (dv_now V) (\<lambda>t1.
       bind (dv_seen V) (\<lambda>ms.
       andthen (dv_out (bcast_id_line sub_id))
       (andthen (dv_out (bcast_acks_line V expected_acks (t1 - t0) ms)) dv_stop)))))"

definition bcast_failed :: "string \<Rightarrow> string \<Rightarrow> unit odv" where
  "bcast_failed what e = straight (andthen (dv_err (''CTRL_BCAST_FAIL '' @ what @ '': '' @ e @ [CHR 0x0A])) dv_stop)"

definition do_ctrl_bcast :: "dvenv \<Rightarrow> string \<Rightarrow> string \<Rightarrow> int \<Rightarrow> int \<Rightarrow> unit odv" where
  "do_ctrl_bcast V subject expr expected_acks timeout_ms =
     obind (dv_connect V) (\<lambda>_.
     obind (straight (bind (dv_random V) (\<lambda>sub_id. bind (dv_inbox V) (\<lambda>inbox.
       bind (dv_subscribe V inbox) (\<lambda>status. ret (sub_id, inbox, status)))))) (\<lambda>(sub_id, inbox, status).
     case status of
       Some e \<Rightarrow> bcast_failed ''inbox subscribe'' e
     | None \<Rightarrow>
         obind (straight (bind (dv_now V) (\<lambda>t0.
           bind (dv_publish V subject (dv_dump V expr (Some sub_id)) (Some inbox)) (\<lambda>status. ret (t0, status))))) (\<lambda>(t0, status).
         case status of
           Some e \<Rightarrow> bcast_failed ''publish'' e
         | None \<Rightarrow> await_acks V sub_id expected_acks timeout_ms t0)))"

section \<open>The program\<close>

text \<open>\<^verbatim>\<open>std::atol\<close>, for values in the range of the type.\<close>

definition c_isspace :: "char \<Rightarrow> bool" where
  "c_isspace c = ((of_char c :: nat) \<in> {9, 10, 11, 12, 13, 32})"

definition c_digits :: "string \<Rightarrow> int" where
  "c_digits s = foldl (\<lambda>n c. 10 * n + int (the (digit_val c))) 0 (takeWhile (\<lambda>c. digit_val c \<noteq> None) s)"

definition c_atol :: "string \<Rightarrow> int" where
  "c_atol s =
     (case dropWhile c_isspace s of
        [] \<Rightarrow> 0
      | c # t \<Rightarrow> if c = CHR ''-'' then - c_digits t else if c = CHR ''+'' then c_digits t else c_digits (c # t))"

text \<open>
  \<^verbatim>\<open>ioc.run()\<close> returns when \<^verbatim>\<open>ioc.stop()\<close> was called or no work is left; otherwise the program does not end.
\<close>

definition run_context :: "dvenv \<Rightarrow> unit odv \<Rightarrow> int odv" where
  "run_context V m =
     obind m (\<lambda>_ h. if DvStop \<in> set h \<or> dv_out_of_work V h then Some (Inr 0, h) else None)"

definition driver_main :: "dvenv \<Rightarrow> string list \<Rightarrow> int odv" where
  "driver_main V args =
     (case args of
        [] \<Rightarrow> straight (andthen (dv_err (''usage: mq_bench_driver <pub|sub|ctrl> ...'' @ [CHR 0x0A])) (ret 1))
      | mode # rest \<Rightarrow>
          if mode = ''pub'' \<and> length rest = 2 then run_context V (do_pub V (rest ! 0) (c_atol (rest ! 1)))
          else if mode = ''sub'' \<and> length rest = 3
            then run_context V (do_sub V (rest ! 0) (c_atol (rest ! 1)) (c_atol (rest ! 2)))
          else if mode = ''subfield'' \<and> length rest = 5
            then run_context V (do_subfield V (rest ! 0) (c_atol (rest ! 1)) (c_atol (rest ! 2)) (rest ! 3) (rest ! 4))
          else if mode = ''ctrl'' \<and> length rest = 2 then run_context V (do_ctrl V (rest ! 0) (rest ! 1))
          else if mode = ''ctrl_bcast'' \<and> length rest = 4
            then run_context V (do_ctrl_bcast V (rest ! 0) (rest ! 1) (c_atol (rest ! 2)) (c_atol (rest ! 3)))
          else straight (andthen (dv_err (''bad args'' @ [CHR 0x0A])) (ret 1)))"

text \<open>What a run wrote to its standard output.\<close>

fun stdout_of :: "dvhist \<Rightarrow> string" where
  "stdout_of [] = []"
| "stdout_of (DvOut s # h) = s @ stdout_of h"
| "stdout_of (_ # h) = stdout_of h"

lemma c_atol_str_nat: "c_atol (str_nat n) = int n"
proof -
  have digits: "c \<in> set (str_nat n) \<Longrightarrow> digit_val c \<noteq> None" for c n using str_nat_digits by fastforce
  have "foldl (\<lambda>n c. 10 * n + int (the (digit_val c))) 0 (str_nat n) = int n"
  proof (induction n rule: str_nat.induct)
    case (1 n)
    moreover have "10 * int (n div 10) + int (n mod 10) = int n" by presburger
    ultimately show ?case by (cases "n < 10") (simp_all add: str_nat.simps [of n])
  qed
  moreover have "takeWhile (\<lambda>c. digit_val c \<noteq> None) (str_nat n) = str_nat n"
    by (rule takeWhile_all) (use digits in blast)
  ultimately have read: "c_digits (str_nat n) = int n" by (metis (no_types, lifting) c_digits_def)
  obtain c t where ct: "str_nat n = c # t" by (meson list.exhaust str_nat_not_Nil)
  then obtain d where d: "d < 10" "c = digit_char d" using str_nat_digits [of c n] by auto
  then have "\<not> c_isspace c" using digit_char_not_space [OF d(1)] by (auto simp: c_isspace_def py_isspace_def)
  with read ct d show ?thesis by (simp add: c_atol_def)
qed

section \<open>What a run leaves in its history\<close>

text \<open>Code that neither writes to the standard output nor stops the context.\<close>

definition still :: "dvhist \<Rightarrow> dvhist \<Rightarrow> bool" where
  "still h h' \<longleftrightarrow> stdout_of h' = stdout_of h \<and> (DvStop \<in> set h' \<longleftrightarrow> DvStop \<in> set h)"

lemma stdout_append [simp]: "stdout_of (h @ h') = stdout_of h @ stdout_of h'"
  by (induction h rule: stdout_of.induct) simp_all

lemma still_refl [simp]: "still h h"
  by (simp add: still_def)

lemma still_trans: "still h h1 \<Longrightarrow> still h1 h2 \<Longrightarrow> still h h2"
  by (simp add: still_def)

lemma loop_still:
  assumes "while_prog cond body s h = Some (Inr s', h')"
    and "\<And>h r h1. cond h = (r, h1) \<Longrightarrow> still h h1" and "\<And>s h r h1. body s h = (r, h1) \<Longrightarrow> still h h1"
  shows "still h h'"
proof -
  have "\<exists>h0. still h h0 \<and> cond h0 = (Inr False, h')"
    by (rule while_prog_invariant [OF assms(1), of "\<lambda>_. still h"]) (auto dest!: assms(2,3) simp: still_def)
  with assms(2) still_trans show ?thesis by blast
qed

lemma still_timer: "dv_timer ms h = (r, h') \<Longrightarrow> still h h'"
  by (auto simp: dv_timer_def still_def)

lemma still_conds:
  "collect_cond V expected deadline h = (r, h') \<Longrightarrow> still h h'"
  "ack_cond V expected deadline h = (r, h') \<Longrightarrow> still h h'"
  by (auto simp: collect_cond_def ack_cond_def dv_now_def prog_defs still_def split: if_splits)

lemma still_loops:
  "wait_connected V h = Some (Inr (), h') \<Longrightarrow> still h h'"
  "collect_loop V expected deadline h = Some (Inr (), h') \<Longrightarrow> still h h'"
  "ack_loop V expected deadline h = Some (Inr (), h') \<Longrightarrow> still h h'"
  unfolding wait_connected_def collect_loop_def ack_loop_def
  by (erule loop_still; auto intro: still_timer still_conds)+

lemma still_connect: "dv_connect V h = Some (Inr (), h') \<Longrightarrow> still h h'"
  by (auto simp: dv_connect_def loop_eqs still_def dest!: still_loops(1))

lemma loop_leaves:
  assumes "collect_loop V expected deadline h = Some (Inr (), h')"
  shows "\<exists>h0. (expected \<le> int (length (dv_messages V h0)) \<or> deadline \<le> dv_clock V h0)
    \<and> (h' = h0 \<or> h' = h0 @ [DvNow])"
proof -
  from while_prog_invariant [OF assms [unfolded collect_loop_def], of "\<lambda>_ _. True"]
  obtain h0 where "collect_cond V expected deadline h0 = (Inr False, h')" by auto
  then show ?thesis
    by (intro exI [of _ h0]) (auto simp: collect_cond_def dv_now_def prog_eqs split: if_splits)
qed

text \<open>The subscriber reports the messages handled by the time it writes, or its subscription failed.\<close>

lemma count_messages_run:
  assumes "count_messages V right pattern expected timeout_ms h = Some (Inr (), h')"
  shows "(\<exists>g e. dv_subscribe_ans V g pattern = Some e \<and> still h h')
    \<or> (\<exists>g t0 t1 g0. h' = g @ [DvOut (sub_report V right t0 t1 (dv_messages V g)), DvStop] \<and> still h g
         \<and> dv_subscribe_ans V g0 pattern = None)"
proof -
  from assms obtain h1 h2 where con: "dv_connect V h = Some (Inr (), h1)"
    and h2: "h2 = h1 @ [DvNow, DvSubscribe pattern]"
    and rest: "(case dv_subscribe_ans V (h1 @ [DvNow]) pattern of
       Some e \<Rightarrow> straight (dv_err (sub_failed_text e))
     | None \<Rightarrow> collect_and_report V right (dv_clock V h1) expected timeout_ms) h2 = Some (Inr (), h')"
    unfolding count_messages_def by (auto simp: dv_eqs)
  have s2: "still h h2" using still_connect [OF con] h2 by (simp add: still_def)
  show ?thesis
  proof (cases "dv_subscribe_ans V (h1 @ [DvNow]) pattern")
    case (Some e)
    with rest s2 have "still h h'" by (auto simp: straight_eq dv_runs still_def)
    with Some show ?thesis by blast
  next
    case None
    with rest obtain h3 where
      loop: "collect_loop V expected (dv_clock V h2 + of_int timeout_ms / 1000) (h2 @ [DvNow]) = Some (Inr (), h3)"
      and h': "h' = (h3 @ [DvTimer 300, DvNow]) @ [DvOut (sub_report V right (dv_clock V h1) (dv_clock V (h3 @ [DvTimer 300]))
        (dv_messages V (h3 @ [DvTimer 300, DvNow]))), DvStop]"
      by (auto simp: dv_eqs collect_and_report_def)
    have "still h (h3 @ [DvTimer 300, DvNow])"
      using s2 still_loops(2) [OF loop] by (simp add: still_def)
    with h' None show ?thesis by blast
  qed
qed

text \<open>
  A broadcast reports its identifier and the answers handled by the time it writes, or writes
  nothing, because its inbox subscription or its publish failed; it stops the context in each case.
\<close>

lemma bcast_failed_run: "bcast_failed what e h = Some (Inr (), h') \<Longrightarrow> stdout_of h' = stdout_of h \<and> DvStop \<in> set h'"
  by (auto simp: bcast_failed_def dv_eqs)

lemma await_acks_run:
  assumes "await_acks V sub_id expected_acks timeout_ms t0 h = Some (Inr (), h')"
  shows "\<exists>g secs. h' = g @ [DvOut (bcast_id_line sub_id), DvOut (bcast_acks_line V expected_acks secs (dv_messages V g)), DvStop]
    \<and> still h g"
proof -
  from assms obtain h1 where loop: "ack_loop V expected_acks (t0 + of_int timeout_ms / 1000) h = Some (Inr (), h1)"
    and "h' = (h1 @ [DvNow]) @ [DvOut (bcast_id_line sub_id),
      DvOut (bcast_acks_line V expected_acks (dv_clock V h1 - t0) (dv_messages V (h1 @ [DvNow]))), DvStop]"
    by (auto simp: await_acks_def dv_eqs)
  moreover have "still h (h1 @ [DvNow])" using still_loops(3) [OF loop] by (simp add: still_def)
  ultimately show ?thesis by blast
qed

lemma do_ctrl_bcast_run:
  assumes "do_ctrl_bcast V subject expr expected_acks timeout_ms h = Some (Inr (), h')"
  shows "stdout_of h' = stdout_of h \<and> DvStop \<in> set h'
    \<or> (\<exists>g sub_id secs. h' = g @ [DvOut (bcast_id_line sub_id), DvOut (bcast_acks_line V expected_acks secs (dv_messages V g)), DvStop]
         \<and> stdout_of g = stdout_of h)"
proof -
  from assms obtain h1 where con: "dv_connect V h = Some (Inr (), h1)"
    and rest: "(case dv_subscribe_ans V (h1 @ [DvRandom, DvInbox]) (dv_inbox_ans V (h1 @ [DvRandom])) of
       Some e \<Rightarrow> bcast_failed ''inbox subscribe'' e
     | None \<Rightarrow>
         obind (straight (bind (dv_now V) (\<lambda>t0.
           bind (dv_publish V subject (dv_dump V expr (Some (dv_rng V h1))) (Some (dv_inbox_ans V (h1 @ [DvRandom])))) (\<lambda>status. ret (t0, status))))) (\<lambda>(t0, status).
         case status of
           Some e \<Rightarrow> bcast_failed ''publish'' e
         | None \<Rightarrow> await_acks V (dv_rng V h1) expected_acks timeout_ms t0))
       (h1 @ [DvRandom, DvInbox, DvSubscribe (dv_inbox_ans V (h1 @ [DvRandom]))]) = Some (Inr (), h')"
    unfolding do_ctrl_bcast_def by (auto simp: dv_eqs simp del: not_None_eq)
  have h1: "stdout_of h1 = stdout_of h" using still_connect [OF con] by (simp add: still_def)
  show ?thesis
  proof (cases "dv_subscribe_ans V (h1 @ [DvRandom, DvInbox]) (dv_inbox_ans V (h1 @ [DvRandom]))")
    case (Some e)
    with rest h1 bcast_failed_run show ?thesis by fastforce
  next
    case None
    with rest obtain t0 status h2 where last: "(case status of Some e \<Rightarrow> bcast_failed ''publish'' e
         | None \<Rightarrow> await_acks V (dv_rng V h1) expected_acks timeout_ms t0) h2 = Some (Inr (), h')"
      and h2: "stdout_of h2 = stdout_of h"
      using h1 by (auto simp: dv_eqs)
    show ?thesis
    proof (cases status)
      case (Some e)
      with last bcast_failed_run [of "''publish''" e h2 h'] h2 show ?thesis by simp
    next
      case None
      with last await_acks_run [of V "dv_rng V h1" expected_acks timeout_ms t0 h2 h'] h2 show ?thesis
        by (auto simp: still_def)
    qed
  qed
qed

section \<open>Endings\<close>

text \<open>Timers take the time they are set to, the clock does not run backwards, and the connection comes up.\<close>

definition dv_timers_run :: "dvenv \<Rightarrow> bool" where
  "dv_timers_run V \<longleftrightarrow> (\<forall>h ev. dv_clock V h \<le> dv_clock V (h @ [ev]))
     \<and> (\<forall>h ms. dv_clock V h + ms / 1000 \<le> dv_clock V (h @ [DvTimer ms]))"

definition dv_comes_up :: "dvenv \<Rightarrow> bool" where
  "dv_comes_up V \<longleftrightarrow> (\<exists>k. \<forall>h. k \<le> length h \<longrightarrow> dv_connected V h)"

text \<open>A loop whose condition and body do not raise ends without an exception.\<close>

lemma while_prog_succeeds:
  fixes \<mu> :: "'ev list \<Rightarrow> nat" and body :: "unit \<Rightarrow> ('ev, unit) prog"
  assumes "\<And>h h1 s s1 h2. cond h = (Inr True, h1) \<Longrightarrow> body s h1 = (Inr s1, h2) \<Longrightarrow> \<mu> h2 < \<mu> h"
    and "\<And>h. \<exists>b h1. cond h = (Inr b, h1)" and "\<And>s h. \<exists>h1. body s h = (Inr (), h1)"
  shows "\<exists>h'. while_prog cond body () h = Some (Inr (), h')"
proof (induction "\<mu> h" arbitrary: h rule: less_induct)
  case less
  obtain b h1 where c: "cond h = (Inr b, h1)" using assms(2) by blast
  obtain h2 where step: "body () h1 = (Inr (), h2)" using assms(3) by blast
  show ?case
  proof (cases b)
    case True
    with c have go: "cond h = (Inr True, h1)" by simp
    from less [OF assms(1) [OF go step]] obtain h' where "while_prog cond body () h2 = Some (Inr (), h')" by blast
    with c step True show ?thesis by (subst while_prog.simps) simp
  next
    case False
    with c show ?thesis by (subst while_prog.simps) simp
  qed
qed

text \<open>A loop that leaves by a time after waiting for a timer in every round.\<close>

lemma timed_loop_returns:
  assumes "dv_timers_run V" and "0 < ms" and "\<And>h. \<exists>b h1. cond h = (Inr b, h1)"
    and "\<And>h h1. cond h = (Inr True, h1) \<Longrightarrow> h1 = h @ [DvNow] \<and> dv_clock V h < deadline"
  shows "\<exists>h'. while_prog cond (\<lambda>_. dv_timer ms) () h = Some (Inr (), h')"
proof (rule while_prog_succeeds [where \<mu> = "\<lambda>h. nat \<lceil>(deadline - dv_clock V h) / (ms / 1000)\<rceil>"])
  fix h h1 s s1 h2 assume "cond h = (Inr True, h1)" and "dv_timer ms h1 = (Inr s1, h2)"
  with assms(4) have h1: "h1 = h @ [DvNow]" "dv_clock V h < deadline" and h2: "h2 = h1 @ [DvTimer ms]"
    by (auto simp: dv_timer_def)
  have "dv_clock V h + ms / 1000 \<le> dv_clock V h2"
    using assms(1) unfolding dv_timers_run_def h2 h1(1) by (meson add_right_mono order_trans)
  with h1(2) assms(2) show "nat \<lceil>(deadline - dv_clock V h2) / (ms / 1000)\<rceil> < nat \<lceil>(deadline - dv_clock V h) / (ms / 1000)\<rceil>"
    by (intro rounds_left_shrink) simp_all
qed (use assms(3) in \<open>simp_all add: dv_timer_def act_def\<close>)

lemma collect_loop_returns: "dv_timers_run V \<Longrightarrow> \<exists>h'. collect_loop V expected deadline h = Some (Inr (), h')"
  unfolding collect_loop_def
  by (rule timed_loop_returns [where deadline = deadline])
    (auto simp: collect_cond_def dv_now_def prog_defs split: if_splits)

lemma ack_loop_returns: "dv_timers_run V \<Longrightarrow> \<exists>h'. ack_loop V expected deadline h = Some (Inr (), h')"
  unfolding ack_loop_def
  by (rule timed_loop_returns [where deadline = deadline])
    (auto simp: ack_cond_def dv_now_def prog_defs split: if_splits)

lemma connect_returns:
  assumes "dv_comes_up V"
  shows "\<exists>h'. dv_connect V h = Some (Inr (), h')"
proof -
  from assms obtain k where k: "\<And>h. k \<le> length h \<Longrightarrow> dv_connected V h" by (auto simp: dv_comes_up_def)
  have "\<exists>h'. wait_connected V g = Some (Inr (), h')" for g
    unfolding wait_connected_def
  proof (rule while_prog_succeeds [where \<mu> = "\<lambda>h. k - length h"])
    fix h h1 :: dvhist and s s1 :: unit and h2
    assume "(Inr (\<not> dv_connected V h), h) = (Inr True :: exc + bool, h1)" "dv_timer 5 h1 = (Inr s1, h2)"
    then have "\<not> dv_connected V h" "h2 = h @ [DvTimer 5]" by (auto simp: dv_runs)
    moreover have "length h < k" using k calculation(1) by (meson not_le)
    ultimately show "k - length h2 < k - length h" by simp
  qed (auto simp: dv_runs)
  then show ?thesis by (simp add: dv_connect_def then_loop_def act_def)
qed

end
