(* ===== verification/Driver_Runs.thy ===== *)
theory Driver_Runs
  imports Bench_Driver Throughput_Clean
begin

text \<open>
  The driver together with the scripts that start it: when it ends, and what a script makes of its
  output. The arguments are those the scripts pass (\<open>popen_subfield\<close>, \<open>bcast_argv\<close>).
\<close>

section \<open>When the driver ends\<close>

lemma count_messages_returns:
  assumes "dv_timers_run V" and "dv_comes_up V"
  shows "\<exists>h'. count_messages V right pattern expected timeout_ms h = Some (Inr (), h')"
proof -
  obtain h1 where con: "dv_connect V h = Some (Inr (), h1)" using connect_returns [OF assms(2)] by blast
  have report: "\<exists>h'. collect_and_report V right t0 expected timeout_ms g = Some (Inr (), h')" for t0 g
  proof -
    obtain h2 where "collect_loop V expected (dv_clock V g + of_int timeout_ms / 1000) (g @ [DvNow]) = Some (Inr (), h2)"
      using collect_loop_returns [OF assms(1)] by blast
    then show ?thesis
      by (simp add: collect_and_report_def obind_def straight_def prog_defs dv_defs)
  qed
  let ?h2 = "h1 @ [DvNow, DvSubscribe pattern]"
  show ?thesis
  proof (cases "dv_subscribe_ans V (h1 @ [DvNow]) pattern")
    case None
    with con report [of "dv_clock V h1" ?h2] show ?thesis
      by (auto simp: count_messages_def obind_def straight_def prog_defs dv_defs)
  next
    case (Some e)
    with con show ?thesis by (auto simp: count_messages_def obind_def straight_def prog_defs dv_defs)
  qed
qed

lemma run_context_cases:
  assumes "m h = Some (Inr (), h')"
  shows "run_context V m h = (if DvStop \<in> set h' \<or> dv_out_of_work V h' then Some (Inr 0, h') else None)"
  using assms by (simp add: run_context_def obind_def)

lemma do_ctrl_run:
  assumes "dv_connect V h = Some (Inr (), h1)"
  shows "do_ctrl V subject expr h = Some (Inr (), h1 @ DvRequest subject (dv_dump V expr None) 5000 #
    (case dv_request_ans V h1 subject (dv_dump V expr None) of
       Inl e \<Rightarrow> [DvErr (''CTRL_FAIL '' @ e @ [CHR 0x0A])]
     | Inr reply \<Rightarrow> [DvOut (''CTRL_REPLY '' @ reply @ [CHR 0x0A]), DvStop]))"
  using assms by (simp add: do_ctrl_def obind_def straight_def prog_defs dv_defs split: sum.split)

text \<open>
  C38. When the driver ends: with timers that run, a connection that comes up and an open connection
  that keeps the context busy, a subscriber ends exactly if its subscription is accepted, and
  a control request exactly if it is answered. On the failing paths of both the coroutine returns
  without stopping the context, so the program stays and the script that waits for it waits on.
\<close>

theorem driver_exits:
  assumes "dv_timers_run V" and "dv_comes_up V" and "\<forall>h. \<not> dv_out_of_work V h"
    and "\<forall>h. dv_subscribe_ans V h pattern = status"
    and "\<forall>h. dv_request_ans V h subject (dv_dump V expr None) = answer"
  shows "(if status = None
      then \<exists>g. driver_main V [''subfield'', pattern, n, ms, field, v] [] = Some (Inr 0, g)
      else driver_main V [''subfield'', pattern, n, ms, field, v] [] = None)
    \<and> (if isl answer then driver_main V [''ctrl'', subject, expr] [] = None
       else \<exists>g. driver_main V [''ctrl'', subject, expr] [] = Some (Inr 0, g) \<and> stdout_of g = ''CTRL_REPLY '' @ projr answer @ [CHR 0x0A])"
proof
  let ?right = "\<lambda>p. dv_field V field p = Some v"
  obtain g where g: "count_messages V ?right pattern (c_atol n) (c_atol ms) [] = Some (Inr (), g)"
    using count_messages_returns [OF assms(1,2)] by blast
  have "driver_main V [''subfield'', pattern, n, ms, field, v] []
      = run_context V (count_messages V ?right pattern (c_atol n) (c_atol ms)) []"
    by (simp add: driver_main_def do_subfield_def)
  also have "\<dots> = (if DvStop \<in> set g then Some (Inr 0, g) else None)"
    using run_context_cases [of "count_messages V ?right pattern (c_atol n) (c_atol ms)", OF g] assms(3) by simp
  finally have main: "driver_main V [''subfield'', pattern, n, ms, field, v] [] = (if DvStop \<in> set g then Some (Inr 0, g) else None)" .
  have "DvStop \<in> set g \<longleftrightarrow> status = None"
    using count_messages_run [OF g] assms(4) by (auto simp: still_def)
  with main show "if status = None
      then \<exists>g. driver_main V [''subfield'', pattern, n, ms, field, v] [] = Some (Inr 0, g)
      else driver_main V [''subfield'', pattern, n, ms, field, v] [] = None" by simp
next
  obtain h1 where con: "dv_connect V [] = Some (Inr (), h1)" using connect_returns [OF assms(2)] by blast
  have quiet: "stdout_of h1 = []" "DvStop \<notin> set h1" using still_connect [OF con] by (simp_all add: still_def)
  have main: "driver_main V [''ctrl'', subject, expr] [] = run_context V (do_ctrl V subject expr) []"
    by (simp add: driver_main_def)
  note run = run_context_cases [of "do_ctrl V subject expr", OF do_ctrl_run [OF con]]
  show "if isl answer then driver_main V [''ctrl'', subject, expr] [] = None
       else \<exists>g. driver_main V [''ctrl'', subject, expr] [] = Some (Inr 0, g) \<and> stdout_of g = ''CTRL_REPLY '' @ projr answer @ [CHR 0x0A]"
    unfolding main run using assms(3,5) quiet by (cases answer) simp_all
qed

text \<open>A server that answers at once and never delivers, with a clock that follows the timers.\<close>

fun tick :: "dvev \<Rightarrow> rat" where
  "tick (DvTimer ms) = max 0 (ms / 1000)"
| "tick _ = 0"

definition ticks :: "dvhist \<Rightarrow> rat" where
  "ticks h = sum_list (map tick h)"

definition demo_driver :: "(rat \<times> payload) list \<Rightarrow> dvenv" where
  "demo_driver ms = \<lparr>dv_connected = (\<lambda>_. True), dv_clock = ticks, dv_publish_ans = (\<lambda>_ _ _. None),
     dv_subscribe_ans = (\<lambda>_ _. None), dv_request_ans = (\<lambda>_ _ _. Inl ''timeout''), dv_messages = (\<lambda>_. ms),
     dv_rng = (\<lambda>_. 77), dv_inbox_ans = (\<lambda>_. ''_INBOX.1''), dv_pack = (\<lambda>_. []), dv_region = (\<lambda>_. None),
     dv_field = (\<lambda>f p. Some p), dv_has_error = (\<lambda>p. Some (p = ''error'')), dv_dump = (\<lambda>expr i. expr),
     dv_text = (\<lambda>_. ''2.5''), dv_out_of_work = (\<lambda>_. False)\<rparr>"

lemma demo_driver_time: "dv_timers_run (demo_driver ms)" "dv_comes_up (demo_driver ms)"
proof -
  have "0 \<le> tick ev" for ev by (cases ev) simp_all
  then show "dv_timers_run (demo_driver ms)" by (simp add: dv_timers_run_def demo_driver_def ticks_def)
  show "dv_comes_up (demo_driver ms)" by (simp add: dv_comes_up_def demo_driver_def)
qed

theorem driver_exits_witness:
  "driver_main (demo_driver []) [''ctrl'', ''sc.ctrl.0'', ''a = 1''] [] = None
   \<and> (\<exists>g. driver_main (demo_driver []) [''subfield'', ''out.>'', ''5'', ''100'', ''f'', ''v''] [] = Some (Inr 0, g))"
  using driver_exits [OF demo_driver_time, of "[]" "''out.>''" None "''sc.ctrl.0''" "''a = 1''" "Inl ''timeout''"
      "''5''" "''100''" "''f''" "''v''"]
  by (simp add: demo_driver_def)

section \<open>What the scripts read of it\<close>

text \<open>The stream prints a number without white space.\<close>

definition dv_text_ok :: "dvenv \<Rightarrow> bool" where
  "dv_text_ok V \<longleftrightarrow> (\<forall>x. dv_text V x \<noteq> [] \<and> (\<forall>c \<in> set (dv_text V x). \<not> py_isspace c))"

definition subfield_args :: "string list" where
  "subfield_args = [''subfield'', OUTPUT_PREFIX @ ''.>'', str_nat EXPECTED, ''90000'', FILTER_FIELD, FILTER_VALUE]"

lemma popen_subfield_args: "popen_subfield E = popen E (DRIVER E # subfield_args) None"
  by (simp add: popen_subfield_def subfield_args_def)

lemma subfield_output:
  assumes "driver_main V subfield_args [] = Some (Inr 0, g)" and "\<forall>h. \<not> dv_out_of_work V h"
  shows "\<exists>g0 t0 t1. g = g0 @ [DvOut (sub_report V (\<lambda>p. dv_field V FILTER_FIELD p = Some FILTER_VALUE) t0 t1 (dv_messages V g0)), DvStop]
    \<and> stdout_of g0 = []"
proof -
  let ?run = "count_messages V (\<lambda>p. dv_field V FILTER_FIELD p = Some FILTER_VALUE) (OUTPUT_PREFIX @ ''.>'') (c_atol (str_nat EXPECTED)) (c_atol ''90000'')"
  from assms have "run_context V ?run [] = Some (Inr 0, g)"
    by (simp add: driver_main_def subfield_args_def do_subfield_def)
  then have run: "?run [] = Some (Inr (), g)" and stopped: "DvStop \<in> set g"
    using assms(2) by (auto simp: run_context_def dv_eqs split: if_splits)
  from count_messages_run [OF run] stopped show ?thesis by (auto simp: still_def)
qed

text \<open>
  C6. The verdict of a run is about the messages: if what the script reads from its subscriber is what
  the driver, started with the arguments of the script, wrote, then a result of \<^verbatim>\<open>run_one\<close> is marked
  correct exactly when the driver's handler was given 21683 messages by the time of the report and
  each of them decodes to a field \<^verbatim>\<open>Exchange\<close> with the value \<^verbatim>\<open>N\<close>; the publish rate is 200000 rows
  over an elapsed time that is not zero, and the end-to-end rate is a number exactly when time has
  passed.
\<close>

theorem verdict_counts_messages:
  assumes "run_one E n tag mode h = (Inr (Some d), h')"
    and "driver_main V subfield_args [] = Some (Inr 0, g)" and "\<forall>h. \<not> dv_out_of_work V h"
    and "\<forall>h p. communicate_ans E h p = Inr (stdout_of g)" and "dv_text_ok V"
  shows "\<exists>g0 report. g = g0 @ [DvOut report, DvStop]
    \<and> (ok d \<longleftrightarrow> length (dv_messages V g0) = 21683
         \<and> (\<forall>(t, p) \<in> set (dv_messages V g0). dv_field V ''Exchange'' p = Some ''N''))
    \<and> pub_secs d \<noteq> 0 \<and> pub_rate d * pub_secs d = 200000 \<and> (e2e_rate d = NaN \<longleftrightarrow> e2e_secs d \<le> 0)"
proof -
  let ?right = "\<lambda>p. dv_field V FILTER_FIELD p = Some FILTER_VALUE"
  obtain g0 t0 t1 where g: "g = g0 @ [DvOut (sub_report V ?right t0 t1 (dv_messages V g0)), DvStop]" and "stdout_of g0 = []"
    using subfield_output [OF assms(2,3)] by blast
  then obtain secs rate where out: "stdout_of g = sub_done_line (length (dv_messages V g0)) (wrong_of ?right (dv_messages V g0))
      (dv_text V secs) (dv_text V rate) @ [CHR 0x0A]"
    by (auto simp: sub_report_def Let_def)
  have plain: "\<forall>c \<in> set (dv_text V x). \<not> py_isspace c" "dv_text V x \<noteq> []" for x
    using assms(5) by (auto simp: dv_text_ok_def)
  have verdict: "(ok d \<longleftrightarrow> length (dv_messages V g0) = 21683 \<and> wrong_of ?right (dv_messages V g0) = 0) \<and> pub_secs d \<noteq> 0
      \<and> pub_rate d * pub_secs d = 200000 \<and> (e2e_rate d = NaN \<longleftrightarrow> e2e_secs d \<le> 0)"
    by (rule run_one_verdict [OF assms(1), of "[]", OF _ _ plain(1) plain(1) plain(2)]) (simp_all add: assms(4) out)
  moreover have "wrong_of ?right ms = 0 \<longleftrightarrow> (\<forall>(t, p) \<in> set ms. ?right p)" for ms
    by (auto simp: wrong_of_def filter_empty_conv)
  ultimately show ?thesis using g by (auto simp: FILTER_FIELD_def FILTER_VALUE_def)
qed

lemma demo_text_ok: "dv_text_ok (demo_driver ms)"
  by (simp add: dv_text_ok_def demo_driver_def py_isspace_def)

lemma demo_driver_runs:
  "\<exists>g rep. driver_main (demo_driver ms) subfield_args [] = Some (Inr 0, g) \<and> stdout_of g = rep @ [CHR 0x0A]"
proof -
  let ?V = "demo_driver ms" and ?right = "\<lambda>p. dv_field (demo_driver ms) FILTER_FIELD p = Some FILTER_VALUE"
  obtain g where g: "count_messages ?V ?right (OUTPUT_PREFIX @ ''.>'') (c_atol (str_nat EXPECTED)) (c_atol ''90000'') [] = Some (Inr (), g)"
    using count_messages_returns [OF demo_driver_time] by blast
  from count_messages_run [OF g] obtain g0 t0 t1 where "g = g0 @ [DvOut (sub_report ?V ?right t0 t1 (dv_messages ?V g0)), DvStop]" "still [] g0"
    by (auto simp: demo_driver_def)
  then have "DvStop \<in> set g" "\<exists>rep. stdout_of g = rep @ [CHR 0x0A]" by (auto simp: still_def sub_report_def Let_def)
  then show ?thesis
    using run_context_cases [of "count_messages ?V ?right (OUTPUT_PREFIX @ ''.>'') (c_atol (str_nat EXPECTED)) (c_atol ''90000'')", OF g]
    by (simp add: driver_main_def subfield_args_def do_subfield_def)
qed

text \<open>The driver is given the expected number of messages, one of them with another value.\<close>

theorem verdict_counts_messages_witness:
  "\<exists>d h' rep. run_one (demo_env rep) 1 ''t'' ''plain'' [] = (Inr (Some d), h') \<and> \<not> ok d"
proof -
  let ?V = "demo_driver ((0, ''X'') # replicate 21682 (0, ''N''))"
  obtain g rep where g: "driver_main ?V subfield_args [] = Some (Inr 0, g)" "stdout_of g = rep @ [CHR 0x0A]"
    using demo_driver_runs by blast
  obtain d h' where run: "run_one (demo_env rep) 1 ''t'' ''plain'' [] = (Inr (Some d), h')"
    using demo_clean_run by blast
  have "\<forall>h p. communicate_ans (demo_env rep) h p = Inr (stdout_of g)" by (simp add: demo_env_def g(2))
  from verdict_counts_messages [OF run g(1) _ this demo_text_ok] have "\<not> ok d" by (simp add: demo_driver_def)
  with run show ?thesis by blast
qed









end
