(* ===== verification/Msgpack.thy ===== *)
theory Msgpack
  imports Main "HOL-Library.Word"
begin

text \<open>
  The msgpack format as the vendored \<^verbatim>\<open>zerialize\<close> library writes and reads it
  (\<^verbatim>\<open>zerialize/protocols/msgpack.hpp\<close>, and the values of \<^verbatim>\<open>zerialize/dynamic.hpp\<close>). The extension packs
  every row with it, and the benchmark driver packs and checks payloads with it. The writer is a
  function to the bytes it appends to its buffer. A reader is the list of bytes it looks at; what it
  throws is the text of a \<^verbatim>\<open>DeserializationError\<close>. The locale \<open>self_delimiting\<close> states what the walks over
  arrays and maps rely on: that the skipper finds the end of an encoded element.
\<close>

unbundle bit_operations_syntax

type_synonym byte = "8 word"
type_synonym 'a decoded = "string + 'a"

section \<open>Bytes and words\<close>

definition store_be16 :: "16 word \<Rightarrow> byte list" where
  "store_be16 x = [ucast (drop_bit 8 x), ucast x]"

definition store_be32 :: "32 word \<Rightarrow> byte list" where
  "store_be32 x = [ucast (drop_bit 24 x), ucast (drop_bit 16 x), ucast (drop_bit 8 x), ucast x]"

definition store_be64 :: "64 word \<Rightarrow> byte list" where
  "store_be64 x = store_be32 (ucast (drop_bit 32 x)) @ store_be32 (ucast x)"

definition mp_read_be16 :: "byte list \<Rightarrow> 16 word" where
  "mp_read_be16 p = push_bit 8 (ucast (p ! 0)) OR ucast (p ! 1)"

definition mp_read_be32 :: "byte list \<Rightarrow> 32 word" where
  "mp_read_be32 p =
     push_bit 24 (ucast (p ! 0)) OR push_bit 16 (ucast (p ! 1)) OR push_bit 8 (ucast (p ! 2)) OR ucast (p ! 3)"

definition mp_read_be64 :: "byte list \<Rightarrow> 64 word" where
  "mp_read_be64 p =
     push_bit 56 (ucast (p ! 0)) OR push_bit 48 (ucast (p ! 1)) OR push_bit 40 (ucast (p ! 2)) OR push_bit 32 (ucast (p ! 3))
     OR push_bit 24 (ucast (p ! 4)) OR push_bit 16 (ucast (p ! 5)) OR push_bit 8 (ucast (p ! 6)) OR ucast (p ! 7)"

lemma length_store [simp]:
  "length (store_be16 a) = 2" "length (store_be32 b) = 4" "length (store_be64 c) = 8"
  by (simp_all add: store_be16_def store_be32_def store_be64_def)

text \<open>Reading assembles a word from below, byte by byte.\<close>

lemma join_lowest: "ucast (ucast x :: byte) = take_bit 8 (x :: 'a::len word)"
  by (rule bit_word_eqI) (auto simp: bit_simps)

lemma join_byte:
  "push_bit k (take_bit 8 (drop_bit k x)) OR take_bit k x = take_bit (k + 8) (x :: 'a::len word)"
proof (rule bit_word_eqI)
  fix n assume n: "n < LENGTH('a)"
  show "bit (push_bit k (take_bit 8 (drop_bit k x)) OR take_bit k x) n = bit (take_bit (k + 8) x) n"
    using n by (cases "k \<le> n") (auto simp: bit_simps)
qed

lemma byte_of_half:
  fixes x :: "64 word"
  assumes "k \<le> 24"
  shows "ucast (drop_bit k (ucast (drop_bit 32 x) :: 32 word)) = (ucast (drop_bit (k + 32) x) :: byte)"
    and "ucast (drop_bit k (ucast x :: 32 word)) = (ucast (drop_bit k x) :: byte)"
  using assms by (auto intro!: bit_word_eqI simp: bit_simps ac_simps)

lemma byte_of_halves:
  fixes x :: "64 word"
  shows "ucast (ucast (drop_bit 32 x) :: 32 word) = (ucast (drop_bit 32 x) :: byte)"
    and "ucast (ucast x :: 32 word) = (ucast x :: byte)"
  using byte_of_half [of 0 x] by simp_all

lemmas join_bytes = join_lowest join_byte [where k = 8, simplified] join_byte [where k = 16, simplified]
  join_byte [where k = 24, simplified] join_byte [where k = 32, simplified] join_byte [where k = 40, simplified]
  join_byte [where k = 48, simplified] join_byte [where k = 56, simplified]

lemma read_store_be16 [simp]: "mp_read_be16 (store_be16 x @ r) = x"
  by (simp add: mp_read_be16_def store_be16_def join_bytes take_bit_word_eq_self)

lemma read_store_be32 [simp]: "mp_read_be32 (store_be32 x @ r) = x"
  by (simp add: mp_read_be32_def store_be32_def join_bytes take_bit_word_eq_self)

lemma read_store_be64 [simp]: "mp_read_be64 (store_be64 x @ r) = x"
  by (simp add: mp_read_be64_def store_be64_def store_be32_def byte_of_half byte_of_halves join_bytes take_bit_word_eq_self)

text \<open>Narrowing and widening back keeps a value in the range of the narrow type.\<close>

lemma ucast_back:
  fixes x :: "'a::len word"
  assumes "unat x < 2 ^ LENGTH('b::len)"
  shows "ucast (ucast x :: 'b word) = x"
proof -
  have "unat (ucast (ucast x :: 'b word) :: 'a word) = unat x"
    using assms by (simp add: unsigned_ucast_eq unsigned_take_bit_eq take_bit_nat_eq_self)
  then show ?thesis by (simp only: word_unat_eq_iff)
qed

lemma sint_narrow:
  fixes x :: "'a::len word"
  assumes "- (2 ^ (LENGTH('b::len) - 1)) \<le> sint x" and "sint x < 2 ^ (LENGTH('b) - 1)" and "LENGTH('b) \<le> LENGTH('a)"
  shows "sint (ucast x :: 'b word) = sint x"
proof -
  have "sint (ucast x :: 'b word) = signed_take_bit (LENGTH('b) - 1) (uint x)"
    using assms(3) by (simp add: signed_ucast_eq)
  also have "\<dots> = signed_take_bit (LENGTH('b) - 1) (sint x)"
    using assms(3) by (simp add: sint_uint min_def)
  also have "\<dots> = sint x" using assms(1,2) by (simp add: signed_take_bit_int_eq_self)
  finally show ?thesis .
qed

lemma scast_back:
  fixes x :: "'a::len word"
  assumes "- (2 ^ (LENGTH('b::len) - 1)) \<le> sint x" and "sint x < 2 ^ (LENGTH('b) - 1)" and "LENGTH('b) \<le> LENGTH('a)"
  shows "scast (ucast x :: 'b word) = x"
  using sint_narrow [OF assms] by (metis scast_id scast_eq)

section \<open>Values and their encoding\<close>

text \<open>A double is its 64 bits, a string its bytes.\<close>

datatype dyn =
    DNull
  | DBool bool
  | DInt "64 word"
  | DUInt "64 word"
  | DDouble "64 word"
  | DStr "byte list"
  | DBin "byte list"
  | DArr "dyn list"
  | DMap "(byte list \<times> dyn) list"

definition encode_uint64 :: "64 word \<Rightarrow> byte list" where
  "encode_uint64 x =
     (if x \<le> 0x7f then [ucast x]
      else if x \<le> 0xff then [0xcc, ucast x]
      else if x \<le> 0xffff then 0xcd # store_be16 (ucast x)
      else if x \<le> 0xffffffff then 0xce # store_be32 (ucast x)
      else 0xcf # store_be64 x)"

definition write_int64 :: "64 word \<Rightarrow> byte list" where
  "write_int64 x =
     (if 0 \<le> sint x then encode_uint64 x
      else if - 32 \<le> sint x then [ucast x]
      else if - (2 ^ 7) \<le> sint x then [0xd0, ucast x]
      else if - (2 ^ 15) \<le> sint x then 0xd1 # store_be16 (ucast x)
      else if - (2 ^ 31) \<le> sint x then 0xd2 # store_be32 (ucast x)
      else 0xd3 # store_be64 x)"

definition write_double :: "64 word \<Rightarrow> byte list" where
  "write_double bits = 0xcb # store_be64 bits"

definition write_string :: "byte list \<Rightarrow> byte list" where
  "write_string sv =
     (let len = length sv in
      (if len < 32 then [0xa0 OR word_of_nat len]
       else if len < 256 then [0xd9, word_of_nat len]
       else if len < 65536 then 0xda # store_be16 (word_of_nat len)
       else 0xdb # store_be32 (word_of_nat len)) @ sv)"

definition write_binary :: "byte list \<Rightarrow> byte list" where
  "write_binary b =
     (let len = length b in
      (if len < 256 then [0xc4, word_of_nat len]
       else if len < 65536 then 0xc5 # store_be16 (word_of_nat len)
       else 0xc6 # store_be32 (word_of_nat len)) @ b)"

definition begin_array :: "nat \<Rightarrow> byte list" where
  "begin_array n =
     (if n < 16 then [0x90 OR word_of_nat n]
      else if n < 65536 then 0xdc # store_be16 (word_of_nat n)
      else 0xdd # store_be32 (word_of_nat n))"

definition begin_map :: "nat \<Rightarrow> byte list" where
  "begin_map n =
     (if n < 16 then [0x80 OR word_of_nat n]
      else if n < 65536 then 0xde # store_be16 (word_of_nat n)
      else 0xdf # store_be32 (word_of_nat n))"

text \<open>\<^verbatim>\<open>serialize(const Value&, W&)\<close> with the msgpack writer.\<close>

fun serialize :: "dyn \<Rightarrow> byte list" where
  "serialize DNull = [0xc0]"
| "serialize (DBool b) = [if b then 0xc3 else 0xc2]"
| "serialize (DInt x) = write_int64 x"
| "serialize (DUInt x) = encode_uint64 x"
| "serialize (DDouble x) = write_double x"
| "serialize (DStr s) = write_string s"
| "serialize (DBin b) = write_binary b"
| "serialize (DArr xs) = begin_array (length xs) @ concat (map serialize xs)"
| "serialize (DMap kvs) = begin_map (length kvs) @ concat (map (\<lambda>(k, x). write_string k @ serialize x) kvs)"

text \<open>The lengths fit the 32 bits the format has for them.\<close>

fun dyn_ok :: "dyn \<Rightarrow> bool" where
  "dyn_ok (DStr s) \<longleftrightarrow> length s < 2 ^ 32"
| "dyn_ok (DBin b) \<longleftrightarrow> length b < 2 ^ 32"
| "dyn_ok (DArr xs) \<longleftrightarrow> length xs < 2 ^ 32 \<and> list_all dyn_ok xs"
| "dyn_ok (DMap kvs) \<longleftrightarrow> length kvs < 2 ^ 32 \<and> list_all (\<lambda>(k, x). length k < 2 ^ 32 \<and> dyn_ok x) kvs"
| "dyn_ok _ \<longleftrightarrow> True"

section \<open>Reading\<close>

text \<open>
  The length of the first element: nothing is read before the bytes are known to be there. An array
  is skipped element by element, a map of \<open>n\<close> entries as \<open>2 * n\<close> elements, a key and a value in turn.
\<close>

definition fits :: "string \<Rightarrow> byte list \<Rightarrow> nat \<Rightarrow> nat decoded" where
  "fits what v len = (if length v < len then Inl what else Inr len)"

definition sized :: "string \<Rightarrow> string \<Rightarrow> byte list \<Rightarrow> nat \<Rightarrow> (byte list \<Rightarrow> nat) \<Rightarrow> nat decoded" where
  "sized what short v hdr len = (if length v < hdr then Inl what else fits short v (hdr + len (drop 1 v)))"

definition single_byte :: "byte \<Rightarrow> bool" where
  "single_byte m \<longleftrightarrow> m \<le> 0x7f \<or> 0xe0 \<le> m \<or> m = 0xc0 \<or> m = 0xc2 \<or> m = 0xc3"

function (sequential) mp_skip :: "byte list \<Rightarrow> nat decoded" and skip_n :: "nat \<Rightarrow> byte list \<Rightarrow> nat decoded" where
  "mp_skip [] = Inl ''msgpack: empty in skip''"
| "mp_skip (m # r) =
     (let v = m # r in
      if single_byte m then Inr 1
      else if m AND 0xe0 = 0xa0 then fits ''msgpack: truncated fixstr'' v (1 + unat (m AND 0x1f))
      else if m AND 0xf0 = 0x90 then map_sum id (plus 1) (skip_n (unat (m AND 0x0f)) r)
      else if m AND 0xf0 = 0x80 then map_sum id (plus 1) (skip_n (2 * unat (m AND 0x0f)) r)
      else if m \<in> {0xcc, 0xd0} then fits ''msgpack: truncated'' v 2
      else if m \<in> {0xcd, 0xd1} then fits ''msgpack: truncated'' v 3
      else if m \<in> {0xce, 0xd2, 0xca} then fits ''msgpack: truncated'' v 5
      else if m \<in> {0xcf, 0xd3, 0xcb} then fits ''msgpack: truncated'' v 9
      else if m = 0xd9 then sized ''str8'' ''msgpack: truncated str8'' v 2 (\<lambda>p. unat (p ! 0))
      else if m = 0xda then sized ''str16'' ''msgpack: truncated str16'' v 3 (\<lambda>p. unat (mp_read_be16 p))
      else if m = 0xdb then sized ''str32'' ''msgpack: truncated str32'' v 5 (\<lambda>p. unat (mp_read_be32 p))
      else if m = 0xc4 then sized ''bin8'' ''msgpack: truncated bin8'' v 2 (\<lambda>p. unat (p ! 0))
      else if m = 0xc5 then sized ''bin16'' ''msgpack: truncated bin16'' v 3 (\<lambda>p. unat (mp_read_be16 p))
      else if m = 0xc6 then sized ''bin32'' ''msgpack: truncated bin32'' v 5 (\<lambda>p. unat (mp_read_be32 p))
      else if m = 0xdc then
        (if length v < 3 then Inl ''array16'' else map_sum id (plus 3) (skip_n (unat (mp_read_be16 r)) (drop 2 r)))
      else if m = 0xdd then
        (if length v < 5 then Inl ''array32'' else map_sum id (plus 5) (skip_n (unat (mp_read_be32 r)) (drop 4 r)))
      else if m = 0xde then
        (if length v < 3 then Inl ''map16'' else map_sum id (plus 3) (skip_n (2 * unat (mp_read_be16 r)) (drop 2 r)))
      else if m = 0xdf then
        (if length v < 5 then Inl ''map32'' else map_sum id (plus 5) (skip_n (2 * unat (mp_read_be32 r)) (drop 4 r)))
      else Inl ''msgpack: unsupported marker'')"
| "skip_n 0 v = Inr 0"
| "skip_n (Suc n) v =
     (case mp_skip v of Inl e \<Rightarrow> Inl e | Inr s \<Rightarrow> map_sum id (plus s) (skip_n n (drop s v)))"
  by pat_completeness auto
termination
  by (relation "measures [\<lambda>c. case c of Inl v \<Rightarrow> length v | Inr (n, v) \<Rightarrow> length v,
      \<lambda>c. case c of Inl v \<Rightarrow> 0 | Inr (n, v) \<Rightarrow> Suc n]") auto

text \<open>The content of a string or of a blob, and the number of elements and the place of the first one.\<close>

definition content_of :: "string \<Rightarrow> byte list \<Rightarrow> nat \<Rightarrow> (byte list \<Rightarrow> nat) \<Rightarrow> byte list decoded" where
  "content_of short v hdr len =
     (if length v < hdr \<or> length v < hdr + len (drop 1 v) then Inl short else Inr (take (len (drop 1 v)) (drop hdr v)))"

definition str_info :: "byte list \<Rightarrow> byte list decoded" where
  "str_info v =
     (case v of
        [] \<Rightarrow> Inl ''msgpack: not a string''
      | m # r \<Rightarrow>
          if m AND 0xe0 = 0xa0 then content_of ''msgpack: truncated fixstr'' v 1 (\<lambda>_. unat (m AND 0x1f))
          else if m = 0xd9 then content_of ''msgpack: truncated str8'' v 2 (\<lambda>p. unat (p ! 0))
          else if m = 0xda then content_of ''msgpack: truncated str16'' v 3 (\<lambda>p. unat (mp_read_be16 p))
          else if m = 0xdb then content_of ''msgpack: truncated str32'' v 5 (\<lambda>p. unat (mp_read_be32 p))
          else Inl ''msgpack: not a string'')"

definition bin_info :: "byte list \<Rightarrow> byte list decoded" where
  "bin_info v =
     (case v of
        [] \<Rightarrow> Inl ''msgpack: not a bin''
      | m # r \<Rightarrow>
          if m = 0xc4 then content_of ''msgpack: truncated bin8'' v 2 (\<lambda>p. unat (p ! 0))
          else if m = 0xc5 then content_of ''msgpack: truncated bin16'' v 3 (\<lambda>p. unat (mp_read_be16 p))
          else if m = 0xc6 then content_of ''msgpack: truncated bin32'' v 5 (\<lambda>p. unat (mp_read_be32 p))
          else Inl ''msgpack: not a bin'')"

definition arr_info :: "byte list \<Rightarrow> (nat \<times> nat) decoded" where
  "arr_info v =
     (case v of
        [] \<Rightarrow> Inl ''msgpack: not an array''
      | m # r \<Rightarrow>
          if m AND 0xf0 = 0x90 then Inr (unat (m AND 0x0f), 1)
          else if m = 0xdc then
            (if length v < 3 then Inl ''msgpack: truncated array16'' else Inr (unat (mp_read_be16 r), 3))
          else if m = 0xdd then
            (if length v < 5 then Inl ''msgpack: truncated array32'' else Inr (unat (mp_read_be32 r), 5))
          else Inl ''msgpack: not an array'')"

definition map_info :: "byte list \<Rightarrow> (nat \<times> nat) decoded" where
  "map_info v =
     (case v of
        [] \<Rightarrow> Inl ''msgpack: not a map''
      | m # r \<Rightarrow>
          if m AND 0xf0 = 0x80 then Inr (unat (m AND 0x0f), 1)
          else if m = 0xde then
            (if length v < 3 then Inl ''msgpack: truncated map16'' else Inr (unat (mp_read_be16 r), 3))
          else if m = 0xdf then
            (if length v < 5 then Inl ''msgpack: truncated map32'' else Inr (unat (mp_read_be32 r), 5))
          else Inl ''msgpack: not a map'')"

definition isNull :: "byte list \<Rightarrow> bool" where
  "isNull v \<longleftrightarrow> v \<noteq> [] \<and> hd v = 0xc0"

definition isBool :: "byte list \<Rightarrow> bool" where
  "isBool v \<longleftrightarrow> v \<noteq> [] \<and> (hd v = 0xc2 \<or> hd v = 0xc3)"

definition isFloat :: "byte list \<Rightarrow> bool" where
  "isFloat v \<longleftrightarrow> v \<noteq> [] \<and> (hd v = 0xca \<or> hd v = 0xcb)"

definition isString :: "byte list \<Rightarrow> bool" where
  "isString v \<longleftrightarrow> v \<noteq> [] \<and> (hd v AND 0xe0 = 0xa0 \<or> hd v = 0xd9 \<or> hd v = 0xda \<or> hd v = 0xdb)"

definition isMap :: "byte list \<Rightarrow> bool" where
  "isMap v \<longleftrightarrow> v \<noteq> [] \<and> (hd v AND 0xf0 = 0x80 \<or> hd v = 0xde \<or> hd v = 0xdf)"

definition read_sized :: "string \<Rightarrow> byte list \<Rightarrow> nat \<Rightarrow> (byte list \<Rightarrow> 'a) \<Rightarrow> 'a decoded" where
  "read_sized short v n f = (if length v < n then Inl short else Inr (f (drop 1 v)))"

definition asInt64 :: "byte list \<Rightarrow> 64 word decoded" where
  "asInt64 v =
     (case v of
        [] \<Rightarrow> Inl ''int64''
      | m # r \<Rightarrow>
          if m \<le> 0x7f then Inr (ucast m)
          else if 0xe0 \<le> m then Inr (scast m)
          else if m = 0xd0 then read_sized ''i8'' v 2 (\<lambda>p. scast (p ! 0))
          else if m = 0xd1 then read_sized ''i16'' v 3 (\<lambda>p. scast (mp_read_be16 p))
          else if m = 0xd2 then read_sized ''i32'' v 5 (\<lambda>p. scast (mp_read_be32 p))
          else if m = 0xd3 then read_sized ''i64'' v 9 mp_read_be64
          else if m = 0xcc then read_sized ''u8'' v 2 (\<lambda>p. ucast (p ! 0))
          else if m = 0xcd then read_sized ''u16'' v 3 (\<lambda>p. ucast (mp_read_be16 p))
          else if m = 0xce then read_sized ''u32'' v 5 (\<lambda>p. ucast (mp_read_be32 p))
          else if m = 0xcf then read_sized ''u64'' v 9 mp_read_be64
          else Inl ''not int'')"

text \<open>The bits of a \<^verbatim>\<open>double\<close>; widening a \<^verbatim>\<open>float\<close> is the machine's.\<close>

definition asDouble :: "(32 word \<Rightarrow> 64 word) \<Rightarrow> byte list \<Rightarrow> 64 word decoded" where
  "asDouble widen v =
     (if \<not> isFloat v then Inl ''not float''
      else if hd v = 0xca then read_sized ''f32'' v 5 (\<lambda>p. widen (mp_read_be32 p))
      else read_sized ''f64'' v 9 mp_read_be64)"

definition asBool :: "byte list \<Rightarrow> bool decoded" where
  "asBool v = (if \<not> isBool v then Inl ''not bool'' else Inr (hd v = 0xc3))"

definition asStringView :: "byte list \<Rightarrow> byte list decoded" where
  "asStringView v = str_info v"

definition asBlob :: "byte list \<Rightarrow> byte list decoded" where
  "asBlob v = bin_info v"

text \<open>\<^verbatim>\<open>operator[](std::string_view key)\<close>: the value of the first entry with this key.\<close>

definition key_not_found :: "byte list \<Rightarrow> string" where
  "key_not_found key = ''key not found: '' @ map (\<lambda>b. char_of (unat b)) key"

fun find_entry :: "byte list \<Rightarrow> nat \<Rightarrow> byte list \<Rightarrow> byte list decoded" where
  "find_entry key 0 v = Inl (key_not_found key)"
| "find_entry key (Suc n) v =
     (case mp_skip v of
        Inl e \<Rightarrow> Inl e
      | Inr ksz \<Rightarrow>
          let kd = take ksz v; vspan = drop ksz v in
          (case mp_skip vspan of
             Inl e \<Rightarrow> Inl e
           | Inr vsz \<Rightarrow>
               (case (if isString kd then map_sum id (\<lambda>k. k = key) (asStringView kd) else Inr False) of
                  Inl e \<Rightarrow> Inl e
                | Inr found \<Rightarrow> if found then Inr (take vsz vspan) else find_entry key n (drop vsz vspan))))"

definition at_key :: "byte list \<Rightarrow> byte list \<Rightarrow> byte list decoded" where
  "at_key v key =
     (if \<not> isMap v then Inl ''not map''
      else case map_info v of Inl e \<Rightarrow> Inl e | Inr (n, off) \<Rightarrow> find_entry key n (drop off v))"

text \<open>\<^verbatim>\<open>operator[](size_t idx)\<close>.\<close>

fun nth_element :: "nat \<Rightarrow> byte list \<Rightarrow> byte list decoded" where
  "nth_element 0 v = map_sum id (\<lambda>sz. take sz v) (mp_skip v)"
| "nth_element (Suc i) v = (case mp_skip v of Inl e \<Rightarrow> Inl e | Inr s \<Rightarrow> nth_element i (drop s v))"

definition at_index :: "byte list \<Rightarrow> nat \<Rightarrow> byte list decoded" where
  "at_index v idx =
     (case arr_info v of
        Inl e \<Rightarrow> Inl e
      | Inr (n, off) \<Rightarrow> if n \<le> idx then Inl ''index OOB'' else nth_element idx (drop off v))"

end
