(* ===== verification/Pg_Ext.thy ===== *)
theory Pg_Ext
  imports Py_Text Msgpack
begin

text \<open>
  The ground of the PostgreSQL extension \<^verbatim>\<open>pg_blazingmq.cpp\<close>: the state of a backend process, code that
  can throw a C++ exception or leave through \<^verbatim>\<open>ereport(ERROR)\<close>, and the session and the cache of queue
  handles. What the BlazingMQ client, the server and the clock answer is a record of functions of the
  backend's trace, a parameter of every definition. The locale \<open>effect\<close> proves once, for every relation
  between states that is reflexive and transitive, that code keeps it if its calls do.
\<close>

named_theorems effect_intros \<open>code that keeps a relation between states\<close>

named_theorems halts_intros \<open>code that returns\<close>

section \<open>Interactions of a backend\<close>

record message =
  m_guid :: nat
  m_queue :: string
  m_data :: "byte list"

text \<open>An event of the session: messages pushed to the consumer, other message events, anything else.\<close>

datatype bmq_event = PushEvent "message list" | OtherMessageEvent | OtherEvent

datatype datum = ByValue "64 word" | Varlena "byte list"

datatype propval = PropBool bool | PropShort "16 word" | PropInt32 "32 word" | PropInt64 "64 word" | PropString "byte list"

type_synonym props = "(string \<times> propval) list"

text \<open>Calls of the server, of its shared memory and its workers, and of the BlazingMQ client.\<close>

datatype pg_call =
    LookupTupdesc
  | ReleaseTupdesc
  | TypeOutputInfo nat
  | OutputCall nat datum
  | PutValues "byte list"
  | PgWarning string
  | PgLog string
  | CheckInterrupts
  | ReadShutdown
  | StartTransaction
  | Callback nat "byte list"
  | AbortTransaction
  | CommitTransaction

text \<open>What a subscriber is told through shared memory, with texts in buffers of 512 bytes.\<close>

record SubscriberConfig =
  cfg_dbid :: nat
  cfg_roleid :: nat
  cfg_callback_fn :: nat
  cfg_queue_uri :: string
  cfg_subscription_expr :: string

datatype worker_call =
    SearchProc nat
  | DsmCreate
  | WriteConfig nat SubscriberConfig
  | DsmPin
  | DsmDetach
  | DsmAttach nat
  | RegisterWorker nat
  | WaitStartup
  | ReadReady
  | WriteReady
  | USleep int
  | SpiSelect "32 word"
  | KillTerm "32 word"
  | InitConnection nat nat

datatype xev =
    Pg pg_call
  | Wk worker_call
  | StartSession string
  | OnProcExit
  | StopSession
  | AddSubscription string
  | OpenQueue string string                       \<comment> \<open>URI and subscription expression\<close>
  | ConfigureQueue string string
  | PackMessage nat "byte list" "props option"
  | PostMessage nat "byte list" "props option"
  | SteadyClock
  | NextEvent int                                 \<comment> \<open>the time it may take, in milliseconds\<close>
  | LoadConfirms
  | AddConfirm message
  | ConfirmMessages
  | ConfirmMessage message

text \<open>What leaves a function: a C++ exception, with or without a text, or an error of the server.\<close>

datatype xerr =
    Thrown string
  | ThrownOther
  | Ereport string "string option"    \<comment> \<open>message and detail\<close>
  | Exited                            \<comment> \<open>the process ended\<close>

record queue_entry =
  queueId :: nat             \<comment> \<open>the position of the call that opened it\<close>
  subscriptionExpr :: string

record backend =
  trace :: "xev list"
  broker_uri :: string                       \<comment> \<open>the setting \<^verbatim>\<open>blazingmq.broker_uri\<close>\<close>
  g_session :: bool
  g_queues :: "string \<rightharpoonup> queue_entry"
  exit_hook_registered :: bool
  seg_detached :: bool                       \<comment> \<open>the variable of \<^verbatim>\<open>bmq_subscriber_main\<close> that its handler reads\<close>

definition backend_init :: "string \<Rightarrow> backend" where
  "backend_init uri = \<lparr>trace = [], broker_uri = uri, g_session = False, g_queues = Map.empty, exit_hook_registered = False,
     seg_detached = False\<rparr>"

section \<open>Code\<close>

text \<open>\<open>None\<close> is code that does not return.\<close>

type_synonym 'a bk = "backend \<Rightarrow> ((xerr + 'a) \<times> backend) option"

definition xret :: "'a \<Rightarrow> 'a bk" where
  "xret x s = Some (Inr x, s)"

definition xraise :: "xerr \<Rightarrow> 'a bk" where
  "xraise e s = Some (Inl e, s)"

definition xbind :: "'a bk \<Rightarrow> ('a \<Rightarrow> 'b bk) \<Rightarrow> 'b bk" where
  "xbind m f s =
     (case m s of None \<Rightarrow> None | Some (Inl e, s') \<Rightarrow> Some (Inl e, s') | Some (Inr x, s') \<Rightarrow> f x s')"

definition xthen :: "'a bk \<Rightarrow> 'b bk \<Rightarrow> 'b bk" where
  "xthen m k = xbind m (\<lambda>_. k)"

definition xcall :: "(xev list \<Rightarrow> xerr + 'a) \<Rightarrow> xev \<Rightarrow> 'a bk" where
  "xcall ans ev s = Some (ans (trace s), s\<lparr>trace := trace s @ [ev]\<rparr>)"

definition xtell :: "xev \<Rightarrow> unit bk" where
  "xtell ev = xcall (\<lambda>_. Inr ()) ev"

definition xget :: "(backend \<Rightarrow> 'a) \<Rightarrow> 'a bk" where
  "xget f s = Some (Inr (f s), s)"

text \<open>
  A \<^verbatim>\<open>try\<close> block with its handlers for \<^verbatim>\<open>std::exception\<close> and for everything else. An error of the server is
  a \<^verbatim>\<open>longjmp\<close>: no handler sees it.
\<close>

definition try_catch :: "'a bk \<Rightarrow> (string \<Rightarrow> 'a bk) \<Rightarrow> 'a bk \<Rightarrow> 'a bk" where
  "try_catch m handler other s =
     (case m s of
        Some (Inl (Thrown what), s') \<Rightarrow> handler what s'
      | Some (Inl ThrownOther, s') \<Rightarrow> other s'
      | r \<Rightarrow> r)"

partial_function (option) xwhile :: "('s \<Rightarrow> bool bk) \<Rightarrow> ('s \<Rightarrow> 's bk) \<Rightarrow> 's \<Rightarrow> backend \<Rightarrow> ((xerr + 's) \<times> backend) option" where
  "xwhile cond body x s =
     (case cond x s of
        None \<Rightarrow> None
      | Some (Inl e, s1) \<Rightarrow> Some (Inl e, s1)
      | Some (Inr b, s1) \<Rightarrow>
          if b then
            (case body x s1 of
               None \<Rightarrow> None
             | Some (Inl e, s2) \<Rightarrow> Some (Inl e, s2)
             | Some (Inr x', s2) \<Rightarrow> xwhile cond body x' s2)
          else Some (Inr x, s1))"

lemmas bk_defs = xret_def xraise_def xbind_def xthen_def xcall_def xtell_def xget_def

lemma xbind_eq_Inr: "xbind m f s = Some (Inr y, s') \<longleftrightarrow> (\<exists>x s1. m s = Some (Inr x, s1) \<and> f x s1 = Some (Inr y, s'))"
  by (auto simp: xbind_def split: option.splits sum.splits)

lemma xthen_eq_Inr: "xthen m k s = Some (Inr y, s') \<longleftrightarrow> (\<exists>x s1. m s = Some (Inr x, s1) \<and> k s1 = Some (Inr y, s'))"
  by (simp add: xthen_def xbind_eq_Inr)

lemma xret_eq: "xret x s = Some (r, s') \<longleftrightarrow> r = Inr x \<and> s' = s"
  by (auto simp: xret_def)

lemma xraise_eq: "xraise e s = Some (r, s') \<longleftrightarrow> r = Inl e \<and> s' = s"
  by (auto simp: xraise_def)

lemma xcall_eq: "xcall ans ev s = Some (r, s') \<longleftrightarrow> ans (trace s) = r \<and> s' = s\<lparr>trace := trace s @ [ev]\<rparr>"
  by (auto simp: xcall_def)

lemma xtell_eq: "xtell ev s = Some (r, s') \<longleftrightarrow> r = Inr () \<and> s' = s\<lparr>trace := trace s @ [ev]\<rparr>"
  by (auto simp: xtell_def xcall_def)

lemma xget_eq: "xget f s = Some (r, s') \<longleftrightarrow> r = Inr (f s) \<and> s' = s"
  by (auto simp: xget_def)

lemma if_bk_eq: "(if b then m else k) s = Some r \<longleftrightarrow> b \<and> m s = Some r \<or> \<not> b \<and> k s = Some r"
  by simp

lemma option_bk_eq:
  "(case x of None \<Rightarrow> m | Some y \<Rightarrow> f y) s = Some r \<longleftrightarrow> x = None \<and> m s = Some r \<or> (\<exists>y. x = Some y \<and> f y s = Some r)"
  by (cases x) simp_all

lemmas bk_eqs = xbind_eq_Inr xthen_eq_Inr xret_eq xraise_eq xcall_eq xtell_eq xget_eq

lemma try_catch_Inr:
  "try_catch m handler other s = Some (Inr y, s') \<longleftrightarrow> m s = Some (Inr y, s')
     \<or> (\<exists>what s1. m s = Some (Inl (Thrown what), s1) \<and> handler what s1 = Some (Inr y, s'))
     \<or> (\<exists>s1. m s = Some (Inl ThrownOther, s1) \<and> other s1 = Some (Inr y, s'))"
  by (auto simp: try_catch_def split: option.splits sum.splits xerr.splits)

text \<open>
  The rule for a loop: a property kept by the rounds holds at the last check, on every way out.
\<close>

lemma xwhile_rule:
  fixes body :: "'s \<Rightarrow> 's bk"
  assumes run: "xwhile cond body x s = Some (r, s')" and init: "I x s"
    and raised: "\<And>x s e s1. I x s \<Longrightarrow> cond x s = Some (Inl e, s1) \<Longrightarrow> Q (Inl e) s1"
    and exit: "\<And>x s s1. I x s \<Longrightarrow> cond x s = Some (Inr False, s1) \<Longrightarrow> Q (Inr x) s1"
    and left: "\<And>x s s1 e s2. I x s \<Longrightarrow> cond x s = Some (Inr True, s1) \<Longrightarrow> body x s1 = Some (Inl e, s2) \<Longrightarrow> Q (Inl e) s2"
    and step: "\<And>x s s1 x' s2. I x s \<Longrightarrow> cond x s = Some (Inr True, s1) \<Longrightarrow> body x s1 = Some (Inr x', s2) \<Longrightarrow> I x' s2"
  shows "Q r s'"
proof -
  define P where "P = (\<lambda>c b x s (y :: (xerr + 's) \<times> backend). c = cond \<longrightarrow> b = body \<longrightarrow> I x s \<longrightarrow> Q (fst y) (snd y))"
  have "P cond body x s (r, s')"
  proof (rule xwhile.raw_induct [where P = P and xa = "(((cond, body), x), s)", unfolded prod.case, OF _ run])
    fix w c b x s y
    assume IH: "\<And>c b x s y. w c b x s = Some y \<Longrightarrow> P c b x s y"
      and eq: "(case c x s of None \<Rightarrow> None | Some (Inl e, s1) \<Rightarrow> Some (Inl e, s1)
        | Some (Inr t, s1) \<Rightarrow> if t then (case b x s1 of None \<Rightarrow> None | Some (Inl e, s2) \<Rightarrow> Some (Inl e, s2)
             | Some (Inr x', s2) \<Rightarrow> w c b x' s2) else Some (Inr x, s1)) = Some y"
    show "P c b x s y"
      unfolding P_def
    proof (intro impI)
      assume here: "c = cond" "b = body" "I x s"
      consider (raised) e s1 where "cond x s = Some (Inl e, s1)" "y = (Inl e, s1)"
        | (exit) s1 where "cond x s = Some (Inr False, s1)" "y = (Inr x, s1)"
        | (left) s1 e s2 where "cond x s = Some (Inr True, s1)" "body x s1 = Some (Inl e, s2)" "y = (Inl e, s2)"
        | (step) s1 x' s2 where "cond x s = Some (Inr True, s1)" "body x s1 = Some (Inr x', s2)" "w cond body x' s2 = Some y"
        using eq here(1,2) by (auto split: option.splits sum.splits if_splits prod.splits)
      then show "Q (fst y) (snd y)"
      proof cases
        case raised
        with assms(3) [OF here(3)] show ?thesis by simp
      next
        case exit
        with assms(4) [OF here(3)] show ?thesis by simp
      next
        case left
        with assms(5) [OF here(3)] show ?thesis by simp
      next
        case step
        with IH [unfolded P_def] assms(6) [OF here(3)] show ?thesis by blast
      qed
    qed
  qed
  with init show ?thesis by (simp add: P_def)
qed

text \<open>It returns if its rounds keep a property and, while it holds, make a measure of the state smaller.\<close>

lemma xwhile_returns:
  fixes \<mu> :: "'s \<Rightarrow> backend \<Rightarrow> nat"
  assumes "I x s" and "\<And>x s. cond x s \<noteq> None" and "\<And>x s. body x s \<noteq> None"
    and "\<And>x s s1 x' s2. I x s \<Longrightarrow> cond x s = Some (Inr True, s1) \<Longrightarrow> body x s1 = Some (Inr x', s2) \<Longrightarrow> I x' s2 \<and> \<mu> x' s2 < \<mu> x s"
  shows "xwhile cond body x s \<noteq> None"
  using assms(1)
proof (induction "\<mu> x s" arbitrary: x s rule: less_induct)
  case less
  show ?case
  proof (cases "\<exists>s1 x' s2. cond x s = Some (Inr True, s1) \<and> body x s1 = Some (Inr x', s2)")
    case True
    then obtain s1 x' s2 where step: "cond x s = Some (Inr True, s1)" "body x s1 = Some (Inr x', s2)" by blast
    from assms(4) [OF less.prems step] less.hyps [of x' s2] step show ?thesis by (subst xwhile.simps) simp
  next
    case False
    then show ?thesis
      using assms(2) [of x s]
      by (subst xwhile.simps) (auto dest: assms(3) [THEN notE] split: option.splits prod.splits sum.splits if_splits)
  qed
qed

section \<open>Code that returns\<close>

definition halts :: "'a bk \<Rightarrow> bool" where
  "halts m \<longleftrightarrow> (\<forall>s. m s \<noteq> None)"

lemma haltsE: "halts m \<Longrightarrow> (\<And>r s'. m s = Some (r, s') \<Longrightarrow> thesis) \<Longrightarrow> thesis"
  by (auto simp: halts_def)

lemma halts_basic [halts_intros]:
  "halts (xret x)" "halts (xraise e)" "halts (xcall ans ev)" "halts (xtell ev)" "halts (xget f)"
  by (simp_all add: halts_def bk_defs)

lemma halts_xbind [halts_intros]: "halts m \<Longrightarrow> (\<And>x. halts (f x)) \<Longrightarrow> halts (xbind m f)"
  by (fastforce simp: halts_def xbind_def split: option.splits sum.splits)

lemma halts_xthen [halts_intros]: "halts m \<Longrightarrow> halts k \<Longrightarrow> halts (xthen m k)"
  by (simp add: xthen_def halts_xbind)

lemma halts_try [halts_intros]: "halts m \<Longrightarrow> (\<And>what. halts (f what)) \<Longrightarrow> halts k \<Longrightarrow> halts (try_catch m f k)"
  by (fastforce simp: halts_def try_catch_def split: option.splits sum.splits xerr.splits)

lemma halts_cases [halts_intros]:
  "halts m \<Longrightarrow> halts k \<Longrightarrow> halts (if b then m else k)"
  "halts m \<Longrightarrow> (\<And>y. halts (f y)) \<Longrightarrow> halts (case x of None \<Rightarrow> m | Some y \<Rightarrow> f y)"
  "(\<And>a b. halts (g a b)) \<Longrightarrow> halts (case p of (a, b) \<Rightarrow> g a b)"
  by (simp_all split: option.split prod.split)

section \<open>What the outside answers\<close>

text \<open>
  A call of the client can also throw, and a call of the server raise an error. A failed status of the
  client is its text; a result code is a number, zero for success.
\<close>

record xenv =
  x_start :: "xev list \<Rightarrow> string \<Rightarrow> xerr + int"
  x_add_subscription :: "xev list \<Rightarrow> string \<Rightarrow> xerr + string option"
  x_open :: "xev list \<Rightarrow> string \<Rightarrow> string \<Rightarrow> xerr + string option"
  x_configure :: "xev list \<Rightarrow> string \<Rightarrow> string \<Rightarrow> xerr + string option"
  x_set_property :: "props \<Rightarrow> string \<Rightarrow> propval \<Rightarrow> props"
  x_widen :: "32 word \<Rightarrow> 64 word"                 \<comment> \<open>the bits of a \<^verbatim>\<open>float\<close> as a \<^verbatim>\<open>double\<close>\<close>
  x_lookup_tupdesc :: "xev list \<Rightarrow> xerr + unit"
  x_type_output :: "xev list \<Rightarrow> nat \<Rightarrow> xerr + nat"
  x_output :: "xev list \<Rightarrow> nat \<Rightarrow> datum \<Rightarrow> xerr + byte list"
  x_pack :: "xev list \<Rightarrow> xerr + int"
  x_post :: "xev list \<Rightarrow> xerr + int"
  x_clock :: "xev list \<Rightarrow> int"                       \<comment> \<open>in nanoseconds\<close>
  x_next_event :: "xev list \<Rightarrow> int \<Rightarrow> xerr + bmq_event"
  x_put :: "xev list \<Rightarrow> xerr + unit"
  x_add_confirm :: "xev list \<Rightarrow> message \<Rightarrow> xerr + int"
  x_flush :: "xev list \<Rightarrow> xerr + int"
  x_batched :: "xev list \<Rightarrow> int"                     \<comment> \<open>\<^verbatim>\<open>messageCount()\<close> of the batch\<close>
  x_confirm :: "xev list \<Rightarrow> message \<Rightarrow> xerr + int"

text \<open>What a trace shows, call by call, with the trace before the call at hand.\<close>

definition sees :: "(xev list \<Rightarrow> xev \<Rightarrow> 'b list) \<Rightarrow> xev list \<Rightarrow> 'b list" where
  "sees f h = concat (map (\<lambda>i. f (take i h) (h ! i)) [0..<length h])"

lemma sees_Nil [simp]: "sees f [] = []"
  by (simp add: sees_def)

lemma sees_snoc [simp]: "sees f (h @ [ev]) = sees f h @ f h ev"
  by (simp add: sees_def) (rule arg_cong [where f = concat], simp add: nth_append)

text \<open>A value that every call of a trace can change.\<close>

definition tracks :: "(xev list \<Rightarrow> xev \<Rightarrow> 'b \<Rightarrow> 'b) \<Rightarrow> 'b \<Rightarrow> xev list \<Rightarrow> 'b" where
  "tracks f z h = fold (\<lambda>i. f (take i h) (h ! i)) [0..<length h] z"

lemma tracks_Nil [simp]: "tracks f z [] = z"
  by (simp add: tracks_def)

lemma tracks_snoc [simp]: "tracks f z (h @ [ev]) = f h ev (tracks f z h)"
  by (simp add: tracks_def) (rule arg_cong [where f = "f h ev"], rule fold_cong, simp_all add: nth_append)

lemma two_calls: "sees g (h @ [a, b]) = sees g h @ g h a @ g (h @ [a]) b" "tracks f z (h @ [a, b]) = f (h @ [a]) b (f h a (tracks f z h))"
  using sees_snoc [of g "h @ [a]" b] tracks_snoc [of f z "h @ [a]" b] by simp_all

section \<open>Relations between states\<close>

definition along :: "(backend \<Rightarrow> backend \<Rightarrow> bool) \<Rightarrow> 'a bk \<Rightarrow> bool" where
  "along R m \<longleftrightarrow> (\<forall>s r s'. m s = Some (r, s') \<longrightarrow> R s s')"

lemma alongD: "along R m \<Longrightarrow> m s = Some (r, s') \<Longrightarrow> R s s'"
  by (simp add: along_def)

locale effect =
  fixes R :: "backend \<Rightarrow> backend \<Rightarrow> bool"
  assumes stays: "R s s" and follows: "R s t \<Longrightarrow> R t u \<Longrightarrow> R s u"
begin

lemma along_xret [effect_intros]: "along R (xret x)"
  by (simp add: along_def xret_def stays)

lemma along_xraise [effect_intros]: "along R (xraise e)"
  by (simp add: along_def xraise_def stays)

lemma along_xget [effect_intros]: "along R (xget f)"
  by (simp add: along_def xget_def stays)

lemma along_xbind [effect_intros]: "along R m \<Longrightarrow> (\<And>x. along R (f x)) \<Longrightarrow> along R (xbind m f)"
  unfolding along_def xbind_def by (auto split: option.splits sum.splits) (blast intro: follows)+

lemma along_xthen [effect_intros]: "along R m \<Longrightarrow> along R k \<Longrightarrow> along R (xthen m k)"
  by (simp add: xthen_def along_xbind)

lemma along_xcall: "(\<And>s. R s (s\<lparr>trace := trace s @ [ev]\<rparr>)) \<Longrightarrow> along R (xcall ans ev)"
  by (simp add: along_def xcall_def)

lemma along_xtell: "(\<And>s. R s (s\<lparr>trace := trace s @ [ev]\<rparr>)) \<Longrightarrow> along R (xtell ev)"
  by (simp add: xtell_def along_xcall)

lemma along_try [effect_intros]:
  "along R m \<Longrightarrow> (\<And>what. along R (handler what)) \<Longrightarrow> along R other \<Longrightarrow> along R (try_catch m handler other)"
  unfolding along_def try_catch_def
  by (auto split: option.splits sum.splits xerr.splits) (blast intro: follows)+

lemma along_if [effect_intros]: "(b \<Longrightarrow> along R m) \<Longrightarrow> (\<not> b \<Longrightarrow> along R k) \<Longrightarrow> along R (if b then m else k)"
  by simp

lemma along_case_option [effect_intros]:
  "along R m \<Longrightarrow> (\<And>y. along R (k y)) \<Longrightarrow> along R (case x of None \<Rightarrow> m | Some y \<Rightarrow> k y)"
  by (simp split: option.split)

lemma along_case_prod [effect_intros]: "(\<And>a b. along R (k a b)) \<Longrightarrow> along R (case x of (a, b) \<Rightarrow> k a b)"
  by (simp split: prod.split)

lemma along_xwhile [effect_intros]:
  assumes "\<And>x. along R (cond x)" and "\<And>x. along R (body x)"
  shows "along R (xwhile cond body x)"
  unfolding along_def
proof (intro allI impI)
  fix s r s' assume "xwhile cond body x s = Some (r, s')"
  then show "R s s'"
    by (rule xwhile_rule [where I = "\<lambda>_. R s" and Q = "\<lambda>_. R s"])
      (blast intro: stays follows alongD [OF assms(1)] alongD [OF assms(2)])+
qed

end

section \<open>The session and the queue handles\<close>

definition start_failed :: "string \<Rightarrow> int \<Rightarrow> string" where
  "start_failed uri rc = ''failed to start BlazingMQ session against '' @ [CHR 0x27] @ uri @ [CHR 0x27] @ '' (rc='' @ str_int rc @ '')''"

definition set_session :: "unit bk" where
  "set_session s = Some (Inr (), s\<lparr>g_session := True\<rparr>)"

definition set_exit_hook :: "unit bk" where
  "set_exit_hook s = Some (Inr (), s\<lparr>exit_hook_registered := True\<rparr>)"

definition set_queue :: "string \<Rightarrow> queue_entry \<Rightarrow> unit bk" where
  "set_queue uri e s = Some (Inr (), s\<lparr>g_queues := (g_queues s)(uri \<mapsto> e)\<rparr>)"

text \<open>One session per backend, started on first use. One that failed to start is not kept.\<close>

definition get_session :: "'e xenv_scheme \<Rightarrow> unit bk" where
  "get_session E =
     xbind (xget g_session) (\<lambda>up. if up then xret () else
       xbind (xget broker_uri) (\<lambda>uri.
       xbind (xcall (\<lambda>h. x_start E h uri) (StartSession uri)) (\<lambda>rc.
       if rc \<noteq> 0 then xraise (Thrown (start_failed uri rc)) else
       xthen set_session (
       xbind (xget exit_hook_registered) (\<lambda>registered.
       if registered then xret () else xthen (xtell OnProcExit) set_exit_hook)))))"

definition quoted_text :: "string \<Rightarrow> string" where
  "quoted_text t = [CHR 0x27] @ t @ [CHR 0x27]"

definition build_queue_options :: "'e xenv_scheme \<Rightarrow> string \<Rightarrow> unit bk" where
  "build_queue_options E expr =
     (if expr = [] then xret () else
      xbind (xcall (\<lambda>h. x_add_subscription E h expr) (AddSubscription expr)) (\<lambda>failed.
      case failed of
        None \<Rightarrow> xret ()
      | Some err \<Rightarrow> xraise (Thrown (''invalid subscription_expr '' @ quoted_text expr @ '': '' @ err))))"

definition reconfigure_failed :: "string \<Rightarrow> string \<Rightarrow> string \<Rightarrow> string" where
  "reconfigure_failed uri expr status =
     ''failed to reconfigure BlazingMQ queue '' @ quoted_text uri @ '' with subscription_expr '' @ quoted_text expr @ '': '' @ status"

definition open_failed :: "string \<Rightarrow> string \<Rightarrow> string" where
  "open_failed uri status = ''failed to open BlazingMQ queue '' @ quoted_text uri @ '': '' @ status"

definition reconfigure :: "'e xenv_scheme \<Rightarrow> string \<Rightarrow> string \<Rightarrow> queue_entry \<Rightarrow> nat bk" where
  "reconfigure E uri expr e =
     xthen (build_queue_options E expr)
     (xbind (xcall (\<lambda>h. x_configure E h uri expr) (ConfigureQueue uri expr)) (\<lambda>failed.
      case failed of
        Some status \<Rightarrow> xraise (Thrown (reconfigure_failed uri expr status))
      | None \<Rightarrow> xthen (set_queue uri (e\<lparr>subscriptionExpr := expr\<rparr>)) (xret (queueId e))))"

definition open_new :: "'e xenv_scheme \<Rightarrow> string \<Rightarrow> string \<Rightarrow> nat bk" where
  "open_new E uri expr =
     xthen (build_queue_options E expr)
     (xbind (xget (length \<circ> trace)) (\<lambda>i.
      xbind (xcall (\<lambda>h. x_open E h uri expr) (OpenQueue uri expr)) (\<lambda>failed.
      case failed of
        Some status \<Rightarrow> xraise (Thrown (open_failed uri status))
      | None \<Rightarrow> xthen (set_queue uri \<lparr>queueId = i, subscriptionExpr = expr\<rparr>) (xret i))))"

definition get_queue :: "'e xenv_scheme \<Rightarrow> string \<Rightarrow> string \<Rightarrow> nat bk" where
  "get_queue E uri expr =
     xbind (xget (\<lambda>s. g_queues s uri)) (\<lambda>found.
     case found of
       Some e \<Rightarrow>
         if expr \<noteq> [] \<and> subscriptionExpr e \<noteq> expr then reconfigure E uri expr e else xret (queueId e)
     | None \<Rightarrow> open_new E uri expr)"

text \<open>The three entry points that need a queue get the session first.\<close>

definition session_queue :: "'e xenv_scheme \<Rightarrow> string \<Rightarrow> string \<Rightarrow> nat bk" where
  "session_queue E uri expr = xthen (get_session E) (get_queue E uri expr)"

definition pg_blazingmq_exit_hook :: "unit bk" where
  "pg_blazingmq_exit_hook s =
     (if g_session s
      then Some (Inr (), s\<lparr>trace := trace s @ [StopSession], g_queues := Map.empty, g_session := False\<rparr>)
      else Some (Inr (), s\<lparr>g_queues := Map.empty\<rparr>))"

section \<open>Relations between traces\<close>

abbreviation via :: "(xev list \<Rightarrow> xev list \<Rightarrow> bool) \<Rightarrow> 'a bk \<Rightarrow> bool" where
  "via P \<equiv> along (\<lambda>s s'. P (trace s) (trace s'))"

text \<open>The calls that getting a queue handle can make.\<close>

definition session_call :: "xev \<Rightarrow> bool" where
  "session_call ev = (case ev of StartSession _ \<Rightarrow> True | OnProcExit \<Rightarrow> True | AddSubscription _ \<Rightarrow> True | OpenQueue _ _ \<Rightarrow> True
     | ConfigureQueue _ _ \<Rightarrow> True | _ \<Rightarrow> False)"

locale trace_effect =
  fixes P :: "xev list \<Rightarrow> xev list \<Rightarrow> bool"
  assumes same: "P h h" and onward: "P h h1 \<Longrightarrow> P h1 h2 \<Longrightarrow> P h h2"

sublocale trace_effect \<subseteq> effect "\<lambda>s s'. P (trace s) (trace s')"
  by unfold_locales (auto intro: same onward)

context trace_effect
begin

lemma via_call: "(\<And>h. P h (h @ [ev])) \<Longrightarrow> via P (xcall ans ev)" "(\<And>h. P h (h @ [ev])) \<Longrightarrow> via P (xtell ev)"
  by (simp_all add: along_xcall along_xtell)

lemma via_sets: "via P set_session" "via P set_exit_hook" "via P (set_queue uri e)"
  by (simp_all add: along_def set_session_def set_exit_hook_def set_queue_def same)

lemmas via_intros = along_xret along_xraise along_xget along_xbind along_xthen along_try along_if along_case_option along_case_prod
  along_xwhile via_call via_sets

lemma via_session_queue:
  assumes "\<And>h ev. session_call ev \<Longrightarrow> P h (h @ [ev])"
  shows "via P (session_queue E uri expr)"
  unfolding session_queue_def get_session_def get_queue_def open_new_def reconfigure_def build_queue_options_def
  by (intro via_intros assms; simp add: session_call_def)

end

interpretation growing: trace_effect prefix
  by unfold_locales (auto intro: prefix_order.trans)

lemma sees_prefix: "prefix h h' \<Longrightarrow> prefix (sees f h) (sees f h')"
proof (induction h' rule: rev_induct)
  case (snoc ev h')
  then show ?case by (auto simp del: append_assoc)
qed simp

section \<open>The cache agrees with the session\<close>

text \<open>
  What a trace says of a queue: the calls that opened it and the expressions that were set on it, with
  success. The cache is right if it has exactly the queues that were opened, each once, with the last
  expression, and if nothing was opened without a session.
\<close>

definition starts :: "'e xenv_scheme \<Rightarrow> xev list \<Rightarrow> string list" where
  "starts E = sees (\<lambda>h ev. case ev of StartSession u \<Rightarrow> if x_start E h u = Inr 0 then [u] else [] | _ \<Rightarrow> [])"

definition opened :: "'e xenv_scheme \<Rightarrow> string \<Rightarrow> xev list \<Rightarrow> nat list" where
  "opened E uri = sees (\<lambda>h ev. case ev of
     OpenQueue u e \<Rightarrow> if u = uri \<and> x_open E h u e = Inr None then [length h] else [] | _ \<Rightarrow> [])"

definition filters :: "'e xenv_scheme \<Rightarrow> string \<Rightarrow> xev list \<Rightarrow> string list" where
  "filters E uri = sees (\<lambda>h ev. case ev of
     OpenQueue u e \<Rightarrow> if u = uri \<and> x_open E h u e = Inr None then [e] else []
   | ConfigureQueue u e \<Rightarrow> if u = uri \<and> x_configure E h u e = Inr None then [e] else []
   | _ \<Rightarrow> [])"

definition queue_ok :: "'e xenv_scheme \<Rightarrow> xev list \<Rightarrow> string \<Rightarrow> queue_entry option \<Rightarrow> bool" where
  "queue_ok E h uri found \<longleftrightarrow>
     (case found of
        None \<Rightarrow> opened E uri h = [] \<and> filters E uri h = []
      | Some e \<Rightarrow> opened E uri h = [queueId e] \<and> filters E uri h \<noteq> [] \<and> last (filters E uri h) = subscriptionExpr e)"

definition cache_ok :: "'e xenv_scheme \<Rightarrow> backend \<Rightarrow> bool" where
  "cache_ok E s \<longleftrightarrow>
     length (starts E (trace s)) = (if g_session s then 1 else 0)
     \<and> (\<forall>uri. queue_ok E (trace s) uri (g_queues s uri)) \<and> (g_session s \<or> g_queues s = Map.empty)"

lemma cache_ok_init: "cache_ok E (backend_init uri)"
  by (simp add: cache_ok_def queue_ok_def backend_init_def starts_def opened_def filters_def)

text \<open>Every other call leaves what the cache is compared with alone.\<close>

definition cache_call :: "xev \<Rightarrow> bool" where
  "cache_call ev = (case ev of StartSession _ \<Rightarrow> True | OpenQueue _ _ \<Rightarrow> True | ConfigureQueue _ _ \<Rightarrow> True | _ \<Rightarrow> False)"

lemma other_call:
  assumes "\<not> cache_call ev"
  shows "starts E (h @ [ev]) = starts E h" "opened E uri (h @ [ev]) = opened E uri h" "filters E uri (h @ [ev]) = filters E uri h"
  using assms by (cases ev; simp add: starts_def opened_def filters_def cache_call_def)+

lemma after_cache_call:
  "starts E (h @ [StartSession u]) = starts E h @ (if x_start E h u = Inr 0 then [u] else [])"
  "starts E (h @ [OpenQueue u e]) = starts E h" "starts E (h @ [ConfigureQueue u e]) = starts E h"
  "opened E uri (h @ [StartSession u]) = opened E uri h" "opened E uri (h @ [ConfigureQueue u e]) = opened E uri h"
  "opened E uri (h @ [OpenQueue u e]) = opened E uri h @ (if u = uri \<and> x_open E h u e = Inr None then [length h] else [])"
  "filters E uri (h @ [StartSession u]) = filters E uri h"
  "filters E uri (h @ [OpenQueue u e]) = filters E uri h @ (if u = uri \<and> x_open E h u e = Inr None then [e] else [])"
  "filters E uri (h @ [ConfigureQueue u e]) = filters E uri h @ (if u = uri \<and> x_configure E h u e = Inr None then [e] else [])"
  by (simp_all add: starts_def opened_def filters_def)

lemma queue_ok_other:
  "\<not> cache_call ev \<Longrightarrow> queue_ok E (h @ [ev]) uri found = queue_ok E h uri found"
  "queue_ok E (h @ [StartSession u]) uri found = queue_ok E h uri found"
  "x_open E h u e \<noteq> Inr None \<or> u \<noteq> uri \<Longrightarrow> queue_ok E (h @ [OpenQueue u e]) uri found = queue_ok E h uri found"
  "x_configure E h u e \<noteq> Inr None \<or> u \<noteq> uri \<Longrightarrow> queue_ok E (h @ [ConfigureQueue u e]) uri found = queue_ok E h uri found"
  by (auto simp: queue_ok_def other_call after_cache_call split: option.split)

lemma queue_ok_own:
  "x_open E h u e = Inr None \<Longrightarrow> queue_ok E h u None \<Longrightarrow>
    queue_ok E (h @ [OpenQueue u e]) u (Some \<lparr>queueId = length h, subscriptionExpr = e\<rparr>)"
  "x_configure E h u e = Inr None \<Longrightarrow> queue_ok E h u (Some q) \<Longrightarrow>
    queue_ok E (h @ [ConfigureQueue u e]) u (Some (q\<lparr>subscriptionExpr := e\<rparr>))"
  by (simp_all add: queue_ok_def after_cache_call)

lemma cache_ok_other: "\<not> cache_call ev \<Longrightarrow> cache_ok E s \<Longrightarrow> cache_ok E (s\<lparr>trace := trace s @ [ev]\<rparr>)"
  by (simp add: cache_ok_def queue_ok_other other_call)

interpretation cached: effect "\<lambda>s s'. cache_ok E s \<longrightarrow> cache_ok E s'" for E
  by unfold_locales auto


abbreviation keeps_cache :: "'e xenv_scheme \<Rightarrow> 'a bk \<Rightarrow> bool" where
  "keeps_cache E \<equiv> along (\<lambda>s s'. cache_ok E s \<longrightarrow> cache_ok E s')"

lemma along_cached_call [effect_intros]:
  "\<not> cache_call ev \<Longrightarrow> keeps_cache E (xcall ans ev)"
  "\<not> cache_call ev \<Longrightarrow> keeps_cache E (xtell ev)"
  by (rule cached.along_xcall cached.along_xtell, simp add: cache_ok_other)+

lemma cache_call_simps [simp]:
  "\<not> cache_call (Pg c)" "\<not> cache_call (Wk w)" "\<not> cache_call OnProcExit" "\<not> cache_call StopSession"
  "\<not> cache_call (AddSubscription u)" "\<not> cache_call (PackMessage i p ps)" "\<not> cache_call (PostMessage i p ps)"
  "\<not> cache_call SteadyClock" "\<not> cache_call (NextEvent k)" "\<not> cache_call LoadConfirms" "\<not> cache_call (AddConfirm m)"
  "\<not> cache_call ConfirmMessages" "\<not> cache_call (ConfirmMessage m)"
  by (simp_all add: cache_call_def)

lemma get_session_ok:
  assumes "get_session E s = Some (r, s')" and "cache_ok E s"
  shows "cache_ok E s' \<and> (r = Inr () \<longrightarrow> g_session s')"
  using assms
  by (auto simp: get_session_def bk_defs set_session_def set_exit_hook_def cache_ok_def queue_ok_other other_call after_cache_call
      simp del: append_assoc split: option.splits if_splits sum.splits)

lemma build_queue_options_ok:
  assumes "build_queue_options E expr s = Some (r, s')" and "cache_ok E s"
  shows "cache_ok E s' \<and> g_session s' = g_session s \<and> g_queues s' = g_queues s"
  using assms by (auto simp: build_queue_options_def bk_defs cache_ok_other split: if_splits sum.splits option.splits)

lemma halts_session [halts_intros]:
  "halts set_session" "halts set_exit_hook" "halts (set_queue uri e)" "halts (build_queue_options E expr)"
  "halts (get_session E)" "halts (get_queue E uri expr)" "halts (session_queue E uri expr)"
proof -
  show sets: "halts set_session" "halts set_exit_hook" "halts (set_queue uri e)" for uri e
    by (simp_all add: halts_def set_session_def set_exit_hook_def set_queue_def)
  show options: "halts (build_queue_options E expr)" for E :: "'d xenv_scheme" and expr
    unfolding build_queue_options_def by (intro halts_intros)
  show session: "halts (get_session E)"
    unfolding get_session_def by (intro halts_intros sets)
  show queue: "halts (get_queue E uri expr)"
    unfolding get_queue_def open_new_def reconfigure_def by (intro halts_intros sets options)
  show "halts (session_queue E uri expr)"
    unfolding session_queue_def by (intro halts_intros session queue)
qed

text \<open>What getting a handle leaves behind: the cache is right, and the handle is the cached one, with the wanted filter.\<close>

definition holds_handle :: "'e xenv_scheme \<Rightarrow> string \<Rightarrow> string \<Rightarrow> xerr + nat \<Rightarrow> backend \<Rightarrow> bool" where
  "holds_handle E uri expr r s \<longleftrightarrow> cache_ok E s \<and> g_session s
     \<and> (\<forall>i. r = Inr i \<longrightarrow> (\<exists>e. g_queues s uri = Some e \<and> queueId e = i \<and> (expr \<noteq> [] \<longrightarrow> subscriptionExpr e = expr)))"

lemma open_new_ok:
  assumes "open_new E uri expr s = Some (r, s')" and "cache_ok E s" and "g_session s" and "g_queues s uri = None"
  shows "holds_handle E uri expr r s'"
proof -
  obtain r1 s1 where s1: "build_queue_options E expr s = Some (r1, s1)" by (rule haltsE [OF halts_session(4)])
  note kept = build_queue_options_ok [OF s1 assms(2)]
  then have each: "queue_ok E (trace s1) u (g_queues s u)" for u by (metis cache_ok_def)
  from each [of uri] have "queue_ok E (trace s1) uri None" by (simp add: assms(4))
  with assms kept s1 each queue_ok_own(1) [of E "trace s1" uri expr] show ?thesis
    by (auto simp: open_new_def bk_defs set_queue_def cache_ok_def queue_ok_other after_cache_call holds_handle_def
        split: option.splits if_splits sum.splits)
qed

lemma reconfigure_ok:
  assumes "reconfigure E uri expr e s = Some (r, s')" and "cache_ok E s" and "g_session s" and "g_queues s uri = Some e"
  shows "holds_handle E uri expr r s'"
proof -
  obtain r1 s1 where s1: "build_queue_options E expr s = Some (r1, s1)" by (rule haltsE [OF halts_session(4)])
  note kept = build_queue_options_ok [OF s1 assms(2)]
  then have each: "queue_ok E (trace s1) u (g_queues s u)" for u by (metis cache_ok_def)
  from each [of uri] have "queue_ok E (trace s1) uri (Some e)" by (simp add: assms(4))
  with assms kept s1 each queue_ok_own(2) [of E "trace s1" uri expr e] show ?thesis
    by (auto simp: reconfigure_def bk_defs set_queue_def cache_ok_def queue_ok_other after_cache_call holds_handle_def
        split: option.splits if_splits sum.splits)
qed

lemma get_queue_ok:
  assumes "get_queue E uri expr s = Some (r, s')" and "cache_ok E s" and "g_session s"
  shows "holds_handle E uri expr r s'"
  using assms open_new_ok [of E uri expr s r s'] reconfigure_ok [of E uri expr _ s r s']
  by (auto simp: get_queue_def xbind_def xget_def xret_def holds_handle_def split: option.splits if_splits)

lemma session_queue_ok:
  assumes "session_queue E uri expr s = Some (r, s')" and "cache_ok E s"
  shows "cache_ok E s' \<and> (\<forall>i. r = Inr i \<longrightarrow> holds_handle E uri expr r s')"
proof -
  obtain r1 s1 where s1: "get_session E s = Some (r1, s1)" using assms(1) by (cases "get_session E s") (auto simp: session_queue_def bk_defs)
  from get_session_ok [OF s1 assms(2)] have "cache_ok E s1" "r1 = Inr () \<longrightarrow> g_session s1" by simp_all
  with assms(1) s1 get_queue_ok [of E uri expr s1 r s'] show ?thesis
    by (cases r1) (auto simp: session_queue_def bk_defs holds_handle_def)
qed

lemma along_session_queue [effect_intros]: "keeps_cache E (session_queue E uri expr)"
  using session_queue_ok by (fastforce simp: along_def)

section \<open>A client that answers\<close>

text \<open>
  For the witnesses: everything succeeds, the events of the session are given as a list, and every call
  takes a millisecond.
\<close>

definition polled :: "xev list \<Rightarrow> nat" where
  "polled h = length (filter (\<lambda>ev. case ev of NextEvent _ \<Rightarrow> True | _ \<Rightarrow> False) h)"

definition batch_step :: "message list \<Rightarrow> xev \<Rightarrow> message list" where
  "batch_step ms ev = (case ev of AddConfirm m \<Rightarrow> ms @ [m] | ConfirmMessages \<Rightarrow> [] | LoadConfirms \<Rightarrow> [] | _ \<Rightarrow> ms)"

definition demo_ext :: "bmq_event list \<Rightarrow> xenv" where
  "demo_ext evs = \<lparr>x_start = (\<lambda>_ _. Inr 0), x_add_subscription = (\<lambda>_ _. Inr None), x_open = (\<lambda>_ _ _. Inr None),
     x_configure = (\<lambda>_ _ _. Inr None), x_set_property = (\<lambda>ps name p. ps @ [(name, p)]), x_widen = (\<lambda>_. 0),
     x_lookup_tupdesc = (\<lambda>_. Inr ()), x_type_output = (\<lambda>_ t. Inr t), x_output = (\<lambda>_ _ _. Inr []),
     x_pack = (\<lambda>_. Inr 0), x_post = (\<lambda>_. Inr 0), x_clock = (\<lambda>h. int (length h) * 1000000),
     x_next_event = (\<lambda>h _. Inr (if polled h < length evs then evs ! polled h else OtherEvent)), x_put = (\<lambda>_. Inr ()),
     x_add_confirm = (\<lambda>_ _. Inr 0), x_flush = (\<lambda>_. Inr 0), x_batched = (\<lambda>h. int (length (foldl batch_step [] h))),
     x_confirm = (\<lambda>_ _. Inr 0)\<rparr>"

end
