(* ===== verification/Msgpack_Roundtrip.thy ===== *)
theory Msgpack_Roundtrip
  imports Msgpack "HOL-Library.Sublist"
begin

text \<open>
  What is written reads back: the skipper stays inside its bytes and finds the end of every encoded
  value, and the readers return the value that was written, for the entries of a map and the elements
  of an array too.
\<close>

section \<open>The skipper stays inside\<close>

lemma fits_eq: "fits what v len = Inr n \<longleftrightarrow> n = len \<and> len \<le> length v"
  by (auto simp: fits_def)

lemma sized_eq: "sized what short v hdr len = Inr n \<longleftrightarrow> n = hdr + len (drop 1 v) \<and> n \<le> length v"
  by (auto simp: sized_def fits_def)

lemma map_sum_Inr: "map_sum id f r = Inr y \<longleftrightarrow> (\<exists>x. r = Inr x \<and> y = f x)"
  by (cases r) auto

lemma skip_n_bounds_if:
  assumes "\<And>w n. length w \<le> L \<Longrightarrow> mp_skip w = Inr n \<Longrightarrow> 0 < n \<and> n \<le> length w" and "length v \<le> L" and "skip_n k v = Inr n"
  shows "k \<le> n \<and> n \<le> length v"
  using assms(2,3)
proof (induction k arbitrary: v n)
  case (Suc k)
  then obtain x t where x: "mp_skip v = Inr x" and t: "skip_n k (drop x v) = Inr t" "n = x + t"
    by (auto simp: map_sum_Inr split: sum.splits)
  have "length (drop x v) \<le> L" using Suc.prems(1) by simp
  from Suc.IH [OF this t(1)] assms(1) [OF Suc.prems(1) x] show ?case by (auto simp: t(2))
qed simp

lemma mp_skip_bounds: "mp_skip v = Inr n \<Longrightarrow> 0 < n \<and> n \<le> length v"
proof (induction "length v" arbitrary: v n rule: less_induct)
  case less
  show ?case
  proof (cases v)
    case Nil
    with less.prems show ?thesis by simp
  next
    case (Cons m r)
    have inside: "j \<le> n' \<and> n' \<le> length w" if "length w \<le> length r" "skip_n j w = Inr n'" for w j n'
      by (rule skip_n_bounds_if [of "length r" w j n', OF _ that]) (rule less.hyps, simp_all add: Cons)
    have nested: "0 < n \<and> n \<le> length v" if "map_sum id (plus (Suc k)) (skip_n j (drop k r)) = Inr n" "k \<le> length r" for j k
      using that inside [of "drop k r" j] by (fastforce simp: map_sum_Inr Cons)
    from less.prems show ?thesis
      using nested [of 0] nested [of 2] nested [of 4]
      by (simp add: Cons Let_def fits_eq sized_eq split: if_splits)
  qed
qed

lemmas skip_n_bounds = skip_n_bounds_if [OF mp_skip_bounds le_refl]

section \<open>Markers\<close>

text \<open>A short length shares a byte with the marker; the sixteen or thirty-two values are checked one by one.\<close>

lemma fixstr_markers:
  "list_all (\<lambda>n. let m = 0xa0 OR word_of_nat n :: byte in
     \<not> single_byte m \<and> m AND 0xe0 = 0xa0 \<and> unat (m AND 0x1f) = n) [0..<32]"
  by code_simp

lemma fixarray_markers:
  "list_all (\<lambda>n. let m = 0x90 OR word_of_nat n :: byte in
     \<not> single_byte m \<and> m AND 0xe0 \<noteq> 0xa0 \<and> m AND 0xf0 = 0x90 \<and> unat (m AND 0x0f) = n) [0..<16]"
  by code_simp

lemma fixmap_markers:
  "list_all (\<lambda>n. let m = 0x80 OR word_of_nat n :: byte in
     \<not> single_byte m \<and> m AND 0xe0 \<noteq> 0xa0 \<and> m AND 0xf0 = 0x80 \<and> unat (m AND 0x0f) = n) [0..<16]"
  by code_simp

lemma in_range: "list_all P [0..<k] \<Longrightarrow> n < k \<Longrightarrow> P n"
  by (simp add: list_all_iff)

lemmas fix_marker = in_range [OF fixstr_markers, unfolded Let_def] in_range [OF fixarray_markers, unfolded Let_def]
  in_range [OF fixmap_markers, unfolded Let_def]

lemma word_length:
  "n < 256 \<Longrightarrow> unat (word_of_nat n :: byte) = n"
  "n < 65536 \<Longrightarrow> unat (word_of_nat n :: 16 word) = n"
  "n < 4294967296 \<Longrightarrow> unat (word_of_nat n :: 32 word) = n"
  by (simp_all add: unat_of_nat)

lemma long_marker [simp]:
  "\<not> single_byte 0xc4" "\<not> single_byte 0xc5" "\<not> single_byte 0xc6" "\<not> single_byte 0xcb" "\<not> single_byte 0xcc"
  "\<not> single_byte 0xcd" "\<not> single_byte 0xce" "\<not> single_byte 0xcf" "\<not> single_byte 0xd0" "\<not> single_byte 0xd1"
  "\<not> single_byte 0xd2" "\<not> single_byte 0xd3" "\<not> single_byte 0xd9" "\<not> single_byte 0xda" "\<not> single_byte 0xdb"
  "\<not> single_byte 0xdc" "\<not> single_byte 0xdd" "\<not> single_byte 0xde" "\<not> single_byte 0xdf"
  by (simp_all add: single_byte_def)

section \<open>Strings and blobs\<close>

lemma str_info_write: "length s < 2 ^ 32 \<Longrightarrow> str_info (write_string s @ r) = Inr s"
  by (auto simp: write_string_def Let_def str_info_def fix_marker word_length content_of_def)

lemma skip_write_string: "length s < 2 ^ 32 \<Longrightarrow> mp_skip (write_string s @ r) = Inr (length (write_string s))"
  by (auto simp: write_string_def Let_def fix_marker word_length fits_def sized_def)

lemma bin_info_write: "length s < 2 ^ 32 \<Longrightarrow> bin_info (write_binary s @ r) = Inr s"
  by (auto simp: write_binary_def Let_def bin_info_def word_length content_of_def)

lemma skip_write_binary: "length s < 2 ^ 32 \<Longrightarrow> mp_skip (write_binary s @ r) = Inr (length (write_binary s))"
  by (auto simp: write_binary_def Let_def word_length fits_def sized_def)

section \<open>Numbers\<close>

text \<open>The positive and the negative fixint: the byte keeps the value, and the marker is in its range.\<close>

lemma positive_fixint:
  fixes x :: "64 word"
  assumes "x \<le> 0x7f"
  shows "(ucast x :: byte) \<le> 0x7f" and "ucast (ucast x :: byte) = x"
proof -
  have x: "unat x \<le> 127" using assms by (simp add: word_le_nat_alt)
  then have "unat (ucast x :: byte) = unat x" by (simp add: unsigned_ucast_eq unsigned_take_bit_eq take_bit_nat_eq_self)
  with x show "(ucast x :: byte) \<le> 0x7f" by (simp add: word_le_nat_alt)
  show "ucast (ucast x :: byte) = x" by (rule ucast_back) (use x in simp)
qed

lemma narrow_uint:
  fixes x :: "64 word"
  shows "x \<le> 0xff \<Longrightarrow> ucast (ucast x :: byte) = x"
    and "x \<le> 0xffff \<Longrightarrow> ucast (ucast x :: 16 word) = x"
    and "x \<le> 0xffffffff \<Longrightarrow> ucast (ucast x :: 32 word) = x"
  by (rule ucast_back, simp add: word_le_nat_alt)+

lemma asInt64_uint: "asInt64 (encode_uint64 x @ r) = Inr x"
  by (simp add: encode_uint64_def asInt64_def read_sized_def positive_fixint narrow_uint)

lemma negative_fixint:
  fixes x :: "64 word"
  assumes "- 32 \<le> sint x" and "sint x < 0"
  shows "0xe0 \<le> (ucast x :: byte)" and "scast (ucast x :: byte) = x"
proof -
  show wide: "scast (ucast x :: byte) = x" by (rule scast_back) (use assms in simp_all)
  have "sint (ucast x :: byte) = sint x" by (rule sint_narrow) (use assms in simp_all)
  then have "uint (ucast x :: byte) = sint x mod 256" using uint_sint [of "ucast x :: byte"] by (simp add: take_bit_eq_mod)
  moreover have "sint x mod 256 = sint x + 256" 
    using mod_pos_pos_trivial [of "sint x + 256" 256] mod_add_self2 [of "sint x" 256] assms by linarith
  ultimately show "0xe0 \<le> (ucast x :: byte)" using assms by (simp add: word_le_def)
qed

text \<open>A negative number is written in the smallest of the four widths that has it.\<close>

lemma narrow_int:
  fixes x :: "64 word"
  assumes "sint x < 0"
  shows "- (2 ^ 7) \<le> sint x \<Longrightarrow> scast (ucast x :: byte) = x"
    and "- (2 ^ 15) \<le> sint x \<Longrightarrow> scast (ucast x :: 16 word) = x"
    and "- (2 ^ 31) \<le> sint x \<Longrightarrow> scast (ucast x :: 32 word) = x"
  by (rule scast_back; use assms in simp)+

lemma not_positive_fixint: "0xe0 \<le> (m :: byte) \<Longrightarrow> \<not> m \<le> 0x7f"
  by (simp add: word_le_nat_alt)

lemma asInt64_write: "asInt64 (write_int64 x @ r) = Inr x"
  by (simp add: write_int64_def asInt64_uint)
    (simp add: asInt64_def read_sized_def negative_fixint not_positive_fixint narrow_int)

lemma skip_write_int64: "mp_skip (write_int64 x @ r) = Inr (length (write_int64 x))"
  by (auto simp: write_int64_def encode_uint64_def fits_def negative_fixint single_byte_def positive_fixint)

section \<open>Walks over encoded elements\<close>

text \<open>
  What the walks rely on: the skipper finds the end of an encoded element, whatever follows it. Keys
  are strings, which the skipper is already known to handle.
\<close>

locale self_delimiting =
  fixes enc :: "'a \<Rightarrow> byte list" and ok :: "'a \<Rightarrow> bool"
  assumes skip_enc: "ok x \<Longrightarrow> mp_skip (enc x @ r) = Inr (length (enc x))"
begin

lemma skip_elements:
  "list_all ok xs \<Longrightarrow> skip_n (length xs) (concat (map enc xs) @ r) = Inr (length (concat (map enc xs)))"
  by (induction xs) (simp_all add: skip_enc)

lemma nth_of_elements:
  "list_all ok xs \<Longrightarrow> i < length xs \<Longrightarrow> nth_element i (concat (map enc xs) @ r) = Inr (enc (xs ! i))"
proof (induction xs arbitrary: i)
  case (Cons x xs)
  then show ?case by (cases i) (simp_all add: skip_enc)
qed simp

lemma skip_entries:
  "list_all (\<lambda>(k, x). length k < 2 ^ 32 \<and> ok x) kvs \<Longrightarrow>
   skip_n (2 * length kvs) (concat (map (\<lambda>(k, x). write_string k @ enc x) kvs) @ r)
     = Inr (length (concat (map (\<lambda>(k, x). write_string k @ enc x) kvs)))"
  by (induction kvs) (auto simp: skip_enc skip_write_string)

lemma find_in_entries:
  "list_all (\<lambda>(k, x). length k < 2 ^ 32 \<and> ok x) kvs \<Longrightarrow>
   find_entry key (length kvs) (concat (map (\<lambda>(k, x). write_string k @ enc x) kvs) @ r)
     = (case map_of kvs key of None \<Rightarrow> Inl (key_not_found key) | Some x \<Rightarrow> Inr (enc x))"
proof (induction kvs)
  case (Cons kv kvs)
  obtain k x where kv: "kv = (k, x)" by (cases kv)
  with Cons.prems have ok: "length k < 2 ^ 32" "ok x" by simp_all
  have key: "asStringView (write_string k) = Inr k" "isString (write_string k)"
    using str_info_write [OF ok(1), of "[]"] by (auto simp: asStringView_def isString_def write_string_def Let_def fix_marker)
  from Cons show ?case
    by (simp add: kv skip_write_string [OF ok(1)] skip_enc [OF ok(2)] key Let_def)
qed simp

end

section \<open>Values\<close>

lemma skip_begin:
  assumes "n < 2 ^ 32"
  shows "mp_skip (begin_array n @ r) = map_sum id (plus (length (begin_array n))) (skip_n n r)"
    and "mp_skip (begin_map n @ r) = map_sum id (plus (length (begin_map n))) (skip_n (2 * n) r)"
    and "arr_info (begin_array n @ r) = Inr (n, length (begin_array n))"
    and "map_info (begin_map n @ r) = Inr (n, length (begin_map n))"
    and "isMap (begin_map n @ r)"
  using assms
  by (simp_all add: begin_array_def begin_map_def fix_marker word_length Let_def arr_info_def map_info_def isMap_def)

lemma skip_serialize: "dyn_ok x \<Longrightarrow> mp_skip (serialize x @ r) = Inr (length (serialize x))"
proof (induction x arbitrary: r)
  case (DArr xs)
  have "self_delimiting serialize (\<lambda>x. x \<in> set xs \<and> dyn_ok x)"
    using DArr.IH by unfold_locales simp
  from self_delimiting.skip_elements [OF this, of xs r] DArr.prems show ?case
    by (simp add: skip_begin list_all_iff)
next
  case (DMap kvs)
  have "self_delimiting serialize (\<lambda>x. x \<in> snd ` set kvs \<and> dyn_ok x)"
    using DMap.IH by unfold_locales (force simp: snds.simps)
  moreover have "list_all (\<lambda>(k, x). length k < 2 ^ 32 \<and> x \<in> snd ` set kvs \<and> dyn_ok x) kvs"
    using DMap.prems by (force simp: list_all_iff)
  ultimately show ?case
    using DMap.prems by (simp add: skip_begin self_delimiting.skip_entries)
qed (simp_all add: skip_write_int64 skip_write_string skip_write_binary write_double_def encode_uint64_def single_byte_def
    positive_fixint fits_def)

interpretation msgpack: self_delimiting serialize dyn_ok
  by unfold_locales (rule skip_serialize)

text \<open>
  What it means that a reader finds a value: the reading function of its type returns it, and so for
  every element and every key, the keys that are absent included.
\<close>

lemma size_of_element: "x \<in> set xs \<Longrightarrow> size x < size (DArr xs)"
  by (induction xs) auto

lemma size_of_entry: "(k, x) \<in> set kvs \<Longrightarrow> size x < size (DMap kvs)"
  by (induction kvs) auto

function (sequential) decodes_to :: "(32 word \<Rightarrow> 64 word) \<Rightarrow> dyn \<Rightarrow> byte list \<Rightarrow> bool" where
  "decodes_to widen DNull v \<longleftrightarrow> isNull v"
| "decodes_to widen (DBool b) v \<longleftrightarrow> asBool v = Inr b"
| "decodes_to widen (DInt x) v \<longleftrightarrow> asInt64 v = Inr x"
| "decodes_to widen (DUInt x) v \<longleftrightarrow> asInt64 v = Inr x"
| "decodes_to widen (DDouble x) v \<longleftrightarrow> asDouble widen v = Inr x"
| "decodes_to widen (DStr s) v \<longleftrightarrow> asStringView v = Inr s"
| "decodes_to widen (DBin s) v \<longleftrightarrow> asBlob v = Inr s"
| "decodes_to widen (DArr xs) v \<longleftrightarrow>
     (\<forall>i < length xs. \<exists>e. at_index v i = Inr e \<and> decodes_to widen (xs ! i) e) \<and> at_index v (length xs) = Inl ''index OOB''"
| "decodes_to widen (DMap kvs) v \<longleftrightarrow>
     (\<forall>key. case map_of kvs key of
        None \<Rightarrow> at_key v key = Inl (key_not_found key)
      | Some x \<Rightarrow> \<exists>e. at_key v key = Inr e \<and> decodes_to widen x e)"
  by pat_completeness auto
termination
proof (relation "measure (\<lambda>(widen, x, v). size x)")
  fix xs :: "dyn list" and i assume "i < length xs"
  then show "((widen, xs ! i, e), widen, DArr xs, v) \<in> measure (\<lambda>(widen, x, v). size x)"
    for widen :: "32 word \<Rightarrow> 64 word" and e v :: "byte list"
    using size_of_element [OF nth_mem] by simp
next
  fix kvs :: "(byte list \<times> dyn) list" and key x assume "map_of kvs key = Some x"
  then show "((widen, x, e), widen, DMap kvs, v) \<in> measure (\<lambda>(widen, x, v). size x)"
    for widen :: "32 word \<Rightarrow> 64 word" and e v :: "byte list"
    using size_of_entry [OF map_of_SomeD] by simp
qed simp

lemma at_key_serialize:
  assumes "dyn_ok (DMap kvs)"
  shows "at_key (serialize (DMap kvs)) key
    = (case map_of kvs key of None \<Rightarrow> Inl (key_not_found key) | Some x \<Rightarrow> Inr (serialize x))"
  using assms msgpack.find_in_entries [of kvs key "[]"] by (simp add: at_key_def skip_begin)

lemma at_index_serialize:
  assumes "dyn_ok (DArr xs)"
  shows "at_index (serialize (DArr xs)) i = (if i < length xs then Inr (serialize (xs ! i)) else Inl ''index OOB'')"
  using assms msgpack.nth_of_elements [of xs i "[]"] by (simp add: at_index_def skip_begin)

lemma serialize_reads_back: "dyn_ok x \<Longrightarrow> decodes_to widen x (serialize x)"
proof (induction x)
  case (DArr xs)
  then show ?case by (simp add: at_index_serialize list_all_iff del: serialize.simps)
next
  case (DMap kvs)
  have "decodes_to widen x (serialize x)" if "map_of kvs key = Some x" for key x
    using DMap that [THEN map_of_SomeD] by (force simp: list_all_iff snds.simps)
  then show ?case
    using at_key_serialize [OF DMap.prems] by (simp split: option.split)
qed (use asInt64_write [where r = "[]"] asInt64_uint [where r = "[]"] str_info_write [where r = "[]"] bin_info_write [where r = "[]"]
     in \<open>simp_all add: isNull_def asBool_def isBool_def asStringView_def asBlob_def asDouble_def isFloat_def write_double_def
       read_sized_def read_store_be64 [where r = "[]", simplified]\<close>)

section \<open>Readers on any bytes\<close>









text \<open>
  C15. A document reads back: the bytes of any value, with arrays and maps in it to any depth, are read back by the readers to
  that value: every number of either sign, every text and blob, every element of an array, and for every
  key the value of its first entry, or the error that the key is absent. And the skipper finds the end of
  the value, whatever bytes come behind it. The lengths fit the 32 bits the format has for them.
\<close>

theorem document_reads_back:
  assumes "dyn_ok x"
  shows "decodes_to widen x (serialize x) \<and> mp_skip (serialize x @ r) = Inr (length (serialize x))"
  using assms by (simp add: serialize_reads_back skip_serialize)

theorem document_reads_back_witness:
  "decodes_to (\<lambda>_. 0) (DMap [([0x61], DInt (- 1)), ([0x62], DArr [DNull, DDouble 7])]) (serialize (DMap [([0x61], DInt (- 1)), ([0x62], DArr [DNull, DDouble 7])]))"
proof -
  have "dyn_ok (DMap [([0x61], DInt (- 1)), ([0x62], DArr [DNull, DDouble 7])])" by simp
  from document_reads_back [OF this] show ?thesis by blast
qed

end
