(* ===== verification/Pg_Publish.thy ===== *)
theory Pg_Publish
  imports Pg_Ext Msgpack_Roundtrip
begin

text \<open>
  \<^verbatim>\<open>bmq_publish_row\<close> of \<^verbatim>\<open>pg_blazingmq.cpp\<close>: a row becomes a msgpack payload with all its columns and a set of
  message properties with the chosen ones, and is posted to a queue. The lemmas say what a call that
  returns has posted, that the payload reads back column by column, and which calls a failing one made.
\<close>

section \<open>Rows\<close>

text \<open>A column of the row, as its descriptor and the deformed tuple give it; \<open>None\<close> is NULL.\<close>

record column =
  attname :: string
  atttypid :: nat
  attisdropped :: bool
  col_value :: "datum option"

text \<open>The object identifiers of the types the extension knows.\<close>

definition BOOLOID :: nat where "BOOLOID = 16"
definition BYTEAOID :: nat where "BYTEAOID = 17"
definition INT8OID :: nat where "INT8OID = 20"
definition INT2OID :: nat where "INT2OID = 21"
definition INT4OID :: nat where "INT4OID = 23"
definition TEXTOID :: nat where "TEXTOID = 25"
definition FLOAT4OID :: nat where "FLOAT4OID = 700"
definition FLOAT8OID :: nat where "FLOAT8OID = 701"
definition BPCHAROID :: nat where "BPCHAROID = 1042"
definition VARCHAROID :: nat where "VARCHAROID = 1043"

lemmas oids = BOOLOID_def BYTEAOID_def INT8OID_def INT2OID_def INT4OID_def TEXTOID_def FLOAT4OID_def FLOAT8OID_def
  BPCHAROID_def VARCHAROID_def

text \<open>A datum is a word that holds the value, or the bytes of a text behind a pointer.\<close>

definition datum_word :: "datum \<Rightarrow> 64 word" where
  "datum_word d = (case d of ByValue w \<Rightarrow> w | Varlena _ \<Rightarrow> 0)"

definition datum_text :: "datum \<Rightarrow> byte list" where
  "datum_text d = (case d of ByValue _ \<Rightarrow> [] | Varlena b \<Rightarrow> b)"

definition text_family :: "nat \<Rightarrow> bool" where
  "text_family typid \<longleftrightarrow> typid = TEXTOID \<or> typid = VARCHAROID \<or> typid = BPCHAROID"

definition set_message_property :: "'e xenv_scheme \<Rightarrow> props \<Rightarrow> string \<Rightarrow> nat \<Rightarrow> datum option \<Rightarrow> bool \<times> props" where
  "set_message_property E ps name typid value_opt =
     (case value_opt of
        None \<Rightarrow> (False, ps)
      | Some d \<Rightarrow>
          if typid = BOOLOID then (True, x_set_property E ps name (PropBool (datum_word d \<noteq> 0)))
          else if typid = INT2OID then (True, x_set_property E ps name (PropShort (ucast (datum_word d))))
          else if typid = INT4OID then (True, x_set_property E ps name (PropInt32 (ucast (datum_word d))))
          else if typid = INT8OID then (True, x_set_property E ps name (PropInt64 (datum_word d)))
          else if text_family typid then (True, x_set_property E ps name (PropString (datum_text d)))
          else (False, ps))"

definition datum_to_dyn_value :: "'e xenv_scheme \<Rightarrow> nat \<Rightarrow> nat \<Rightarrow> datum option \<Rightarrow> dyn bk" where
  "datum_to_dyn_value E typid typoutput value_opt =
     (case value_opt of
        None \<Rightarrow> xret DNull
      | Some d \<Rightarrow>
          if typid = BOOLOID then xret (DBool (datum_word d \<noteq> 0))
          else if typid = INT2OID then xret (DInt (scast (ucast (datum_word d) :: 16 word)))
          else if typid = INT4OID then xret (DInt (scast (ucast (datum_word d) :: 32 word)))
          else if typid = INT8OID then xret (DInt (datum_word d))
          else if typid = FLOAT4OID then xret (DDouble (x_widen E (ucast (datum_word d))))
          else if typid = FLOAT8OID then xret (DDouble (datum_word d))
          else if text_family typid then xret (DStr (datum_text d))
          else xbind (xcall (\<lambda>h. x_output E h typoutput d) (Pg (OutputCall typoutput d))) (\<lambda>out. xret (DStr out)))"

section \<open>Publishing\<close>

definition not_an_attribute :: "string \<Rightarrow> nat \<Rightarrow> string" where
  "not_an_attribute name typid =
     ''column '' @ [CHR 0x22] @ name @ [CHR 0x22] @ '' (type '' @ str_nat typid
       @ '') cannot be a BlazingMQ message attribute - only bool/int2/int4/int8/text-family columns are supported ''
       @ ''(see README'' @ [CHR 0x27] @ ''s Expression Syntax notes)''"

definition ereport :: "string \<Rightarrow> string option \<Rightarrow> 'a bk" where
  "ereport msg detail = xraise (Ereport msg detail)"

definition release_tupdesc :: "unit bk" where
  "release_tupdesc = xtell (Pg ReleaseTupdesc)"

text \<open>One pass over the columns. \<open>None\<close> as the list of attributes means every eligible column.\<close>

definition bytes_of :: "string \<Rightarrow> byte list" where
  "bytes_of t = map (\<lambda>c. word_of_nat (of_char c)) t"

definition wanted :: "string list option \<Rightarrow> column \<Rightarrow> bool" where
  "wanted attrs c = (case attrs of None \<Rightarrow> True | Some names \<Rightarrow> attname c \<in> set names)"

fun pack_columns :: "'e xenv_scheme \<Rightarrow> string list option \<Rightarrow> column list \<Rightarrow> props \<Rightarrow> (byte list \<times> dyn) list
    \<Rightarrow> (props \<times> (byte list \<times> dyn) list) bk" where
  "pack_columns E attrs [] ps row_map = xret (ps, row_map)"
| "pack_columns E attrs (c # cs) ps row_map =
     (if attisdropped c then pack_columns E attrs cs ps row_map else
      let (eligible, ps') = (if wanted attrs c then set_message_property E ps (attname c) (atttypid c) (col_value c) else (True, ps)) in
      if \<not> eligible \<and> attrs \<noteq> None
      then xthen release_tupdesc (ereport (not_an_attribute (attname c) (atttypid c)) None)
      else
        xbind (xcall (\<lambda>h. x_type_output E h (atttypid c)) (Pg (TypeOutputInfo (atttypid c)))) (\<lambda>typoutput.
        xbind (datum_to_dyn_value E (atttypid c) typoutput (col_value c)) (\<lambda>v.
        pack_columns E attrs cs ps' (row_map @ [(bytes_of (attname c), v)]))))"

definition pack_failed :: "string \<Rightarrow> int \<Rightarrow> string" where
  "pack_failed uri rc = ''failed to pack BlazingMQ message for queue '' @ quoted_text uri @ '' (rc='' @ str_int rc @ '')''"

definition post_failed :: "string \<Rightarrow> int \<Rightarrow> string" where
  "post_failed uri rc = ''failed to post BlazingMQ message to queue '' @ quoted_text uri @ '' (rc='' @ str_int rc @ '')''"

definition post_row :: "'e xenv_scheme \<Rightarrow> string \<Rightarrow> props \<Rightarrow> (byte list \<times> dyn) list \<Rightarrow> unit bk" where
  "post_row E uri ps row_map =
     (let payload = serialize (DMap row_map); attached = (if ps \<noteq> [] then Some ps else None) in
      xbind (session_queue E uri []) (\<lambda>queueId.
      xbind (xcall (x_pack E) (PackMessage queueId payload attached)) (\<lambda>pack_rc.
      if pack_rc \<noteq> 0 then xthen release_tupdesc (ereport (pack_failed uri pack_rc) None) else
      xbind (xcall (x_post E) (PostMessage queueId payload attached)) (\<lambda>post_rc.
      if post_rc \<noteq> 0 then xthen release_tupdesc (ereport (post_failed uri post_rc) None) else xret ()))))"

definition publish_body :: "'e xenv_scheme \<Rightarrow> string \<Rightarrow> column list \<Rightarrow> string list option \<Rightarrow> unit bk" where
  "publish_body E uri cols attrs =
     xbind (pack_columns E attrs cols [] []) (\<lambda>(ps, row_map). post_row E uri ps row_map)"

text \<open>The elements of \<^verbatim>\<open>attr_columns\<close> that are NULL are left out.\<close>

definition attr_list :: "string option list option \<Rightarrow> string list option" where
  "attr_list attr_columns = map_option (\<lambda>names. map the (filter (\<lambda>n. n \<noteq> None) names)) attr_columns"

definition bmq_publish_row :: "'e xenv_scheme \<Rightarrow> string option \<Rightarrow> column list option \<Rightarrow> string option list option \<Rightarrow> unit bk" where
  "bmq_publish_row E queue_uri row_data attr_columns =
     (case queue_uri of
        None \<Rightarrow> ereport ''queue_uri must not be null'' None
      | Some uri \<Rightarrow>
     case row_data of
        None \<Rightarrow> ereport ''row must not be null'' None
      | Some cols \<Rightarrow>
          xthen (xcall (x_lookup_tupdesc E) (Pg LookupTupdesc))
          (xthen
            (try_catch (publish_body E uri cols (attr_list attr_columns))
              (\<lambda>what. xthen release_tupdesc (ereport ''bmq_publish_row failed'' (Some what)))
              (xthen release_tupdesc (ereport ''bmq_publish_row failed with unknown exception'' None)))
            release_tupdesc))"

section \<open>What is published\<close>

text \<open>The property a column can become, and the value its entry of the payload stands for.\<close>

definition property_of :: "column \<Rightarrow> propval option" where
  "property_of c =
     (case col_value c of
        None \<Rightarrow> None
      | Some d \<Rightarrow>
          if atttypid c = BOOLOID then Some (PropBool (datum_word d \<noteq> 0))
          else if atttypid c = INT2OID then Some (PropShort (ucast (datum_word d)))
          else if atttypid c = INT4OID then Some (PropInt32 (ucast (datum_word d)))
          else if atttypid c = INT8OID then Some (PropInt64 (datum_word d))
          else if text_family (atttypid c) then Some (PropString (datum_text d))
          else None)"

definition represents :: "'e xenv_scheme \<Rightarrow> column \<Rightarrow> dyn \<Rightarrow> bool" where
  "represents E c v \<longleftrightarrow>
     (case col_value c of
        None \<Rightarrow> v = DNull
      | Some d \<Rightarrow>
          if atttypid c = BOOLOID then v = DBool (datum_word d \<noteq> 0)
          else if atttypid c = INT2OID then v = DInt (scast (ucast (datum_word d) :: 16 word))
          else if atttypid c = INT4OID then v = DInt (scast (ucast (datum_word d) :: 32 word))
          else if atttypid c = INT8OID then v = DInt (datum_word d)
          else if atttypid c = FLOAT4OID then v = DDouble (x_widen E (ucast (datum_word d)))
          else if atttypid c = FLOAT8OID then v = DDouble (datum_word d)
          else if text_family (atttypid c) then v = DStr (datum_text d)
          else \<exists>h f out. x_output E h f d = Inr out \<and> v = DStr out)"

definition live :: "column list \<Rightarrow> column list" where
  "live cols = filter (\<lambda>c. \<not> attisdropped c) cols"

definition properties :: "string list option \<Rightarrow> column list \<Rightarrow> props" where
  "properties attrs cols =
     concat (map (\<lambda>c. case property_of c of None \<Rightarrow> [] | Some p \<Rightarrow> [(attname c, p)]) (filter (wanted attrs) (live cols)))"

text \<open>The property set keeps what is put into it under a new name.\<close>

definition props_lawful :: "'e xenv_scheme \<Rightarrow> bool" where
  "props_lawful E \<longleftrightarrow> (\<forall>ps name p. name \<notin> fst ` set ps \<longrightarrow> x_set_property E ps name p = ps @ [(name, p)])"

lemma set_message_property_eq:
  "set_message_property E ps (attname c) (atttypid c) (col_value c)
   = (case property_of c of None \<Rightarrow> (False, ps) | Some p \<Rightarrow> (True, x_set_property E ps (attname c) p))"
  by (simp add: set_message_property_def property_of_def split: option.split)

lemma datum_to_dyn_value_represents:
  assumes "datum_to_dyn_value E (atttypid c) f (col_value c) s = Some (Inr v, s')"
  shows "represents E c v"
  using assms by (auto simp: datum_to_dyn_value_def represents_def bk_eqs split: option.splits if_splits)

lemma pack_columns_result:
  assumes "pack_columns E attrs cs ps row_map s = Some (Inr (ps', row_map'), s')" and "props_lawful E"
    and "distinct (map attname (live cs))" and "fst ` set ps \<inter> attname ` set (live cs) = {}"
  shows "\<exists>kvs. row_map' = row_map @ kvs \<and> ps' = ps @ properties attrs cs
    \<and> list_all2 (\<lambda>c (k, v). k = bytes_of (attname c) \<and> represents E c v) (live cs) kvs"
  using assms
proof (induction cs arbitrary: ps row_map s)
  case Nil
  then show ?case by (simp add: bk_eqs live_def properties_def)
next
  case (Cons c cs)
  show ?case
  proof (cases "attisdropped c")
    case True
    with Cons show ?thesis by (simp add: live_def properties_def)
  next
    case False
    let ?own = "case (if wanted attrs c then property_of c else None) of None \<Rightarrow> [] | Some p \<Rightarrow> [(attname c, p)]"
    from False Cons.prems(4) have new: "attname c \<notin> fst ` set ps" by (auto simp: live_def)
    from False have split: "live (c # cs) = c # live cs" "properties attrs (c # cs) = ?own @ properties attrs cs"
      by (simp_all add: live_def properties_def)
    from Cons.prems(1) False obtain f s1 v s2 where
      v: "datum_to_dyn_value E (atttypid c) f (col_value c) s1 = Some (Inr v, s2)"
      and rest: "pack_columns E attrs cs (ps @ ?own) (row_map @ [(bytes_of (attname c), v)]) s2 = Some (Inr (ps', row_map'), s')"
      using Cons.prems(2) new
      by (auto simp: set_message_property_eq props_lawful_def bk_eqs ereport_def split: if_splits option.splits)
    have "fst ` set (ps @ ?own) \<inter> attname ` set (live cs) = {}"
      using Cons.prems(3,4) split(1) by (auto split: option.splits if_splits)
    from Cons.IH [OF rest Cons.prems(2) _ this] Cons.prems(3) split datum_to_dyn_value_represents [OF v] show ?thesis
      by (auto simp: list_all2_Cons1)
  qed
qed

text \<open>The lengths a row can have: the server limits a value to a gigabyte, a name and a row to much less.\<close>

definition row_fits :: "'e xenv_scheme \<Rightarrow> column list \<Rightarrow> bool" where
  "row_fits E cols \<longleftrightarrow> length cols < 2 ^ 32
     \<and> list_all (\<lambda>c. length (attname c) < 2 ^ 32 \<and> (\<forall>d. col_value c = Some d \<longrightarrow> length (datum_text d) < 2 ^ 32)) cols
     \<and> (\<forall>h f d out. x_output E h f d = Inr out \<longrightarrow> length out < 2 ^ 32)"

lemma represents_ok: "represents E c v \<Longrightarrow> row_fits E cols \<Longrightarrow> c \<in> set cols \<Longrightarrow> dyn_ok v"
  by (auto simp: represents_def row_fits_def list_all_iff split: option.splits if_splits)

lemma payload_ok:
  assumes "row_fits E cols" and "list_all2 (\<lambda>c (k, v). k = bytes_of (attname c) \<and> represents E c v) (live cols) kvs"
  shows "dyn_ok (DMap kvs)"
proof -
  have "length kvs = length (live cols)" using assms(2) by (simp add: list_all2_lengthD)
  moreover have "length (live cols) \<le> length cols" by (simp add: live_def)
  moreover have "length k < 2 ^ 32 \<and> dyn_ok v" if kv: "(k, v) \<in> set kvs" for k v
  proof -
    from kv obtain i where i: "i < length kvs" "kvs ! i = (k, v)" by (auto simp: in_set_conv_nth)
    let ?c = "live cols ! i"
    from list_all2_nthD2 [OF assms(2) i(1)] i(2) have c: "k = bytes_of (attname ?c)" "represents E ?c v" by auto
    have "?c \<in> set (live cols)" using i(1) \<open>length kvs = length (live cols)\<close> by simp
    then have "?c \<in> set cols" by (simp add: live_def)
    with c assms(1) represents_ok [OF c(2) assms(1)] show ?thesis by (auto simp: row_fits_def list_all_iff bytes_of_def)
  qed
  ultimately show ?thesis using assms(1) by (auto simp: list_all_iff row_fits_def)
qed

lemma inj_bytes_of: "inj bytes_of"
proof (rule injI)
  fix s t assume "bytes_of s = bytes_of t"
  then have "map (\<lambda>b. char_of (unat b)) (bytes_of s) = map (\<lambda>b. char_of (unat b)) (bytes_of t)" by simp
  moreover have "char_of (unat (word_of_nat (of_char c) :: byte)) = c" for c
    by (simp add: unat_of_nat)
  ultimately show "s = t" by (simp add: bytes_of_def comp_def)
qed

lemma column_reads_back:
  assumes "row_fits E cols" and "list_all2 (\<lambda>c (k, v). k = bytes_of (attname c) \<and> represents E c v) (live cols) kvs"
    and "distinct (map attname (live cols))" and "c \<in> set (live cols)"
  shows "\<exists>e v. at_key (serialize (DMap kvs)) (bytes_of (attname c)) = Inr e \<and> represents E c v \<and> decodes_to (x_widen E) v e"
proof -
  from assms(4) obtain i where i: "i < length (live cols)" "live cols ! i = c" by (auto simp: in_set_conv_nth)
  with assms(2) have len: "i < length kvs" by (simp add: list_all2_lengthD)
  obtain v where kv: "kvs ! i = (bytes_of (attname c), v)" "represents E c v"
    using list_all2_nthD2 [OF assms(2) len] i(2) by (cases "kvs ! i") auto
  have "map fst kvs = map (bytes_of \<circ> attname) (live cols)"
    using assms(2) by (induction rule: list_all2_induct) auto
  then have "distinct (map fst kvs)"
    using assms(3) inj_bytes_of by (simp add: distinct_map comp_inj_on inj_on_def)
  then have "map_of kvs (bytes_of (attname c)) = Some v"
    using nth_mem [OF len] kv(1) by simp
  moreover note payload_ok [OF assms(1,2)]
  ultimately have "at_key (serialize (DMap kvs)) (bytes_of (attname c)) = Inr (serialize v)" "dyn_ok v"
    using represents_ok [OF kv(2) assms(1)] assms(4) by (simp_all add: at_key_serialize live_def del: serialize.simps dyn_ok.simps)
  with serialize_reads_back [of v "x_widen E"] kv(2) show ?thesis by blast
qed

lemma along_publish [effect_intros]:
  "keeps_cache E release_tupdesc"
  "keeps_cache E (ereport msg detail)"
  "keeps_cache E (datum_to_dyn_value E typid f d)"
  "keeps_cache E (pack_columns E attrs cols ps row_map)"
proof -
  show basic: "keeps_cache E release_tupdesc"
    "keeps_cache E (ereport msg detail)" for msg detail
    unfolding release_tupdesc_def ereport_def by (intro effect_intros; simp)+
  show dyn: "keeps_cache E (datum_to_dyn_value E typid f d)" for typid f d
    unfolding datum_to_dyn_value_def by (intro effect_intros) simp
  show "keeps_cache E (pack_columns E attrs cols ps row_map)"
    by (induction cols arbitrary: ps row_map)
      (auto simp: Let_def intro!: effect_intros basic dyn split: prod.split)
qed

lemma along_publish_row [effect_intros]: "keeps_cache E (post_row E uri ps row_map)" "keeps_cache E (bmq_publish_row E uri_opt row attrs)"
proof -
  show post: "keeps_cache E (post_row E uri ps row_map)" for uri ps row_map
    unfolding post_row_def Let_def by (intro effect_intros) simp_all
  show "keeps_cache E (bmq_publish_row E uri_opt row attrs)"
    unfolding bmq_publish_row_def publish_body_def by (intro effect_intros post) simp_all
qed

lemma halts_publish [halts_intros]: "halts (bmq_publish_row E uri_opt row attrs)"
proof -
  have basic: "halts release_tupdesc" "halts (ereport msg detail)" for msg detail
    unfolding release_tupdesc_def ereport_def by (intro halts_intros)+
  have dyn: "halts (datum_to_dyn_value E typid f d)" for typid f d
    unfolding datum_to_dyn_value_def by (intro halts_intros)
  have columns: "halts (pack_columns E attrs cols ps row_map)" for attrs cols ps row_map
    by (induction cols arbitrary: ps row_map) (auto simp: Let_def intro!: halts_intros basic dyn split: prod.split)
  have "halts (post_row E uri ps row_map)" for uri ps row_map
    unfolding post_row_def Let_def by (intro halts_intros basic)
  then show ?thesis
    unfolding bmq_publish_row_def publish_body_def by (intro halts_intros basic columns)
qed

lemma post_row_result:
  assumes "post_row E uri ps row_map s = Some (Inr (), s')" and "cache_ok E s"
  shows "\<exists>h i. trace s' = h @ [PostMessage i (serialize (DMap row_map)) (if ps \<noteq> [] then Some ps else None)]
    \<and> opened E uri h = [i] \<and> x_post E h = Inr 0"
proof -
  let ?p = "serialize (DMap row_map)" and ?a = "if ps \<noteq> [] then Some ps else None"
  from assms(1) obtain i s1 where i: "session_queue E uri [] s = Some (Inr i, s1)"
    and s': "s' = s1\<lparr>trace := (trace s1 @ [PackMessage i ?p ?a]) @ [PostMessage i ?p ?a]\<rparr>"
    and ok: "x_post E (trace s1 @ [PackMessage i ?p ?a]) = Inr 0"
    by (auto simp: post_row_def Let_def bk_eqs ereport_def simp del: serialize.simps split: if_splits)
  from session_queue_ok [OF i assms(2)] obtain e where "g_queues s1 uri = Some e" "queueId e = i" "cache_ok E s1"
    by (auto simp: holds_handle_def)
  then have "opened E uri (trace s1) = [i]" by (force simp: cache_ok_def queue_ok_def dest!: spec [of _ uri])
  then have "opened E uri (trace s1 @ [PackMessage i ?p ?a]) = [i]" by (simp add: other_call)
  with ok s' show ?thesis by auto
qed

lemma publish_row_result:
  assumes "bmq_publish_row E (Some uri) (Some cols) attr_columns s = Some (Inr (), s')" and "cache_ok E s"
    and "props_lawful E" and "distinct (map attname (live cols))"
  shows "\<exists>h i kvs. let ps = properties (attr_list attr_columns) cols in
    trace s' = h @ [PostMessage i (serialize (DMap kvs)) (if ps \<noteq> [] then Some ps else None), Pg ReleaseTupdesc]
    \<and> opened E uri h = [i] \<and> x_post E h = Inr 0
    \<and> list_all2 (\<lambda>c (k, v). k = bytes_of (attname c) \<and> represents E c v) (live cols) kvs"
proof -
  let ?attrs = "attr_list attr_columns"
  from assms(1) obtain s1 ps kvs s2 s3 where
    s1: "s1 = s\<lparr>trace := trace s @ [Pg LookupTupdesc]\<rparr>"
    and packed: "pack_columns E ?attrs cols [] [] s1 = Some (Inr (ps, kvs), s2)"
    and posted: "post_row E uri ps kvs s2 = Some (Inr (), s3)" and s': "s' = s3\<lparr>trace := trace s3 @ [Pg ReleaseTupdesc]\<rparr>"
    by (auto simp: bmq_publish_row_def publish_body_def try_catch_Inr release_tupdesc_def ereport_def bk_eqs)
  have "cache_ok E s1" using assms(2) by (simp add: s1 cache_ok_other)
  then have "cache_ok E s2" using alongD [OF along_publish(4) packed] by simp
  from post_row_result [OF posted this] pack_columns_result [OF packed assms(3,4)] show ?thesis
    by (auto simp: s' Let_def simp del: serialize.simps)
qed

section \<open>What a call that fails has done\<close>

text \<open>The server's catalog lookups and output functions succeed; the client throws only C++ exceptions.\<close>

definition server_calm :: "'e xenv_scheme \<Rightarrow> bool" where
  "server_calm E \<longleftrightarrow> (\<forall>h. x_lookup_tupdesc E h = Inr ()) \<and> (\<forall>h t. \<exists>f. x_type_output E h t = Inr f)
     \<and> (\<forall>h f d. \<exists>out. x_output E h f d = Inr out)"

definition cpp_only :: "xerr + 'a \<Rightarrow> bool" where
  "cpp_only r = (case r of Inl (Thrown _) \<Rightarrow> True | Inl ThrownOther \<Rightarrow> True | Inl _ \<Rightarrow> False | Inr _ \<Rightarrow> True)"

definition client_throws :: "'e xenv_scheme \<Rightarrow> bool" where
  "client_throws E \<longleftrightarrow> (\<forall>h u e. cpp_only (x_start E h u) \<and> cpp_only (x_add_subscription E h e) \<and> cpp_only (x_open E h u e)
     \<and> cpp_only (x_configure E h u e) \<and> cpp_only (x_pack E h) \<and> cpp_only (x_post E h))"

text \<open>A column that cannot be an attribute stops the call before anything is sent.\<close>

definition no_attribute :: "string list option \<Rightarrow> column list \<Rightarrow> column option" where
  "no_attribute attrs cols = find (\<lambda>c. wanted attrs c \<and> property_of c = None) (live cols)"

lemma datum_to_dyn_value_calm:
  assumes "server_calm E"
  shows "\<exists>v calls. datum_to_dyn_value E typid f d s = Some (Inr v, s\<lparr>trace := trace s @ map Pg calls\<rparr>)"
proof (cases "\<exists>v. datum_to_dyn_value E typid f d s = Some (Inr v, s)")
  case True
  then obtain v where "datum_to_dyn_value E typid f d s = Some (Inr v, s\<lparr>trace := trace s @ map Pg []\<rparr>)" by auto
  then show ?thesis by blast
next
  case False
  then obtain w where w: "d = Some w" by (auto simp: datum_to_dyn_value_def bk_defs split: option.splits)
  moreover obtain out where "x_output E (trace s) f w = Inr out" using assms unfolding server_calm_def by blast
  ultimately show ?thesis
    using False by (auto simp: datum_to_dyn_value_def bk_defs split: if_splits intro!: exI [of _ "[OutputCall f w]"])
qed

lemma pack_columns_rejects:
  assumes "server_calm E" and "attrs \<noteq> None" and "no_attribute attrs cs = Some c"
  shows "\<exists>calls s'. pack_columns E attrs cs ps row_map s = Some (Inl (Ereport (not_an_attribute (attname c) (atttypid c)) None), s')
    \<and> trace s' = trace s @ map Pg calls"
  using assms(3)
proof (induction cs arbitrary: ps row_map s)
  case Nil
  then show ?case by (simp add: no_attribute_def live_def)
next
  case (Cons d cs)
  show ?case
  proof (cases "attisdropped d")
    case True
    with Cons show ?thesis by (simp add: no_attribute_def live_def)
  next
    case kept: False
    show ?thesis
    proof (cases "wanted attrs d \<and> property_of d = None")
      case True
      with Cons.prems kept have "c = d" by (simp add: no_attribute_def live_def)
      with True kept assms(2) show ?thesis
        by (auto simp: set_message_property_eq release_tupdesc_def ereport_def bk_defs intro!: exI [of _ "[ReleaseTupdesc]"])
    next
      case False
      with Cons.prems kept have rest: "no_attribute attrs cs = Some c" by (auto simp: no_attribute_def live_def)
      obtain f where f: "x_type_output E (trace s) (atttypid d) = Inr f" using assms(1) unfolding server_calm_def by blast
      let ?s1 = "s\<lparr>trace := trace s @ [Pg (TypeOutputInfo (atttypid d))]\<rparr>"
      obtain v calls where v: "datum_to_dyn_value E (atttypid d) f (col_value d) ?s1 = Some (Inr v, ?s1\<lparr>trace := trace ?s1 @ map Pg calls\<rparr>)"
        using datum_to_dyn_value_calm [OF assms(1)] by blast
      let ?s2 = "?s1\<lparr>trace := trace ?s1 @ map Pg calls\<rparr>"
      define ps' where "ps' = snd (if wanted attrs d then set_message_property E ps (attname d) (atttypid d) (col_value d) else (True, ps))"
      have "pack_columns E attrs (d # cs) ps row_map s = pack_columns E attrs cs ps' (row_map @ [(bytes_of (attname d), v)]) ?s2"
        using False kept f v by (auto simp: ps'_def set_message_property_eq bk_defs split: option.splits)
      with Cons.IH [OF rest, of ps' "row_map @ [(bytes_of (attname d), v)]" ?s2] show ?thesis
        by (auto simp flip: list.map(2) map_append)
    qed
  qed
qed

text \<open>How often a trace releases the row descriptor.\<close>

definition releases :: "xev list \<Rightarrow> nat" where
  "releases h = length (filter (\<lambda>ev. ev = Pg ReleaseTupdesc) h)"

text \<open>Code that releases the descriptor exactly if it leaves with an error of the server.\<close>

definition releasing :: "'a bk \<Rightarrow> bool" where
  "releasing m \<longleftrightarrow> (\<forall>s r s'. m s = Some (r, s') \<longrightarrow>
     releases (trace s') = releases (trace s) + (if cpp_only r then 0 else 1))"

lemma releasing_basic:
  "releasing (xret x)" "releasing (xraise (Thrown what))" "releasing (xget f)" "releasing set_session" "releasing set_exit_hook"
  "releasing (set_queue uri e)" "releasing (xthen release_tupdesc (ereport msg detail))"
  by (auto simp: releasing_def releases_def cpp_only_def bk_defs set_session_def set_exit_hook_def set_queue_def
      release_tupdesc_def ereport_def)

lemma releasing_xcall: "(\<And>h. cpp_only (ans h)) \<Longrightarrow> ev \<noteq> Pg ReleaseTupdesc \<Longrightarrow> releasing (xcall ans ev)"
  by (simp add: releasing_def releases_def xcall_def)

lemma releasing_xtell: "ev \<noteq> Pg ReleaseTupdesc \<Longrightarrow> releasing (xtell ev)"
  by (simp add: releasing_def releases_def xtell_def xcall_def cpp_only_def)

lemma releasing_xbind:
  assumes "releasing m" and "\<And>x. releasing (f x)"
  shows "releasing (xbind m f)"
  unfolding releasing_def
proof (intro allI impI)
  fix s r s' assume "xbind m f s = Some (r, s')"
  then consider e where "m s = Some (Inl e, s')" "r = Inl e" | x s1 where "m s = Some (Inr x, s1)" "f x s1 = Some (r, s')"
    by (auto simp: xbind_def split: option.splits sum.splits)
  then show "releases (trace s') = releases (trace s) + (if cpp_only r then 0 else 1)"
  proof cases
    case 1
    with assms(1) have "releases (trace s') = releases (trace s) + (if cpp_only (Inl e :: xerr + 'a) then 0 else 1)"
      by (auto simp: releasing_def)
    with 1(2) show ?thesis by (simp add: cpp_only_def split: xerr.splits)
  next
    case 2
    with assms have "releases (trace s1) = releases (trace s) + (if cpp_only (Inr x :: xerr + 'a) then 0 else 1)"
      "releases (trace s') = releases (trace s1) + (if cpp_only r then 0 else 1)" by (auto simp: releasing_def)
    then show ?thesis by (simp add: cpp_only_def)
  qed
qed

lemma releasing_xthen: "releasing m \<Longrightarrow> releasing k \<Longrightarrow> releasing (xthen m k)"
  by (simp add: xthen_def releasing_xbind)

lemma releasing_cases:
  "releasing m \<Longrightarrow> releasing k \<Longrightarrow> releasing (if b then m else k)"
  "releasing m \<Longrightarrow> (\<And>y. releasing (f y)) \<Longrightarrow> releasing (case x of None \<Rightarrow> m | Some y \<Rightarrow> f y)"
  "(\<And>a b. releasing (g a b)) \<Longrightarrow> releasing (case p of (a, b) \<Rightarrow> g a b)"
  by (simp_all split: option.split prod.split)

lemmas releasing_intros = releasing_basic releasing_xcall releasing_xtell releasing_xbind releasing_xthen releasing_cases

lemma releasing_publish_body:
  assumes "server_calm E" and "client_throws E"
  shows "releasing (publish_body E uri cols attrs)"
proof -
  have calm: "cpp_only (x_type_output E h t)" "cpp_only (x_output E h f d)" for h t f d
    using assms(1) by (auto simp: server_calm_def cpp_only_def split: sum.splits xerr.splits) (metis sum.distinct(1))+
  have client: "cpp_only (x_start E h u)" "cpp_only (x_add_subscription E h e)" "cpp_only (x_open E h u e)"
    "cpp_only (x_configure E h u e)" "cpp_only (x_pack E h)" "cpp_only (x_post E h)" for h u e
    using assms(2) by (simp_all add: client_throws_def)
  have dyn: "releasing (datum_to_dyn_value E typid f d)" for typid f d
    unfolding datum_to_dyn_value_def by (intro releasing_intros calm) simp
  have columns: "releasing (pack_columns E attrs cols ps row_map)" for ps row_map
    by (induction cols arbitrary: ps row_map)
      (auto simp: Let_def intro!: releasing_intros dyn calm split: prod.split)
  have "releasing (session_queue E uri [])"
    unfolding session_queue_def get_session_def get_queue_def open_new_def reconfigure_def build_queue_options_def
    by (intro releasing_intros client) simp_all
  then show ?thesis
    unfolding publish_body_def post_row_def Let_def by (intro releasing_intros columns client) simp_all
qed

section \<open>The properties\<close>

text \<open>
  C5. A published row reads back: a call of \<^verbatim>\<open>bmq_publish_row\<close> that returns has posted one message as the last
  thing it asked of the client, to the one handle the session has opened for the queue. The message
  carries exactly the properties of the chosen columns, and its payload decodes, under the name of
  every column that is not dropped, to the value of the column: the sign-extended integer, the bits of
  the double, the bytes of the text, null, or the text of the type's output function.
\<close>

theorem published_row_reads_back:
  assumes "bmq_publish_row E (Some uri) (Some cols) attr_columns s = Some (Inr (), s')" and "cache_ok E s"
    and "props_lawful E" and "row_fits E cols" and "distinct (map attname (live cols))"
  shows "\<exists>h i payload. let ps = properties (attr_list attr_columns) cols in
    trace s' = h @ [PostMessage i payload (if ps \<noteq> [] then Some ps else None), Pg ReleaseTupdesc]
    \<and> opened E uri h = [i] \<and> x_post E h = Inr 0
    \<and> (\<forall>c \<in> set (live cols). \<exists>e v. at_key payload (bytes_of (attname c)) = Inr e \<and> represents E c v \<and> decodes_to (x_widen E) v e)"
proof -
  from publish_row_result [OF assms(1,2,3,5)] obtain h i kvs where
    "trace s' = h @ [PostMessage i (serialize (DMap kvs)) (if properties (attr_list attr_columns) cols \<noteq> []
       then Some (properties (attr_list attr_columns) cols) else None), Pg ReleaseTupdesc]"
    "opened E uri h = [i]" "x_post E h = Inr 0"
    and kvs: "list_all2 (\<lambda>c (k, v). k = bytes_of (attname c) \<and> represents E c v) (live cols) kvs"
    by (auto simp: Let_def simp del: serialize.simps)
  with column_reads_back [OF assms(4) kvs assms(5)] show ?thesis
    unfolding Let_def by (intro exI [of _ h] exI [of _ i] exI [of _ "serialize (DMap kvs)"]) simp
qed

definition demo_row :: "column list" where
  "demo_row = [\<lparr>attname = ''region'', atttypid = INT4OID, attisdropped = False, col_value = Some (ByValue 0xffffffff)\<rparr>,
     \<lparr>attname = ''old'', atttypid = 0, attisdropped = True, col_value = None\<rparr>,
     \<lparr>attname = ''symbol'', atttypid = TEXTOID, attisdropped = False, col_value = Some (Varlena (bytes_of ''AAPL''))\<rparr>,
     \<lparr>attname = ''price'', atttypid = FLOAT8OID, attisdropped = False, col_value = Some (ByValue 0x4062c80000000000)\<rparr>,
     \<lparr>attname = ''active'', atttypid = BOOLOID, attisdropped = False, col_value = None\<rparr>]"

lemma demo_row_live: "live demo_row = [demo_row ! 0, demo_row ! 2, demo_row ! 3, demo_row ! 4]"
  by (simp add: demo_row_def live_def)

lemma demo_ext_lawful: "props_lawful (demo_ext evs)" "server_calm (demo_ext evs)" "client_throws (demo_ext evs)" "row_fits (demo_ext evs) demo_row"
  by (simp_all add: demo_ext_def props_lawful_def server_calm_def client_throws_def cpp_only_def row_fits_def demo_row_def
      datum_text_def bytes_of_def)

theorem published_row_reads_back_witness:
  "\<exists>s' h i payload e. bmq_publish_row (demo_ext []) (Some ''bmq://q'') (Some demo_row) (Some [Some ''region'', None]) (backend_init ''tcp://b'')
       = Some (Inr (), s')
     \<and> trace s' = h @ [PostMessage i payload (Some [(''region'', PropInt32 0xffffffff)]), Pg ReleaseTupdesc]
     \<and> at_key payload (bytes_of ''region'') = Inr e \<and> asInt64 e = Inr (- 1)"
proof -
  let ?E = "demo_ext []" and ?s = "backend_init ''tcp://b''"
  obtain s' where run: "bmq_publish_row ?E (Some ''bmq://q'') (Some demo_row) (Some [Some ''region'', None]) ?s = Some (Inr (), s')"
    by (simp add: bmq_publish_row_def publish_body_def post_row_def Let_def demo_row_def attr_list_def wanted_def set_message_property_def
        datum_to_dyn_value_def oids text_family_def session_queue_def get_session_def get_queue_def open_new_def build_queue_options_def
        set_session_def set_exit_hook_def set_queue_def release_tupdesc_def try_catch_def bk_defs demo_ext_def backend_init_def
        del: serialize.simps)
  have distinct: "distinct (map attname (live demo_row))" by (simp add: demo_row_def live_def)
  from published_row_reads_back [OF run cache_ok_init demo_ext_lawful(1,4) distinct] obtain h i payload where
    post: "trace s' = h @ [PostMessage i payload (let ps = properties (attr_list (Some [Some ''region'', None])) demo_row in
      if ps \<noteq> [] then Some ps else None), Pg ReleaseTupdesc]"
    and cols: "\<forall>c \<in> set (live demo_row). \<exists>e v. at_key payload (bytes_of (attname c)) = Inr e \<and> represents ?E c v
      \<and> decodes_to (x_widen ?E) v e"
    by (auto simp: Let_def)
  have props: "properties (attr_list (Some [Some ''region'', None])) demo_row = [(''region'', PropInt32 0xffffffff)]"
    by (simp add: properties_def attr_list_def demo_row_def live_def wanted_def property_of_def oids datum_word_def)
  have "demo_row ! 0 \<in> set (live demo_row)" by (simp add: demo_row_live)
  from cols [rule_format, OF this] obtain e v where
    "at_key payload (bytes_of ''region'') = Inr e" "v = DInt (- 1)" "decodes_to (x_widen ?E) v e"
    by (auto simp: demo_row_def represents_def oids datum_word_def)
  with run post show ?thesis unfolding props by auto
qed

text \<open>
  C28. A bad attribute costs nothing: if one of the columns named in \<^verbatim>\<open>attr_columns\<close> cannot be a property, because
  of its type or because its value in this row is NULL, the call fails with the error that names the
  first such column, and the client was not called at all: no session is started, no queue opened and no
  message sent.
\<close>

theorem bad_attribute_rejected_early:
  assumes "server_calm E" and "no_attribute (attr_list (Some names)) cols = Some c"
  shows "\<exists>calls s'. bmq_publish_row E (Some uri) (Some cols) (Some names) s
      = Some (Inl (Ereport (not_an_attribute (attname c) (atttypid c)) None), s')
    \<and> trace s' = trace s @ map Pg calls \<and> (property_of c = None \<and> c \<in> set cols)"
proof -
  let ?s1 = "s\<lparr>trace := trace s @ [Pg LookupTupdesc]\<rparr>"
  have "attr_list (Some names) \<noteq> None" by (simp add: attr_list_def)
  from pack_columns_rejects [OF assms(1) this assms(2), of "[]" "[]" ?s1] obtain calls s' where
    "pack_columns E (attr_list (Some names)) cols [] [] ?s1
      = Some (Inl (Ereport (not_an_attribute (attname c) (atttypid c)) None), s')" and calls: "trace s' = trace ?s1 @ map Pg calls"
    by blast
  moreover have "x_lookup_tupdesc E (trace s) = Inr ()" using assms(1) by (simp add: server_calm_def)
  ultimately have "bmq_publish_row E (Some uri) (Some cols) (Some names) s
      = Some (Inl (Ereport (not_an_attribute (attname c) (atttypid c)) None), s')"
    by (simp add: bmq_publish_row_def publish_body_def try_catch_def bk_defs)
  moreover have "trace s' = trace s @ map Pg (LookupTupdesc # calls)" using calls by simp
  moreover have "property_of c = None \<and> c \<in> set (live cols)"
    using assms(2) by (auto simp: no_attribute_def find_Some_iff)
  then have "property_of c = None \<and> c \<in> set cols" by (simp add: live_def)
  ultimately show ?thesis by blast
qed

text \<open>The column is of type \<^verbatim>\<open>bool\<close>, which can be an attribute, but is NULL in this row.\<close>

theorem bad_attribute_rejected_early_witness:
  "\<exists>calls s'. bmq_publish_row (demo_ext []) (Some ''bmq://q'') (Some demo_row) (Some [Some ''active'']) (backend_init ''tcp://b'')
      = Some (Inl (Ereport (not_an_attribute ''active'' BOOLOID) None), s') \<and> trace s' = map Pg calls"
proof -
  have "no_attribute (attr_list (Some [Some ''active''])) demo_row = Some (demo_row ! 4)"
    by (simp add: no_attribute_def attr_list_def demo_row_def live_def wanted_def property_of_def)
  from bad_attribute_rejected_early [OF demo_ext_lawful(2) this, of "[]" "''bmq://q''" "backend_init ''tcp://b''"] show ?thesis
    by (auto simp: demo_row_def backend_init_def)
qed

text \<open>
  C29. The row descriptor is released exactly once on every path: a call of \<^verbatim>\<open>bmq_publish_row\<close> with a queue and a
  row, whether it returns, rejects an attribute, fails to pack or to post, or the client throws anything,
  has looked the descriptor up once and released it once, as long as the server's own calls succeed.
\<close>

theorem descriptor_released_once:
  assumes "server_calm E" and "client_throws E" and "bmq_publish_row E (Some uri) (Some cols) attr_columns s = Some (r, s')"
  shows "releases (trace s') = Suc (releases (trace s))"
proof -
  let ?s1 = "s\<lparr>trace := trace s @ [Pg LookupTupdesc]\<rparr>"
  obtain r1 s1 where body: "publish_body E uri cols (attr_list attr_columns) ?s1 = Some (r1, s1)"
    using assms(1,3) by (cases "publish_body E uri cols (attr_list attr_columns) ?s1")
      (auto simp: bmq_publish_row_def bk_defs try_catch_def server_calm_def)
  with releasing_publish_body [OF assms(1,2)] have "releases (trace s1) = releases (trace ?s1) + (if cpp_only r1 then 0 else 1)"
    by (simp add: releasing_def)
  moreover have "releases (trace ?s1) = releases (trace s)" by (simp add: releases_def)
  ultimately show ?thesis
    using assms(1,3) body
    by (auto simp: bmq_publish_row_def server_calm_def bk_defs try_catch_def release_tupdesc_def ereport_def cpp_only_def releases_def
        split: sum.splits xerr.splits)
qed

theorem descriptor_released_once_witness:
  "\<exists>r s'. bmq_publish_row (demo_ext []\<lparr>x_open := \<lambda>_ _ _. Inl ThrownOther\<rparr>) (Some ''bmq://q'') (Some demo_row) None (backend_init ''tcp://b'')
     = Some (r, s') \<and> releases (trace s') = 1"
proof -
  let ?E = "demo_ext []\<lparr>x_open := \<lambda>_ _ _. Inl ThrownOther\<rparr>"
  have calm: "server_calm ?E" "client_throws ?E" by (simp_all add: demo_ext_def server_calm_def client_throws_def cpp_only_def)
  obtain r s' where run: "bmq_publish_row ?E (Some ''bmq://q'') (Some demo_row) None (backend_init ''tcp://b'') = Some (r, s')"
    by (rule haltsE [OF halts_publish])
  from descriptor_released_once [OF calm run] run show ?thesis by (auto simp: backend_init_def releases_def)
qed

end
