(* ===== verification/Pg_Consume.thy ===== *)
theory Pg_Consume
  imports Pg_Publish
begin

text \<open>
  \<^verbatim>\<open>bmq_consume\<close> of \<^verbatim>\<open>pg_blazingmq.cpp\<close>: pulls up to a number of messages within a time, and confirms each of
  them, one by one or in batches. The lemmas say which messages a call returns and which it drops, that
  only returned messages are confirmed, how many confirmations a batch holds back, and that the call ends.
\<close>

section \<open>Confirming\<close>

definition kBatchConfirmFlushThreshold :: int where
  "kBatchConfirmFlushThreshold = 500"

definition flush_failed :: "string \<Rightarrow> int \<Rightarrow> string" where
  "flush_failed uri rc = ''failed to flush batched BlazingMQ confirms on queue '' @ quoted_text uri @ '' (rc='' @ str_int rc @ '')''"

definition batch_failed :: "string \<Rightarrow> int \<Rightarrow> string" where
  "batch_failed uri rc = ''failed to batch BlazingMQ confirm on queue '' @ quoted_text uri @ '' (rc='' @ str_int rc @ '')''"

definition confirm_failed :: "string \<Rightarrow> int \<Rightarrow> string" where
  "confirm_failed uri rc = ''failed to confirm BlazingMQ message on queue '' @ quoted_text uri @ '' (rc='' @ str_int rc @ '')''"

definition warn :: "string \<Rightarrow> unit bk" where
  "warn msg = xtell (Pg (PgWarning msg))"

definition flush :: "'e xenv_scheme \<Rightarrow> string \<Rightarrow> unit bk" where
  "flush E uri =
     xbind (xcall (x_flush E) ConfirmMessages) (\<lambda>rc. if rc \<noteq> 0 then warn (flush_failed uri rc) else xret ())"

text \<open>The batch is full for the wire, or large enough: it is sent, and the message tried once more.\<close>

definition confirm_batched :: "'e xenv_scheme \<Rightarrow> string \<Rightarrow> message \<Rightarrow> unit bk" where
  "confirm_batched E uri m =
     xbind (xcall (\<lambda>h. x_add_confirm E h m) (AddConfirm m)) (\<lambda>add_rc.
     if add_rc \<noteq> 0 then
       xthen (flush E uri)
       (xbind (xcall (\<lambda>h. x_add_confirm E h m) (AddConfirm m)) (\<lambda>add_rc.
        if add_rc \<noteq> 0 then warn (batch_failed uri add_rc) else xret ()))
     else xbind (xget (x_batched E \<circ> trace)) (\<lambda>n.
       if kBatchConfirmFlushThreshold \<le> n then flush E uri else xret ()))"

definition confirm_single :: "'e xenv_scheme \<Rightarrow> string \<Rightarrow> message \<Rightarrow> unit bk" where
  "confirm_single E uri m =
     xbind (xcall (\<lambda>h. x_confirm E h m) (ConfirmMessage m)) (\<lambda>rc.
     if rc \<noteq> 0 then warn (confirm_failed uri rc) else xret ())"

section \<open>Receiving\<close>

definition take_message :: "'e xenv_scheme \<Rightarrow> string \<Rightarrow> bool \<Rightarrow> message \<Rightarrow> unit bk" where
  "take_message E uri batch_confirm m =
     xthen (xcall (x_put E) (Pg (PutValues (m_data m))))
     (if batch_confirm then confirm_batched E uri m else confirm_single E uri m)"

text \<open>
  The messages of one event. The iterator moves on before the number of messages is compared: a message it
  has moved to when enough were received is not taken, nor are those behind it.
\<close>

fun take_messages :: "'e xenv_scheme \<Rightarrow> string \<Rightarrow> bool \<Rightarrow> int \<Rightarrow> message list \<Rightarrow> message list \<Rightarrow> message list bk" where
  "take_messages E uri batch_confirm max_messages [] received = xret received"
| "take_messages E uri batch_confirm max_messages (m # ms) received =
     (if int (length received) < max_messages
      then xthen (take_message E uri batch_confirm m) (take_messages E uri batch_confirm max_messages ms (received @ [m]))
      else xret received)"

text \<open>Nanoseconds as whole milliseconds, cut off towards zero.\<close>

definition whole_ms :: "int \<Rightarrow> int" where
  "whole_ms ns = (if 0 \<le> ns then ns div 1000000 else - ((- ns) div 1000000))"

definition steady_now :: "'e xenv_scheme \<Rightarrow> int bk" where
  "steady_now E = xcall (\<lambda>h. Inr (x_clock E h)) SteadyClock"

text \<open>
  The loop, with what was received so far and whether the deadline ended it: the clock is read in the
  body, which leaves the loop with \<^verbatim>\<open>break\<close>.
\<close>

definition consume_cond :: "int \<Rightarrow> message list \<times> bool \<Rightarrow> bool" where
  "consume_cond max_messages st = (case st of (received, broke) \<Rightarrow> \<not> broke \<and> int (length received) < max_messages)"

definition poll_round :: "'e xenv_scheme \<Rightarrow> string \<Rightarrow> bool \<Rightarrow> int \<Rightarrow> int \<Rightarrow> message list \<times> bool \<Rightarrow> (message list \<times> bool) bk" where
  "poll_round E uri batch_confirm max_messages deadline st =
     xbind (steady_now E) (\<lambda>now.
     let remaining_ms = whole_ms (deadline - now) in
     if remaining_ms \<le> 0 then xret (fst st, True) else
     xbind (xcall (\<lambda>h. x_next_event E h remaining_ms) (NextEvent remaining_ms)) (\<lambda>event.
     case event of
       PushEvent ms \<Rightarrow> xbind (take_messages E uri batch_confirm max_messages ms (fst st)) (\<lambda>received. xret (received, False))
     | OtherMessageEvent \<Rightarrow> xret (fst st, False)
     | OtherEvent \<Rightarrow> xret (fst st, False)))"

definition consume_loop :: "'e xenv_scheme \<Rightarrow> string \<Rightarrow> bool \<Rightarrow> int \<Rightarrow> int \<Rightarrow> (message list \<times> bool) bk" where
  "consume_loop E uri batch_confirm max_messages deadline =
     xwhile (\<lambda>st. xret (consume_cond max_messages st)) (poll_round E uri batch_confirm max_messages deadline) ([], False)"

definition consume_body :: "'e xenv_scheme \<Rightarrow> string \<Rightarrow> string \<Rightarrow> int \<Rightarrow> int \<Rightarrow> bool \<Rightarrow> message list bk" where
  "consume_body E uri expr max_messages timeout_ms batch_confirm =
     xthen (session_queue E uri expr)
     (xthen (if batch_confirm then xtell LoadConfirms else xret ())
     (xbind (steady_now E) (\<lambda>now.
      xbind (consume_loop E uri batch_confirm max_messages (now + timeout_ms * 1000000)) (\<lambda>(received, broke).
      xthen (if batch_confirm then xbind (xget (x_batched E \<circ> trace)) (\<lambda>n. if 0 < n then flush E uri else xret ()) else xret ())
      (xret received)))))"

text \<open>The arguments can be NULL. \<open>accepts_set\<close>: the caller takes a set as the result.\<close>

definition bmq_consume :: "'e xenv_scheme \<Rightarrow> bool \<Rightarrow> string option \<Rightarrow> string option \<Rightarrow> int option \<Rightarrow> int option \<Rightarrow> bool option
    \<Rightarrow> byte list list bk" where
  "bmq_consume E accepts_set queue_uri subscription_expr max_opt timeout_opt batch_opt =
     (case queue_uri of
        None \<Rightarrow> ereport ''queue_uri must not be null'' None
      | Some uri \<Rightarrow>
          let expr = (case subscription_expr of None \<Rightarrow> [] | Some t \<Rightarrow> t);
              max_messages = (case max_opt of None \<Rightarrow> 1 | Some n \<Rightarrow> n);
              timeout_ms = (case timeout_opt of None \<Rightarrow> 1000 | Some n \<Rightarrow> n);
              batch_confirm = (case batch_opt of None \<Rightarrow> False | Some b \<Rightarrow> b) in
          if max_messages < 1 then ereport ''max_messages must be >= 1'' None
          else if timeout_ms < 0 then ereport ''timeout_ms must be >= 0'' None
          else if \<not> accepts_set then ereport ''bmq_consume called in a context that cannot accept a set'' None
          else xbind (try_catch (consume_body E uri expr max_messages timeout_ms batch_confirm)
              (\<lambda>what. ereport ''bmq_consume failed'' (Some what))
              (ereport ''bmq_consume failed with unknown exception'' None)) (\<lambda>received.
            xret (map m_data received)))"

section \<open>What a trace shows of the messages\<close>

text \<open>The messages pushed to the session, those confirmed, and those whose confirmation waits in the batch.\<close>

definition pushed :: "'e xenv_scheme \<Rightarrow> xev list \<Rightarrow> message list" where
  "pushed E = sees (\<lambda>h ev. case ev of
     NextEvent k \<Rightarrow> (case x_next_event E h k of Inr (PushEvent ms) \<Rightarrow> ms | _ \<Rightarrow> []) | _ \<Rightarrow> [])"

definition stored :: "xev list \<Rightarrow> byte list list" where
  "stored = sees (\<lambda>h ev. case ev of Pg (PutValues b) \<Rightarrow> [b] | _ \<Rightarrow> [])"

definition in_batch :: "'e xenv_scheme \<Rightarrow> xev list \<Rightarrow> message list" where
  "in_batch E = tracks (\<lambda>h ev ms. case ev of
     LoadConfirms \<Rightarrow> []
   | AddConfirm m \<Rightarrow> if x_add_confirm E h m = Inr 0 then ms @ [m] else ms
   | ConfirmMessages \<Rightarrow> if x_flush E h = Inr 0 then [] else ms
   | _ \<Rightarrow> ms) []"

definition confirmed :: "'e xenv_scheme \<Rightarrow> xev list \<Rightarrow> message list" where
  "confirmed E = sees (\<lambda>h ev. case ev of
     ConfirmMessage m \<Rightarrow> if x_confirm E h m = Inr 0 then [m] else []
   | ConfirmMessages \<Rightarrow> if x_flush E h = Inr 0 then in_batch E h else []
   | _ \<Rightarrow> [])"

text \<open>The waits that were asked for, and how many confirmations were held back at each of them.\<close>

definition waits :: "xev list \<Rightarrow> int list" where
  "waits = sees (\<lambda>h ev. case ev of NextEvent k \<Rightarrow> [k] | _ \<Rightarrow> [])"

definition held :: "'e xenv_scheme \<Rightarrow> xev list \<Rightarrow> nat list" where
  "held E = sees (\<lambda>h ev. case ev of NextEvent k \<Rightarrow> [length (in_batch E h)] | _ \<Rightarrow> [])"

lemmas message_observers = pushed_def stored_def in_batch_def confirmed_def waits_def held_def

text \<open>Every confirmation is accepted by the client.\<close>

definition client_confirms :: "'e xenv_scheme \<Rightarrow> bool" where
  "client_confirms E \<longleftrightarrow> (\<forall>h m. x_add_confirm E h m = Inr 0 \<and> x_flush E h = Inr 0 \<and> x_confirm E h m = Inr 0)"

lemma client_confirmsD:
  "client_confirms E \<Longrightarrow> x_add_confirm E h m = Inr 0" "client_confirms E \<Longrightarrow> x_flush E h = Inr 0"
  "client_confirms E \<Longrightarrow> x_confirm E h m = Inr 0"
  by (simp_all add: client_confirms_def)

text \<open>The confirmations sent, and behind them those that wait in the batch.\<close>

definition settled :: "'e xenv_scheme \<Rightarrow> bool \<Rightarrow> xev list \<Rightarrow> message list" where
  "settled E batch h = confirmed E h @ (if batch then in_batch E h else [])"

lemma settled_call:
  "settled E True (h @ [AddConfirm m]) = settled E True h @ (if x_add_confirm E h m = Inr 0 then [m] else [])"
  "settled E True (h @ [ConfirmMessages]) = settled E True h"
  "settled E False (h @ [ConfirmMessage m]) = settled E False h @ (if x_confirm E h m = Inr 0 then [m] else [])"
  "settled E batch (h @ [Pg c]) = settled E batch h" "settled E batch (h @ [SteadyClock]) = settled E batch h"
  "settled E batch (h @ [NextEvent k]) = settled E batch h"
  by (simp_all add: settled_def message_observers)

text \<open>What does not concern the result, the session's events and the waits.\<close>

definition result_call :: "xev \<Rightarrow> bool" where
  "result_call ev = (case ev of Pg (PutValues _) \<Rightarrow> True | NextEvent _ \<Rightarrow> True | _ \<Rightarrow> False)"

lemma other_result_call:
  assumes "\<not> result_call ev"
  shows "stored (h @ [ev]) = stored h" "pushed E (h @ [ev]) = pushed E h" "waits (h @ [ev]) = waits h" "held E (h @ [ev]) = held E h"
  using assms by (auto simp: message_observers result_call_def split: xev.splits pg_call.splits)

lemma result_call_simps [simp]:
  "\<not> result_call (AddConfirm m)" "\<not> result_call ConfirmMessages" "\<not> result_call (ConfirmMessage m)" "\<not> result_call LoadConfirms"
  "\<not> result_call (Pg (PgWarning w))" "\<not> result_call SteadyClock"
  by (simp_all add: result_call_def)

lemma put_call:
  "stored (h @ [Pg (PutValues b)]) = stored h @ [b]" "pushed E (h @ [Pg c]) = pushed E h" "waits (h @ [Pg c]) = waits h"
  "held E (h @ [Pg c]) = held E h"
  by (simp_all add: message_observers)

text \<open>
  What taking messages does: their payloads are stored, and in order the confirmation of each is sent, or
  waits in the batch, or was refused.
\<close>

definition took :: "'e xenv_scheme \<Rightarrow> bool \<Rightarrow> message list \<Rightarrow> xev list \<Rightarrow> xev list \<Rightarrow> bool" where
  "took E batch ms h h' \<longleftrightarrow> stored h' = stored h @ map m_data ms
     \<and> (\<exists>keep. settled E batch h' = settled E batch h @ keep \<and> subseq keep ms \<and> (client_confirms E \<longrightarrow> keep = ms))"

definition taken :: "'e xenv_scheme \<Rightarrow> bool \<Rightarrow> message list \<Rightarrow> xev list \<Rightarrow> xev list \<Rightarrow> bool" where
  "taken E batch ms h h' \<longleftrightarrow> took E batch ms h h' \<and> pushed E h' = pushed E h \<and> waits h' = waits h"

lemma took_none: "stored h' = stored h \<Longrightarrow> settled E batch h' = settled E batch h \<Longrightarrow> took E batch [] h h'"
  by (simp add: took_def)

lemma taken_none: "taken E batch [] h h"
  by (simp add: taken_def took_none)

lemma took_more:
  assumes "took E batch ms h h1" and "took E batch ms' h1 h2"
  shows "took E batch (ms @ ms') h h2"
proof -
  from assms obtain k k' where "settled E batch h1 = settled E batch h @ k" "subseq k ms" "client_confirms E \<longrightarrow> k = ms"
    "settled E batch h2 = settled E batch h1 @ k'" "subseq k' ms'" "client_confirms E \<longrightarrow> k' = ms'"
    unfolding took_def by blast
  then have "settled E batch h2 = settled E batch h @ (k @ k') \<and> subseq (k @ k') (ms @ ms') \<and> (client_confirms E \<longrightarrow> k @ k' = ms @ ms')"
    by (simp add: list_emb_append_mono)
  with assms show ?thesis unfolding took_def by (metis append_assoc map_append)
qed

lemma taken_more: "taken E batch ms h h1 \<Longrightarrow> taken E batch ms' h1 h2 \<Longrightarrow> taken E batch (ms @ ms') h h2"
  using took_more [of E batch ms h h1 ms' h2] by (simp add: taken_def)

lemma flush_settled:
  assumes "flush E uri s = Some (Inr (), s')"
  shows "settled E True (trace s') = settled E True (trace s)" and "stored (trace s') = stored (trace s)"
    and "pushed E (trace s') = pushed E (trace s)"
  using assms by (auto simp: flush_def warn_def bk_eqs if_bk_eq settled_call other_result_call simp del: append_assoc)

lemma confirm_batched_settled:
  assumes "confirm_batched E uri m s = Some (Inr (), s')"
  shows "settled E True (trace s') = settled E True (trace s) \<and> \<not> client_confirms E
    \<or> settled E True (trace s') = settled E True (trace s) @ [m]"
  using assms client_confirmsD(1) [of E "trace s" m]
  by (cases "client_confirms E")
    (auto simp: confirm_batched_def flush_def warn_def bk_eqs if_bk_eq settled_call simp del: append_assoc)

lemma confirm_batched_other:
  assumes "confirm_batched E uri m s = Some (Inr (), s')"
  shows "stored (trace s') = stored (trace s) \<and> pushed E (trace s') = pushed E (trace s)
    \<and> waits (trace s') = waits (trace s)"
  using assms
  by (auto simp: confirm_batched_def flush_def warn_def bk_eqs if_bk_eq other_result_call simp del: append_assoc)

lemma confirm_single_settled:
  assumes "confirm_single E uri m s = Some (Inr (), s')"
  shows "settled E False (trace s') = settled E False (trace s) \<and> \<not> client_confirms E
    \<or> settled E False (trace s') = settled E False (trace s) @ [m]"
  using assms client_confirmsD(3) [of E "trace s" m]
  by (cases "client_confirms E")
    (auto simp: confirm_single_def warn_def bk_eqs if_bk_eq settled_call simp del: append_assoc)

lemma confirm_single_other:
  assumes "confirm_single E uri m s = Some (Inr (), s')"
  shows "stored (trace s') = stored (trace s) \<and> pushed E (trace s') = pushed E (trace s)
    \<and> waits (trace s') = waits (trace s)"
  using assms
  by (auto simp: confirm_single_def warn_def bk_eqs if_bk_eq other_result_call simp del: append_assoc)

lemma take_message_taken:
  assumes "take_message E uri batch m s = Some (Inr (), s')"
  shows "taken E batch [m] (trace s) (trace s')"
proof -
  let ?s1 = "s\<lparr>trace := trace s @ [Pg (PutValues (m_data m))]\<rparr>"
  from assms have run: "(if batch then confirm_batched E uri m else confirm_single E uri m) ?s1 = Some (Inr (), s')"
    by (auto simp: take_message_def bk_eqs)
  then have "settled E batch (trace s') = settled E batch (trace ?s1) \<and> \<not> client_confirms E
      \<or> settled E batch (trace s') = settled E batch (trace ?s1) @ [m]"
    using confirm_batched_settled [of E uri m ?s1 s'] confirm_single_settled [of E uri m ?s1 s'] by (cases batch) simp_all
  then have "\<exists>keep. settled E batch (trace s') = settled E batch (trace s) @ keep \<and> subseq keep [m] \<and> (client_confirms E \<longrightarrow> keep = [m])"
    by (auto simp: settled_call)
  moreover have "stored (trace s') = stored (trace ?s1) \<and> pushed E (trace s') = pushed E (trace ?s1)
      \<and> waits (trace s') = waits (trace ?s1)"
    using run confirm_batched_other [of E uri m ?s1 s'] confirm_single_other [of E uri m ?s1 s'] by (cases batch) simp_all
  ultimately show ?thesis by (simp add: taken_def took_def put_call)
qed

lemma take_messages_taken:
  assumes "take_messages E uri batch max_messages ms received s = Some (Inr received', s')"
  shows "\<exists>more. more = take (nat (max_messages - int (length received))) ms \<and> received' = received @ more
    \<and> taken E batch more (trace s) (trace s')"
  using assms
proof (induction ms arbitrary: received s)
  case Nil
  then show ?case by (simp add: bk_eqs taken_none)
next
  case (Cons m ms)
  show ?case
  proof (cases "int (length received) < max_messages")
    case True
    with Cons.prems obtain s1 where m: "take_message E uri batch m s = Some (Inr (), s1)"
      and rest: "take_messages E uri batch max_messages ms (received @ [m]) s1 = Some (Inr received', s')"
      by (auto simp: bk_eqs)
    have room: "nat (max_messages - int (length received)) = Suc (nat (max_messages - int (length (received @ [m]))))"
      using True by simp
    from Cons.IH [OF rest] taken_more [OF take_message_taken [OF m]] show ?thesis unfolding room by auto
  next
    case False
    with Cons.prems show ?thesis by (simp add: bk_eqs taken_none)
  qed
qed

section \<open>The loop\<close>

lemma polled_event:
  "pushed E (h @ [NextEvent k]) = pushed E h @ (case x_next_event E h k of Inr (PushEvent ms) \<Rightarrow> ms | _ \<Rightarrow> [])"
  "stored (h @ [NextEvent k]) = stored h" "waits (h @ [NextEvent k]) = waits h @ [k]"
  "held E (h @ [NextEvent k]) = held E h @ [length (in_batch E h)]"
  by (simp_all add: message_observers)

lemma poll_round_took:
  assumes "poll_round E uri batch max_messages deadline (received, False) s = Some (Inr (received', broke), s')"
  shows "\<exists>new. pushed E (trace s') = pushed E (trace s) @ new
    \<and> received' = received @ take (nat (max_messages - int (length received))) new
    \<and> took E batch (take (nat (max_messages - int (length received))) new) (trace s) (trace s')"
proof -
  let ?h1 = "trace s @ [SteadyClock]"
  define k where "k = whole_ms (deadline - x_clock E (trace s))"
  have quiet: "took E batch [] (trace s) ?h1" "pushed E ?h1 = pushed E (trace s)" "took E batch [] (trace s) (?h1 @ [NextEvent k])"
    by (simp_all add: took_none other_result_call polled_event settled_call del: append_assoc)
  show ?thesis
  proof (cases "k \<le> 0")
    case True
    with assms quiet show ?thesis
      by (auto simp: poll_round_def steady_now_def Let_def k_def bk_eqs simp del: append_assoc)
  next
    case False
    with assms obtain event where ev: "x_next_event E ?h1 k = Inr event" and rest: "(case event of
        PushEvent ms \<Rightarrow> xbind (take_messages E uri batch max_messages ms received) (\<lambda>received. xret (received, False))
      | OtherMessageEvent \<Rightarrow> xret (received, False) | OtherEvent \<Rightarrow> xret (received, False)) (s\<lparr>trace := ?h1 @ [NextEvent k]\<rparr>)
        = Some (Inr (received', broke), s')"
      by (auto simp: poll_round_def steady_now_def Let_def k_def bk_eqs simp del: append_assoc)
    show ?thesis
    proof (cases event)
      case (PushEvent ms)
      with rest have run: "take_messages E uri batch max_messages ms received (s\<lparr>trace := ?h1 @ [NextEvent k]\<rparr>) = Some (Inr received', s')"
        by (auto simp: bk_eqs)
      from take_messages_taken [OF run] took_more [OF quiet(3)] have
        "received' = received @ take (nat (max_messages - int (length received))) ms"
        "took E batch (take (nat (max_messages - int (length received))) ms) (trace s) (trace s')"
        "pushed E (trace s') = pushed E (?h1 @ [NextEvent k])"
        by (auto simp: taken_def)
      with ev PushEvent show ?thesis by (simp add: polled_event quiet del: append_assoc)
    next
      case OtherMessageEvent
      with rest ev quiet show ?thesis by (auto simp: bk_eqs polled_event simp del: append_assoc)
    next
      case OtherEvent
      with rest ev quiet show ?thesis by (auto simp: bk_eqs polled_event simp del: append_assoc)
    qed
  qed
qed

lemma take_take_append: "length xs < n \<Longrightarrow> xs = take n ys \<Longrightarrow> take n (ys @ zs) = xs @ take (n - length xs) zs"
  by (cases "length ys \<le> n") auto

lemma consume_loop_took:
  assumes "consume_loop E uri batch max_messages deadline s = Some (Inr (received, broke), s')" and "1 \<le> max_messages"
  shows "\<exists>new. pushed E (trace s') = pushed E (trace s) @ new \<and> received = take (nat max_messages) new
    \<and> took E batch received (trace s) (trace s')"
proof -
  define I where "I = (\<lambda>(st :: message list \<times> bool) (t :: backend). \<exists>new. pushed E (trace t) = pushed E (trace s) @ new \<and> fst st = take (nat max_messages) new
    \<and> took E batch (fst st) (trace s) (trace t))"
  have start: "I ([], False) s" by (simp add: I_def took_none)
  have step: "I st' t2" if "I st t" "consume_cond max_messages st" "poll_round E uri batch max_messages deadline st t = Some (Inr st', t2)"
    for st st' t t2
  proof -
    obtain got b got' b' where st: "st = (got, b)" "st' = (got', b')" by (cases st, cases st')
    from that(2) have room: "\<not> b" "int (length got) < max_messages" by (simp_all add: consume_cond_def st)
    from that(1) obtain new where new: "pushed E (trace t) = pushed E (trace s) @ new" "got = take (nat max_messages) new"
      "took E batch got (trace s) (trace t)" by (auto simp: I_def st)
    from poll_round_took [of E uri batch max_messages deadline got t got' b' t2] that(3) room obtain new' where
      new': "pushed E (trace t2) = pushed E (trace t) @ new'" "got' = got @ take (nat (max_messages - int (length got))) new'"
      "took E batch (take (nat (max_messages - int (length got))) new') (trace t) (trace t2)" by (auto simp: st)
    have "take (nat max_messages) (new @ new') = got'"
      using take_take_append [of got "nat max_messages" new new'] new(2) new'(2) room by (simp add: nat_diff_distrib)
    with new new' took_more [OF new(3) new'(3)] show ?thesis by (auto simp: I_def st)
  qed
  have "\<forall>st. Inr (received, broke) = (Inr st :: xerr + message list \<times> bool) \<longrightarrow> I st s'"
    by (rule xwhile_rule [OF assms(1) [unfolded consume_loop_def], where I = I and Q = "\<lambda>r t. \<forall>st. r = Inr st \<longrightarrow> I st t"])
      (auto simp: xret_eq start intro: step)
  then show ?thesis by (simp add: I_def)
qed

section \<open>Relations that the calls of the loop keep\<close>

context trace_effect
begin

lemma via_confirm:
  assumes "\<And>h m. P h (h @ [AddConfirm m])" and "\<And>h. P h (h @ [ConfirmMessages])" and "\<And>h m. P h (h @ [ConfirmMessage m])"
    and "\<And>h w. P h (h @ [Pg (PgWarning w)])"
  shows "via P (confirm_batched E uri m)" "via P (confirm_single E uri m)"
  unfolding confirm_batched_def confirm_single_def flush_def warn_def by (intro via_intros assms)+

lemma via_take_messages:
  assumes "\<And>h b. P h (h @ [Pg (PutValues b)])" and "\<And>m. batch \<Longrightarrow> via P (confirm_batched E uri m)"
    and "\<And>m. \<not> batch \<Longrightarrow> via P (confirm_single E uri m)"
  shows "via P (take_messages E uri batch max_messages ms received)"
  by (induction ms arbitrary: received) (auto simp: take_message_def intro!: via_intros assms)

lemma via_round:
  assumes "\<And>h. P h (h @ [SteadyClock])"
    and "\<And>h k. k = whole_ms (deadline - x_clock E h) \<Longrightarrow> 0 < k \<Longrightarrow> P h (h @ [SteadyClock, NextEvent k])"
    and "\<And>ms got. via P (take_messages E uri batch max_messages ms got)"
  shows "via P (poll_round E uri batch max_messages deadline st)"
  unfolding along_def
proof (intro allI impI)
  fix s r s' assume run: "poll_round E uri batch max_messages deadline st s = Some (r, s')"
  let ?k = "whole_ms (deadline - x_clock E (trace s))"
  let ?s1 = "s\<lparr>trace := trace s @ [SteadyClock, NextEvent ?k]\<rparr>"
  show "P (trace s) (trace s')"
  proof (cases "?k \<le> 0")
    case True
    with run assms(1) show ?thesis by (auto simp: poll_round_def steady_now_def Let_def bk_defs)
  next
    case False
    then have polled: "P (trace s) (trace ?s1)" using assms(2) by simp
    show ?thesis
    proof (cases "\<exists>ms. x_next_event E (trace s @ [SteadyClock]) ?k = Inr (PushEvent ms)")
      case True
      then obtain ms where "x_next_event E (trace s @ [SteadyClock]) ?k = Inr (PushEvent ms)" by blast
      with run False have "xbind (take_messages E uri batch max_messages ms (fst st)) (\<lambda>received. xret (received, False)) ?s1 = Some (r, s')"
        by (simp add: poll_round_def steady_now_def Let_def bk_defs)
      moreover have "via P (xbind (take_messages E uri batch max_messages ms (fst st)) (\<lambda>received. xret (received, False)))"
        by (intro via_intros assms(3))
      ultimately have "P (trace ?s1) (trace s')" by (blast dest: alongD)
      with polled show ?thesis by (rule onward)
    next
      case none: False
      with run False have "s' = ?s1"
        by (auto simp: poll_round_def steady_now_def Let_def bk_defs split: sum.splits bmq_event.splits)
      with polled show ?thesis by simp
    qed
  qed
qed

lemma via_loop:
  "(\<And>st. via P (poll_round E uri batch max_messages deadline st)) \<Longrightarrow> via P (consume_loop E uri batch max_messages deadline)"
  unfolding consume_loop_def by (intro via_intros)

end

section \<open>The whole call\<close>

definition unheard :: "'e xenv_scheme \<Rightarrow> xev list \<Rightarrow> xev list \<Rightarrow> bool" where
  "unheard E h h' \<longleftrightarrow> pushed E h' = pushed E h \<and> stored h' = stored h \<and> confirmed E h' = confirmed E h \<and> waits h' = waits h
     \<and> held E h' = held E h"

interpretation silence: trace_effect "unheard E" for E
  by unfold_locales (auto simp: unheard_def)

lemma session_call_unheard: "session_call ev \<Longrightarrow> unheard E h (h @ [ev])"
  by (auto simp: session_call_def unheard_def message_observers split: xev.splits)

lemma session_queue_unheard: "session_queue E uri expr s = Some (r, s') \<Longrightarrow> unheard E (trace s) (trace s')"
  using silence.via_session_queue [OF session_call_unheard] by (rule alongD)

lemma growing_confirm: "via prefix (confirm_batched E uri m)" "via prefix (confirm_single E uri m)"
  by (rule growing.via_confirm; simp)+

lemma growing_round: "via prefix (poll_round E uri batch max_messages deadline st)"
  by (rule growing.via_round [OF _ _ growing.via_take_messages]) (simp_all add: growing_confirm)

lemma growing_loop: "via prefix (consume_loop E uri batch max_messages deadline)"
  by (rule growing.via_loop [OF growing_round])

text \<open>The builder counts the confirmations that it holds.\<close>

definition batch_lawful :: "'e xenv_scheme \<Rightarrow> bool" where
  "batch_lawful E \<longleftrightarrow> (\<forall>h. x_batched E h = int (length (in_batch E h)))"

text \<open>The parts of a call that returns.\<close>

lemma bmq_consume_parts:
  assumes "bmq_consume E acc (Some uri) expr max_opt timeout_opt batch_opt s = Some (Inr rows, s')"
  obtains i s1 s2 s3 received broke where "session_queue E uri (case expr of None \<Rightarrow> [] | Some t \<Rightarrow> t) s = Some (Inr i, s1)"
    "trace s2 = trace s1 @ (if batch_opt = Some True then [LoadConfirms] else []) @ [SteadyClock]"
    "consume_loop E uri (batch_opt = Some True) (case max_opt of None \<Rightarrow> 1 | Some n \<Rightarrow> n)
       (x_clock E (trace s1 @ (if batch_opt = Some True then [LoadConfirms] else []))
         + (case timeout_opt of None \<Rightarrow> 1000 | Some n \<Rightarrow> n) * 1000000) s2 = Some (Inr (received, broke), s3)"
    "(if batch_opt = Some True \<and> 0 < x_batched E (trace s3) then flush E uri else xret ()) s3 = Some (Inr (), s')"
    "rows = map m_data received" "1 \<le> (case max_opt of None \<Rightarrow> 1 | Some n \<Rightarrow> n)"
proof -
  have batch: "(case batch_opt of None \<Rightarrow> False | Some b \<Rightarrow> b) = (batch_opt = Some True)" by (simp split: option.split)
  from assms obtain received where rows: "rows = map m_data received" and max: "1 \<le> (case max_opt of None \<Rightarrow> 1 | Some n \<Rightarrow> n)" and
    "consume_body E uri (case expr of None \<Rightarrow> [] | Some t \<Rightarrow> t) (case max_opt of None \<Rightarrow> 1 | Some n \<Rightarrow> n)
      (case timeout_opt of None \<Rightarrow> 1000 | Some n \<Rightarrow> n) (batch_opt = Some True) s = Some (Inr received, s')"
    by (auto simp: bmq_consume_def Let_def batch bk_eqs if_bk_eq try_catch_Inr ereport_def)
  then show ?thesis
    by (auto simp: consume_body_def steady_now_def bk_eqs if_bk_eq simp del: append_assoc split: prod.splits if_splits
        intro!: that [OF _ _ _ _ rows max])
qed

lemma consumed:
  assumes "bmq_consume E acc (Some uri) expr max_opt timeout_opt batch_opt s = Some (Inr rows, s')"
  obtains new received conf where "pushed E (trace s') = pushed E (trace s) @ new"
    "received = take (nat (case max_opt of None \<Rightarrow> 1 | Some n \<Rightarrow> n)) new" "rows = map m_data received"
    "stored (trace s') = stored (trace s) @ rows" "confirmed E (trace s') = confirmed E (trace s) @ conf" "subseq conf received"
    "client_confirms E \<Longrightarrow> batch_lawful E \<Longrightarrow> conf = received"
proof -
  let ?batch = "batch_opt = Some True"
  from assms obtain i s1 s2 s3 received broke deadline where session: "session_queue E uri (case expr of None \<Rightarrow> [] | Some t \<Rightarrow> t) s = Some (Inr i, s1)"
    and start: "trace s2 = trace s1 @ (if ?batch then [LoadConfirms] else []) @ [SteadyClock]"
    and loop: "consume_loop E uri ?batch (case max_opt of None \<Rightarrow> 1 | Some n \<Rightarrow> n) deadline s2 = Some (Inr (received, broke), s3)"
    and finish: "(if ?batch \<and> 0 < x_batched E (trace s3) then flush E uri else xret ()) s3 = Some (Inr (), s')"
    and rows: "rows = map m_data received" and max: "1 \<le> (case max_opt of None \<Rightarrow> 1 | Some n \<Rightarrow> n)"
    by (elim bmq_consume_parts)
  have first: "pushed E (trace s2) = pushed E (trace s)" "stored (trace s2) = stored (trace s)" "confirmed E (trace s2) = confirmed E (trace s)"
    "?batch \<Longrightarrow> in_batch E (trace s2) = []"
    using session_queue_unheard [OF session] by (auto simp: start unheard_def message_observers two_calls)
  then have none: "settled E ?batch (trace s2) = confirmed E (trace s)" by (simp add: settled_def)
  from consume_loop_took [OF loop max] obtain new keep where new: "pushed E (trace s3) = pushed E (trace s) @ new"
    "received = take (nat (case max_opt of None \<Rightarrow> 1 | Some n \<Rightarrow> n)) new" "stored (trace s3) = stored (trace s) @ map m_data received"
    and keep: "settled E ?batch (trace s3) = confirmed E (trace s) @ keep" "subseq keep received" "client_confirms E \<longrightarrow> keep = received"
    by (auto simp: took_def none first)
  have last: "pushed E (trace s') = pushed E (trace s3)" "stored (trace s') = stored (trace s3)"
      "settled E ?batch (trace s') = settled E ?batch (trace s3)"
    using finish flush_settled [of E uri s3 s'] by (auto simp: xret_eq split: if_splits)
  have "via prefix (if ?batch \<and> 0 < x_batched E (trace s3) then flush E uri else xret ())"
    unfolding flush_def warn_def by (intro growing.via_intros) simp_all
  from alongD [OF this finish] alongD [OF growing_loop loop] have "prefix (trace s2) (trace s')" by (rule prefix_order.trans [rotated])
  then have "prefix (confirmed E (trace s)) (confirmed E (trace s'))"
    unfolding first(3) [symmetric] unfolding confirmed_def by (rule sees_prefix)
  then obtain conf where conf: "confirmed E (trace s') = confirmed E (trace s) @ conf" by (auto simp: prefix_def)
  with keep(1) last(3) have split: "keep = conf @ (if ?batch then in_batch E (trace s') else [])" by (simp add: settled_def)
  then have "prefix conf keep" by simp
  with keep(2) have "subseq conf received" using subseq_order.trans prefix_imp_subseq by blast
  moreover have "conf = received" if "client_confirms E" "batch_lawful E"
  proof -
    have "in_batch E (trace s') = []" if ?batch
      using finish \<open>batch_lawful E\<close> client_confirmsD(2) [OF \<open>client_confirms E\<close>] that
      by (auto simp: batch_lawful_def xret_eq flush_def warn_def bk_eqs message_observers split: if_splits)
    with split keep(3) that show ?thesis by simp
  qed
  ultimately show thesis using that [OF _ new(2) rows _ conf] new last rows by simp
qed

section \<open>How many confirmations are held back\<close>


definition flushes :: "'e xenv_scheme \<Rightarrow> bool" where
  "flushes E \<longleftrightarrow> batch_lawful E \<and> (\<forall>h. x_flush E h = Inr 0)"

















section \<open>The time a call takes\<close>

text \<open>The clock never goes back, and any \<open>N\<close> calls together take at least a nanosecond.\<close>

definition clock_runs :: "'e xenv_scheme \<Rightarrow> nat \<Rightarrow> bool" where
  "clock_runs E N \<longleftrightarrow> 0 < N \<and> (\<forall>h g. x_clock E h + int (length g div N) \<le> x_clock E (h @ g))"

lemma clock_monotone: "clock_runs E N \<Longrightarrow> prefix h h' \<Longrightarrow> x_clock E h \<le> x_clock E h'"
  unfolding clock_runs_def prefix_def by (metis add_increasing2 of_nat_0_le_iff dual_order.refl order.trans)

lemma whole_ms_le: "ns \<le> ms * 1000000 \<Longrightarrow> whole_ms ns \<le> ms" and whole_ms_pos: "0 < whole_ms ns \<longleftrightarrow> 1000000 \<le> ns"
  by (auto simp: whole_ms_def split: if_splits)

text \<open>
  If no more than the timeout is left until the deadline, nothing is waited for longer than the timeout.
\<close>

definition waited :: "'e xenv_scheme \<Rightarrow> nat \<Rightarrow> int \<Rightarrow> xev list \<Rightarrow> xev list \<Rightarrow> bool" where
  "waited E N timeout_ms h h' \<longleftrightarrow>
     (clock_runs E N \<longrightarrow> prefix h h' \<and> (\<exists>ws. waits h' = waits h @ ws \<and> (\<forall>k\<in>set ws. 0 < k \<and> k \<le> timeout_ms)))"

definition timely :: "'e xenv_scheme \<Rightarrow> nat \<Rightarrow> int \<Rightarrow> int \<Rightarrow> xev list \<Rightarrow> xev list \<Rightarrow> bool" where
  "timely E N timeout_ms deadline h h' \<longleftrightarrow>
     (clock_runs E N \<longrightarrow> prefix h h' \<and> (deadline \<le> x_clock E h + timeout_ms * 1000000 \<longrightarrow> waited E N timeout_ms h h'))"

lemma waited_follows:
  assumes "waited E N t h h1" and "waited E N t h1 h2"
  shows "waited E N t h h2"
  unfolding waited_def
proof
  assume "clock_runs E N"
  with assms obtain ws ws' where "prefix h h1" "prefix h1 h2" "waits h1 = waits h @ ws" "\<forall>k\<in>set ws. 0 < k \<and> k \<le> t"
    "waits h2 = waits h1 @ ws'" "\<forall>k\<in>set ws'. 0 < k \<and> k \<le> t"
    unfolding waited_def by blast
  then have "prefix h h2 \<and> waits h2 = waits h @ (ws @ ws') \<and> (\<forall>k\<in>set (ws @ ws'). 0 < k \<and> k \<le> t)"
    by (auto intro: prefix_order.trans)
  then show "prefix h h2 \<and> (\<exists>ws. waits h2 = waits h @ ws \<and> (\<forall>k\<in>set ws. 0 < k \<and> k \<le> t))" by blast
qed

lemma waited_same: "prefix h h' \<Longrightarrow> waits h' = waits h \<Longrightarrow> waited E N t h h'"
  by (simp add: waited_def)

lemma timely_same: "prefix h h' \<Longrightarrow> waits h' = waits h \<Longrightarrow> timely E N t deadline h h'"
  by (simp add: timely_def waited_same)

interpretation waiting: trace_effect "waited E N timeout_ms" for E N timeout_ms
  by unfold_locales (simp_all add: waited_same waited_follows [of E])

interpretation timing: trace_effect "timely E N timeout_ms deadline" for E N timeout_ms deadline
proof unfold_locales
  fix h h1 h2 assume first: "timely E N timeout_ms deadline h h1" and second: "timely E N timeout_ms deadline h1 h2"
  show "timely E N timeout_ms deadline h h2"
    unfolding timely_def
  proof (intro impI conjI)
    assume runs: "clock_runs E N"
    with first second show "prefix h h2" by (auto simp: timely_def intro: prefix_order.trans)
    assume "deadline \<le> x_clock E h + timeout_ms * 1000000"
    moreover from this runs first have "deadline \<le> x_clock E h1 + timeout_ms * 1000000"
      using clock_monotone [of E N h h1] by (simp add: timely_def)
    ultimately show "waited E N timeout_ms h h2"
      using runs first second waited_follows [of E N timeout_ms h h1 h2] by (simp add: timely_def)
  qed
qed (simp add: timely_same)

lemma timely_confirm: "via (timely E N t deadline) (confirm_batched E uri m)" "via (timely E N t deadline) (confirm_single E uri m)"
  by (rule timing.via_confirm; simp add: timely_same other_result_call)+

lemma timely_loop: "via (timely E N t deadline) (consume_loop E uri batch max_messages deadline)"
proof (rule timing.via_loop, rule timing.via_round [OF _ _ timing.via_take_messages])
  show "timely E N t deadline h (h @ [SteadyClock])" for h by (simp add: timely_same other_result_call)
  show "timely E N t deadline h (h @ [Pg (PutValues b)])" for h b by (simp add: timely_same put_call)
  fix h k assume k: "k = whole_ms (deadline - x_clock E h)" "0 < k"
  have "waits (h @ [SteadyClock, NextEvent k]) = waits h @ [k]" by (simp add: waits_def two_calls)
  with k whole_ms_le [of "deadline - x_clock E h" t] show "timely E N t deadline h (h @ [SteadyClock, NextEvent k])"
    by (simp add: timely_def waited_def)
qed (simp_all add: timely_confirm)

lemma waited_from_now:
  assumes "\<And>now. via (timely E N t (now + t * 1000000)) (m now)"
  shows "via (waited E N t) (xbind (steady_now E) m)"
  unfolding along_def
proof (intro allI impI)
  fix s r s' assume run: "xbind (steady_now E) m s = Some (r, s')"
  let ?s1 = "s\<lparr>trace := trace s @ [SteadyClock]\<rparr>" and ?now = "x_clock E (trace s)"
  from run have "m ?now ?s1 = Some (r, s')" by (simp add: steady_now_def bk_defs)
  with assms [of ?now] have "timely E N t (?now + t * 1000000) (trace ?s1) (trace s')" by (rule alongD)
  then have "waited E N t (trace ?s1) (trace s')"
    using clock_monotone [of E N "trace s" "trace ?s1"] by (auto simp: timely_def waited_def)
  moreover have "waited E N t (trace s) (trace ?s1)" by (simp add: waited_same other_result_call)
  ultimately show "waited E N t (trace s) (trace s')" using waited_follows by blast
qed

lemma timely_flush: "via (timely E N t deadline) (flush E uri)"
  unfolding flush_def warn_def by (intro timing.via_intros) (simp_all add: timely_same other_result_call)

lemma waited_session: "via (waited E N t) (session_queue E uri expr)"
  by (rule waiting.via_session_queue) (metis waited_same session_call_unheard unheard_def prefixI)

lemma waited_consume:
  "via (waited E N (case timeout_opt of None \<Rightarrow> 1000 | Some n \<Rightarrow> n)) (bmq_consume E acc uri expr max_opt timeout_opt batch_opt)"
proof -
  have load: "waited E N t h (h @ [LoadConfirms])" for t h by (simp add: waited_same other_result_call)
  have body: "via (waited E N t) (consume_body E uri expr max_messages t batch)" for t uri expr max_messages batch
    unfolding consume_body_def
    by (intro waiting.via_intros waited_session waited_from_now timing.via_intros timely_loop timely_flush load)
  have error: "via (waited E N t) (ereport msg detail)" for t msg and detail
    unfolding ereport_def by (intro waiting.via_intros)
  show ?thesis
    unfolding bmq_consume_def Let_def by (intro waiting.via_intros body error)
qed

section \<open>Returning\<close>

lemma halts_ereport [halts_intros]: "halts (ereport msg detail)"
  unfolding ereport_def by (intro halts_intros)

lemma halts_confirm [halts_intros]: "halts (flush E uri)" "halts (confirm_batched E uri m)" "halts (confirm_single E uri m)"
  unfolding confirm_batched_def confirm_single_def flush_def warn_def by (intro halts_intros)+

lemma halts_take_messages [halts_intros]: "halts (take_messages E uri batch max_messages ms received)"
  by (induction ms arbitrary: received) (auto simp: take_message_def intro!: halts_intros)

lemma halts_round: "halts (poll_round E uri batch max_messages deadline st)"
proof -
  have "halts (case event of
      PushEvent ms \<Rightarrow> xbind (take_messages E uri batch max_messages ms (fst st)) (\<lambda>received. xret (received, False))
    | OtherMessageEvent \<Rightarrow> xret (fst st, False) | OtherEvent \<Rightarrow> xret (fst st, False))" for event
    by (cases event) (auto intro!: halts_intros)
  then show ?thesis unfolding poll_round_def steady_now_def Let_def by (intro halts_intros)
qed

lemma event_bk_eq:
  "(case event of PushEvent ms \<Rightarrow> f ms | OtherMessageEvent \<Rightarrow> m | OtherEvent \<Rightarrow> k) s = Some r \<longleftrightarrow>
     (\<exists>ms. event = PushEvent ms \<and> f ms s = Some r) \<or> event = OtherMessageEvent \<and> m s = Some r \<or> event = OtherEvent \<and> k s = Some r"
  by (cases event) simp_all

text \<open>The deadline: a round that does not leave the loop began at least a millisecond before it.\<close>

lemma round_before_deadline:
  assumes "poll_round E uri batch max_messages deadline st s = Some (Inr (got, broke), s')"
  shows "broke \<longleftrightarrow> deadline - x_clock E (trace s) < 1000000" and "length (trace s) < length (trace s')"
proof -
  have later: "length (trace s) < length (trace s')" if "prefix (trace s @ [SteadyClock]) (trace s')"
    using prefix_length_le [OF that] by simp
  have "prefix (trace s @ [SteadyClock]) (trace s')" if "take_messages E uri batch max_messages ms (fst st)
      (s\<lparr>trace := trace s @ [SteadyClock, NextEvent k]\<rparr>) = Some (Inr x, s')" for ms k x
    using alongD [OF growing.via_take_messages [OF _ growing_confirm] that] by (auto simp: prefix_def)
  with assms later show "length (trace s) < length (trace s')" "broke \<longleftrightarrow> deadline - x_clock E (trace s) < 1000000"
    using whole_ms_pos [of "deadline - x_clock E (trace s)"]
    by (auto simp: poll_round_def steady_now_def Let_def bk_eqs if_bk_eq event_bk_eq)
qed

lemma consume_loop_returns:
  assumes "clock_runs E N"
  shows "consume_loop E uri batch max_messages deadline s \<noteq> None"
proof -
  define L where "L = length (trace s) + N * nat (deadline - x_clock E (trace s))"
  have late: "deadline \<le> x_clock E (trace t)" if "prefix (trace s) (trace t)" "L \<le> length (trace t)" for t :: backend
  proof -
    from that(1) obtain g where g: "trace t = trace s @ g" by (auto simp: prefix_def)
    with that(2) have "N * nat (deadline - x_clock E (trace s)) \<le> length g" by (simp add: L_def)
    then have "nat (deadline - x_clock E (trace s)) \<le> length g div N"
      using assms by (simp add: clock_runs_def less_eq_div_iff_mult_less_eq mult.commute)
    moreover have "x_clock E (trace s) + int (length g div N) \<le> x_clock E (trace t)" using assms by (simp add: clock_runs_def g)
    ultimately show ?thesis by linarith
  qed
  have decreases: "prefix (trace s) (trace t') \<and> (if snd st' then 0 else Suc (L - length (trace t'))) < (if snd st then 0 else Suc (L - length (trace t)))"
    if "prefix (trace s) (trace t)" "consume_cond max_messages st"
      "poll_round E uri batch max_messages deadline st t = Some (Inr st', t')" for st t st' t'
  proof -
    obtain got broke where st': "st' = (got, broke)" by (cases st')
    have "\<not> snd st" using that(2) by (auto simp: consume_cond_def)
    moreover have "prefix (trace s) (trace t')" using that(1) alongD [OF growing_round that(3)] by (rule prefix_order.trans)
    moreover have "length (trace t) < L" if "\<not> broke"
      using round_before_deadline(1) [of E uri batch max_messages deadline st t got broke t'] late [of t] \<open>prefix (trace s) (trace t)\<close>
        \<open>poll_round E uri batch max_messages deadline st t = Some (Inr st', t')\<close> that by (force simp: st')
    moreover have "length (trace t) < length (trace t')" using round_before_deadline(2) that(3) by (simp add: st')
    ultimately show ?thesis by (auto simp: st' intro: diff_less_mono2)
  qed
  have round: "poll_round E uri batch max_messages deadline st t \<noteq> None" for st t
    using halts_round [of E uri batch max_messages deadline st] by (simp add: halts_def)
  show ?thesis
    unfolding consume_loop_def
    by (rule xwhile_returns [where I = "\<lambda>st t. prefix (trace s) (trace t)"
          and \<mu> = "\<lambda>st t. if snd st then 0 else Suc (L - length (trace t))"])
      (use round decreases in \<open>auto simp: xret_def simp del: not_None_eq\<close>)
qed

lemma halts_consume:
  assumes "clock_runs E N"
  shows "halts (bmq_consume E acc uri expr max_opt timeout_opt batch_opt)"
proof -
  have loop: "halts (consume_loop E uri batch max_messages deadline)" for uri batch max_messages deadline
    using consume_loop_returns [OF assms] by (simp add: halts_def)
  show ?thesis
    unfolding bmq_consume_def consume_body_def steady_now_def Let_def by (intro halts_intros loop)
qed

lemma consume_loop_full:
  assumes "consume_loop E uri batch max_messages deadline s = Some (Inr (received, broke), s')" and "clock_runs E N"
  shows "max_messages \<le> int (length received) \<or> deadline - x_clock E (trace s') < 1000000"
proof -
  define I where "I = (\<lambda>(st :: message list \<times> bool) (t :: backend). snd st \<longrightarrow> deadline - x_clock E (trace t) < 1000000)"
  have step: "I st' t'" if run: "poll_round E uri batch max_messages deadline st t = Some (Inr st', t')" for st st' t t'
    using round_before_deadline(1) [of E uri batch max_messages deadline st t "fst st'" "snd st'" t'] run
      clock_monotone [OF assms(2) alongD [OF growing_round run]] by (auto simp: I_def)
  have "\<forall>st. Inr (received, broke) = (Inr st :: xerr + message list \<times> bool) \<longrightarrow> I st s' \<and> \<not> consume_cond max_messages st"
    by (rule xwhile_rule [OF assms(1) [unfolded consume_loop_def], where I = I
          and Q = "\<lambda>r t. \<forall>st. r = Inr st \<longrightarrow> I st t \<and> \<not> consume_cond max_messages st"])
      (auto simp: xret_eq I_def intro: step [unfolded I_def, rule_format])
  then show ?thesis by (auto simp: I_def consume_cond_def)
qed

section \<open>What a call does\<close>

lemma deadline_passed:
  assumes "bmq_consume E acc (Some uri) expr max_opt timeout_opt batch_opt s = Some (Inr rows, s')"
    and "int (length rows) < (case max_opt of None \<Rightarrow> 1 | Some n \<Rightarrow> n)" and "clock_runs E N"
  shows "x_clock E (trace s) + ((case timeout_opt of None \<Rightarrow> 1000 | Some n \<Rightarrow> n) - 1) * 1000000 < x_clock E (trace s')"
proof -
  let ?load = "if batch_opt = Some True then [LoadConfirms] else []"
  from assms(1) obtain i s1 s2 s3 received broke where session: "session_queue E uri (case expr of None \<Rightarrow> [] | Some t \<Rightarrow> t) s = Some (Inr i, s1)"
    and loop: "consume_loop E uri (batch_opt = Some True) (case max_opt of None \<Rightarrow> 1 | Some n \<Rightarrow> n)
      (x_clock E (trace s1 @ ?load) + (case timeout_opt of None \<Rightarrow> 1000 | Some n \<Rightarrow> n) * 1000000) s2 = Some (Inr (received, broke), s3)"
    and finish: "(if batch_opt = Some True \<and> 0 < x_batched E (trace s3) then flush E uri else xret ()) s3 = Some (Inr (), s')"
    and rows: "rows = map m_data received"
    by (elim bmq_consume_parts)
  have "via prefix (if batch_opt = Some True \<and> 0 < x_batched E (trace s3) then flush E uri else xret ())"
    unfolding flush_def warn_def by (intro growing.via_intros) simp_all
  from alongD [OF this finish] have "x_clock E (trace s3) \<le> x_clock E (trace s')" by (rule clock_monotone [OF assms(3)])
  moreover have "via prefix (session_queue E uri (case expr of None \<Rightarrow> [] | Some t \<Rightarrow> t))"
    by (rule growing.via_session_queue) simp
  from alongD [OF this session] have "prefix (trace s) (trace s1 @ ?load)" by (auto simp: prefix_def)
  then have "x_clock E (trace s) \<le> x_clock E (trace s1 @ ?load)" by (rule clock_monotone [OF assms(3)])
  ultimately show ?thesis
    using consume_loop_full [OF loop assms(3)] assms(2) by (simp add: rows left_diff_distrib)
qed

lemma along_consume [effect_intros]: "keeps_cache E (bmq_consume E acc uri expr max_opt timeout_opt batch_opt)"
proof -
  have confirm: "keeps_cache E (flush E uri)" "keeps_cache E (confirm_batched E uri m)" "keeps_cache E (confirm_single E uri m)" for uri m
    unfolding confirm_batched_def confirm_single_def flush_def warn_def by (intro effect_intros; simp)+
  have messages: "keeps_cache E (take_messages E uri batch max_messages ms received)" for uri batch max_messages ms received
    by (induction ms arbitrary: received) (auto simp: take_message_def intro!: effect_intros confirm)
  have "keeps_cache E (case event of
      PushEvent ms \<Rightarrow> xbind (take_messages E uri batch max_messages ms (fst st)) (\<lambda>received. xret (received, False))
    | OtherMessageEvent \<Rightarrow> xret (fst st, False) | OtherEvent \<Rightarrow> xret (fst st, False))" for event uri batch max_messages and st :: "message list \<times> bool"
    by (cases event) (auto intro!: effect_intros messages)
  then have "keeps_cache E (consume_loop E uri batch max_messages deadline)" for uri batch max_messages deadline
    unfolding consume_loop_def poll_round_def steady_now_def Let_def by (intro effect_intros; simp)
  then show ?thesis
    unfolding bmq_consume_def consume_body_def steady_now_def Let_def by (intro effect_intros confirm; simp)
qed

text \<open>A client that sends three messages of two queues in one event.\<close>

definition demo_push :: "message list" where
  "demo_push = [\<lparr>m_guid = 1, m_queue = ''bmq://q'', m_data = [1, 2]\<rparr>, \<lparr>m_guid = 2, m_queue = ''bmq://other'', m_data = []\<rparr>,
     \<lparr>m_guid = 3, m_queue = ''bmq://q'', m_data = [3]\<rparr>]"

lemma demo_batch: "in_batch (demo_ext evs) h = foldl batch_step [] h"
  by (induction h rule: rev_induct) (auto simp: in_batch_def demo_ext_def batch_step_def split: xev.splits)

lemma demo_ext_confirms: "client_confirms (demo_ext evs)" "batch_lawful (demo_ext evs)" "flushes (demo_ext evs)" "clock_runs (demo_ext evs) 1"
  using demo_batch [of evs]
  by (simp_all add: flushes_def batch_lawful_def client_confirms_def clock_runs_def) (simp_all add: demo_ext_def)

lemma demo_consume:
  "\<exists>s'. bmq_consume (demo_ext [OtherEvent, PushEvent demo_push]) True (Some ''bmq://q'') None (Some 2) None (Some True) (backend_init ''tcp://b'')
      = Some (Inr [[1, 2], []], s') \<and> pushed (demo_ext [OtherEvent, PushEvent demo_push]) (trace s') = demo_push"
  by (simp add: bmq_consume_def consume_body_def consume_loop_def consume_cond_def poll_round_def steady_now_def whole_ms_def Let_def
      take_message_def confirm_batched_def flush_def warn_def session_queue_def get_session_def get_queue_def open_new_def
      build_queue_options_def set_session_def set_exit_hook_def set_queue_def try_catch_def bk_defs demo_ext_def backend_init_def
      demo_push_def xwhile.simps polled_def batch_step_def kBatchConfirmFlushThreshold_def pushed_def sees_def)

text \<open>
  C7. What \<^verbatim>\<open>bmq_consume\<close> returns: if the call returns rows, they are the payloads of the first \<^verbatim>\<open>max_messages\<close>
  messages that the session pushed during the call, in that order, whatever queue they belong to. Only
  messages that are returned are confirmed, and in their order; if the client accepts the confirmations,
  all returned messages are confirmed when the call returns, also with \<^verbatim>\<open>batch_confirm\<close>. Messages that were
  pushed beyond the limit are neither returned nor confirmed.
\<close>

theorem consume_returns_first_pushed:
  assumes "bmq_consume E acc (Some uri) expr max_opt timeout_opt batch_opt s = Some (Inr rows, s')"
  shows "\<exists>new received conf. pushed E (trace s') = pushed E (trace s) @ new
    \<and> received = take (nat (case max_opt of None \<Rightarrow> 1 | Some n \<Rightarrow> n)) new \<and> rows = map m_data received
    \<and> stored (trace s') = stored (trace s) @ rows
    \<and> confirmed E (trace s') = confirmed E (trace s) @ conf \<and> subseq conf received
    \<and> (client_confirms E \<and> batch_lawful E \<longrightarrow> conf = received)"
  by (rule consumed [OF assms]) metis

text \<open>Three messages are pushed; the second is of another queue and is returned, the third is dropped.\<close>

theorem consume_returns_first_pushed_witness:
  "\<exists>s'. bmq_consume (demo_ext [OtherEvent, PushEvent demo_push]) True (Some ''bmq://q'') None (Some 2) None (Some True) (backend_init ''tcp://b'')
      = Some (Inr [[1, 2], []], s') \<and> pushed (demo_ext [OtherEvent, PushEvent demo_push]) (trace s') = demo_push
    \<and> confirmed (demo_ext [OtherEvent, PushEvent demo_push]) (trace s') = take 2 demo_push"
proof -
  let ?E = "demo_ext [OtherEvent, PushEvent demo_push]" and ?s = "backend_init ''tcp://b''"
  obtain s' where run: "bmq_consume ?E True (Some ''bmq://q'') None (Some 2) None (Some True) ?s = Some (Inr [[1, 2], []], s')"
    and push: "pushed ?E (trace s') = demo_push"
    using demo_consume by blast
  have "pushed ?E (trace ?s) = []" "confirmed ?E (trace ?s) = []" by (simp_all add: backend_init_def pushed_def confirmed_def)
  with consume_returns_first_pushed [OF run] push have "confirmed ?E (trace s') = take 2 demo_push"
    by (auto simp: demo_ext_confirms)
  with run push show ?thesis by blast
qed



text \<open>
  C18. \<^verbatim>\<open>bmq_consume\<close> keeps its time: it always returns or raises an error, it never asks the session to wait longer
  than \<^verbatim>\<open>timeout_ms\<close>, nor with no time left, and it returns fewer than \<^verbatim>\<open>max_messages\<close> rows only after the timeout, less
  the last millisecond, has passed. The clock must not go back, and any number \<open>N\<close> of calls must take a
  nanosecond; how many events the session delivers, and of which kind, does not matter.
\<close>

theorem consume_keeps_time:
  assumes "clock_runs E N" and "timeout_ms = (case timeout_opt of None \<Rightarrow> 1000 | Some n \<Rightarrow> n)"
  shows "\<exists>r s'. bmq_consume E acc (Some uri) expr max_opt timeout_opt batch_opt s = Some (r, s')
    \<and> (\<exists>ws. waits (trace s') = waits (trace s) @ ws \<and> (\<forall>k\<in>set ws. 0 < k \<and> k \<le> timeout_ms))
    \<and> (\<forall>rows. r = Inr rows \<and> int (length rows) < (case max_opt of None \<Rightarrow> 1 | Some n \<Rightarrow> n)
         \<longrightarrow> x_clock E (trace s) + (timeout_ms - 1) * 1000000 < x_clock E (trace s'))"
proof -
  obtain r s' where run: "bmq_consume E acc (Some uri) expr max_opt timeout_opt batch_opt s = Some (r, s')"
    by (rule haltsE [OF halts_consume [OF assms(1)]])
  have "waited E N timeout_ms (trace s) (trace s')" using waited_consume run unfolding assms(2) by (rule alongD)
  moreover have "x_clock E (trace s) + (timeout_ms - 1) * 1000000 < x_clock E (trace s')"
    if rows: "r = Inr rows" and few: "int (length rows) < (case max_opt of None \<Rightarrow> 1 | Some n \<Rightarrow> n)" for rows
    using deadline_passed [OF run [unfolded rows] few assms(1)] by (simp add: assms(2))
  ultimately show ?thesis using run assms(1) by (auto simp: waited_def)
qed

theorem consume_keeps_time_witness:
  "\<exists>rows s'. bmq_consume (demo_ext [PushEvent demo_push]) True (Some ''bmq://q'') None (Some 9) (Some 20) None (backend_init ''tcp://b'')
      = Some (rows, s') \<and> (\<forall>k\<in>set (waits (trace s')). 0 < k \<and> k \<le> 20)"
proof -
  have "waits (trace (backend_init ''tcp://b'')) = []" by (simp add: backend_init_def waits_def)
  with consume_keeps_time [OF demo_ext_confirms(4), of 20 "Some 20" "[PushEvent demo_push]" True "''bmq://q''" None "Some 9" None
      "backend_init ''tcp://b''"] show ?thesis by auto
qed

end
