(* ===== verification/Pg_Subscribe.thy ===== *)
theory Pg_Subscribe
  imports Pg_Consume
begin

text \<open>
  The subscriptions of \<^verbatim>\<open>pg_blazingmq.cpp\<close>: \<^verbatim>\<open>bmq_subscribe\<close> hands a configuration to a new background worker through
  shared memory and waits for it, \<^verbatim>\<open>bmq_unsubscribe\<close> stops it, and \<^verbatim>\<open>bmq_subscriber_main\<close> is the worker, which runs the
  callback in a transaction for every message. The lemmas follow the configuration from one process to the
  other and say what a confirmed message has gone through.
\<close>

section \<open>What the server answers\<close>

record wenv = xenv +
  w_database :: nat
  w_user :: nat
  w_proc :: "xev list \<Rightarrow> nat \<Rightarrow> xerr + nat list option"          \<comment> \<open>the argument types of a function\<close>
  w_dsm_create :: "xev list \<Rightarrow> xerr + nat \<times> SubscriberConfig"   \<comment> \<open>the handle, and what the memory holds\<close>
  w_register :: "xev list \<Rightarrow> xerr + bool"
  w_startup :: "xev list \<Rightarrow> xerr + int \<times> 32 word"               \<comment> \<open>status and process id\<close>
  w_ready :: "xev list \<Rightarrow> 32 word"
  w_select :: "xev list \<Rightarrow> 32 word \<Rightarrow> xerr + int \<times> int"         \<comment> \<open>result code and number of rows\<close>
  w_kill :: "xev list \<Rightarrow> 32 word \<Rightarrow> int"
  w_attach :: "xev list \<Rightarrow> nat \<Rightarrow> SubscriberConfig option"
  w_connect :: "xev list \<Rightarrow> xerr + unit"
  w_shutdown :: "xev list \<Rightarrow> bool"
  w_interrupts :: "xev list \<Rightarrow> xerr + unit"
  w_begin :: "xev list \<Rightarrow> xerr + unit"
  w_callback :: "xev list \<Rightarrow> xerr + unit"
  w_commit :: "xev list \<Rightarrow> xerr + unit"
  w_abort :: "xev list \<Rightarrow> xerr + unit"

definition BGWH_STARTED :: int where "BGWH_STARTED = 0"

definition SPI_OK_SELECT :: int where "SPI_OK_SELECT = 5"

section \<open>Texts in buffers\<close>

text \<open>A text as a C string ends before its first zero byte.\<close>

definition c_str :: "string \<Rightarrow> string" where
  "c_str t = takeWhile (\<lambda>c. c \<noteq> CHR 0x00) t"

definition strcpy :: "string \<Rightarrow> string \<Rightarrow> string" where
  "strcpy buf t = (let u = c_str t @ [CHR 0x00] in u @ drop (length u) buf)"

lemma c_str_strcpy: "c_str (strcpy buf t) = c_str t"
proof -
  have "\<forall>c\<in>set (c_str t). c \<noteq> CHR 0x00" unfolding c_str_def by (auto dest: set_takeWhileD)
  then show ?thesis by (simp add: strcpy_def Let_def) (simp add: c_str_def takeWhile_append2)
qed

lemma length_strcpy: "length t < length buf \<Longrightarrow> length (strcpy buf t) = length buf"
  using length_takeWhile_le [of "\<lambda>c. c \<noteq> CHR 0x00" t] by (simp add: strcpy_def Let_def c_str_def)

lemma c_str_id: "CHR 0x00 \<notin> set t \<Longrightarrow> c_str t = t"
  unfolding c_str_def by (rule takeWhile_eq_all_conv [THEN iffD2]) auto

section \<open>Starting a worker\<close>

definition no_function :: "nat \<Rightarrow> string" where
  "no_function fn = ''callback function with OID '' @ str_int (int fn) @ '' does not exist''"

definition validate_callback_fn :: "'e wenv_scheme \<Rightarrow> nat \<Rightarrow> unit bk" where
  "validate_callback_fn E fn =
     xbind (xcall (\<lambda>h. w_proc E h fn) (Wk (SearchProc fn))) (\<lambda>found.
     case found of
       None \<Rightarrow> ereport (no_function fn) None
     | Some args \<Rightarrow>
         if length args = 1 \<and> args ! 0 = BYTEAOID then xret ()
         else ereport ''callback function must take exactly one \"bytea\" argument'' None)"

definition buffer_size :: nat where
  "buffer_size = 512"

definition fill_config :: "'e wenv_scheme \<Rightarrow> nat \<Rightarrow> string \<Rightarrow> string \<Rightarrow> SubscriberConfig \<Rightarrow> SubscriberConfig" where
  "fill_config E fn uri expr raw = \<lparr>cfg_dbid = w_database E, cfg_roleid = w_user E, cfg_callback_fn = fn,
     cfg_queue_uri = strcpy (cfg_queue_uri raw) uri, cfg_subscription_expr = strcpy (cfg_subscription_expr raw) expr\<rparr>"

definition not_started :: "int \<Rightarrow> string" where
  "not_started status = ''BlazingMQ subscriber background worker failed to start (status='' @ str_int status @ '') - check the server log''"

definition not_ready :: "32 word \<Rightarrow> string" where
  "not_ready pid = ''pg_blazingmq subscriber worker (pid '' @ str_int (sint pid)
     @ '') has not finished opening its queue after 5000ms - messages published immediately may not be delivered; it is still running and will keep trying''"

definition ready_timeout_ms :: int where "ready_timeout_ms = 5000"

definition poll_interval_us :: int where "poll_interval_us = 20000"

definition read_ready :: "'e wenv_scheme \<Rightarrow> (32 word) bk" where
  "read_ready E = xcall (\<lambda>h. Inr (w_ready E h)) (Wk ReadReady)"

definition await_ready :: "'e wenv_scheme \<Rightarrow> int bk" where
  "await_ready E =
     xwhile (\<lambda>waited_us. xbind (read_ready E) (\<lambda>ready. xret (ready = 0 \<and> waited_us < ready_timeout_ms * 1000)))
       (\<lambda>waited_us. xthen (xtell (Wk (USleep poll_interval_us))) (xret (waited_us + poll_interval_us))) 0"

definition start_worker :: "'e wenv_scheme \<Rightarrow> nat \<Rightarrow> (32 word) bk" where
  "start_worker E seg =
     xbind (xcall (w_register E) (Wk (RegisterWorker seg))) (\<lambda>registered.
     if \<not> registered
     then xthen (xtell (Wk DsmDetach))
       (ereport ''failed to register BlazingMQ subscriber background worker (max_worker_processes may be exhausted)'' None)
     else xbind (xcall (w_startup E) (Wk WaitStartup)) (\<lambda>(status, pid).
     if status \<noteq> BGWH_STARTED then xthen (xtell (Wk DsmDetach)) (ereport (not_started status) None)
     else xthen (await_ready E)
       (xbind (read_ready E) (\<lambda>ready.
        xthen (if ready = 0 then warn (not_ready pid) else xret ())
        (xthen (xtell (Wk DsmDetach)) (xret pid))))))"

definition bmq_subscribe :: "'e wenv_scheme \<Rightarrow> string option \<Rightarrow> nat option \<Rightarrow> string option \<Rightarrow> (32 word) bk" where
  "bmq_subscribe E queue_uri callback_fn subscription_expr =
     (case queue_uri of
        None \<Rightarrow> ereport ''queue_uri must not be null'' None
      | Some uri \<Rightarrow>
     case callback_fn of
        None \<Rightarrow> ereport ''callback_fn must not be null'' None
      | Some fn \<Rightarrow>
          let expr = (case subscription_expr of None \<Rightarrow> [] | Some t \<Rightarrow> t) in
          xthen (validate_callback_fn E fn)
          (if buffer_size \<le> length uri then ereport ''queue_uri is too long (max 511 bytes)'' None
           else if buffer_size \<le> length expr then ereport ''subscription_expr is too long (max 511 bytes)'' None
           else xbind (xcall (w_dsm_create E) (Wk DsmCreate)) (\<lambda>(seg, raw).
             xthen (xtell (Wk (WriteConfig seg (fill_config E fn uri expr raw))))
             (xthen (xtell (Wk DsmPin)) (start_worker E seg)))))"

section \<open>Stopping it\<close>

definition not_ours :: "32 word \<Rightarrow> string" where
  "not_ours pid = ''pid '' @ str_int (sint pid) @ '' is not an active pg_blazingmq subscriber worker''"

text \<open>The text of the system error behind the last colon is left out.\<close>

definition kill_failed :: "32 word \<Rightarrow> string" where
  "kill_failed pid = ''failed to signal worker pid '' @ str_int (sint pid) @ '': ''"

definition bmq_unsubscribe :: "'e wenv_scheme \<Rightarrow> (32 word) option \<Rightarrow> bool bk" where
  "bmq_unsubscribe E worker_pid =
     (case worker_pid of
        None \<Rightarrow> ereport ''worker_pid must not be null'' None
      | Some pid \<Rightarrow>
          xbind (xcall (\<lambda>h. w_select E h pid) (Wk (SpiSelect pid))) (\<lambda>(rc, processed).
          if \<not> (rc = SPI_OK_SELECT \<and> 0 < processed) then ereport (not_ours pid) None
          else xbind (xcall (\<lambda>h. Inr (w_kill E h pid)) (Wk (KillTerm pid))) (\<lambda>failed.
          if failed \<noteq> 0 then xthen (warn (kill_failed pid)) (xret False) else xret True)))"

section \<open>The worker\<close>

definition set_seg_detached :: "bool \<Rightarrow> unit bk" where
  "set_seg_detached b s = Some (Inr (), s\<lparr>seg_detached := b\<rparr>)"

definition callback_failed :: "string \<Rightarrow> string \<Rightarrow> string" where
  "callback_failed uri msg = ''pg_blazingmq subscriber: callback failed for queue '' @ quoted_text uri @ '', message left unconfirmed: '' @ msg"

text \<open>\<^verbatim>\<open>PG_TRY\<close> sees the errors of the server, not the exceptions of C++.\<close>

definition pg_try :: "'a bk \<Rightarrow> (string \<Rightarrow> 'a bk) \<Rightarrow> 'a bk" where
  "pg_try m handler s = (case m s of Some (Inl (Ereport msg detail), s') \<Rightarrow> handler msg s' | r \<Rightarrow> r)"

context effect
begin

lemma along_pg_try: "along R m \<Longrightarrow> (\<And>msg. along R (handler msg)) \<Longrightarrow> along R (pg_try m handler)"
  unfolding along_def pg_try_def by (auto split: option.splits sum.splits xerr.splits) (blast intro: follows)+

text \<open>What comes behind code whose outcome is known.\<close>

lemma after_try:
  "try_catch m handler other s = Some (r, s') \<Longrightarrow> m s = Some (r1, s1) \<Longrightarrow> (\<And>what. along R (handler what)) \<Longrightarrow> along R other \<Longrightarrow> R s1 s'"
  unfolding try_catch_def by (auto simp: stays dest: alongD split: sum.splits xerr.splits)

lemma after_first: "xthen m k s = Some (r, s') \<Longrightarrow> m s = Some (r1, s1) \<Longrightarrow> along R k \<Longrightarrow> R s1 s'"
  unfolding xthen_def xbind_def by (auto simp: stays dest: alongD split: sum.splits)

end

definition deliver :: "'e wenv_scheme \<Rightarrow> string \<Rightarrow> nat \<Rightarrow> message \<Rightarrow> unit bk" where
  "deliver E uri fn m =
     xthen (xcall (w_begin E) (Pg StartTransaction))
     (xbind (pg_try
        (xthen (xcall (w_callback E) (Pg (Callback fn (m_data m)))) (xret True))
        (\<lambda>msg. xthen (xcall (w_abort E) (Pg AbortTransaction)) (xthen (warn (callback_failed uri msg)) (xret False))))
      (\<lambda>callback_ok.
       if callback_ok
       then xthen (xcall (w_commit E) (Pg CommitTransaction))
         (xthen (xcall (\<lambda>h. x_confirm E h m) (ConfirmMessage m)) (xret ()))
       else xret ()))"

definition read_shutdown :: "'e wenv_scheme \<Rightarrow> bool bk" where
  "read_shutdown E = xcall (\<lambda>h. Inr (w_shutdown E h)) (Pg ReadShutdown)"

fun deliver_all :: "'e wenv_scheme \<Rightarrow> string \<Rightarrow> nat \<Rightarrow> message list \<Rightarrow> unit bk" where
  "deliver_all E uri fn [] = xret ()"
| "deliver_all E uri fn (m # ms) =
     xthen (deliver E uri fn m) (xbind (read_shutdown E) (\<lambda>b. if b then xret () else deliver_all E uri fn ms))"

definition worker_round :: "'e wenv_scheme \<Rightarrow> string \<Rightarrow> nat \<Rightarrow> unit bk" where
  "worker_round E uri fn =
     xthen (xcall (w_interrupts E) (Pg CheckInterrupts))
     (xbind (xcall (\<lambda>h. x_next_event E h 1000) (NextEvent 1000)) (\<lambda>event.
      case event of
        PushEvent ms \<Rightarrow> deliver_all E uri fn ms
      | OtherMessageEvent \<Rightarrow> xret ()
      | OtherEvent \<Rightarrow> xret ()))"

definition worker_loop :: "'e wenv_scheme \<Rightarrow> string \<Rightarrow> nat \<Rightarrow> unit bk" where
  "worker_loop E uri fn =
     xwhile (\<lambda>_. xbind (read_shutdown E) (\<lambda>b. xret (\<not> b))) (\<lambda>_. worker_round E uri fn) ()"

definition worker_body :: "'e wenv_scheme \<Rightarrow> string \<Rightarrow> string \<Rightarrow> nat \<Rightarrow> unit bk" where
  "worker_body E uri expr fn =
     xthen (session_queue E uri expr)
     (xthen (xtell (Wk WriteReady))
     (xthen (xtell (Wk DsmDetach))
     (xthen (set_seg_detached True)
     (worker_loop E uri fn))))"

definition log_started :: "string \<Rightarrow> string" where
  "log_started uri = ''pg_blazingmq subscriber started for queue '' @ quoted_text uri"

definition log_error :: "string \<Rightarrow> string \<Rightarrow> string" where
  "log_error uri what = ''pg_blazingmq subscriber for queue '' @ quoted_text uri @ '' exiting on error: '' @ what"

definition log_stopping :: "string \<Rightarrow> string" where
  "log_stopping uri = ''pg_blazingmq subscriber stopping for queue '' @ quoted_text uri"

text \<open>The process ends; the hook runs if it was registered.\<close>

definition proc_exit :: "'a bk" where
  "proc_exit = xbind (xget exit_hook_registered) (\<lambda>registered.
     xthen (if registered then pg_blazingmq_exit_hook else xret ()) (xraise Exited))"

text \<open>
  The handler is for \<^verbatim>\<open>std::exception\<close> alone: anything else that is thrown leaves the function.
\<close>

definition run_worker :: "'e wenv_scheme \<Rightarrow> SubscriberConfig \<Rightarrow> unit bk" where
  "run_worker E cfg =
     (let uri = c_str (cfg_queue_uri cfg);
          expr = c_str (cfg_subscription_expr cfg);
          fn = cfg_callback_fn cfg in
      xthen (xcall (w_connect E) (Wk (InitConnection (cfg_dbid cfg) (cfg_roleid cfg))))
      (xthen (xtell (Pg (PgLog (log_started uri))))
      (xthen (set_seg_detached False)
      (xthen (try_catch (worker_body E uri expr fn)
         (\<lambda>what. xbind (xget seg_detached) (\<lambda>gone.
            xthen (if gone then xret () else xtell (Wk DsmDetach)) (xtell (Pg (PgLog (log_error uri what))))))
         (xraise ThrownOther))
      (xthen (xtell (Pg (PgLog (log_stopping uri)))) proc_exit)))))"

definition bmq_subscriber_main :: "'e wenv_scheme \<Rightarrow> nat \<Rightarrow> unit bk" where
  "bmq_subscriber_main E main_arg =
     xbind (xcall (\<lambda>h. Inr (w_attach E h main_arg)) (Wk (DsmAttach main_arg))) (\<lambda>seg.
     case seg of
       None \<Rightarrow> ereport ''pg_blazingmq subscriber: failed to attach DSM segment'' None
     | Some cfg \<Rightarrow> run_worker E cfg)"

section \<open>Waiting for the worker\<close>

text \<open>What a trace shows of the waiting and of the segments.\<close>

definition slept :: "xev list \<Rightarrow> int list" where
  "slept = sees (\<lambda>h ev. case ev of Wk (USleep us) \<Rightarrow> [us] | _ \<Rightarrow> [])"

definition created :: "'e wenv_scheme \<Rightarrow> xev list \<Rightarrow> nat list" where
  "created E = sees (\<lambda>h ev. case ev of Wk DsmCreate \<Rightarrow> (case w_dsm_create E h of Inr (seg, raw) \<Rightarrow> [seg] | _ \<Rightarrow> []) | _ \<Rightarrow> [])"

definition detached :: "xev list \<Rightarrow> nat" where
  "detached h = length (sees (\<lambda>h ev. if ev = Wk DsmDetach then [()] else []) h)"

lemmas worker_observers = slept_def created_def detached_def

lemma await_ready_cases:
  assumes "await_ready E s = Some (r, s')"
  shows "\<exists>n \<le> 250. r = Inr (int n * poll_interval_us) \<and> slept (trace s') = slept (trace s) @ replicate n poll_interval_us
    \<and> created E (trace s') = created E (trace s) \<and> detached (trace s') = detached (trace s)"
proof -
  define I where "I = (\<lambda>(w :: int) (t :: backend). \<exists>n \<le> 250. w = int n * poll_interval_us
    \<and> slept (trace t) = slept (trace s) @ replicate n poll_interval_us
    \<and> created E (trace t) = created E (trace s) \<and> detached (trace t) = detached (trace s))"
  have read: "slept (h @ [Wk ReadReady]) = slept h" "created E (h @ [Wk ReadReady]) = created E h" "detached (h @ [Wk ReadReady]) = detached h" for h
    by (simp_all add: worker_observers)
  have sleep: "slept (h @ [Wk (USleep us)]) = slept h @ [us]" "created E (h @ [Wk (USleep us)]) = created E h"
    "detached (h @ [Wk (USleep us)]) = detached h" for h us
    by (simp_all add: worker_observers)
  have start: "I 0 s" by (simp add: I_def)
  have checked: "I w (t\<lparr>trace := trace t @ [Wk ReadReady]\<rparr>)" if "I w t" for w t using that by (simp add: I_def read)
  have slept_once: "I (w + poll_interval_us) (t\<lparr>trace := trace t @ [Wk (USleep poll_interval_us)]\<rparr>)"
    if "I w t" "w < ready_timeout_ms * 1000" for w t
  proof -
    from that(1) obtain n where n: "w = int n * poll_interval_us" "slept (trace t) = slept (trace s) @ replicate n poll_interval_us"
      "created E (trace t) = created E (trace s)" "detached (trace t) = detached (trace s)" by (auto simp: I_def)
    from that(2) n(1) have "Suc n \<le> 250" by (simp add: ready_timeout_ms_def poll_interval_us_def)
    moreover have "w + poll_interval_us = int (Suc n) * poll_interval_us" by (simp add: n(1) distrib_right)
    moreover have "replicate (Suc n) poll_interval_us = replicate n poll_interval_us @ [poll_interval_us]"
      by (simp add: replicate_append_same)
    ultimately show ?thesis using n(2-4) unfolding I_def by (intro exI [of _ "Suc n"]) (simp add: sleep del: replicate.simps)
  qed
  have "\<exists>w. r = Inr w \<and> I w s'"
    by (rule xwhile_rule [OF assms [unfolded await_ready_def], where I = I and Q = "\<lambda>r t. \<exists>w. r = Inr w \<and> I w t"])
      (auto simp: start read_ready_def bk_eqs bk_defs intro: checked dest: slept_once [OF checked])
  then show ?thesis by (auto simp: I_def)
qed

lemma halts_await_ready: "halts (await_ready E)"
  unfolding halts_def await_ready_def
proof
  fix s
  show "xwhile (\<lambda>waited_us. xbind (read_ready E) (\<lambda>ready. xret (ready = 0 \<and> waited_us < ready_timeout_ms * 1000)))
      (\<lambda>waited_us. xthen (xtell (Wk (USleep poll_interval_us))) (xret (waited_us + poll_interval_us))) 0 s \<noteq> None"
    by (rule xwhile_returns [where I = "\<lambda>_ _. True" and \<mu> = "\<lambda>w _. nat (ready_timeout_ms * 1000 - w)"])
      (auto simp: read_ready_def bk_eqs bk_defs poll_interval_us_def)
qed

lemma halts_subscribe: "halts (bmq_subscribe E uri fn expr)"
  unfolding bmq_subscribe_def validate_callback_fn_def start_worker_def read_ready_def warn_def ereport_def Let_def
  by (intro halts_intros halts_await_ready)

text \<open>Registering a worker and waiting for its process to start raise no error of their own.\<close>

definition start_calm :: "'e wenv_scheme \<Rightarrow> bool" where
  "start_calm E \<longleftrightarrow> (\<forall>h. (\<exists>b. w_register E h = Inr b) \<and> (\<exists>p. w_startup E h = Inr p))"

lemma quiet_worker_call:
  "ev \<in> {Wk ReadReady, Wk WaitStartup, Wk DsmPin} \<or> (\<exists>seg cfg. ev = Wk (WriteConfig seg cfg)) \<or> (\<exists>seg. ev = Wk (RegisterWorker seg))
     \<or> (\<exists>fn. ev = Wk (SearchProc fn)) \<or> (\<exists>c. ev = Pg c) \<Longrightarrow>
   slept (h @ [ev]) = slept h \<and> created E (h @ [ev]) = created E h \<and> detached (h @ [ev]) = detached h"
  by (auto simp: worker_observers)

lemma segment_call:
  "slept (h @ [Wk DsmDetach]) = slept h" "created E (h @ [Wk DsmDetach]) = created E h" "detached (h @ [Wk DsmDetach]) = Suc (detached h)"
  "slept (h @ [Wk DsmCreate]) = slept h" "detached (h @ [Wk DsmCreate]) = detached h"
  "created E (h @ [Wk DsmCreate]) = created E h @ (case w_dsm_create E h of Inr (seg, raw) \<Rightarrow> [seg] | _ \<Rightarrow> [])"
  by (simp_all add: worker_observers)

lemma start_worker_waits:
  assumes "start_worker E seg s = Some (r, s')" and "start_calm E"
  shows "(\<exists>n \<le> 250. slept (trace s') = slept (trace s) @ replicate n poll_interval_us)
    \<and> created E (trace s') = created E (trace s) \<and> detached (trace s') = Suc (detached (trace s))"
proof -
  let ?s1 = "s\<lparr>trace := (trace s @ [Wk (RegisterWorker seg)]) @ [Wk WaitStartup]\<rparr>"
  obtain b status pid where env: "w_register E (trace s) = Inr b" "w_startup E (trace s @ [Wk (RegisterWorker seg)]) = Inr (status, pid)"
    using assms(2) by (metis start_calm_def surj_pair)
  note calls = quiet_worker_call [of "Wk (RegisterWorker seg)" _ E] quiet_worker_call [of "Wk WaitStartup" _ E]
    quiet_worker_call [of "Wk ReadReady" _ E] quiet_worker_call [of "Pg _" _ E] segment_call
  show ?thesis
  proof (cases "b \<and> status = BGWH_STARTED")
    case False
    with assms(1) env show ?thesis
      by (cases b) (auto simp: start_worker_def ereport_def bk_defs calls simp del: append_assoc intro: exI [of _ 0])
  next
    case True
    obtain r2 s2 where wait: "await_ready E ?s1 = Some (r2, s2)" by (rule haltsE [OF halts_await_ready])
    from await_ready_cases [OF this] obtain n where n: "n \<le> 250" "r2 = Inr (int n * poll_interval_us)"
      "slept (trace s2) = slept (trace s) @ replicate n poll_interval_us"
      "created E (trace s2) = created E (trace s)" "detached (trace s2) = detached (trace s)"
      by (auto simp: calls simp del: append_assoc)
    with assms(1) env True wait show ?thesis
      by (auto simp: start_worker_def read_ready_def warn_def bk_defs calls simp del: append_assoc split: if_splits)
  qed
qed

text \<open>What comes before the worker: an error, with nothing to clean up, or a segment with the configuration.\<close>

lemma subscribe_cases:
  assumes "bmq_subscribe E uri fn expr s = Some (r, s')"
  shows "(\<exists>e. r = Inl e) \<and> slept (trace s') = slept (trace s) \<and> created E (trace s') = created E (trace s)
      \<and> detached (trace s') = detached (trace s)
    \<or> (\<exists>uri1 fn1 seg raw s1. uri = Some uri1 \<and> fn = Some fn1 \<and> length uri1 < buffer_size
        \<and> length (case expr of None \<Rightarrow> [] | Some t \<Rightarrow> t) < buffer_size
        \<and> w_dsm_create E (trace s @ [Wk (SearchProc fn1)]) = Inr (seg, raw)
        \<and> trace s1 = (((trace s @ [Wk (SearchProc fn1)]) @ [Wk DsmCreate])
            @ [Wk (WriteConfig seg (fill_config E fn1 uri1 (case expr of None \<Rightarrow> [] | Some t \<Rightarrow> t) raw))]) @ [Wk DsmPin]
        \<and> start_worker E seg s1 = Some (r, s'))"
proof (cases "uri = None \<or> fn = None")
  case True
  with assms show ?thesis by (auto simp: bmq_subscribe_def ereport_def xraise_def split: option.splits)
next
  case False
  then obtain uri1 fn1 where args: "uri = Some uri1" "fn = Some fn1" by auto
  let ?s1 = "s\<lparr>trace := trace s @ [Wk (SearchProc fn1)]\<rparr>"
  note call = quiet_worker_call [of "Wk (SearchProc fn1)" "trace s" E]
  have "\<exists>r1. validate_callback_fn E fn1 s = Some (r1, ?s1)"
    by (cases "w_proc E (trace s) fn1") (auto simp: validate_callback_fn_def ereport_def bk_defs split: option.split)
  then obtain r1 where valid: "validate_callback_fn E fn1 s = Some (r1, ?s1)" ..
  show ?thesis
  proof (cases "r1 = Inr () \<and> length uri1 < buffer_size \<and> length (case expr of None \<Rightarrow> [] | Some t \<Rightarrow> t) < buffer_size
      \<and> (\<exists>p. w_dsm_create E (trace ?s1) = Inr p)")
    case True
    then obtain seg raw where env: "w_dsm_create E (trace ?s1) = Inr (seg, raw)" by auto
    let ?s2 = "s\<lparr>trace := (((trace s @ [Wk (SearchProc fn1)]) @ [Wk DsmCreate])
        @ [Wk (WriteConfig seg (fill_config E fn1 uri1 (case expr of None \<Rightarrow> [] | Some t \<Rightarrow> t) raw))]) @ [Wk DsmPin]\<rparr>"
    from True assms valid env have "start_worker E seg ?s2 = Some (r, s')"
      by (simp add: bmq_subscribe_def args Let_def xthen_def xbind_def xcall_def xtell_def del: append_assoc)
    with True env args show ?thesis by (intro disjI2 exI [of _ uri1] exI [of _ fn1] exI [of _ seg] exI [of _ raw] exI [of _ ?s2]) simp
  next
    case False
    with assms valid call show ?thesis
      by (cases r1; cases "w_dsm_create E (trace ?s1)")
        (auto simp: bmq_subscribe_def args Let_def bk_defs ereport_def segment_call simp del: append_assoc split: if_splits)
  qed
qed

section \<open>The worker's session\<close>

text \<open>The traces at which the worker said that it is ready.\<close>

definition readies :: "xev list \<Rightarrow> xev list list" where
  "readies = sees (\<lambda>h ev. if ev = Wk WriteReady then [h] else [])"

lemma readies_call: "readies (h @ [ev]) = readies h @ (if ev = Wk WriteReady then [h] else [])"
  by (simp add: readies_def)

interpretation unready: trace_effect "\<lambda>h h'. readies h' = readies h"
  by unfold_locales auto

lemma unready_deliver: "via (\<lambda>h h'. readies h' = readies h) (deliver E uri fn m)"
  unfolding deliver_def warn_def by (intro unready.via_intros unready.along_pg_try) (simp_all add: readies_call)

lemma unready_loop: "via (\<lambda>h h'. readies h' = readies h) (worker_loop E uri fn)"
proof -
  have all: "via (\<lambda>h h'. readies h' = readies h) (deliver_all E uri fn ms)" for ms
    by (induction ms) (auto simp: read_shutdown_def readies_call intro!: unready.via_intros unready_deliver)
  have "via (\<lambda>h h'. readies h' = readies h) (case event of PushEvent ms \<Rightarrow> deliver_all E uri fn ms | OtherMessageEvent \<Rightarrow> xret () | OtherEvent \<Rightarrow> xret ())"
    for event by (cases event) (auto intro!: unready.via_intros all)
  then show ?thesis
    unfolding worker_loop_def worker_round_def read_shutdown_def by (intro unready.via_intros) (simp_all add: readies_call)
qed

lemma fresh_session_queue:
  assumes "session_queue E uri expr s = Some (Inr i, s')" and "g_queues s = Map.empty" and "cache_ok E s"
  shows "opened E uri (trace s') = [i] \<and> last (filters E uri (trace s')) = expr"
proof -
  from assms(1) obtain s1 where first: "get_session E s = Some (Inr (), s1)" and second: "get_queue E uri expr s1 = Some (Inr i, s')"
    by (auto simp: session_queue_def bk_eqs)
  from first assms(2) have "g_queues s1 = Map.empty"
    by (auto simp: get_session_def set_session_def set_exit_hook_def bk_eqs if_bk_eq)
  with second have "open_new E uri expr s1 = Some (Inr i, s')" by (simp add: get_queue_def bk_defs)
  then have "g_queues s' uri = Some \<lparr>queueId = i, subscriptionExpr = expr\<rparr>"
    by (auto simp: open_new_def set_queue_def bk_eqs if_bk_eq option_bk_eq)
  moreover have "queue_ok E (trace s') uri (g_queues s' uri)" using session_queue_ok [OF assms(1,3)] by (simp add: cache_ok_def)
  ultimately show ?thesis by (simp add: queue_ok_def)
qed

definition ready_after_open :: "'e wenv_scheme \<Rightarrow> string \<Rightarrow> string \<Rightarrow> xev list \<Rightarrow> xev list \<Rightarrow> bool" where
  "ready_after_open E uri expr h h' \<longleftrightarrow> readies h' = readies h
     \<or> (\<exists>g q. readies h' = readies h @ [g] \<and> opened E uri g = [q] \<and> last (filters E uri g) = expr)"

lemma worker_body_ready:
  assumes "worker_body E uri expr fn s = Some (r, s')" and "g_queues s = Map.empty" and "cache_ok E s"
  shows "ready_after_open E uri expr (trace s) (trace s')"
proof -
  obtain r1 s1 where session: "session_queue E uri expr s = Some (r1, s1)" by (rule haltsE [OF halts_session(7)])
  have same: "readies (trace s1) = readies (trace s)"
    using unready.via_session_queue session by (rule alongD) (auto simp: readies_call session_call_def)
  show ?thesis
  proof (cases r1)
    case (Inl e)
    with assms(1) session same show ?thesis by (simp add: worker_body_def bk_defs ready_after_open_def)
  next
    case (Inr i)
    let ?s2 = "s1\<lparr>trace := (trace s1 @ [Wk WriteReady]) @ [Wk DsmDetach], seg_detached := True\<rparr>"
    from assms(1) session Inr have "worker_loop E uri fn ?s2 = Some (r, s')"
      by (simp add: worker_body_def set_seg_detached_def bk_defs del: append_assoc)
    from alongD [OF unready_loop this] same have "readies (trace s') = readies (trace s) @ [trace s1]"
      by (simp add: readies_call del: append_assoc)
    with fresh_session_queue [OF session [unfolded Inr] assms(2,3)] show ?thesis unfolding ready_after_open_def by blast
  qed
qed

lemma worker_main_ready:
  assumes "bmq_subscriber_main E arg s = Some (r, s')" and "g_queues s = Map.empty" and "cache_ok E s" and "w_attach E (trace s) arg = Some cfg"
  shows "ready_after_open E (c_str (cfg_queue_uri cfg)) (c_str (cfg_subscription_expr cfg)) (trace s) (trace s')"
proof -
  let ?uri = "c_str (cfg_queue_uri cfg)" and ?expr = "c_str (cfg_subscription_expr cfg)"
  let ?h1 = "(trace s @ [Wk (DsmAttach arg)]) @ [Wk (InitConnection (cfg_dbid cfg) (cfg_roleid cfg))]"
  let ?s2 = "s\<lparr>trace := ?h1 @ [Pg (PgLog (log_started ?uri))], seg_detached := False\<rparr>"
  define after where "after = (\<lambda>what. xbind (xget seg_detached) (\<lambda>gone.
     xthen (if gone then xret () else xtell (Wk DsmDetach)) (xtell (Pg (PgLog (log_error ?uri what))))))"
  define stop where "stop = xthen (xtell (Pg (PgLog (log_stopping ?uri)))) (proc_exit :: unit bk)"
  have hook: "via (\<lambda>h h'. readies h' = readies h) pg_blazingmq_exit_hook"
    by (auto simp: along_def pg_blazingmq_exit_hook_def readies_call split: if_splits)
  have quiet: "via (\<lambda>h h'. readies h' = readies h) (after what)" "via (\<lambda>h h'. readies h' = readies h) stop" for what
    unfolding after_def stop_def proc_exit_def by (intro unready.via_intros hook; simp add: readies_call)+
  have readies: "readies (trace ?s2) = readies (trace s)" "readies ?h1 = readies (trace s)" by (simp_all add: readies_call del: append_assoc)
  show ?thesis
  proof (cases "w_connect E (trace s @ [Wk (DsmAttach arg)])")
    case (Inl e)
    with assms(1,4) have "trace s' = ?h1" by (auto simp: bmq_subscriber_main_def run_worker_def Let_def bk_defs)
    with readies(2) show ?thesis by (simp add: ready_after_open_def)
  next
    case (Inr u)
    with assms(1,4) have run: "xthen (try_catch (worker_body E ?uri ?expr (cfg_callback_fn cfg)) after (xraise ThrownOther)) stop ?s2 = Some (r, s')"
      by (simp add: bmq_subscriber_main_def run_worker_def Let_def after_def stop_def xthen_def [of "xcall _ _"] xthen_def [of "xtell _"]
          xthen_def [of "set_seg_detached _"] xbind_def xcall_def xtell_def set_seg_detached_def)
    then obtain r3 s3 where body: "worker_body E ?uri ?expr (cfg_callback_fn cfg) ?s2 = Some (r3, s3)"
      by (auto simp: xthen_def xbind_def try_catch_def split: option.splits)
    have cache: "cache_ok E ?s2" "g_queues ?s2 = Map.empty"
      using assms(2,3) by (simp_all add: cache_ok_def queue_ok_other other_call del: append_assoc)
    with run obtain r4 s4 where caught: "try_catch (worker_body E ?uri ?expr (cfg_callback_fn cfg)) after (xraise ThrownOther) ?s2 = Some (r4, s4)"
      by (auto simp: xthen_def xbind_def split: option.splits)
    have "readies (trace s4) = readies (trace s3)"
      by (rule unready.after_try [OF caught body quiet(1) unready.along_xraise])
    moreover have "readies (trace s') = readies (trace s4)" by (rule unready.after_first [OF run caught quiet(2)])
    ultimately show ?thesis using worker_body_ready [OF body cache(2,1)] readies(1) by (simp add: ready_after_open_def)
  qed
qed

section \<open>What the worker confirms\<close>

text \<open>
  The payloads the callback was run on, the transactions that were committed, the messages whose
  confirmation was sent, and those of them for which it was sent without a transaction of their own before
  it, in which the callback on the message's payload succeeded and which was committed.
\<close>

definition called :: "xev list \<Rightarrow> byte list list" where
  "called = sees (\<lambda>h ev. case ev of Pg (Callback fn data) \<Rightarrow> [data] | _ \<Rightarrow> [])"

definition commits :: "'e wenv_scheme \<Rightarrow> xev list \<Rightarrow> nat" where
  "commits E h = length (sees (\<lambda>h ev. if ev = Pg CommitTransaction \<and> w_commit E h = Inr () then [()] else []) h)"

definition acked :: "xev list \<Rightarrow> message list" where
  "acked = sees (\<lambda>h ev. case ev of ConfirmMessage m \<Rightarrow> [m] | _ \<Rightarrow> [])"

definition backed :: "'e wenv_scheme \<Rightarrow> nat \<Rightarrow> xev list \<Rightarrow> message \<Rightarrow> bool" where
  "backed E fn h m \<longleftrightarrow> (\<exists>g. h = g @ [Pg StartTransaction, Pg (Callback fn (m_data m)), Pg CommitTransaction]
     \<and> w_callback E (g @ [Pg StartTransaction]) = Inr ()
     \<and> w_commit E (g @ [Pg StartTransaction, Pg (Callback fn (m_data m))]) = Inr ())"

definition unbacked :: "'e wenv_scheme \<Rightarrow> nat \<Rightarrow> xev list \<Rightarrow> message list" where
  "unbacked E fn = sees (\<lambda>h ev. case ev of ConfirmMessage m \<Rightarrow> if backed E fn h m then [] else [m] | _ \<Rightarrow> [])"

lemmas delivery_observers = called_def commits_def acked_def unbacked_def

definition settles :: "'e wenv_scheme \<Rightarrow> nat \<Rightarrow> xev list \<Rightarrow> xev list \<Rightarrow> bool" where
  "settles E fn h h' \<longleftrightarrow> unbacked E fn h' = unbacked E fn h \<and> commits E h' + length (acked h) = commits E h + length (acked h')"

definition serves :: "'e wenv_scheme \<Rightarrow> nat \<Rightarrow> xev list \<Rightarrow> xev list \<Rightarrow> bool" where
  "serves E fn h h' \<longleftrightarrow> settles E fn h h'
     \<and> (\<exists>new ms. pushed E h' = pushed E h @ new \<and> called h' = called h @ map m_data ms \<and> subseq ms new)"

lemma serves_follows:
  assumes "serves E fn h h1" and "serves E fn h1 h2"
  shows "serves E fn h h2"
proof -
  from assms obtain new ms new' ms' where "pushed E h1 = pushed E h @ new" "called h1 = called h @ map m_data ms" "subseq ms new"
    "pushed E h2 = pushed E h1 @ new'" "called h2 = called h1 @ map m_data ms'" "subseq ms' new'"
    unfolding serves_def by blast
  then have "pushed E h2 = pushed E h @ (new @ new') \<and> called h2 = called h @ map m_data (ms @ ms') \<and> subseq (ms @ ms') (new @ new')"
    by (simp add: list_emb_append_mono)
  moreover have "settles E fn h h2" using assms by (simp add: serves_def settles_def)
  ultimately show ?thesis unfolding serves_def by blast
qed

lemma serves_same:
  "settles E fn h h' \<Longrightarrow> pushed E h' = pushed E h \<Longrightarrow> called h' = called h \<Longrightarrow> serves E fn h h'"
  by (auto simp: serves_def)

interpretation serving: trace_effect "serves E fn" for E fn
  by unfold_locales (auto simp: serves_same settles_def dest: serves_follows)

text \<open>The calls that have nothing to do with messages.\<close>

definition plain_call :: "xev \<Rightarrow> bool" where
  "plain_call ev = (case ev of Pg (Callback _ _) \<Rightarrow> False | Pg CommitTransaction \<Rightarrow> False | ConfirmMessage _ \<Rightarrow> False | NextEvent _ \<Rightarrow> False | _ \<Rightarrow> True)"

lemma plain_call_serves: "plain_call ev \<Longrightarrow> serves E fn h (h @ [ev])"
  by (rule serves_same) (auto simp: plain_call_def settles_def delivery_observers pushed_def split: xev.splits pg_call.splits)

lemma plain_call_simps [simp]:
  "plain_call (Wk w)" "plain_call (Pg CheckInterrupts)" "plain_call (Pg ReadShutdown)" "plain_call (Pg StartTransaction)"
  "plain_call (Pg AbortTransaction)" "plain_call (Pg (PgWarning t))" "plain_call (Pg (PgLog t))" "plain_call StopSession"
  by (simp_all add: plain_call_def)

lemma session_call_plain: "session_call ev \<Longrightarrow> plain_call ev"
  by (auto simp: session_call_def plain_call_def split: xev.splits)

lemma delivery_call:
  "settles E fn h (h @ [Pg (Callback fn' d)])" "called (h @ [Pg (Callback fn' d)]) = called h @ [d]"
  "called (h @ [Pg CommitTransaction]) = called h" "called (h @ [ConfirmMessage m]) = called h"
  "commits E (h @ [Pg CommitTransaction]) = commits E h + (if w_commit E h = Inr () then 1 else 0)"
  "commits E (h @ [ConfirmMessage m]) = commits E h" "acked (h @ [Pg c]) = acked h" "acked (h @ [ConfirmMessage m]) = acked h @ [m]"
  "unbacked E fn (h @ [Pg c]) = unbacked E fn h"
  "unbacked E fn (h @ [ConfirmMessage m]) = unbacked E fn h @ (if backed E fn h m then [] else [m])"
  "pushed E (h @ [ConfirmMessage m]) = pushed E h"
  by (simp_all add: settles_def delivery_observers pushed_def)

lemma other_delivery_call:
  "c \<noteq> CommitTransaction \<Longrightarrow> commits E (h @ [Pg c]) = commits E h" "called (h @ [Pg StartTransaction]) = called h"
  "called (h @ [Pg AbortTransaction]) = called h" "called (h @ [Pg (PgWarning t)]) = called h" "called (h @ [Pg ReadShutdown]) = called h"
  "pushed E (h @ [Pg c]) = pushed E h"
  by (simp_all add: delivery_observers pushed_def)

lemma backed_here: "w_callback E (h @ [Pg StartTransaction]) = Inr () \<Longrightarrow> w_commit E ((h @ [Pg StartTransaction]) @ [Pg (Callback fn (m_data m))]) = Inr ()
  \<Longrightarrow> backed E fn (((h @ [Pg StartTransaction]) @ [Pg (Callback fn (m_data m))]) @ [Pg CommitTransaction]) m"
  unfolding backed_def by (intro exI [of _ h]) simp

text \<open>One message: the callback is run at most once, and what is confirmed was committed.\<close>

definition delivers :: "'e wenv_scheme \<Rightarrow> nat \<Rightarrow> message list \<Rightarrow> xev list \<Rightarrow> xev list \<Rightarrow> bool" where
  "delivers E fn ms h h' \<longleftrightarrow> settles E fn h h' \<and> pushed E h' = pushed E h
     \<and> (\<exists>ms'. called h' = called h @ map m_data ms' \<and> subseq ms' ms)"

lemma deliver_delivers:
  assumes "deliver E uri fn m s = Some (r, s')"
  shows "delivers E fn [m] (trace s) (trace s')"
proof -
  have "settles E fn (trace s) (trace s') \<and> pushed E (trace s') = pushed E (trace s)
      \<and> (called (trace s') = called (trace s) @ map m_data [] \<or> called (trace s') = called (trace s) @ map m_data [m])"
    using assms
    by (auto simp: deliver_def pg_try_def warn_def bk_defs settles_def delivery_call(2-) other_delivery_call backed_here
        simp del: append_assoc split: sum.splits xerr.splits)
  then show ?thesis unfolding delivers_def by (metis subseq_order.refl list_emb_Nil)
qed

lemma delivers_more:
  assumes "delivers E fn ms h h1" and "delivers E fn ms' h1 h2"
  shows "delivers E fn (ms @ ms') h h2"
proof -
  from assms obtain k k' where "called h1 = called h @ map m_data k" "subseq k ms" "called h2 = called h1 @ map m_data k'" "subseq k' ms'"
    unfolding delivers_def by blast
  then have "called h2 = called h @ map m_data (k @ k') \<and> subseq (k @ k') (ms @ ms')" by (simp add: list_emb_append_mono)
  with assms show ?thesis unfolding delivers_def settles_def by (auto intro!: exI [of _ "k @ k'"])
qed

lemma deliver_all_delivers: "deliver_all E uri fn ms s = Some (r, s') \<Longrightarrow> delivers E fn ms (trace s) (trace s')"
proof (induction ms arbitrary: s)
  case Nil
  then show ?case by (auto simp: xret_def delivers_def settles_def)
next
  case (Cons m ms)
  obtain r1 s1 where m: "deliver E uri fn m s = Some (r1, s1)" using Cons.prems by (auto simp: xthen_def xbind_def split: option.splits)
  note here = deliver_delivers [OF m]
  let ?s2 = "s1\<lparr>trace := trace s1 @ [Pg ReadShutdown]\<rparr>"
  have none: "delivers E fn ms (trace s1) (trace s1)" "delivers E fn [] (trace s1) (trace ?s2)" "delivers E fn ms (trace s1) (trace ?s2)"
    by (auto simp: delivers_def settles_def delivery_call other_delivery_call intro: exI [of _ "[]"])
  consider "s' = s1" | "s' = ?s2" | "deliver_all E uri fn ms ?s2 = Some (r, s')"
    using Cons.prems m by (auto simp: read_shutdown_def bk_defs split: sum.splits if_splits)
  then have "delivers E fn ms (trace s1) (trace s')"
  proof cases
    case 3
    from delivers_more [OF none(2) Cons.IH [OF this]] show ?thesis by simp
  qed (use none in auto)
  from delivers_more [OF here this] show ?case by simp
qed

lemma serves_loop: "via (serves E fn) (worker_loop E uri fn)"
proof -
  have "serves E fn (trace s) (trace s')" if run: "worker_round E uri fn s = Some (r, s')" for s r s'
  proof -
    let ?h1 = "trace s @ [Pg CheckInterrupts]" and ?h2 = "(trace s @ [Pg CheckInterrupts]) @ [NextEvent 1000]"
    have first: "serves E fn (trace s) ?h1" by (simp add: plain_call_serves)
    have polled: "settles E fn (trace s) ?h2" "called ?h2 = called (trace s)"
      "pushed E ?h2 = pushed E (trace s) @ (case x_next_event E ?h1 1000 of Inr (PushEvent ms) \<Rightarrow> ms | _ \<Rightarrow> [])"
      by (simp_all add: settles_def delivery_observers pushed_def two_calls)
    then have idle: "serves E fn (trace s) ?h2" unfolding serves_def by (auto intro!: exI [of _ "[]"])
    show ?thesis
    proof (cases "\<exists>ms. deliver_all E uri fn ms (s\<lparr>trace := ?h2\<rparr>) = Some (r, s') \<and> x_next_event E ?h1 1000 = Inr (PushEvent ms)")
      case True
      then obtain ms where ms: "deliver_all E uri fn ms (s\<lparr>trace := ?h2\<rparr>) = Some (r, s')" "x_next_event E ?h1 1000 = Inr (PushEvent ms)" by blast
      from deliver_all_delivers [OF ms(1)] polled ms(2) show ?thesis by (auto simp: serves_def delivers_def settles_def)
    next
      case False
      with run have "trace s' = ?h1 \<or> trace s' = ?h2"
        by (auto simp: worker_round_def bk_defs split: sum.splits bmq_event.splits)
      with first idle show ?thesis by auto
    qed
  qed
  then have "via (serves E fn) (worker_round E uri fn)" by (simp add: along_def)
  then show ?thesis
    unfolding worker_loop_def read_shutdown_def by (intro serving.via_intros) (simp_all add: plain_call_serves)
qed

lemma via_exit_hook: "(\<And>h. P h (h @ [StopSession])) \<Longrightarrow> (\<And>h. P h h) \<Longrightarrow> via P pg_blazingmq_exit_hook"
  by (auto simp: along_def pg_blazingmq_exit_hook_def)

lemma serves_run: "via (serves E (cfg_callback_fn cfg)) (run_worker E cfg)"
proof -
  have session: "via (serves E (cfg_callback_fn cfg)) (session_queue E uri expr)" for uri expr
    by (rule serving.via_session_queue) (simp add: plain_call_serves session_call_plain)
  have mark: "via (serves E (cfg_callback_fn cfg)) (set_seg_detached b)" for b
    by (simp add: along_def set_seg_detached_def serving.same)
  show ?thesis
    unfolding run_worker_def worker_body_def proc_exit_def Let_def
    by (intro serving.via_intros via_exit_hook session mark serves_loop serving.same plain_call_serves; simp)
qed

lemma serves_main:
  assumes "bmq_subscriber_main E arg s = Some (r, s')" and "w_attach E (trace s) arg = Some cfg"
  shows "serves E (cfg_callback_fn cfg) (trace s) (trace s')"
proof -
  from assms have "run_worker E cfg (s\<lparr>trace := trace s @ [Wk (DsmAttach arg)]\<rparr>) = Some (r, s')"
    by (simp add: bmq_subscriber_main_def bk_defs)
  from alongD [OF serves_run this] show ?thesis
    using serves_follows [OF plain_call_serves, of "Wk (DsmAttach arg)" E "cfg_callback_fn cfg" "trace s" "trace s'"] by simp
qed

text \<open>A shutdown is requested at the latest when \<open>L\<close> calls were made.\<close>

definition stops_after :: "'e wenv_scheme \<Rightarrow> nat \<Rightarrow> bool" where
  "stops_after E L \<longleftrightarrow> (\<forall>h. L \<le> length h \<longrightarrow> w_shutdown E h)"

lemma halts_deliver_all: "halts (deliver_all E uri fn ms)"
proof -
  have caught: "halts (pg_try m f)" if "halts m" "\<And>msg. halts (f msg)" for m :: "bool bk" and f
    using that unfolding halts_def pg_try_def by (fastforce split: option.splits sum.splits xerr.splits)
  have "halts (deliver E uri fn m)" for m
    unfolding deliver_def warn_def by (intro halts_intros caught)
  then show ?thesis by (induction ms) (auto simp: read_shutdown_def intro!: halts_intros)
qed

lemma growing_deliver_all: "via prefix (deliver_all E uri fn ms)"
proof -
  have "via prefix (deliver E uri fn m)" for m
    unfolding deliver_def warn_def by (intro growing.via_intros growing.along_pg_try) simp_all
  then show ?thesis by (induction ms) (auto simp: read_shutdown_def intro!: growing.via_intros)
qed

lemma worker_loop_returns:
  assumes "stops_after E L"
  shows "halts (worker_loop E uri fn)"
  unfolding halts_def
proof
  fix s
  have event: "halts (case event of PushEvent ms \<Rightarrow> deliver_all E uri fn ms | OtherMessageEvent \<Rightarrow> xret () | OtherEvent \<Rightarrow> xret ())"
    "via prefix (case event of PushEvent ms \<Rightarrow> deliver_all E uri fn ms | OtherMessageEvent \<Rightarrow> xret () | OtherEvent \<Rightarrow> xret ())" for event
    by (cases event; auto intro!: halts_intros halts_deliver_all growing.via_intros growing_deliver_all)+
  then have round: "halts (worker_round E uri fn)" "via prefix (worker_round E uri fn)"
    unfolding worker_round_def by (auto intro!: halts_intros growing.via_intros)
  have shorter: "L - length (trace t2) < L - length (trace t)"
    if "\<not> w_shutdown E (trace t)" "worker_round E uri fn (t\<lparr>trace := trace t @ [Pg ReadShutdown]\<rparr>) = Some (Inr x, t2)" for t t2 x
  proof -
    have "length (trace t) < L" using assms that(1) by (auto simp: stops_after_def not_le [symmetric])
    moreover have "Suc (length (trace t)) \<le> length (trace t2)" using prefix_length_le [OF alongD [OF round(2) that(2)]] by simp
    ultimately show ?thesis by simp
  qed
  show "worker_loop E uri fn s \<noteq> None"
    unfolding worker_loop_def
    by (rule xwhile_returns [where I = "\<lambda>_ _. True" and \<mu> = "\<lambda>_ t. L - length (trace t)"])
      (use round(1) shorter in \<open>auto simp: halts_def read_shutdown_def bk_eqs bk_defs\<close>)
qed

lemma halts_main:
  assumes "stops_after E L"
  shows "halts (bmq_subscriber_main E arg)"
proof -
  have steps: "halts (set_seg_detached b)" "halts pg_blazingmq_exit_hook" for b
    by (simp_all add: halts_def set_seg_detached_def pg_blazingmq_exit_hook_def)
  show ?thesis
    unfolding bmq_subscriber_main_def run_worker_def worker_body_def proc_exit_def Let_def
    by (intro halts_intros steps worker_loop_returns [OF assms])
qed

lemma unbacked_none:
  assumes "unbacked E fn h = []" and "i < length h" and "h ! i = ConfirmMessage m"
  shows "backed E fn (take i h) m"
proof -
  from assms(1,2) have "(case h ! i of ConfirmMessage m \<Rightarrow> if backed E fn (take i h) m then [] else [m] | _ \<Rightarrow> []) = []"
    unfolding unbacked_def sees_def by simp
  with assms(3) show ?thesis by (simp split: if_splits)
qed

lemma growing_start_worker: "via prefix (start_worker E seg)"
  unfolding start_worker_def await_ready_def read_ready_def warn_def ereport_def by (intro growing.via_intros) simp_all

section \<open>Subscribing\<close>

text \<open>The segment has room for the structure: two buffers of 512 bytes.\<close>

definition segment_sized :: "'e wenv_scheme \<Rightarrow> bool" where
  "segment_sized E \<longleftrightarrow> (\<forall>h seg raw. w_dsm_create E h = Inr (seg, raw) \<longrightarrow>
     length (cfg_queue_uri raw) = buffer_size \<and> length (cfg_subscription_expr raw) = buffer_size)"

text \<open>
  For the witnesses: a server on which everything succeeds. The worker is ready after two polls, the
  callback fails when the number of calls before it is odd, and a shutdown is requested after 24 calls.
\<close>

definition demo_config :: SubscriberConfig where
  "demo_config = \<lparr>cfg_dbid = 5, cfg_roleid = 10, cfg_callback_fn = 77, cfg_queue_uri = ''bmq://q'' @ [CHR 0x00] @ ''xyz'',
     cfg_subscription_expr = [CHR 0x00]\<rparr>"

definition blank_config :: SubscriberConfig where
  "blank_config = \<lparr>cfg_dbid = 0, cfg_roleid = 0, cfg_callback_fn = 0, cfg_queue_uri = replicate 512 (CHR 0x00),
     cfg_subscription_expr = replicate 512 (CHR 0x00)\<rparr>"

definition demo_pg :: "bmq_event list \<Rightarrow> wenv" where
  "demo_pg evs = xenv.extend (demo_ext evs)
     \<lparr>w_database = 5, w_user = 10, w_proc = (\<lambda>_ _. Inr (Some [BYTEAOID])), w_dsm_create = (\<lambda>_. Inr (3, blank_config)),
      w_register = (\<lambda>_. Inr True), w_startup = (\<lambda>_. Inr (0, 1234)), w_ready = (\<lambda>h. if length h < 9 then 0 else 1),
      w_select = (\<lambda>_ _. Inr (5, 1)), w_kill = (\<lambda>_ _. 0), w_attach = (\<lambda>_ _. Some demo_config), w_connect = (\<lambda>_. Inr ()),
      w_shutdown = (\<lambda>h. 24 \<le> length h), w_interrupts = (\<lambda>_. Inr ()), w_begin = (\<lambda>_. Inr ()),
      w_callback = (\<lambda>h. if even (length h) then Inr () else Inl (Ereport ''no'' None)), w_commit = (\<lambda>_. Inr ()), w_abort = (\<lambda>_. Inr ())\<rparr>"

lemma demo_pg_lawful: "start_calm (demo_pg evs)" "segment_sized (demo_pg evs)" "stops_after (demo_pg evs) 24"
  by (auto simp: start_calm_def segment_sized_def stops_after_def demo_pg_def xenv.extend_def demo_ext_def blank_config_def buffer_size_def)

lemma demo_subscribe:
  "\<exists>s'. bmq_subscribe (demo_pg []) (Some ''bmq://q'') (Some 77) None (backend_init u) = Some (Inr 1234, s')"
  by (simp add: bmq_subscribe_def validate_callback_fn_def start_worker_def await_ready_def read_ready_def warn_def Let_def demo_pg_def
      demo_ext_def xenv.extend_def backend_init_def bk_defs xwhile.simps buffer_size_def BGWH_STARTED_def ready_timeout_ms_def poll_interval_us_def)

text \<open>
  C30. Subscribing takes at most five seconds of waiting and leaves no segment attached: whatever the worker does, \<^verbatim>\<open>bmq_subscribe\<close> returns
  or raises an error after at most 250 pauses of 20 ms, and the segment it created, if it created
  one, has been detached exactly once, on every path. It returns a process id only if it created one.
\<close>

theorem subscribe_waits_bounded:
  assumes "start_calm E"
  shows "\<exists>r s' n segs. bmq_subscribe E uri fn expr s = Some (r, s') \<and> n \<le> 250
    \<and> slept (trace s') = slept (trace s) @ replicate n 20000
    \<and> created E (trace s') = created E (trace s) @ segs \<and> length segs \<le> 1 \<and> detached (trace s') = detached (trace s) + length segs
    \<and> ((\<exists>pid. r = Inr pid) \<longrightarrow> length segs = 1)"
proof -
  obtain r s' where run: "bmq_subscribe E uri fn expr s = Some (r, s')" by (rule haltsE [OF halts_subscribe])
  from subscribe_cases [OF run] show ?thesis
  proof (elim disjE exE conjE)
    fix e assume "r = Inl e" "slept (trace s') = slept (trace s)" "created E (trace s') = created E (trace s)" "detached (trace s') = detached (trace s)"
    with run show ?thesis by (intro exI [of _ r] exI [of _ s'] exI [of _ 0] exI [of _ "[]"]) simp
  next
    fix uri1 fn1 seg raw s1
    assume env: "w_dsm_create E (trace s @ [Wk (SearchProc fn1)]) = Inr (seg, raw)" and worker: "start_worker E seg s1 = Some (r, s')"
      and trace: "trace s1 = (((trace s @ [Wk (SearchProc fn1)]) @ [Wk DsmCreate])
            @ [Wk (WriteConfig seg (fill_config E fn1 uri1 (case expr of None \<Rightarrow> [] | Some t \<Rightarrow> t) raw))]) @ [Wk DsmPin]"
    note calls = quiet_worker_call [of "Wk (SearchProc fn1)" _ E] quiet_worker_call [of "Wk (WriteConfig seg _)" _ E]
      quiet_worker_call [of "Wk DsmPin" _ E] segment_call
    have "slept (trace s1) = slept (trace s)" "created E (trace s1) = created E (trace s) @ [seg]" "detached (trace s1) = detached (trace s)"
      unfolding trace by (simp_all add: calls env del: append_assoc)
    with start_worker_waits [OF worker assms] obtain n where "n \<le> 250" "slept (trace s') = slept (trace s) @ replicate n 20000"
      "created E (trace s') = created E (trace s) @ [seg]" "detached (trace s') = Suc (detached (trace s))"
      by (auto simp: poll_interval_us_def)
    with run show ?thesis by (intro exI [of _ r] exI [of _ s'] exI [of _ n] exI [of _ "[seg]"]) simp
  qed
qed

theorem subscribe_waits_bounded_witness:
  "\<exists>s' n. bmq_subscribe (demo_pg []) (Some ''bmq://q'') (Some 77) None (backend_init ''tcp://b'') = Some (Inr 1234, s') \<and> n \<le> 250
    \<and> slept (trace s') = replicate n 20000 \<and> detached (trace s') = 1"
proof -
  have none: "slept (trace (backend_init ''tcp://b'')) = []" "created (demo_pg []) (trace (backend_init ''tcp://b'')) = []" "detached (trace (backend_init ''tcp://b'')) = 0"
    by (simp_all add: backend_init_def worker_observers)
  obtain s1 where run: "bmq_subscribe (demo_pg []) (Some ''bmq://q'') (Some 77) None (backend_init ''tcp://b'') = Some (Inr 1234, s1)"
    using demo_subscribe by blast
  from subscribe_waits_bounded [OF demo_pg_lawful(1), of "[]" "Some ''bmq://q''" "Some 77" None "backend_init ''tcp://b''"] run none show ?thesis
    by fastforce
qed

text \<open>
  C20. A subscription reaches its queue: the configuration that a successful \<^verbatim>\<open>bmq_subscribe\<close> leaves in shared memory stays within the
  two buffers of 512 bytes, and the worker it was registered with, in its own process, has opened exactly
  the given queue with exactly the given expression when it says that it is ready. Texts of the server
  contain no zero bytes; the worker attaches to what was written.
\<close>

theorem subscription_reaches_queue:
  assumes "bmq_subscribe E (Some uri) (Some fn) expr s = Some (Inr pid, s')" and "segment_sized E"
    and "CHR 0x00 \<notin> set uri" and "\<forall>t. expr = Some t \<longrightarrow> CHR 0x00 \<notin> set t"
  shows "\<exists>seg cfg. prefix (trace s @ [Wk (SearchProc fn), Wk DsmCreate, Wk (WriteConfig seg cfg), Wk DsmPin]) (trace s')
    \<and> length (cfg_queue_uri cfg) = 512 \<and> length (cfg_subscription_expr cfg) = 512 \<and> cfg_callback_fn cfg = fn
    \<and> (\<forall>(W :: 'w wenv_scheme) u r t. w_attach W [] seg = Some cfg \<and> bmq_subscriber_main W seg (backend_init u) = Some (r, t) \<longrightarrow>
         (\<forall>g\<in>set (readies (trace t)). (\<exists>q. opened W uri g = [q]) \<and> last (filters W uri g) = (case expr of None \<Rightarrow> [] | Some t \<Rightarrow> t)))"
proof -
  let ?expr = "case expr of None \<Rightarrow> [] | Some t \<Rightarrow> t"
  from subscribe_cases [OF assms(1)] obtain seg raw s1 where short: "length uri < buffer_size" "length ?expr < buffer_size"
    and raw: "w_dsm_create E (trace s @ [Wk (SearchProc fn)]) = Inr (seg, raw)"
    and s1: "trace s1 = (((trace s @ [Wk (SearchProc fn)]) @ [Wk DsmCreate]) @ [Wk (WriteConfig seg (fill_config E fn uri ?expr raw))])
      @ [Wk DsmPin]" and worker: "start_worker E seg s1 = Some (Inr pid, s')"
    by auto
  let ?cfg = "fill_config E fn uri ?expr raw"
  have sized: "length (cfg_queue_uri ?cfg) = 512" "length (cfg_subscription_expr ?cfg) = 512"
    using assms(2) raw short unfolding segment_sized_def by (auto simp: fill_config_def length_strcpy buffer_size_def)
  have texts: "c_str (cfg_queue_uri ?cfg) = uri" "c_str (cfg_subscription_expr ?cfg) = ?expr"
    using assms(3,4) by (auto simp: fill_config_def c_str_strcpy c_str_id split: option.split) (simp add: c_str_def)?
  have "prefix (trace s1) (trace s')" using growing_start_worker worker by (rule alongD)
  then have "prefix (trace s @ [Wk (SearchProc fn), Wk DsmCreate, Wk (WriteConfig seg ?cfg), Wk DsmPin]) (trace s')" by (simp add: s1)
  moreover have "(\<exists>q. opened W uri g = [q]) \<and> last (filters W uri g) = ?expr"
    if "w_attach W [] seg = Some ?cfg" "bmq_subscriber_main W seg (backend_init u) = Some (r, t)" "g \<in> set (readies (trace t))" for W :: "'w wenv_scheme" and u r t g
    using worker_main_ready [OF that(2) _ cache_ok_init, of ?cfg] that(1,3)
    by (auto simp: backend_init_def ready_after_open_def texts readies_def)
  moreover have "cfg_callback_fn ?cfg = fn" by (simp add: fill_config_def)
  ultimately show ?thesis using sized by (intro exI [of _ seg] exI [of _ ?cfg]) blast
qed

text \<open>Here the worker is given that configuration, and runs until a shutdown is requested.\<close>

theorem subscription_reaches_queue_witness:
  "\<exists>s' seg cfg r t. bmq_subscribe (demo_pg []) (Some ''bmq://q'') (Some 77) None (backend_init ''tcp://b'') = Some (Inr 1234, s')
    \<and> bmq_subscriber_main (demo_pg []\<lparr>w_attach := \<lambda>_ _. Some cfg\<rparr>) seg (backend_init ''tcp://b'') = Some (r, t)
    \<and> (\<forall>g\<in>set (readies (trace t)). \<exists>q. opened (demo_pg []\<lparr>w_attach := \<lambda>_ _. Some cfg\<rparr>) ''bmq://q'' g = [q])"
proof -
  obtain s' where run: "bmq_subscribe (demo_pg []) (Some ''bmq://q'') (Some 77) None (backend_init ''tcp://b'') = Some (Inr 1234, s')"
    using demo_subscribe by blast
  from subscription_reaches_queue [OF run demo_pg_lawful(2)] obtain seg cfg where
    reach: "\<forall>(W :: wenv) u r t. w_attach W [] seg = Some cfg \<and> bmq_subscriber_main W seg (backend_init u) = Some (r, t) \<longrightarrow>
      (\<forall>g\<in>set (readies (trace t)). (\<exists>q. opened W ''bmq://q'' g = [q]) \<and> last (filters W ''bmq://q'' g) = [])" by auto
  let ?W = "demo_pg []\<lparr>w_attach := \<lambda>_ _. Some cfg\<rparr>"
  have "stops_after ?W 24" by (simp add: stops_after_def demo_pg_def xenv.extend_def)
  then obtain r t where worker: "bmq_subscriber_main ?W seg (backend_init ''tcp://b'') = Some (r, t)" by (rule haltsE [OF halts_main])
  moreover have "w_attach ?W [] seg = Some cfg" by simp
  ultimately have "\<forall>g\<in>set (readies (trace t)). \<exists>q. opened ?W ''bmq://q'' g = [q]" using reach by blast
  with run worker show ?thesis by blast
qed

lemma demo_worker:
  "\<exists>s'. bmq_subscriber_main (demo_pg [PushEvent demo_push]) 3 (backend_init ''tcp://b'') = Some (Inl Exited, s')
     \<and> acked (trace s') = [demo_push ! 0, demo_push ! 2] \<and> length (readies (trace s')) = 1"
  by (simp add: bmq_subscriber_main_def run_worker_def worker_body_def worker_loop_def worker_round_def read_shutdown_def deliver_def pg_try_def
      proc_exit_def pg_blazingmq_exit_hook_def set_seg_detached_def warn_def Let_def session_queue_def get_session_def get_queue_def
      open_new_def build_queue_options_def set_session_def set_exit_hook_def set_queue_def try_catch_def bk_defs demo_pg_def demo_ext_def
      xenv.extend_def backend_init_def demo_push_def demo_config_def c_str_def xwhile.simps polled_def acked_def readies_def sees_def)

text \<open>
  C3. What the worker confirms is committed: a worker ends once a shutdown is requested, at whatever number \<open>L\<close> of calls, and until then
  the callback was run on messages of the session in the order in which they were pushed, on each at most
  once; a message is confirmed only directly behind a transaction of its own in which the callback
  succeeded on its payload and which was committed, and there are as many confirmations as such commits. A
  callback that fails leaves its message unconfirmed and the worker running.
\<close>

theorem worker_confirms_committed:
  assumes "stops_after E L" and "w_attach E [] arg = Some cfg"
  shows "\<exists>r s' ms. bmq_subscriber_main E arg (backend_init u) = Some (r, s')
    \<and> called (trace s') = map m_data ms \<and> subseq ms (pushed E (trace s'))
    \<and> (\<forall>i m. i < length (trace s') \<and> trace s' ! i = ConfirmMessage m \<longrightarrow> backed E (cfg_callback_fn cfg) (take i (trace s')) m)
    \<and> length (acked (trace s')) = commits E (trace s')"
proof -
  obtain r s' where run: "bmq_subscriber_main E arg (backend_init u) = Some (r, s')" by (rule haltsE [OF halts_main [OF assms(1)]])
  have "serves E (cfg_callback_fn cfg) [] (trace s')"
    using serves_main [OF run, of cfg] assms(2) by (simp add: backend_init_def)
  then obtain ms where "called (trace s') = map m_data ms" "subseq ms (pushed E (trace s'))"
    "unbacked E (cfg_callback_fn cfg) (trace s') = []" "length (acked (trace s')) = commits E (trace s')"
    by (auto simp: serves_def settles_def delivery_observers pushed_def)
  with run unbacked_none show ?thesis by (metis (no_types, lifting))
qed

text \<open>Three messages; the callback fails on the second, and the first and the third are confirmed.\<close>

theorem worker_confirms_committed_witness:
  "\<exists>s'. bmq_subscriber_main (demo_pg [PushEvent demo_push]) 3 (backend_init ''tcp://b'') = Some (Inl Exited, s')
     \<and> acked (trace s') = [demo_push ! 0, demo_push ! 2] \<and> commits (demo_pg [PushEvent demo_push]) (trace s') = 2"
proof -
  let ?E = "demo_pg [PushEvent demo_push]"
  have "w_attach ?E [] 3 = Some demo_config" by (simp add: demo_pg_def xenv.extend_def)
  from worker_confirms_committed [OF demo_pg_lawful(3) this, of "''tcp://b''"] demo_worker show ?thesis by fastforce
qed

end
