(* ===== verification/Pg_Calls.thy ===== *)
theory Pg_Calls
  imports Pg_Subscribe
begin

text \<open>
  A backend that is used for a while: the calls of the extension's SQL functions one after the other, with
  changes of the setting between them, on one process state. A call that raises an error leaves what it
  did to the process behind; the next call starts from there.
\<close>

section \<open>Calls\<close>

datatype sql_call =
    CallPublish "string option" "column list option" "string option list option"
  | CallConsume bool "string option" "string option" "int option" "int option" "bool option"
  | CallSubscribe "string option" "nat option" "string option"
  | CallUnsubscribe "(32 word) option"
  | SetBroker string                             \<comment> \<open>\<^verbatim>\<open>SET blazingmq.broker_uri\<close>\<close>

definition set_broker_uri :: "string \<Rightarrow> unit bk" where
  "set_broker_uri uri s = Some (Inr (), s\<lparr>broker_uri := uri\<rparr>)"

definition run_call :: "'e wenv_scheme \<Rightarrow> sql_call \<Rightarrow> unit bk" where
  "run_call E c =
     (case c of
        CallPublish uri row attrs \<Rightarrow> bmq_publish_row E uri row attrs
      | CallConsume acc uri expr max_opt timeout_opt batch_opt \<Rightarrow> xthen (bmq_consume E acc uri expr max_opt timeout_opt batch_opt) (xret ())
      | CallSubscribe uri fn expr \<Rightarrow> xthen (bmq_subscribe E uri fn expr) (xret ())
      | CallUnsubscribe pid \<Rightarrow> xthen (bmq_unsubscribe E pid) (xret ())
      | SetBroker uri \<Rightarrow> set_broker_uri uri)"

inductive backend_runs :: "'e wenv_scheme \<Rightarrow> backend \<Rightarrow> bool" for E where
  fresh: "backend_runs E (backend_init uri)"
| next_call: "backend_runs E s \<Longrightarrow> run_call E c s = Some (r, s') \<Longrightarrow> backend_runs E s'"

text \<open>The default setting, and the check that the client library is linked.\<close>

definition PG_init :: backend where
  "PG_init = backend_init ''tcp://localhost:30114''"

definition pg_blazingmq_link_check :: "int \<Rightarrow> string \<Rightarrow> string" where
  "pg_blazingmq_link_check threads uri =
     c_str (''pg_blazingmq link OK: brokerUri='' @ uri @ '' numProcessingThreads='' @ str_int threads)"

section \<open>The cache over many calls\<close>

lemma cached_subscribe [effect_intros]: "keeps_cache E (bmq_subscribe E uri fn expr)" "keeps_cache E (bmq_unsubscribe E pid)"
  unfolding bmq_subscribe_def bmq_unsubscribe_def validate_callback_fn_def start_worker_def await_ready_def read_ready_def warn_def ereport_def Let_def
  by (intro effect_intros; simp)+

lemma run_call_cache: "keeps_cache E (run_call E c)"
proof (cases c)
  case (SetBroker uri)
  then show ?thesis by (auto simp: run_call_def along_def set_broker_uri_def cache_ok_def)
qed (simp_all add: run_call_def, (intro effect_intros)+)

lemma backend_runs_cache: "backend_runs E s \<Longrightarrow> cache_ok E s"
  by (induction rule: backend_runs.induct) (auto simp: cache_ok_init dest: alongD [OF run_call_cache])

lemma halts_run_call:
  assumes "clock_runs E N"
  shows "halts (run_call E c)"
proof (cases c)
  case (CallUnsubscribe pid)
  have "halts (bmq_unsubscribe E pid)" unfolding bmq_unsubscribe_def warn_def by (intro halts_intros)
  with CallUnsubscribe show ?thesis by (simp add: run_call_def halts_intros)
next
  case (SetBroker uri)
  then show ?thesis by (simp add: run_call_def halts_def set_broker_uri_def)
qed (simp_all add: run_call_def halts_intros halts_consume [OF assms] halts_subscribe)

text \<open>
  C11. One session, one handle per queue: however a backend is used, with calls that return and calls that fail, it starts at most
  one session and opens every queue at most once in it; the handle it caches for a queue is the one that
  was opened, the expression cached with it is the last one the broker accepted, a queue is cached exactly
  if it was opened, and there is a session exactly if one was started. And from wherever it has come to, every
  further call returns or raises an error.
\<close>

theorem one_session_one_handle:
  assumes "backend_runs E s" and "clock_runs E N"
  shows "length (starts E (trace s)) = (if g_session s then 1 else 0)
    \<and> (\<forall>uri. case g_queues s uri of
         None \<Rightarrow> opened E uri (trace s) = []
       | Some e \<Rightarrow> g_session s \<and> opened E uri (trace s) = [queueId e] \<and> last (filters E uri (trace s)) = subscriptionExpr e)
    \<and> (\<forall>c. \<exists>r s'. run_call E c s = Some (r, s') \<and> backend_runs E s')"
proof -
  have "cache_ok E s" using assms(1) by (rule backend_runs_cache)
  then have cache: "length (starts E (trace s)) = (if g_session s then 1 else 0)" "\<And>uri. queue_ok E (trace s) uri (g_queues s uri)"
    "g_session s \<or> g_queues s = Map.empty" by (auto simp: cache_ok_def)
  have "case g_queues s uri of None \<Rightarrow> opened E uri (trace s) = []
    | Some e \<Rightarrow> g_session s \<and> opened E uri (trace s) = [queueId e] \<and> last (filters E uri (trace s)) = subscriptionExpr e" for uri
    using cache(2) [of uri] cache(3) by (auto simp: queue_ok_def split: option.splits)
  moreover have "\<exists>r s'. run_call E c s = Some (r, s') \<and> backend_runs E s'" for c
    by (rule haltsE [OF halts_run_call [OF assms(2)]]) (blast intro: backend_runs.next_call [OF assms(1)])
  ultimately show ?thesis using cache(1) by blast
qed

text \<open>After one row was published.\<close>

theorem one_session_one_handle_witness:
  "\<exists>s. backend_runs (demo_pg []) s \<and> length (starts (demo_pg []) (trace s)) = (if g_session s then 1 else 0)
    \<and> (\<exists>r s'. run_call (demo_pg []) (CallConsume True (Some ''bmq://q'') None None (Some 5) None) s = Some (r, s'))"
proof -
  let ?E = "demo_pg []"
  have clock: "clock_runs ?E 1"
    using demo_ext_confirms(4) [of "[]"] by (simp add: clock_runs_def demo_pg_def xenv.extend_def demo_ext_def)
  obtain r s' where run: "run_call ?E (CallPublish (Some ''bmq://q'') (Some demo_row) (Some [Some ''region''])) PG_init = Some (r, s')"
    by (rule haltsE [OF halts_run_call [OF clock]])
  then have "backend_runs ?E s'" unfolding PG_init_def by (rule backend_runs.next_call [OF backend_runs.fresh])
  from one_session_one_handle [OF this clock] this show ?thesis by blast
qed

end
