(* ===== verification/Spec2Isabelle.thy ===== *)
theory Spec2Isabelle
  imports Whole_Runs Atomic_Counters Command_Lines Driver_Runs Pg_Calls Msgpack_Roundtrip
begin

text \<open>
  Verification of the benchmark harness of \<^verbatim>\<open>pg_blazingmq\<close>.

  \<^bold>\<open>The program.\<close> The repository holds a PostgreSQL extension in C++ that publishes rows to
  BlazingMQ and consumes them, and under \<^verbatim>\<open>src/bench\<close> the Python programs that measure it and the
  NATS based alternative to it, and that decide whether a run was correct before its numbers are
  trusted. This development is about these Python programs and the C++ program they drive,
  \<^verbatim>\<open>mq_bench_driver.cpp\<close>. The Python programs come in three families:

    \<^item> the \<^verbatim>\<open>nats_sidecar_*.py\<close> scripts and \<^verbatim>\<open>measure_ctrl_plane_only.py\<close> start a NATS server and a
      fleet of sidecar processes, register a filter with each, start the C++ driver as a
      subscriber, publish a table, read the driver's report and stop everything;
    \<^item> \<^verbatim>\<open>sustained_bench.py\<close>, \<^verbatim>\<open>filtered_bench.py\<close>, \<^verbatim>\<open>multi_queue_bench.py\<close>, \<^verbatim>\<open>parallel_bench.py\<close>
      and \<^verbatim>\<open>bmq_bench.py\<close> run producers and consumers over database sessions, with counters and a
      barrier shared between processes, and report rates, backlogs and a content check;
    \<^item> \<^verbatim>\<open>nats_selectivity.py\<close> and \<^verbatim>\<open>nats_queue_group.py\<close> are NATS clients that publish, subscribe and
      compare what arrived with what should have; \<^verbatim>\<open>js_bench.py\<close> publishes to a persistent stream,
      drains it afterwards and compares the contents.

  \<^bold>\<open>The model of effects.\<close> A program is a function from the history of its interactions to a
  result and a longer history (\<open>prog\<close> in \<^verbatim>\<open>Prelude\<close>); a result is a value or a Python exception.
  What the operating system, the database, the NATS server, the clock and the user answer is given
  by a record of functions of the history (\<open>env\<close> in \<^verbatim>\<open>Py_Os\<close>, \<open>denv\<close> in \<^verbatim>\<open>Db_Session\<close>, \<open>nenv\<close> in
  \<^verbatim>\<open>Nats_Client\<close>, \<open>jenv\<close> in \<^verbatim>\<open>Js_Bench\<close>, \<open>dvenv\<close> in \<^verbatim>\<open>Bench_Driver\<close>), a parameter of every definition: so every failure at every point is covered, and
  a property that needs more says so in a hypothesis (\<open>calm\<close>: no interrupt by the user and no
  failing \<^verbatim>\<open>close\<close>; \<open>monotone_clock\<close>, \<open>sleep_suspends\<close>, \<open>statements_timely\<close>: time passes;
  \<open>nats_wildcards\<close>: the documented matching of subjects; \<open>float_ok\<close>: the \<^verbatim>\<open>repr\<close> of a float reads
  back as this float; \<open>dv_timers_run\<close>, \<open>dv_comes_up\<close>, \<open>dv_text_ok\<close>: a timer takes at least its time,
  the connection comes up, and a number is printed without white space). A process or log file is named by the
  position of its creation in the history. Observers (\<open>logged\<close>, \<open>terminated\<close>, \<open>phases\<close>, \<open>added\<close>,
  \<open>published\<close>) read from a history what a property talks about.

  \<^bold>\<open>Theories.\<close> The shared layers come first:

    \<^item> \<^verbatim>\<open>Prelude\<close>: exceptions, programs, \<^verbatim>\<open>try/except\<close>, \<^verbatim>\<open>try/finally\<close>, observers and the collections
      of rules (\<open>silent_intros\<close>, \<open>bystander_intros\<close>, \<open>prog_eqs\<close>) the later proofs run on;
    \<^item> \<^verbatim>\<open>Py_Text\<close>, \<^verbatim>\<open>Py_Float\<close>, \<^verbatim>\<open>Py_Os\<close>: what the scripts use of Python's strings and numbers
      (\<^verbatim>\<open>split\<close>, \<^verbatim>\<open>splitlines\<close>, \<^verbatim>\<open>strip\<close>, \<^verbatim>\<open>int\<close>, \<^verbatim>\<open>float\<close>, \<^verbatim>\<open>repr\<close>, format specifications), and the calls to
      \<^verbatim>\<open>subprocess\<close>, \<^verbatim>\<open>os\<close>, \<^verbatim>\<open>shutil\<close> and \<^verbatim>\<open>time\<close>;
    \<^item> \<^verbatim>\<open>Sidecar_Harness\<close>: \<^verbatim>\<open>stop\<close>, the launches, the polling and control loops and the teardown, and
      the locale \<open>sidecar_fleet\<close>: a script that launches this way leaves no logged process behind;
    \<^item> \<^verbatim>\<open>Report_Lines\<close>: the driver's report and the two ways the scripts read it;
    \<^item> \<^verbatim>\<open>Sidecar_Config\<close>: the settings and calls the scripts repeat, the stages of a run, and the
      locale \<open>staged_fleet\<close>, which extends \<open>sidecar_fleet\<close> by the order of the stages;
    \<^item> \<^verbatim>\<open>Capture_Harness\<close>: a run whose \<^verbatim>\<open>finally\<close> block also ends a measuring program that the \<^verbatim>\<open>try\<close>
      block starts on its way, and the locale \<open>guarded_fleet\<close>, of which \<open>sidecar_fleet\<close> is a part: all
      it started has ended;
    \<^item> \<^verbatim>\<open>Db_Session\<close>, \<^verbatim>\<open>Db_Loop\<close>: database calls, \<^verbatim>\<open>execute_with_open_retry\<close>, loops until a time, and the
      locales \<open>counting_loop\<close> (what a loop returns is what it added to its counter) and
      \<open>clocked_loop\<close> (a loop whose rounds take time ends);
    \<^item> \<^verbatim>\<open>Bmq_Worker\<close>: the producer, the consumer and the monitor, written once with the parameters in
      which the scripts differ;
    \<^item> \<^verbatim>\<open>Worker_Pool\<close>: what a \<^verbatim>\<open>main\<close> does with its worker processes (start, join, one result per worker
      from a queue), and the locale \<open>counted_pool\<close> (workers that return what they counted);
    \<^item> \<^verbatim>\<open>Nats_Client\<close>: the calls of the two NATS clients;
    \<^item> \<^verbatim>\<open>Json_Text\<close>, \<^verbatim>\<open>Json_Roundtrip\<close>: Python's \<^verbatim>\<open>json.dumps\<close> and \<^verbatim>\<open>json.loads\<close>, and that what is
      written reads back;
    \<^item> \<^verbatim>\<open>Arg_Parse\<close>: Python's \<^verbatim>\<open>argparse\<close> for long options and one positional argument, abbreviations,
      types, choices, defaults, help and usage errors included, and the locale \<open>option_table\<close>: what
      holds of every well-formed table of options.

  The scripts follow, each interpreting the locales on its own definitions:
  \<^verbatim>\<open>Throughput_Clean\<close> (\<^verbatim>\<open>nats_sidecar_throughput_clean.py\<close>),
  \<^verbatim>\<open>Storage_Isolation\<close> (\<^verbatim>\<open>nats_sidecar_jetstream_storage_isolation.py\<close>),
  \<^verbatim>\<open>Scaling_Real\<close> (\<^verbatim>\<open>nats_sidecar_scaling_real_data.py\<close>),
  \<^verbatim>\<open>Scaling_Bcast\<close> (\<^verbatim>\<open>nats_sidecar_scaling_real_data_bcast.py\<close>),
  \<^verbatim>\<open>Scaling_Cpp\<close> (\<^verbatim>\<open>nats_sidecar_scaling_cpp.py\<close>),
  \<^verbatim>\<open>Ctrl_Plane\<close> (\<^verbatim>\<open>measure_ctrl_plane_only.py\<close> and \<^verbatim>\<open>run_ctrl_bcast\<close>),
  \<^verbatim>\<open>Jetstream_Consumer\<close> (\<^verbatim>\<open>nats_sidecar_jetstream_consumer.py\<close>),
  \<^verbatim>\<open>N1_Repro\<close> (\<^verbatim>\<open>nats_sidecar_n1_jetstream_repro.py\<close>),
  \<^verbatim>\<open>Scaling_Ext\<close> (\<^verbatim>\<open>nats_sidecar_scaling_real_data_ext.py\<close>, with its \<^verbatim>\<open>MpstatCapture\<close>),
  \<^verbatim>\<open>Perf_Profile\<close> (\<^verbatim>\<open>nats_sidecar_perf_profile.py\<close>),
  \<^verbatim>\<open>Mutex_Profile\<close> (\<^verbatim>\<open>nats_sidecar_mutex_contention_profile.py\<close>),
  \<^verbatim>\<open>Sustained\<close>, \<^verbatim>\<open>Filtered\<close>, \<^verbatim>\<open>Multi_Queue\<close>, \<^verbatim>\<open>Parallel\<close>, \<^verbatim>\<open>Bmq_Bench\<close> (the \<^verbatim>\<open>*_bench.py\<close> of these
  names), \<^verbatim>\<open>Bench_Mains\<close> (their \<^verbatim>\<open>main\<close> programs over the worker pool),
  \<^verbatim>\<open>Shared_Counters\<close> (the processes of \<^verbatim>\<open>sustained_bench.py\<close> interleaved), \<^verbatim>\<open>Atomic_Counters\<close> (the
  specification of the counters as atomic additions, the locale \<open>refinement_map\<close> and its
  interpretation on the locked updates), \<^verbatim>\<open>Selectivity\<close>
  and \<^verbatim>\<open>Queue_Group\<close> (\<^verbatim>\<open>nats_selectivity.py\<close>, \<^verbatim>\<open>nats_queue_group.py\<close>), \<^verbatim>\<open>Js_Verify\<close> and \<^verbatim>\<open>Js_Bench\<close>
  (\<^verbatim>\<open>js_bench.py\<close>: its content check, and the whole program). \<^verbatim>\<open>Whole_Runs\<close> composes the runs of the
  sidecar scripts to their \<^verbatim>\<open>main\<close> programs. \<^verbatim>\<open>Command_Lines\<close> has the table of options of each script,
  interprets \<open>option_table\<close> on all of them, and makes the programs functions of their command line
  (\<open>sustained_program\<close>, \<open>sel_program\<close> and so on). \<^verbatim>\<open>Bench_Driver\<close> is the driver, a coroutine per mode
  and its \<^verbatim>\<open>main\<close>; \<^verbatim>\<open>Driver_Runs\<close> says when it exits and composes it with the scripts that read its
  output. A definition keeps the name of
  its function, with the script's prefix where two scripts have a function of the same name.

  \<^bold>\<open>What is proved.\<close>

    \<^item> Fleets: on every path of every script each logged process is terminated once and its log
      closed once, the server last; the stages of a run happen in order, and a result means that all
      of them happened. The same composes to whole programs, the captures of \<^verbatim>\<open>mpstat\<close> and \<^verbatim>\<open>perf\<close>
      included: whatever happens in a sweep, no process with a log file is left running. One process
      escapes: the subscriber, when the publish statement fails; and one log: that of \<^verbatim>\<open>perf\<close>, then.
    \<^item> Reports: what a script extracts is what the driver printed (for the report, the broadcast
      answer and the statistics lines of an instance), the verdicts are the driver's, and the rates
      are the quotients they claim to be.
    \<^item> The driver: it exits exactly if its subscription is accepted or its request answered, and else
      waits for ever; composed with the scripts, a run is marked correct exactly if the driver was
      delivered the expected number of messages, all with the expected value, and the counts of a
      broadcast are the answers that arrived.
    \<^item> Retry: bounded, with growing delays, returning only after a success.
    \<^item> Workers: producers, consumers and monitors return; what they return is what they counted; a
      throttled producer never exceeds its rate; a consumer stops only at the hard stop time; the
      content check counts exactly the wrong rows.
    \<^item> Shared state: in every interleaving no counter update is lost (64-bit wrap-around
      included), a sample never overstates the backlog, and the barrier gates all counting; the totals
      \<^verbatim>\<open>main\<close> prints are the final counters, and \<^verbatim>\<open>main\<close> waits for ever exactly if a worker died. The
      locked updates refine atomic additions, and the lock never keeps the workers from ending.
    \<^item> Whole benchmarks: the totals and the mismatches that a \<^verbatim>\<open>main\<close> program prints are what its workers
      added to the counters and found wrong, in whatever order they finish; it ends unless a worker
      raises. For the sustained benchmark the printed totals are the shared counters themselves,
      for every interleaving of the workers' own histories.
    \<^item> Command lines: what is spelled is what the script reads, with any unambiguous abbreviation, in
      any order; what is accepted is well typed; and from the two command lines of
      \<^verbatim>\<open>nats_selectivity.py\<close> to the verdict it prints.
    \<^item> Statistics: steady-state rates and backlogs balance, for one queue and for the aggregate of
      several; the span of the parallel run covers its workers; the partition covers the rows up to
      the remainder.
    \<^item> Content: the verification statement of \<^verbatim>\<open>bmq_bench.py\<close> decides multiset equality; the
      expected-match formulas count the matching subjects; sequence numbers read back from the
      payloads, so the queue-group check sees exactly the published numbers; the check of
      \<^verbatim>\<open>js_bench.py\<close> passes exactly if the drained payloads and the rows are the same multiset of
      contents, which rests on the round trip of JSON texts, and a reply of the server is read back
      from behind the log lines of the tool.

  \<^bold>\<open>Loops and bounds.\<close> Loops over lists and ranges are structural recursions. The loops that run
  until a time are the partial function \<open>while_prog\<close>, whose value is \<open>None\<close> when the loop does not
  end; that they end is proved from the hypotheses on the clock, without fuel. Python's integers are
  \<open>int\<close> or \<open>nat\<close>; the shared counters are 64-bit words. Floats are exact rationals with the values
  infinity and NaN: the rounding of binary floating point is not modelled, and the text of a float
  without a format specification is a parameter. The seconds a call takes are the environment's.

  \<^bold>\<open>What is not modelled.\<close> Of the command lines, the text of the help and of the usage errors (their
  kind and the exit status are modelled) and what a script does with an infinite duration or a
  negative count (\<open>Beyond\<close>); failures of \<^verbatim>\<open>multiprocessing\<close> itself to start a process or to open a queue; the scheduling of coroutines, replaced by the
  messages delivered so far as a function of the history; the evaluation of SQL, except for the
  verification statement; the limits of Python's \<^verbatim>\<open>json\<close> on nesting and on the length of integers;
  characters beyond Latin-1 in what the scripts print and read, except inside JSON values. Of the
  C++ driver, the messages that the connection's error callback writes, and the widths of its
  counters. The libraries it is written over (the NATS connection, the msgpack and JSON decoders)
  are the environment's. The C++ extension and the vendored serializer are outside: they are C++ over
  the BlazingMQ and PostgreSQL interfaces, and appear here as the answers of the environment.
\<close>

section \<open>The sustained benchmark and its counters\<close>

text \<open>
  The processes of a run of \<^verbatim>\<open>sustained_bench.py\<close>, interleaved: process \<open>i\<close> counts the amounts that
  worker \<open>i\<close> adds to its counter in its own history, the producers first.
\<close>

definition worker_roles :: "sustained_args \<Rightarrow> role list" where
  "worker_roles args = replicate (a_producers args) Producer @ replicate (a_consumers args) Consumer"

definition interleaves :: "pool \<Rightarrow> sustained_args \<Rightarrow> step_label list \<Rightarrow> bool" where
  "interleaves P args ls \<longleftrightarrow>
     (\<forall>i < a_producers args. begun i ls = observe (added_ev 0) (history (sustained_pub P args i)))
     \<and> (\<forall>i < a_consumers args. begun (a_producers args + i) ls = observe (added_ev 1) (history (sustained_con P args i)))"

lemma interleaved_totals:
  assumes "run_labels ls (world_init (worker_roles args)) = Some w" and "interleaves P args ls"
  shows "total Producer w = (\<Sum>i<a_producers args. added 0 (history (sustained_pub P args i)))"
    and "total Consumer w = (\<Sum>i<a_consumers args. added 1 (history (sustained_con P args i)))"
proof -
  let ?m = "a_producers args" and ?n = "a_consumers args"
  have split: "(\<Sum>i<m + n. f i) = (\<Sum>i<m. f i) + (\<Sum>i<n. f (m + i))" for f :: "nat \<Rightarrow> int" and m n
    by (induction n) simp_all
  have nth: "worker_roles args ! i = (if i < ?m then Producer else Consumer)" if "i < ?m + ?n" for i
    using that by (simp add: worker_roles_def nth_append)
  have len: "length (worker_roles args) = ?m + ?n" by (simp add: worker_roles_def)
  show "total Producer w = (\<Sum>i<?m. added 0 (history (sustained_pub P args i)))"
    unfolding total_begun [OF assms(1)] len split
    using assms(2) nth by (simp add: interleaves_def added_def)
  show "total Consumer w = (\<Sum>i<?n. added 1 (history (sustained_con P args i)))"
    unfolding total_begun [OF assms(1)] len split
    using assms(2) nth by (simp add: interleaves_def added_def)
qed

text \<open>
  C19. The totals of the sustained benchmark tell the truth: when it prints its report, and the steps
  in which its workers counted what their histories say are interleaved in any order the lock and
  the barrier allow, to the end of all of them, then the totals of the report are the values of
  the two shared counters, and the final backlog is their difference, as long as the counters
  did not wrap around.
\<close>

theorem report_states_counters:
  assumes "in_some_order (pub_order P) (map (sustained_pub P args) [0..<a_producers args])"
    and "in_some_order (con_order P) (map (sustained_con P args) [0..<a_consumers args])"
    and "sustained_main P args = Some (Inr printed)"
    and "run_labels ls (world_init (worker_roles args)) = Some w" and "interleaves P args ls" and "joined w"
    and "total Producer w < 2 ^ 63" and "total Consumer w < 2 ^ 63"
  shows "printed ! 1
    = ''total_published='' @ str_int (sint (cnt w Producer)) @ '' total_consumed='' @ str_int (sint (cnt w Consumer))
      @ '' final_backlog='' @ str_int (sint (cnt w Producer) - sint (cnt w Consumer))"
proof -
  have "sint (cnt w r) = total r w" for r
    using read_back reaches_inv [OF run_labels_reaches [OF assms(4)] init_inv] idle_counted [OF joined_idle [OF assms(6)], of r]
      assms(7,8) by (cases r) metis+
  then show ?thesis
    using assms(3) interleaved_totals [OF assms(4,5)]
      sustained_pubs.total_is_added [OF assms(1)] sustained_cons.total_is_added [OF assms(2)]
    by (auto simp: sustained_main_def run_pool_report [OF assms(1,2)] sustained_report_def Let_def)
qed

text \<open>Two producers that publish five rows each and a consumer that fetches five rows twice.\<close>

definition demo_interleaving :: "step_label list" where
  "demo_interleaving = [Arrive 2, Arrive 0, Arrive 1, ReleaseBarrier, Begin 1 5, Begin 0 5, Acquire 0, Load 0, Begin 2 5,
     Acquire 2, Store 0, Unlock 0, Acquire 1, Load 2, Load 1, Store 2, Unlock 2, Begin 2 5, Acquire 2, Store 1,
     Load 2, Store 2, Unlock 2, Unlock 1, Finish 1, Finish 2, Finish 0]"

lemma demo_amounts:
  "observe (added_ev 0) (history (sustained_pub demo_pool demo_args i)) = [5]"
  "observe (added_ev 1) (history (sustained_con demo_pool demo_args i)) = [5, 5]"
  by (simp_all add: history_def sustained_pub_def sustained_con_def demo_pool_def timeline_at_def worker_run
      observe_def added_ev_def)

theorem report_states_counters_witness:
  "\<exists>w printed. run_labels demo_interleaving (world_init (worker_roles demo_args)) = Some w
     \<and> sint (cnt w Producer) = 10 \<and> sustained_main demo_pool demo_args = Some (Inr printed)
     \<and> printed ! 1 = ''total_published=10 total_consumed=10 final_backlog=0''"
proof -
  have sizes: "a_producers demo_args = 2" "a_consumers demo_args = 1" by (simp_all add: demo_args_def)
  obtain w where w: "run_labels demo_interleaving (world_init (worker_roles demo_args)) = Some w" "joined w"
    "total Producer w = 10" "total Consumer w = 10" "sint (cnt w Producer) = 10" "sint (cnt w Consumer) = 10"
    by (simp add: demo_interleaving_def worker_roles_def sizes numeral_2_eq_2 world_init_def step_defs joined_def total_def of_role_def)
  obtain printed where printed: "sustained_main demo_pool demo_args = Some (Inr printed)"
    using demo_pool_runs(3) demo_pool_added(3,4)
    by (auto simp: sustained_main_def run_pool_report [OF demo_in_order [folded sizes]] all_returned_def list_all_iff broken_off_def)
  have fits: "interleaves demo_pool demo_args demo_interleaving"
    by (simp add: interleaves_def sizes demo_amounts demo_amounts(2) [unfolded One_nat_def] demo_interleaving_def begun_def
        numeral_2_eq_2 less_Suc_eq)
  have "str_int 10 = ''10''" "str_int 0 = ''0''" by code_simp+
  with report_states_counters [OF demo_in_order [folded sizes] printed w(1) fits w(2)] w printed show ?thesis by auto
qed

end
